(* ===== verification/Prelude.thy ===== *)
theory Prelude
  imports Main "HOL-Library.Word" "HOL-Library.Multiset"
begin

text \<open>
  Shared vocabulary of the development: the machine types of the 64 bit build, object
  references with their \<open>nil\<close>, and the generic facts on lists and words that several
  components use, and the contract of a component with an invariant as a locale.  The collection
  \<open>wf_intros\<close> gathers the facts that an operation keeps a well-formedness predicate.
\<close>

unbundle bit_operations_syntax

named_theorems wf_intros "operations keep the well-formedness predicates"

section \<open>Machine types and object references\<close>

text \<open>\<open>NSUInteger\<close> is \<open>uintptr_t\<close>, 64 bits wide on the modelled platform; \<open>unsigned int\<close> has 32.\<close>

type_synonym NSUInteger = "64 word"
type_synonym uint32 = "32 word"

text \<open>An \<open>id\<close> is the address of an object; \<open>nil\<close> is the null pointer.\<close>

type_synonym oid = nat

text \<open>
  Where integers travel in pointers or pointers are compared with addresses, a reference is the 64
  bit word itself, with 0 for the null pointer.
\<close>

type_synonym ref = "64 word"

definition nil :: oid where
  "nil = 0"

text \<open>\<open>sizeof( intptr_t)\<close> and \<open>sizeof( id)\<close> on the modelled platform.\<close>

definition sizeof_pointer :: nat where
  "sizeof_pointer = 8"

text \<open>A call either comes back with a result or aborts the process.\<close>

datatype 'a outcome = Done 'a | Abort

section \<open>Lists\<close>

lemma list_update_last [simp]:
  "xs \<noteq> [] \<Longrightarrow> xs[length xs - 1 := y] = butlast xs @ [y]"
  by (induction xs) (auto split: nat.splits simp: nth_Cons')

lemma mset_snoc_rev: "mset (rev xs @ [x]) = add_mset x (mset xs)"
  by simp

lemma count_list_filter_neq:
  "x \<noteq> y \<Longrightarrow> count_list (filter (\<lambda>z. z \<noteq> y) xs) x = count_list xs x"
  by (induction xs) auto

lemma count_list_map_hole:
  "x \<noteq> h \<Longrightarrow> count_list (map (\<lambda>z. if z \<in> S then h else z) xs) x = (if x \<in> S then 0 else count_list xs x)"
  by (induction xs) auto

lemma count_list_pos_iff: "0 < count_list xs x \<longleftrightarrow> x \<in> set xs"
  by (metis count_list_0_iff gr0I less_numeral_extra(3))

lemma count_list_concat_map:
  "count_list (concat (map f xs)) x = (\<Sum>y \<leftarrow> xs. count_list (f y) x)"
  by (induction xs) auto

lemma sum_list_butlast_last:
  "xs \<noteq> [] \<Longrightarrow> (\<Sum>x \<leftarrow> butlast xs. f x) + f (last xs) = (\<Sum>x \<leftarrow> xs. (f x :: 'a :: comm_monoid_add))"
proof -
  assume "xs \<noteq> []"
  then have "(\<Sum>x \<leftarrow> xs. f x) = (\<Sum>x \<leftarrow> butlast xs @ [last xs]. f x)"
    by simp
  also have "\<dots> = (\<Sum>x \<leftarrow> butlast xs. f x) + f (last xs)"
    by (simp only: map_append sum_list_append list.map sum_list_simps add_0_right)
  finally show ?thesis
    by simp
qed

section \<open>Runs of a component\<close>

text \<open>
  A component is used through calls.  \<open>step call s\<close> is the state after the call, \<open>None\<close> when the
  call does not return (it aborts the process or never ends); \<open>run\<close> performs a list of calls.
\<close>

fun run :: "('c \<Rightarrow> 's \<Rightarrow> 's option) \<Rightarrow> 'c list \<Rightarrow> 's \<Rightarrow> 's option" where
  "run step [] s = Some s"
| "run step (x # xs) s = (case step x s of None \<Rightarrow> None | Some s' \<Rightarrow> run step xs s')"

lemma run_append:
  "run step (xs @ ys) s = (case run step xs s of None \<Rightarrow> None | Some s' \<Rightarrow> run step ys s')"
  by (induction xs arbitrary: s) (auto split: option.splits)

text \<open>
  The contract of a component with an invariant: every admissible call keeps it.  What a client
  may rely on after any sequence of calls is proved once for all components.  In a legal run
  every call is made in a state where it is admissible.
\<close>

fun legal_run :: "('c \<Rightarrow> 's \<Rightarrow> 's option) \<Rightarrow> ('c \<Rightarrow> 's \<Rightarrow> bool) \<Rightarrow> 'c list \<Rightarrow> 's \<Rightarrow> bool" where
  "legal_run step legal [] s = True"
| "legal_run step legal (x # xs) s =
     (legal x s \<and> (case step x s of None \<Rightarrow> True | Some s' \<Rightarrow> legal_run step legal xs s'))"

locale kept_invariant =
  fixes step :: "'c \<Rightarrow> 's \<Rightarrow> 's option"
    and legal :: "'c \<Rightarrow> 's \<Rightarrow> bool"
    and inv :: "'s \<Rightarrow> bool"
  assumes step_inv: "inv s \<Longrightarrow> legal x s \<Longrightarrow> step x s = Some s' \<Longrightarrow> inv s'"
begin

lemma run_inv: "inv s \<Longrightarrow> legal_run step legal xs s \<Longrightarrow> run step xs s = Some s' \<Longrightarrow> inv s'"
  by (induction xs arbitrary: s) (auto split: option.splits dest: step_inv)

end

text \<open>A component whose calls also all return: no run can get stuck.\<close>

locale live_invariant = kept_invariant +
  assumes step_returns: "inv s \<Longrightarrow> legal x s \<Longrightarrow> \<exists>s'. step x s = Some s'"
begin

lemma run_returns: "inv s \<Longrightarrow> legal_run step legal xs s \<Longrightarrow> \<exists>s'. run step xs s = Some s' \<and> inv s'"
proof (induction xs arbitrary: s)
  case (Cons x xs)
  from Cons.prems obtain s' where "step x s = Some s'" "legal_run step legal xs s'" "inv s'"
    using step_returns step_inv by fastforce
  then show ?case using Cons.IH by auto
qed simp

end

section \<open>Systems of steps\<close>

text \<open>
  Threads that run at once are modelled by a relation between states, one step of one of them.  What can be reached, and
  the contract of an invariant: it holds at the beginning, and every step keeps it.  The second locale is
  for an invariant that needs another one to be kept.
\<close>

inductive reached :: "('s \<Rightarrow> bool) \<Rightarrow> ('s \<Rightarrow> 's \<Rightarrow> bool) \<Rightarrow> 's \<Rightarrow> bool" for initially stepping where
  at_start: "initially s \<Longrightarrow> reached initially stepping s"
| next_step: "reached initially stepping s \<Longrightarrow> stepping s s' \<Longrightarrow> reached initially stepping s'"

lemma reached_to: "reached i st s \<Longrightarrow> st s s'' \<Longrightarrow> s'' = s' \<Longrightarrow> reached i st s'"
  using reached.next_step by metis

locale stable_invariant =
  fixes initially :: "'s \<Rightarrow> bool"
    and stepping :: "'s \<Rightarrow> 's \<Rightarrow> bool"
    and invariant :: "'s \<Rightarrow> bool"
  assumes start_invariant: "initially s \<Longrightarrow> invariant s"
    and step_invariant: "invariant s \<Longrightarrow> stepping s s' \<Longrightarrow> invariant s'"
begin

lemma reached_invariant: "reached initially stepping s \<Longrightarrow> invariant s"
  by (induction rule: reached.induct) (auto intro: start_invariant step_invariant)

end

locale strengthened_invariant = stable_invariant +
  fixes further :: "'s \<Rightarrow> bool"
  assumes start_further: "initially s \<Longrightarrow> further s"
    and step_further: "invariant s \<Longrightarrow> further s \<Longrightarrow> stepping s s' \<Longrightarrow> further s'"
begin

lemma reached_further: "reached initially stepping s \<Longrightarrow> further s"
  by (induction rule: reached.induct) (auto intro: start_further step_further reached_invariant)

end

section \<open>Logs\<close>

text \<open>How often a log has an event that \<open>f\<close> attributes to \<open>x\<close>, such as the retains of an object.\<close>

definition times :: "('e \<Rightarrow> 'x option) \<Rightarrow> 'e list \<Rightarrow> 'x \<Rightarrow> nat" where
  "times f es x = length (filter (\<lambda>e. f e = Some x) es)"

lemma times_simps [simp]:
  "times f [] x = 0"
  "times f (e # es) x = (if f e = Some x then 1 else 0) + times f es x"
  "times f (es @ es') x = times f es x + times f es' x"
  by (simp_all add: times_def)

section \<open>Words\<close>

lemma of_nat_word_eq_0_iff:
  "n < 2 ^ LENGTH('a) \<Longrightarrow> (of_nat n :: 'a::len word) = 0 \<longleftrightarrow> n = 0"
  by (auto simp: word_of_nat_eq_0_iff dest: dvd_imp_le)

lemma of_nat_word_nonzero_pos:
  "(of_nat n :: 'a::len word) \<noteq> 0 \<Longrightarrow> 0 < n"
  by (cases n) auto

lemma unat_of_nat_small:
  "n < 2 ^ LENGTH('a) \<Longrightarrow> unat (of_nat n :: 'a::len word) = n"
  by (simp add: unat_of_nat take_bit_nat_eq_self)

lemma unat_less_64: "unat (w :: 64 word) < 2 ^ 64"
proof -
  have "unat w < 2 ^ LENGTH(64)" by (rule unsigned_less)
  then show ?thesis by simp
qed

text \<open>Truncation of a sum computed in a wider type, the C conversions between integer types.\<close>

lemma ucast_of_nat_down:
  "LENGTH('a) \<le> LENGTH('b) \<Longrightarrow> ucast (of_nat k :: 'b::len word) = (of_nat k :: 'a::len word)"
  by (simp add: unsigned_of_nat word_of_nat_eq_iff take_bit_take_bit min_def)

lemma ucast_add_down:
  assumes "LENGTH('a) \<le> LENGTH('b)"
  shows "ucast (ucast (n :: 'a::len word) + of_nat k :: 'b::len word) = n + of_nat k"
proof -
  obtain m where m: "n = of_nat m" "m < 2 ^ LENGTH('a)"
    by (rule that [of "unat n"]) simp_all
  then have "m < 2 ^ LENGTH('b)"
    using assms by (meson less_le_trans one_le_numeral power_increasing)
  then have "(ucast n :: 'b word) = of_nat m"
    using m by (simp add: unsigned_of_nat take_bit_nat_eq_self)
  then show ?thesis
    using m ucast_of_nat_down [OF assms, of "m + k"] by simp
qed

lemma unat_ucast_up:
  assumes "LENGTH('a) \<le> LENGTH('b)"
  shows "unat (ucast (w :: 'a::len word) :: 'b::len word) = unat w"
proof -
  have "unat w < 2 ^ LENGTH('a)" by (rule unsigned_less)
  also have "(2 :: nat) ^ LENGTH('a) \<le> 2 ^ LENGTH('b)"
    by (rule power_increasing [OF assms]) simp
  finally show ?thesis
    by (simp add: unsigned_ucast_eq take_bit_nat_eq_self)
qed

section \<open>Alignment\<close>

text \<open>The first number from \<open>p\<close> on that \<open>n\<close> divides.\<close>

definition padded :: "nat \<Rightarrow> nat \<Rightarrow> nat" where
  "padded p n = p + (n - p mod n) mod n"

lemma padded_eq:
  assumes "0 < n"
  shows "padded p n = (p + n - 1) div n * n"
proof -
  obtain q r where p: "p = q * n + r" and r: "r < n"
    using assms by (metis div_mult_mod_eq mod_less_divisor)
  have mod: "p mod n = r" using p r by simp
  show ?thesis
  proof (cases "r = 0")
    case True
    have "(q * n + (n - 1)) div n = q" using assms by (subst div_mult_self3) simp_all
    moreover have "p + n - 1 = q * n + (n - 1)" using p True assms by simp
    ultimately show ?thesis using p mod True by (simp add: padded_def)
  next
    case False
    have "((q + 1) * n + (r - 1)) div n = q + 1" using r assms by (subst div_mult_self3) simp_all
    moreover have "p + n - 1 = (q + 1) * n + (r - 1)" using p False by simp
    moreover have "padded p n = (q + 1) * n" using mod p r False by (simp add: padded_def)
    ultimately show ?thesis by simp
  qed
qed

end
