(* ===== verification/PoolArray.thy ===== *)
theory PoolArray
  imports Prelude
begin

text \<open>
  The pointer arrays in which an autorelease pool stores its objects
  (\<open>src/mulle-objc-autoreleasepointerarray-private.h\<close>).

  A pool owns a chain of fixed size arrays linked by their \<open>previous\<close> field.  The chain is
  the list of its arrays, oldest first, so \<open>array->previous\<close> of the array at position \<open>i\<close> is
  the one at position \<open>i - 1\<close>, \<open>pool->_storage\<close> is the last one, and the null pointer is the
  empty list.  Of an array, the list \<open>objects\<close> holds the slots below \<open>used\<close>, so \<open>used\<close> is its
  length; the slots from \<open>used\<close> on are never read by the code.  \<open>acount\<close> is the field
  \<open>count\<close>, kept as a machine word because the code can decrement it below zero.  An early
  release leaves \<open>nil\<close> in a slot (a hole).
\<close>

section \<open>The array and its capacity\<close>

definition twopages_less_autorelease_pool :: nat where
  "twopages_less_autorelease_pool = 4096 * 2 - 4 * sizeof_pointer"

definition n_objects :: nat where
  "n_objects = (twopages_less_autorelease_pool - 2 * sizeof_pointer) div sizeof_pointer"

lemma n_objects_eq: "n_objects = 1018"
  by (simp add: n_objects_def twopages_less_autorelease_pool_def sizeof_pointer_def)

lemma n_objects_pos [simp, intro]: "0 < n_objects"
  by (simp add: n_objects_eq)

text \<open>
  \<open>heap_array\<close> tells an array that was allocated with \<open>mulle_malloc\<close> from the one that lies
  behind the instance variables of its pool (\<open>p != staticStorage\<close> in the code).
\<close>

record parray =
  objects :: "oid list"
  acount :: NSUInteger
  heap_array :: bool

type_synonym storage = "parray list"

abbreviation used :: "parray \<Rightarrow> nat" where
  "used a \<equiv> length (objects a)"

definition parray_init :: "bool \<Rightarrow> parray" where
  "parray_init heap = \<lparr>objects = [], acount = 0, heap_array = heap\<rparr>"

definition parray_create :: "storage \<Rightarrow> storage" where
  "parray_create previous = previous @ [parray_init True]"

definition parray_is_full :: "parray \<Rightarrow> bool" where
  "parray_is_full a \<longleftrightarrow> n_objects \<le> used a"

definition parray_can_add :: "storage \<Rightarrow> bool" where
  "parray_can_add st \<longleftrightarrow> st \<noteq> [] \<and> \<not> parray_is_full (last st)"

definition parray_space_left :: "storage \<Rightarrow> nat" where
  "parray_space_left st = (if st = [] then 0 else n_objects - used (last st))"

definition parray_add :: "parray \<Rightarrow> oid \<Rightarrow> parray" where
  "parray_add a p = a\<lparr>objects := objects a @ [p], acount := acount a + 1\<rparr>"

section \<open>Queries\<close>

text \<open>The loops run from the newest array and slot to the oldest and leave at the first hit.\<close>

definition parray_contains :: "storage \<Rightarrow> oid \<Rightarrow> bool" where
  "parray_contains st p \<longleftrightarrow> list_ex (\<lambda>a. list_ex (\<lambda>q. q = p) (rev (objects a))) (rev st)"

definition parray_count_object :: "storage \<Rightarrow> oid \<Rightarrow> uint32" where
  "parray_count_object st p =
     fold (\<lambda>a. fold (\<lambda>q n. if q = p then n + 1 else n) (rev (objects a))) (rev st) 0"

definition parray_count :: "storage \<Rightarrow> uint32" where
  "parray_count st = fold (\<lambda>a n. ucast (ucast n + acount a)) (rev st) 0"

text \<open>
  The debug walk calls \<open>callback\<close> on every object that is not a hole, from the newest array to
  the oldest, slots in ascending order.  The \<open>break\<close> leaves only the inner loop.
\<close>

fun walk_slots :: "(oid \<Rightarrow> 'u \<Rightarrow> bool \<times> 'u) \<Rightarrow> oid list \<Rightarrow> 'u \<Rightarrow> 'u" where
  "walk_slots callback [] u = u"
| "walk_slots callback (obj # rest) u =
     (if obj = nil then walk_slots callback rest u
      else (case callback obj u of (ok, u') \<Rightarrow> if ok then walk_slots callback rest u' else u'))"

definition parray_walk_objects :: "(oid \<Rightarrow> 'u \<Rightarrow> bool \<times> 'u) \<Rightarrow> storage \<Rightarrow> 'u \<Rightarrow> 'u" where
  "parray_walk_objects callback st u = fold (\<lambda>a. walk_slots callback (objects a)) (rev st) u"

section \<open>Well-formedness and contents\<close>

text \<open>
  No array holds more than \<open>n_objects\<close> slots, every array that has a successor is full, and only
  the oldest array can be the pool's own memory.
\<close>

definition storage_ok :: "storage \<Rightarrow> bool" where
  "storage_ok st \<longleftrightarrow>
     (\<forall>a \<in> set st. used a \<le> n_objects) \<and> (\<forall>a \<in> set (butlast st). used a = n_objects)
       \<and> (\<forall>a \<in> set (tl st). heap_array a)"

definition contents :: "storage \<Rightarrow> oid list" where
  "contents st = concat (map objects st)"

definition heap_arrays :: "storage \<Rightarrow> nat" where
  "heap_arrays st = length (filter heap_array st)"

lemma contents_simps [simp]:
  "contents [] = []" "contents (a # st) = objects a @ contents st"
  "contents (st @ st') = contents st @ contents st'"
  by (simp_all add: contents_def)

lemma heap_arrays_simps [simp]:
  "heap_arrays [] = 0" "heap_arrays (a # st) = (if heap_array a then 1 else 0) + heap_arrays st"
  "heap_arrays (st @ st') = heap_arrays st + heap_arrays st'"
  by (simp_all add: heap_arrays_def)

lemma parray_init_simps [simp]:
  "objects (parray_init h) = []" "acount (parray_init h) = 0" "heap_array (parray_init h) = h"
  by (simp_all add: parray_init_def)

lemma parray_add_simps [simp]:
  "objects (parray_add a p) = objects a @ [p]" "acount (parray_add a p) = acount a + 1"
  "heap_array (parray_add a p) = heap_array a"
  by (simp_all add: parray_add_def)

lemma storage_ok_Nil [simp]: "storage_ok []"
  by (simp add: storage_ok_def)

lemma storage_ok_static [simp]: "storage_ok [parray_init h]"
  by (simp add: storage_ok_def)

lemma storage_ok_last: "storage_ok st \<Longrightarrow> st \<noteq> [] \<Longrightarrow> used (last st) \<le> n_objects"
  by (simp add: storage_ok_def)

lemma storage_ok_create:
  assumes "storage_ok st" and "\<not> parray_can_add st"
  shows "storage_ok (parray_create st)"
proof (cases "st = []")
  case True
  then show ?thesis by (simp add: parray_create_def)
next
  case False
  then have "set st = insert (last st) (set (butlast st))"
    by (metis append_butlast_last_id list.simps(15) rotate1.simps(2) set_rotate1)
  moreover have "used (last st) = n_objects"
    using assms False by (simp add: storage_ok_def parray_can_add_def parray_is_full_def le_antisym)
  ultimately show ?thesis
    using assms False by (auto simp: storage_ok_def parray_create_def)
qed

lemma parray_can_add_create [simp]: "parray_can_add (parray_create st)"
  by (simp add: parray_can_add_def parray_create_def parray_is_full_def n_objects_eq)

lemma parray_create_simps [simp]:
  "contents (parray_create st) = contents st" "heap_arrays (parray_create st) = Suc (heap_arrays st)"
  "parray_create st \<noteq> []" "last (parray_create st) = parray_init True" "butlast (parray_create st) = st"
  by (simp_all add: parray_create_def)

text \<open>Replacing the newest array by one with more slots, the shape of every insertion.\<close>

lemma storage_ok_replace_last:
  assumes "storage_ok st" and "st \<noteq> []" and "used b \<le> n_objects" and "heap_array b = heap_array (last st)"
  shows "storage_ok (butlast st @ [b])"
proof -
  have "set (tl (butlast st @ [b])) \<subseteq> insert b (set (tl st))"
    using assms(2) by (cases st) (auto dest: in_set_butlastD)
  moreover have "b \<in> set (tl (butlast st @ [b])) \<Longrightarrow> butlast st \<noteq> [] \<or> b \<in> {}"
    by (cases "butlast st") auto
  moreover have "butlast st \<noteq> [] \<Longrightarrow> last st \<in> set (tl st)"
    using assms(2) by (cases st) auto
  moreover have "\<forall>a \<in> set (butlast st). used a \<le> n_objects"
    using assms(1) by (auto simp: storage_ok_def dest: in_set_butlastD)
  ultimately show ?thesis
    using assms by (fastforce simp: storage_ok_def)
qed

lemma contents_split_last: "st \<noteq> [] \<Longrightarrow> contents st = contents (butlast st) @ objects (last st)"
  by (metis append_Nil2 append_butlast_last_id contents_simps)

lemma heap_arrays_split_last:
  "st \<noteq> [] \<Longrightarrow> heap_arrays st = heap_arrays (butlast st) + (if heap_array (last st) then 1 else 0)"
  by (metis add_0_right append_butlast_last_id heap_arrays_simps)

section \<open>What the queries compute\<close>

lemma parray_contains_iff: "parray_contains st p \<longleftrightarrow> p \<in> set (contents st)"
  by (auto simp: parray_contains_def list_ex_iff contents_def)

lemma fold_count_slots:
  "fold (\<lambda>q n. if q = p then n + 1 else n) qs (n :: 'a::comm_ring_1) = n + of_nat (count_list qs p)"
  by (induction qs arbitrary: n) auto

lemma count_list_rev [simp]: "count_list (rev xs) x = count_list xs x"
  by (induction xs) auto

lemma fold_count_arrays:
  "fold (\<lambda>a. fold (\<lambda>q n. if q = p then n + 1 else n) (rev (objects a))) st (n :: 'a::comm_ring_1)
     = n + of_nat (count_list (contents st) p)"
  by (induction st arbitrary: n) (auto simp: fold_count_slots)

lemma count_list_contents_rev [simp]: "count_list (contents (rev st)) p = count_list (contents st) p"
  by (induction st) auto

lemma parray_count_object_eq: "parray_count_object st p = of_nat (count_list (contents st) p)"
  by (simp add: parray_count_object_def fold_count_arrays)

text \<open>
  \<open>count\<close> is exact as long as it is the number of slots that are not holes, which insertion of
  one object and an early release maintain.
\<close>

definition counted :: "parray \<Rightarrow> bool" where
  "counted a \<longleftrightarrow> acount a = of_nat (length (filter (\<lambda>p. p \<noteq> nil) (objects a)))"

lemma counted_init [simp]: "counted (parray_init h)"
  by (simp add: counted_def)

lemma counted_add: "counted a \<Longrightarrow> p \<noteq> nil \<Longrightarrow> counted (parray_add a p)"
  by (simp add: counted_def)

lemma fold_count_eq:
  "(\<forall>a \<in> set st. counted a) \<Longrightarrow>
   fold (\<lambda>a n. ucast (ucast n + acount a :: NSUInteger)) st (n :: uint32) =
     n + of_nat (length (filter (\<lambda>p. p \<noteq> nil) (contents st)))"
proof (induction st arbitrary: n)
  case (Cons a st)
  have "ucast (ucast n + of_nat k :: NSUInteger) = n + (of_nat k :: uint32)" for k
    by (rule ucast_add_down) simp
  moreover have "acount a = of_nat (length (filter (\<lambda>p. p \<noteq> nil) (objects a)))"
    using Cons.prems by (simp add: counted_def)
  ultimately show ?case
    using Cons.IH Cons.prems by (simp add: add.assoc)
qed simp

lemma parray_count_eq:
  "(\<forall>a \<in> set st. counted a) \<Longrightarrow> parray_count st = of_nat (length (filter (\<lambda>p. p \<noteq> nil) (contents st)))"
proof -
  assume "\<forall>a \<in> set st. counted a"
  then have "\<forall>a \<in> set (rev st). counted a" by simp
  moreover have "length (filter (\<lambda>p. p \<noteq> nil) (contents (rev st))) = length (filter (\<lambda>p. p \<noteq> nil) (contents st))"
    by (induction st) auto
  ultimately show ?thesis
    by (simp add: parray_count_def fold_count_eq)
qed

end
