(* ===== verification/AutoreleasePool.thy ===== *)
theory AutoreleasePool
  imports PoolArray
begin

text \<open>
  The autorelease pools of a thread (\<open>src/class/NSAutoreleasePool.m\<close>), built on the pointer
  arrays of theory \<open>PoolArray\<close>.

  \<open>struct _mulle_objc_poolconfiguration\<close> is the record \<open>poolconf\<close>.  The pools are linked
  through \<open>config->tail\<close> and \<open>_owner\<close>: the list \<open>pools\<close> holds them innermost first, its head
  is \<open>config->tail\<close> and the \<open>_owner\<close> of a pool is the next element.  A pool is identified by its
  address \<open>paddr\<close>.

  What the code calls and the repository does not contain is the record \<open>world\<close>: the pointer
  map of the debug option (\<open>mulle_map_get\<close>, \<open>mulle_map_set\<close>, \<open>mulle_map_remove\<close>), the test
  for a constant object, and \<open>react\<close>, the user code that runs while a \<open>-release\<close> is delivered:
  \<open>react W sent o\<close> lists the objects which the release of \<open>o\<close> autoreleases in turn, when the
  releases \<open>sent\<close> went before.  Three fields of \<open>poolconf\<close> are ghost state that the code does
  not have and never reads: \<open>sent\<close> records the delivered releases in order, \<open>added\<close> the
  objects that entered a pool, \<open>heap_live\<close> counts the arrays allocated and not freed.
  The build without \<open>DEBUG\<close> and assertions is modelled; tracing output is not.
\<close>

section \<open>State\<close>

record 'm mapops =
  mget :: "'m \<Rightarrow> oid \<Rightarrow> NSUInteger"
  mput :: "'m \<Rightarrow> oid \<Rightarrow> NSUInteger \<Rightarrow> 'm"
  mremove :: "'m \<Rightarrow> oid \<Rightarrow> 'm"

record 'm world =
  mops :: "'m mapops"
  is_constant :: "oid \<Rightarrow> bool"
  react :: "oid list \<Rightarrow> oid \<Rightarrow> oid list"

record pool =
  paddr :: nat
  storage :: "storage"

record 'm poolconf =
  pools :: "pool list"
  releasing :: bool
  object_map :: "'m option"
  sent :: "oid list"
  added :: "oid list"
  heap_live :: nat

text \<open>The documented behaviour of the pointer map: a missing key reads as 0.\<close>

definition map_laws :: "'m mapops \<Rightarrow> bool" where
  "map_laws M \<longleftrightarrow>
     (\<forall>m k v k'. mget M (mput M m k v) k' = (if k' = k then v else mget M m k')) \<and>
     (\<forall>m k k'. mget M (mremove M m k) k' = (if k' = k then 0 else mget M m k'))"

section \<open>Adding objects\<close>

text \<open>\<open>addObject\<close>: a new array when the newest one is full or missing, then the object.\<close>

definition addObject :: "oid \<Rightarrow> 'm poolconf \<Rightarrow> 'm poolconf" where
  "addObject p c =
     (case pools c of
        [] \<Rightarrow> c
      | q # qs \<Rightarrow>
          (let fresh = \<not> parray_can_add (storage q);
               st = (if fresh then parray_create (storage q) else storage q)
           in c\<lparr>pools := q\<lparr>storage := butlast st @ [parray_add (last st) p]\<rparr> # qs,
                added := added c @ [p],
                heap_live := heap_live c + (if fresh then 1 else 0)\<rparr>))"

text \<open>
  The copy loop of \<open>addObjects\<close>: as many objects as fit into the newest array, then a new
  array.  The block copy moves \<open>used\<close> but not \<open>count\<close>, as the code does.  The second
  component counts the arrays it creates.
\<close>

definition append_block :: "parray \<Rightarrow> oid list \<Rightarrow> parray" where
  "append_block a ps = a\<lparr>objects := objects a @ ps\<rparr>"

function add_blocks :: "oid list \<Rightarrow> storage \<Rightarrow> storage \<times> nat" where
  "add_blocks ps st =
     (if ps = [] then (st, 0)
      else
        (let fresh = (parray_space_left st = 0);
             st' = (if fresh then parray_create st else st);
             space = (if fresh then n_objects else parray_space_left st);
             amount = (if length ps < space then length ps else space);
             (st'', k) = add_blocks (drop amount ps)
                           (butlast st' @ [append_block (last st') (take amount ps)])
         in (st'', (if fresh then 1 else 0) + k)))"
  by pat_completeness auto
termination
  by (relation "measure (\<lambda>(ps, st). length ps)") (auto simp: Let_def n_objects_eq)

declare add_blocks.simps [simp del]

definition addObjects :: "oid list \<Rightarrow> 'm poolconf \<Rightarrow> 'm poolconf" where
  "addObjects ps c =
     (case pools c of
        [] \<Rightarrow> c
      | q # qs \<Rightarrow>
          (case add_blocks ps (storage q) of
             (st, k) \<Rightarrow> c\<lparr>pools := q\<lparr>storage := st\<rparr> # qs, added := added c @ ps,
                          heap_live := heap_live c + k\<rparr>))"

section \<open>Autorelease\<close>

text \<open>One more occurrence in the debug map.\<close>

definition map_incr :: "'m mapops \<Rightarrow> oid \<Rightarrow> 'm \<Rightarrow> 'm" where
  "map_incr M p m = mput M m p (mget M m p + 1)"

definition autoreleaseObject :: "'m world \<Rightarrow> oid \<Rightarrow> 'm poolconf \<Rightarrow> 'm poolconf" where
  "autoreleaseObject W p c =
     (if p \<noteq> nil \<and> is_constant W p then c
      else if pools c = [] then c
      else addObject p (c\<lparr>object_map := map_option (map_incr (mops W) p) (object_map c)\<rparr>))"

text \<open>
  \<open>_autoreleaseObjects\<close> reads the objects from memory: \<open>mem i\<close> is the object at byte offset
  \<open>i\<close> of the buffer (\<open>objects\<close> null is \<open>None\<close>), neighbours are \<open>step\<close> bytes apart.  The map is
  fed by \<open>++p\<close> on an \<open>id *\<close>, so it advances by the size of a pointer and not by \<open>step\<close>.
\<close>

definition strided :: "(nat \<Rightarrow> oid) \<Rightarrow> nat \<Rightarrow> nat \<Rightarrow> oid list" where
  "strided mem n step = map (\<lambda>j. mem (j * step)) [0..<n]"

definition autoreleaseObjects ::
    "'m world \<Rightarrow> (nat \<Rightarrow> oid) option \<Rightarrow> nat \<Rightarrow> nat \<Rightarrow> 'm poolconf \<Rightarrow> 'm poolconf" where
  "autoreleaseObjects W buffer n step c =
     (case buffer of
        None \<Rightarrow> c
      | Some mem \<Rightarrow>
          if n = 0 then c
          else if pools c = [] then c
          else addObjects (strided mem n step)
                 (c\<lparr>object_map := map_option
                      (fold (map_incr (mops W)) (strided mem n sizeof_pointer)) (object_map c)\<rparr>))"

section \<open>Releasing\<close>

definition map_release :: "'m mapops \<Rightarrow> oid \<Rightarrow> 'm \<Rightarrow> 'm" where
  "map_release M p m =
     (let v = mget M m p - 1 in if v = 0 then mremove M m p else mput M m p v)"

text \<open>A \<open>-release\<close> is delivered; the user code it runs may autorelease other objects.\<close>

definition send_release :: "'m world \<Rightarrow> oid \<Rightarrow> 'm poolconf \<Rightarrow> 'm poolconf" where
  "send_release W p c = fold (autoreleaseObject W) (react W (sent c) p) (c\<lparr>sent := sent c @ [p]\<rparr>)"

definition release_one :: "'m world \<Rightarrow> oid \<Rightarrow> 'm poolconf \<Rightarrow> 'm poolconf" where
  "release_one W p c =
     send_release W p (c\<lparr>object_map := map_option (map_release (mops W) p) (object_map c)\<rparr>)"

text \<open>The wipe of a detached chain, newest array and newest slot first; holes are skipped.\<close>

definition release_slots :: "'m world \<Rightarrow> oid list \<Rightarrow> 'm poolconf \<Rightarrow> 'm poolconf" where
  "release_slots W ps c = fold (\<lambda>p c. if p = nil then c else release_one W p c) (rev ps) c"

definition release_array :: "'m world \<Rightarrow> parray \<Rightarrow> 'm poolconf \<Rightarrow> 'm poolconf" where
  "release_array W a c =
     (let c' = release_slots W (objects a) c
      in if heap_array a then c'\<lparr>heap_live := heap_live c' - 1\<rparr> else c')"

definition release_and_free :: "'m world \<Rightarrow> storage \<Rightarrow> 'm poolconf \<Rightarrow> 'm poolconf" where
  "release_and_free W st c = fold (release_array W) (rev st) c"

definition find_pool :: "nat \<Rightarrow> 'm poolconf \<Rightarrow> pool option" where
  "find_pool a c = find (\<lambda>q. paddr q = a) (pools c)"

definition upd_pool :: "nat \<Rightarrow> (storage \<Rightarrow> storage) \<Rightarrow> 'm poolconf \<Rightarrow> 'm poolconf" where
  "upd_pool a f c =
     c\<lparr>pools := map (\<lambda>q. if paddr q = a then q\<lparr>storage := f (storage q)\<rparr> else q) (pools c)\<rparr>"

text \<open>
  \<open>releaseAllObjectsInPool\<close>: detach the chain, wipe it, and again as long as the releases have
  put new objects into the pool.  \<open>None\<close> means that this never ends.
\<close>

partial_function (option) releaseAllObjectsInPool ::
    "'m world \<Rightarrow> nat \<Rightarrow> 'm poolconf \<Rightarrow> 'm poolconf option" where
  "releaseAllObjectsInPool W a c =
     (case find_pool a c of
        None \<Rightarrow> Some c
      | Some q \<Rightarrow>
          if storage q = [] then Some c
          else releaseAllObjectsInPool W a
                 (release_and_free W (storage q) (upd_pool a (\<lambda>_. []) c)))"

section \<open>Push, pop and dealloc\<close>

text \<open>\<open>a\<close> is the address that the allocation of the pool returns.\<close>

definition pushAutoreleasePool :: "nat \<Rightarrow> 'm poolconf \<Rightarrow> 'm poolconf" where
  "pushAutoreleasePool a c =
     c\<lparr>pools := \<lparr>paddr = a, storage = [parray_init False]\<rparr> # pools c, releasing := False\<rparr>"

partial_function (option) popAutoreleasePool ::
    "'m world \<Rightarrow> nat \<Rightarrow> 'm poolconf \<Rightarrow> 'm poolconf outcome option" where
  "popAutoreleasePool W a c =
     (case pools c of
        [] \<Rightarrow> Some Abort
      | q # qs \<Rightarrow>
          Option.bind (releaseAllObjectsInPool W (paddr q) (c\<lparr>releasing := True\<rparr>))
            (\<lambda>c1. let c2 = c1\<lparr>pools := tl (pools c1), releasing := (tl (pools c1) = [])\<rparr>
                  in if paddr q = a then Some (Done c2) else popAutoreleasePool W a c2))"

text \<open>\<open>-dealloc\<close>: pop pool by pool until the receiver is gone.\<close>

partial_function (option) dealloc ::
    "'m world \<Rightarrow> nat \<Rightarrow> 'm poolconf \<Rightarrow> 'm poolconf outcome option" where
  "dealloc W self c =
     (case pools c of
        [] \<Rightarrow> Some Abort
      | q # qs \<Rightarrow>
          Option.bind (popAutoreleasePool W (paddr q) c)
            (\<lambda>r. case r of Abort \<Rightarrow> Some Abort
                 | Done c' \<Rightarrow> if paddr q = self then Some (Done c') else dealloc W self c'))"

text \<open>The loop shared by \<open>_mulle_objc_poolconfiguration_reset\<close> and \<open>_done\<close>: pop until no pool is left.\<close>

partial_function (option) pop_all :: "'m world \<Rightarrow> 'm poolconf \<Rightarrow> 'm poolconf outcome option" where
  "pop_all W c =
     (case pools c of
        [] \<Rightarrow> Some (Done c)
      | q # qs \<Rightarrow>
          Option.bind (popAutoreleasePool W (paddr q) c)
            (\<lambda>r. case r of Abort \<Rightarrow> Some Abort | Done c' \<Rightarrow> pop_all W c'))"

definition poolconfiguration_reset ::
    "'m world \<Rightarrow> nat \<Rightarrow> 'm poolconf \<Rightarrow> 'm poolconf outcome option" where
  "poolconfiguration_reset W a c =
     Option.bind (pop_all W c)
       (\<lambda>r. case r of Abort \<Rightarrow> Some Abort | Done c' \<Rightarrow> Some (Done (pushAutoreleasePool a c')))"

definition poolconfiguration_done :: "'m world \<Rightarrow> 'm poolconf \<Rightarrow> 'm poolconf outcome option" where
  "poolconfiguration_done W c =
     Option.bind (pop_all W c)
       (\<lambda>r. case r of Abort \<Rightarrow> Some Abort | Done c' \<Rightarrow> Some (Done (c'\<lparr>object_map := None\<rparr>)))"

definition poolconfiguration_init :: "'m option \<Rightarrow> 'm poolconf \<Rightarrow> 'm poolconf" where
  "poolconfiguration_init map_or_not c = c\<lparr>object_map := map_or_not\<rparr>"

section \<open>Early release\<close>

text \<open>
  \<open>_mulle_autoreleasepointerarray_release_objects\<close> walks the chain of one pool while the
  releases it delivers may add objects to the innermost pool.  The array is addressed by its
  position \<open>k\<close> in the chain, the slot by \<open>j\<close>; \<open>used\<close> is read when the walk reaches the array.
\<close>

definition slot :: "nat \<Rightarrow> nat \<Rightarrow> nat \<Rightarrow> 'm poolconf \<Rightarrow> oid" where
  "slot a k j c = (case find_pool a c of None \<Rightarrow> nil | Some q \<Rightarrow> objects (storage q ! k) ! j)"

definition punch :: "nat \<Rightarrow> nat \<Rightarrow> nat \<Rightarrow> 'm poolconf \<Rightarrow> 'm poolconf" where
  "punch a k j c =
     upd_pool a (\<lambda>st. st[k := (st ! k)\<lparr>objects := (objects (st ! k))[j := nil],
                                  acount := acount (st ! k) - 1\<rparr>]) c"

fun release_in_array ::
    "'m world \<Rightarrow> nat \<Rightarrow> oid list \<Rightarrow> nat \<Rightarrow> nat \<Rightarrow> 'm poolconf \<Rightarrow> 'm poolconf" where
  "release_in_array W a ps k 0 c = c"
| "release_in_array W a ps k (Suc j) c =
     (let obj = slot a k j c
      in release_in_array W a ps k j
           (if obj \<in> set ps then release_one W obj (punch a k j c) else c))"

fun release_in_chain :: "'m world \<Rightarrow> nat \<Rightarrow> oid list \<Rightarrow> nat \<Rightarrow> 'm poolconf \<Rightarrow> 'm poolconf" where
  "release_in_chain W a ps 0 c = c"
| "release_in_chain W a ps (Suc k) c =
     (let n = (case find_pool a c of None \<Rightarrow> 0 | Some q \<Rightarrow> used (storage q ! k))
      in release_in_chain W a ps k (release_in_array W a ps k n c))"

definition releaseObjects :: "'m world \<Rightarrow> nat \<Rightarrow> oid list \<Rightarrow> 'm poolconf \<Rightarrow> 'm poolconf" where
  "releaseObjects W a ps c =
     (case find_pool a c of
        None \<Rightarrow> c
      | Some q \<Rightarrow> release_in_chain W a ps (length (storage q)) c)"

text \<open>The instance method works on the innermost pool, the class method on all of them.\<close>

definition mulleReleasePoolObjects_inst :: "'m world \<Rightarrow> oid list \<Rightarrow> 'm poolconf \<Rightarrow> 'm poolconf" where
  "mulleReleasePoolObjects_inst W ps c =
     (case pools c of [] \<Rightarrow> c | q # qs \<Rightarrow> releaseObjects W (paddr q) ps c)"

definition mulleReleasePoolObjects_class :: "'m world \<Rightarrow> oid list \<Rightarrow> 'm poolconf \<Rightarrow> 'm poolconf" where
  "mulleReleasePoolObjects_class W ps c =
     fold (\<lambda>q. releaseObjects W (paddr q) ps) (pools c) c"

section \<open>Queries\<close>

definition mulleContainsObject :: "pool \<Rightarrow> oid \<Rightarrow> bool" where
  "mulleContainsObject q p = (if storage q = [] then False else parray_contains (storage q) p)"

definition mulleContainsObject_inst :: "'m poolconf \<Rightarrow> oid \<Rightarrow> bool" where
  "mulleContainsObject_inst c p =
     (case pools c of [] \<Rightarrow> False | q # _ \<Rightarrow> mulleContainsObject q p)"

definition mulleContainsObject_class :: "'m world \<Rightarrow> 'm poolconf \<Rightarrow> oid \<Rightarrow> bool" where
  "mulleContainsObject_class W c p =
     (case object_map c of
        Some m \<Rightarrow> mget (mops W) m p \<noteq> 0
      | None \<Rightarrow> list_ex (\<lambda>q. mulleContainsObject q p) (pools c))"

definition mulleCountObject :: "pool \<Rightarrow> oid \<Rightarrow> uint32" where
  "mulleCountObject q p = (if storage q = [] then 0 else parray_count_object (storage q) p)"

text \<open>The helper returns an \<open>int\<close>, which is sign extended when it is added to the \<open>NSUInteger\<close>.\<close>

definition mulleCountObject_class :: "'m world \<Rightarrow> 'm poolconf \<Rightarrow> oid \<Rightarrow> NSUInteger" where
  "mulleCountObject_class W c p =
     (case object_map c of
        Some m \<Rightarrow> mget (mops W) m p
      | None \<Rightarrow> fold (\<lambda>q n. n + scast (mulleCountObject q p)) (pools c) 0)"

definition mulleCount :: "pool \<Rightarrow> uint32" where
  "mulleCount q = (if storage q = [] then 0 else parray_count (storage q))"

definition mulleCount_class :: "'m poolconf \<Rightarrow> NSUInteger" where
  "mulleCount_class c = fold (\<lambda>q n. n + ucast (mulleCount q)) (pools c) 0"

definition mulleDefaultAutoreleasePool :: "'m poolconf \<Rightarrow> nat option" where
  "mulleDefaultAutoreleasePool c = (case pools c of [] \<Rightarrow> None | q # _ \<Rightarrow> Some (paddr q))"

definition mulleParentAutoreleasePool :: "'m poolconf \<Rightarrow> nat option" where
  "mulleParentAutoreleasePool c =
     (case pools c of _ # q # _ \<Rightarrow> Some (paddr q) | _ \<Rightarrow> None)"

end
