(* ===== verification/PoolInvariant.thy ===== *)
theory PoolInvariant
  imports AutoreleasePool
begin

text \<open>
  The invariant of a thread's autorelease pools and the proof that every operation of theory
  \<open>AutoreleasePool\<close> keeps it.  The invariant says that the arrays of every pool are well
  formed, that pools have distinct addresses, that \<open>heap_live\<close> counts the allocated arrays, that
  the debug map counts the occurrences of every object, and that every object ever put into a
  pool is still there or has been sent exactly one release.  While a chain is being wiped its
  objects are in no pool: they are the multiset \<open>D\<close> and its heap arrays the number \<open>h\<close>.
\<close>

section \<open>The invariant\<close>

definition pool_contents :: "'m poolconf \<Rightarrow> oid list" where
  "pool_contents c = concat (map (\<lambda>q. contents (storage q)) (pools c))"

definition heap_total :: "'m poolconf \<Rightarrow> nat" where
  "heap_total c = (\<Sum>q \<leftarrow> pools c. heap_arrays (storage q))"

definition not_nil :: "oid list \<Rightarrow> oid multiset" where
  "not_nil ps = mset (filter (\<lambda>p. p \<noteq> nil) ps)"

definition map_counts :: "'m world \<Rightarrow> oid multiset \<Rightarrow> 'm poolconf \<Rightarrow> bool" where
  "map_counts W D c \<longleftrightarrow>
     (\<forall>m p. object_map c = Some m \<longrightarrow> p \<noteq> nil \<longrightarrow>
        mget (mops W) m p = of_nat (count (not_nil (pool_contents c) + D) p))"

definition structure_ok :: "'m poolconf \<Rightarrow> bool" where
  "structure_ok c \<longleftrightarrow>
     (\<forall>q \<in> set (pools c). storage_ok (storage q)) \<and> distinct (map paddr (pools c))"

definition ledger :: "oid multiset \<Rightarrow> 'm poolconf \<Rightarrow> bool" where
  "ledger D c \<longleftrightarrow> not_nil (added c) = mset (sent c) + not_nil (pool_contents c) + D"

definition conf_inv :: "'m world \<Rightarrow> oid multiset \<Rightarrow> nat \<Rightarrow> 'm poolconf \<Rightarrow> bool" where
  "conf_inv W D h c \<longleftrightarrow>
     structure_ok c \<and> heap_live c = heap_total c + h \<and> map_counts W D c \<and> ledger D c"

text \<open>Between two calls of the code nothing is detached.\<close>

abbreviation conf_ok :: "'m world \<Rightarrow> 'm poolconf \<Rightarrow> bool" where
  "conf_ok W c \<equiv> conf_inv W {#} 0 c"

lemma not_nil_simps [simp]:
  "not_nil [] = {#}" "not_nil (xs @ ys) = not_nil xs + not_nil ys"
  "not_nil (p # ps) = (if p = nil then not_nil ps else add_mset p (not_nil ps))"
  by (simp_all add: not_nil_def)

lemma not_nil_rev [simp]: "not_nil (rev ps) = not_nil ps"
  by (simp add: not_nil_def rev_filter [symmetric])

lemma pool_contents_Cons:
  "pools c = q # qs \<Longrightarrow> pool_contents c = contents (storage q) @ concat (map (\<lambda>q. contents (storage q)) qs)"
  by (simp add: pool_contents_def)

lemmas inv_defs = conf_inv_def structure_ok_def map_counts_def ledger_def heap_total_def

section \<open>Autorelease\<close>

lemma map_laws_get [simp]:
  "map_laws M \<Longrightarrow> mget M (mput M m k v) k' = (if k' = k then v else mget M m k')"
  "map_laws M \<Longrightarrow> mget M (mremove M m k) k' = (if k' = k then 0 else mget M m k')"
  by (simp_all add: map_laws_def)

lemma mget_incr [simp]:
  "map_laws M \<Longrightarrow> mget M (map_incr M p m) p' = mget M m p' + (if p' = p then 1 else 0)"
  by (simp add: map_incr_def)

lemma mget_map_release [simp]:
  "map_laws M \<Longrightarrow> mget M (map_release M p m) p' = mget M m p' - (if p' = p then 1 else 0)"
  by (simp add: map_release_def Let_def)

text \<open>\<open>addObject\<close> puts its object behind all others of the innermost pool.\<close>

lemma addObject_storage:
  assumes "pools c = q # qs" and "storage_ok (storage q)"
  obtains st k where "addObject p c = c\<lparr>pools := q\<lparr>storage := st\<rparr> # qs, added := added c @ [p],
      heap_live := heap_live c + k\<rparr>"
    and "storage_ok st" and "contents st = contents (storage q) @ [p]"
    and "heap_arrays st = heap_arrays (storage q) + k" and "st \<noteq> []"
proof -
  define fresh where "fresh = (\<not> parray_can_add (storage q))"
  define s where "s = (if fresh then parray_create (storage q) else storage q)"
  define st where "st = butlast s @ [parray_add (last s) p]"
  have s: "storage_ok s" "s \<noteq> []" "used (last s) < n_objects" "contents s = contents (storage q)"
    "heap_arrays s = heap_arrays (storage q) + (if fresh then 1 else 0)"
    using assms(2)
    by (auto simp: s_def fresh_def storage_ok_create parray_can_add_def parray_is_full_def)
  have "addObject p c = c\<lparr>pools := q\<lparr>storage := st\<rparr> # qs, added := added c @ [p],
      heap_live := heap_live c + (if fresh then 1 else 0)\<rparr>"
    by (simp add: addObject_def assms(1) Let_def fresh_def s_def st_def)
  moreover have "storage_ok st"
    unfolding st_def using s by (intro storage_ok_replace_last) auto
  moreover have "contents st = contents (storage q) @ [p]"
    using s by (simp add: st_def contents_split_last [of s])
  moreover have "heap_arrays st = heap_arrays (storage q) + (if fresh then 1 else 0)"
    using s by (simp add: st_def heap_arrays_split_last [of s])
  ultimately show ?thesis
    by (intro that) (auto simp: st_def)
qed

lemma addObject_inv [wf_intros]:
  assumes "conf_inv W D h (c\<lparr>object_map := om\<rparr>)" and "pools c \<noteq> []" and "map_laws (mops W)"
  shows "conf_inv W D h (addObject p (c\<lparr>object_map := map_option (map_incr (mops W) p) om\<rparr>))"
proof -
  obtain q qs where c: "pools c = q # qs"
    using assms(2) by (cases "pools c") auto
  let ?c = "c\<lparr>object_map := map_option (map_incr (mops W) p) om\<rparr>"
  have "pools ?c = q # qs" "storage_ok (storage q)"
    using assms(1) c by (auto simp: inv_defs)
  then obtain st k where "addObject p ?c = ?c\<lparr>pools := q\<lparr>storage := st\<rparr> # qs, added := added ?c @ [p],
      heap_live := heap_live ?c + k\<rparr>" and "storage_ok st"
    and "contents st = contents (storage q) @ [p]" and "heap_arrays st = heap_arrays (storage q) + k"
    by (rule addObject_storage)
  then show ?thesis
    using assms(1,3) c by (auto simp: inv_defs pool_contents_def)
qed

lemma autoreleaseObject_inv [wf_intros]:
  "map_laws (mops W) \<Longrightarrow> conf_inv W D h c \<Longrightarrow> conf_inv W D h (autoreleaseObject W p c)"
  by (auto simp: autoreleaseObject_def intro!: addObject_inv)

lemma fold_autorelease_inv [wf_intros]:
  "map_laws (mops W) \<Longrightarrow> conf_inv W D h c \<Longrightarrow> conf_inv W D h (fold (autoreleaseObject W) ps c)"
  by (induction ps arbitrary: c) (auto intro: autoreleaseObject_inv)

section \<open>Bulk autorelease\<close>

lemma add_blocks_ok:
  "storage_ok st \<Longrightarrow> add_blocks ps st = (st', k) \<Longrightarrow>
     storage_ok st' \<and> contents st' = contents st @ ps \<and> heap_arrays st' = heap_arrays st + k"
proof (induction ps st arbitrary: st' k rule: add_blocks.induct)
  case (1 ps st)
  show ?case
  proof (cases "ps = []")
    case True
    then show ?thesis using "1.prems" by (simp add: add_blocks.simps)
  next
    case False
    define fresh where "fresh = (parray_space_left st = 0)"
    define s where "s = (if fresh then parray_create st else st)"
    define space where "space = (if fresh then n_objects else parray_space_left st)"
    define amount where "amount = (if length ps < space then length ps else space)"
    define b where "b = append_block (last s) (take amount ps)"
    obtain t j where rec: "add_blocks (drop amount ps) (butlast s @ [b]) = (t, j)"
      by (cases "add_blocks (drop amount ps) (butlast s @ [b])") auto
    have full: "parray_space_left st = 0 \<Longrightarrow> \<not> parray_can_add st"
      by (auto simp: parray_space_left_def parray_can_add_def parray_is_full_def split: if_splits)
    have s: "storage_ok s" "s \<noteq> []" "used (last s) + space \<le> n_objects" "contents s = contents st"
      "heap_arrays s = heap_arrays st + (if fresh then 1 else 0)"
      using "1.prems"(1) full storage_ok_last [of st]
      by (auto simp: s_def space_def fresh_def parray_space_left_def storage_ok_create split: if_splits)
    have b: "used b \<le> n_objects" "heap_array b = heap_array (last s)" "objects b = objects (last s) @ take amount ps"
      using s(3) by (auto simp: b_def append_block_def amount_def)
    have ok: "storage_ok (butlast s @ [b])"
      using s b by (intro storage_ok_replace_last) auto
    have IH: "storage_ok t \<and> contents t = contents (butlast s @ [b]) @ drop amount ps
        \<and> heap_arrays t = heap_arrays (butlast s @ [b]) + j"
      using "1.IH" [OF False fresh_def s_def space_def amount_def ok [unfolded b_def] rec [unfolded b_def]]
      by (simp add: b_def)
    moreover have "add_blocks ps st = (case add_blocks (drop amount ps) (butlast s @ [b]) of
        (st'', k) \<Rightarrow> (st'', (if fresh then 1 else 0) + k))"
      unfolding b_def amount_def space_def s_def fresh_def
      using False by (subst add_blocks.simps) (simp add: Let_def)
    then have "st' = t" "k = (if fresh then 1 else 0) + j"
      using "1.prems"(2) rec by simp_all
    moreover have "contents (butlast s @ [b]) @ drop amount ps = contents st @ ps"
      using s(2) b(3) contents_split_last [of s] by (simp add: s(4) [symmetric])
    moreover have "heap_arrays (butlast s @ [b]) = heap_arrays s"
      using s(2) b(2) heap_arrays_split_last [of s] by simp
    ultimately show ?thesis
      using s(5) \<open>st' = t\<close> \<open>k = (if fresh then 1 else 0) + j\<close> by simp
  qed
qed

lemma mget_fold_incr:
  "map_laws M \<Longrightarrow> mget M (fold (map_incr M) ps m) p = mget M m p + of_nat (count (mset ps) p)"
  by (induction ps arbitrary: m) auto

lemma count_not_nil: "p \<noteq> nil \<Longrightarrow> count (not_nil ps) p = count (mset ps) p"
  by (simp add: not_nil_def)

lemma autoreleaseObjects_inv [wf_intros]:
  assumes "map_laws (mops W)" and "conf_inv W D h c"
  shows "conf_inv W D h (autoreleaseObjects W buffer n sizeof_pointer c)"
proof (cases "\<exists>mem q qs. buffer = Some mem \<and> n \<noteq> 0 \<and> pools c = q # qs")
  case True
  then obtain mem q qs where b: "buffer = Some mem" "n \<noteq> 0" and c: "pools c = q # qs"
    by blast
  obtain st k where blocks: "add_blocks (strided mem n sizeof_pointer) (storage q) = (st, k)"
    by (cases "add_blocks (strided mem n sizeof_pointer) (storage q)") auto
  have "storage_ok (storage q)"
    using assms(2) c by (auto simp: inv_defs)
  from add_blocks_ok [OF this blocks] show ?thesis
    using assms b c blocks
    by (auto simp: inv_defs autoreleaseObjects_def addObjects_def pool_contents_def mget_fold_incr count_not_nil)
next
  case False
  then have "autoreleaseObjects W buffer n sizeof_pointer c = c"
    by (cases "pools c") (auto simp: autoreleaseObjects_def split: option.splits)
  then show ?thesis using assms(2) by simp
qed

section \<open>Releases\<close>

lemma send_release_inv [wf_intros]:
  assumes "map_laws (mops W)" and "conf_inv W (add_mset p D) h (c\<lparr>object_map := om\<rparr>)" and "p \<noteq> nil"
  shows "conf_inv W D h (send_release W p (c\<lparr>object_map := map_option (map_release (mops W) p) om\<rparr>))"
proof -
  have "conf_inv W D h (c\<lparr>object_map := map_option (map_release (mops W) p) om, sent := sent c @ [p]\<rparr>)"
    using assms by (auto simp: inv_defs pool_contents_def)
  then show ?thesis
    using assms(1) by (auto simp: send_release_def intro: fold_autorelease_inv)
qed

lemma release_one_inv [wf_intros]:
  "map_laws (mops W) \<Longrightarrow> p \<noteq> nil \<Longrightarrow> conf_inv W (add_mset p D) h c \<Longrightarrow> conf_inv W D h (release_one W p c)"
  by (simp add: release_one_def send_release_inv)

lemma release_slots_inv [wf_intros]:
  assumes "map_laws (mops W)" and "conf_inv W (D + not_nil ps) h c"
  shows "conf_inv W D h (release_slots W ps c)"
  using assms(2)
proof (induction ps arbitrary: c rule: rev_induct)
  case Nil
  then show ?case by (simp add: release_slots_def)
next
  case (snoc p ps)
  let ?c = "if p = nil then c else release_one W p c"
  have "conf_inv W (D + not_nil ps) h ?c"
    using snoc.prems assms(1) by (auto intro: release_one_inv)
  then have "conf_inv W D h (release_slots W ps ?c)"
    by (rule snoc.IH)
  then show ?case by (simp add: release_slots_def)
qed

lemma release_array_inv [wf_intros]:
  assumes "map_laws (mops W)"
    and "conf_inv W (D + not_nil (objects a)) (h + (if heap_array a then 1 else 0)) c"
  shows "conf_inv W D h (release_array W a c)"
  using release_slots_inv [OF assms]
  by (auto simp: release_array_def Let_def inv_defs pool_contents_def)

lemma release_and_free_inv [wf_intros]:
  assumes "map_laws (mops W)" and "conf_inv W (D + not_nil (contents st)) (h + heap_arrays st) c"
  shows "conf_inv W D h (release_and_free W st c)"
  using assms(2)
proof (induction st arbitrary: c rule: rev_induct)
  case Nil
  then show ?case by (simp add: release_and_free_def)
next
  case (snoc a st)
  have "conf_inv W (D + not_nil (contents st)) (h + heap_arrays st) (release_array W a c)"
    using snoc.prems assms(1) by (intro release_array_inv) (simp_all add: ac_simps)
  then have "conf_inv W D h (release_and_free W st (release_array W a c))"
    by (rule snoc.IH)
  then show ?case by (simp add: release_and_free_def)
qed

text \<open>Detaching the chain of a pool turns its contents into the multiset \<open>D\<close>.\<close>

lemma find_pool_split:
  assumes "find_pool a c = Some q" and "structure_ok c"
  obtains xs ys where "pools c = xs @ q # ys" and "paddr q = a"
    and "\<forall>r \<in> set (xs @ ys). paddr r \<noteq> a"
proof -
  have "q \<in> set (pools c)" "paddr q = a"
    using assms(1) by (auto simp: find_pool_def find_Some_iff)
  then obtain xs ys where "pools c = xs @ q # ys"
    by (meson split_list)
  with \<open>paddr q = a\<close> show ?thesis
    using assms(2) by (intro that) (auto simp: structure_ok_def image_iff)
qed

lemma upd_pool_split:
  assumes "pools c = xs @ q # ys" and "paddr q = a" and "\<forall>r \<in> set (xs @ ys). paddr r \<noteq> a"
  shows "pools (upd_pool a f c) = xs @ q\<lparr>storage := f (storage q)\<rparr> # ys"
proof -
  have "map (\<lambda>r. if paddr r = a then r\<lparr>storage := f (storage r)\<rparr> else r) zs = zs"
    if "\<forall>r \<in> set zs. paddr r \<noteq> a" for zs :: "pool list"
    using that by (induction zs) auto
  then show ?thesis
    using assms by (simp add: upd_pool_def)
qed

lemma upd_pool_frame [simp]:
  "object_map (upd_pool a f c) = object_map c" "sent (upd_pool a f c) = sent c"
  "added (upd_pool a f c) = added c" "heap_live (upd_pool a f c) = heap_live c"
  "releasing (upd_pool a f c) = releasing c"
  by (simp_all add: upd_pool_def)

lemma detach_inv [wf_intros]:
  assumes "conf_inv W D h c" and "find_pool a c = Some q"
  shows "conf_inv W (D + not_nil (contents (storage q))) (h + heap_arrays (storage q)) (upd_pool a (\<lambda>_. []) c)"
proof -
  have "structure_ok c"
    using assms(1) by (simp add: conf_inv_def)
  with assms(2) obtain xs ys where s: "pools c = xs @ q # ys" "paddr q = a"
    "\<forall>r \<in> set (xs @ ys). paddr r \<noteq> a"
    by (rule find_pool_split)
  note upd = upd_pool_split [OF s, of "\<lambda>_. []"]
  from assms(1) show ?thesis
    by (auto simp: inv_defs pool_contents_def s(1) upd ac_simps)
qed

end
