(* ===== verification/PoolLaws.thy ===== *)
theory PoolLaws
  imports PoolInvariant
begin

text \<open>
  What the operations of the autorelease pool do, over the invariant of theory
  \<open>PoolInvariant\<close>: the frame of a release (only the innermost pool can change), the wipe of a
  pool with and without objects that autorelease others while they are released, the result and
  the termination of \<open>popAutoreleasePool\<close>, and the walk of an early release.
\<close>

section \<open>Only the innermost pool changes\<close>

lemma addObject_pools:
  assumes "pools c = q # qs"
  obtains st where "pools (addObject p c) = q\<lparr>storage := st\<rparr> # qs"
    and "contents st = contents (storage q) @ [p]" and "st \<noteq> []"
proof -
  define s where "s = (if parray_can_add (storage q) then storage q else parray_create (storage q))"
  have s: "s \<noteq> []" "contents s = contents (storage q)"
    by (auto simp: s_def parray_can_add_def)
  have "pools (addObject p c) = q\<lparr>storage := butlast s @ [parray_add (last s) p]\<rparr> # qs"
    using assms by (simp add: addObject_def Let_def s_def)
  then show ?thesis
    using s by (intro that [of "butlast s @ [parray_add (last s) p]"])
      (simp_all add: contents_split_last [of s])
qed

definition same_outer :: "'m poolconf \<Rightarrow> 'm poolconf \<Rightarrow> bool" where
  "same_outer c c' \<longleftrightarrow>
     map paddr (pools c') = map paddr (pools c) \<and> tl (pools c') = tl (pools c)
       \<and> releasing c' = releasing c"

lemma same_outer_refl [simp, intro]: "same_outer c c"
  by (simp add: same_outer_def)

lemma same_outer_trans: "same_outer c c' \<Longrightarrow> same_outer c' c'' \<Longrightarrow> same_outer c c''"
  by (simp add: same_outer_def)

lemma addObject_releasing [simp]: "releasing (addObject p c) = releasing c"
  by (simp add: addObject_def Let_def split: list.splits)

lemma same_outer_addObject: "same_outer c (addObject p (c\<lparr>object_map := om\<rparr>))"
proof (cases "pools c")
  case Nil
  then show ?thesis by (simp add: same_outer_def addObject_def)
next
  case (Cons q qs)
  then have "pools (c\<lparr>object_map := om\<rparr>) = q # qs" by simp
  then obtain st where "pools (addObject p (c\<lparr>object_map := om\<rparr>)) = q\<lparr>storage := st\<rparr> # qs"
    by (rule addObject_pools)
  then show ?thesis
    using Cons by (simp add: same_outer_def)
qed

lemma same_outer_autorelease: "same_outer c (autoreleaseObject W p c)"
  by (simp add: autoreleaseObject_def same_outer_addObject)

lemma same_outer_fold:
  assumes "\<And>x c. same_outer c (f x c)"
  shows "same_outer c (fold f xs c)"
  using assms by (induction xs arbitrary: c) (auto intro: same_outer_trans)

lemma same_outer_send: "same_outer c (send_release W p c)"
proof -
  have "same_outer c (c\<lparr>sent := sent c @ [p]\<rparr>)"
    by (simp add: same_outer_def)
  then show ?thesis
    unfolding send_release_def
    by (rule same_outer_trans) (intro same_outer_fold same_outer_autorelease)
qed

lemma same_outer_release_one: "same_outer c (release_one W p c)"
proof -
  have "same_outer c (c\<lparr>object_map := map_option (map_release (mops W) p) (object_map c)\<rparr>)"
    by (simp add: same_outer_def)
  then show ?thesis
    unfolding release_one_def by (rule same_outer_trans) (rule same_outer_send)
qed

lemma same_outer_release_slots: "same_outer c (release_slots W ps c)"
  unfolding release_slots_def by (rule same_outer_fold) (simp add: same_outer_release_one)

lemma same_outer_release_array: "same_outer c (release_array W a c)"
  using same_outer_release_slots [of c W "objects a"]
  by (simp add: release_array_def Let_def same_outer_def)

lemma same_outer_release_and_free: "same_outer c (release_and_free W st c)"
  unfolding release_and_free_def by (rule same_outer_fold) (rule same_outer_release_array)

lemmas same_outer_intros =
  same_outer_autorelease same_outer_send same_outer_release_one same_outer_release_slots
  same_outer_release_array same_outer_release_and_free

lemma find_pool_outer:
  assumes "same_outer c c'" and "pools c = q # qs" and "paddr q \<noteq> a"
  shows "find_pool a c' = find_pool a c"
  using assms by (cases "pools c'") (auto simp: find_pool_def same_outer_def)

section \<open>The wipe of a pool\<close>

lemma releaseAllObjectsInPool_induct:
  assumes "releaseAllObjectsInPool W a c = Some c'"
    and "\<And>c. find_pool a c = None \<Longrightarrow> P c c"
    and "\<And>c q. find_pool a c = Some q \<Longrightarrow> storage q = [] \<Longrightarrow> P c c"
    and "\<And>c q c'. find_pool a c = Some q \<Longrightarrow> storage q \<noteq> [] \<Longrightarrow>
           P (release_and_free W (storage q) (upd_pool a (\<lambda>_. []) c)) c' \<Longrightarrow> P c c'"
  shows "P c c'"
proof -
  have "W = W \<longrightarrow> a = a \<longrightarrow> P c c'"
  proof (rule releaseAllObjectsInPool.raw_induct
      [where P = "\<lambda>W' a' c c'. W' = W \<longrightarrow> a' = a \<longrightarrow> P c c'", OF _ assms(1)], intro impI)
    fix f W' a' d d'
    assume "\<And>W' a' c c'. f W' a' c = Some c' \<Longrightarrow> W' = W \<longrightarrow> a' = a \<longrightarrow> P c c'"
      and "(case find_pool a' d of None \<Rightarrow> Some d
        | Some q \<Rightarrow> if storage q = [] then Some d
            else f W' a' (release_and_free W' (storage q) (upd_pool a' (\<lambda>_. []) d))) = Some d'"
      and "W' = W" "a' = a"
    then show "P d d'"
      using assms(2-4) by (auto split: option.splits if_splits)
  qed
  then show ?thesis by simp
qed

lemma releaseAllObjectsInPool_inv [wf_intros]:
  assumes "releaseAllObjectsInPool W a c = Some c'" and "map_laws (mops W)" and "conf_inv W D h c"
  shows "conf_inv W D h c'"
proof -
  have "conf_inv W D h c \<longrightarrow> conf_inv W D h c'"
    using assms(1)
    by (rule releaseAllObjectsInPool_induct)
      (auto intro!: release_and_free_inv [OF assms(2)] detach_inv)
  then show ?thesis using assms(3) by simp
qed

lemma find_pool_upd:
  "find_pool a (upd_pool a f c) = map_option (\<lambda>q. q\<lparr>storage := f (storage q)\<rparr>) (find_pool a c)"
proof -
  have "find (\<lambda>q. paddr q = a) (map (\<lambda>q. if paddr q = a then q\<lparr>storage := f (storage q)\<rparr> else q) qs) =
      map_option (\<lambda>q. q\<lparr>storage := f (storage q)\<rparr>) (find (\<lambda>q. paddr q = a) qs)" for qs :: "pool list"
    by (induction qs) auto
  then show ?thesis by (simp add: find_pool_def upd_pool_def)
qed

lemma releaseAllObjectsInPool_empties:
  assumes "releaseAllObjectsInPool W a c = Some c'"
  shows "\<forall>q. find_pool a c' = Some q \<longrightarrow> storage q = []"
  using assms by (rule releaseAllObjectsInPool_induct) auto

lemma pool_same_addr: "paddr (x :: pool) = paddr y \<Longrightarrow> x = y\<lparr>storage := storage x\<rparr>"
  by (cases x; cases y) simp

text \<open>On the innermost pool: the outer pools stay, the pool itself is emptied.\<close>

lemma upd_pool_tail:
  assumes "pools c = q # qs" and "\<forall>r \<in> set qs. paddr r \<noteq> paddr q"
  shows "pools (upd_pool (paddr q) f c) = q\<lparr>storage := f (storage q)\<rparr> # qs"
  using upd_pool_split [of c "[]" q qs "paddr q" f] assms by simp

lemma releaseAllObjectsInPool_tail:
  assumes "releaseAllObjectsInPool W a c = Some c'" and "pools c = q # qs" and "a = paddr q"
    and "\<forall>r \<in> set qs. paddr r \<noteq> a"
  shows "pools c' = q\<lparr>storage := []\<rparr> # qs \<and> releasing c' = releasing c"
proof -
  have "\<forall>q::pool. pools c = q # qs \<longrightarrow> a = paddr q \<longrightarrow>
      pools c' = q\<lparr>storage := []\<rparr> # qs \<and> releasing c' = releasing c"
    using assms(1)
  proof (rule releaseAllObjectsInPool_induct)
    fix c :: "'a poolconf" assume "find_pool a c = None"
    then show "\<forall>q::pool. pools c = q # qs \<longrightarrow> a = paddr q \<longrightarrow>
        pools c = q\<lparr>storage := []\<rparr> # qs \<and> releasing c = releasing c"
      by (auto simp: find_pool_def)
  next
    fix c :: "'a poolconf" and q :: pool assume "find_pool a c = Some q" "storage q = []"
    then show "\<forall>q::pool. pools c = q # qs \<longrightarrow> a = paddr q \<longrightarrow>
        pools c = q\<lparr>storage := []\<rparr> # qs \<and> releasing c = releasing c"
      by (auto simp: find_pool_def)
  next
    fix c :: "'a poolconf" and q :: pool and c'
    let ?d = "release_and_free W (storage q) (upd_pool a (\<lambda>_. []) c)"
    assume f: "find_pool a c = Some q" and IH: "\<forall>q::pool. pools ?d = q # qs \<longrightarrow> a = paddr q \<longrightarrow>
        pools c' = q\<lparr>storage := []\<rparr> # qs \<and> releasing c' = releasing ?d"
    show "\<forall>q::pool. pools c = q # qs \<longrightarrow> a = paddr q \<longrightarrow>
        pools c' = q\<lparr>storage := []\<rparr> # qs \<and> releasing c' = releasing c"
    proof (intro allI impI)
      fix r :: pool assume r: "pools c = r # qs" "a = paddr r"
      then have "pools (upd_pool a (\<lambda>_. []) c) = r\<lparr>storage := []\<rparr> # qs"
        using upd_pool_tail assms(4) by blast
      then obtain x where "pools ?d = x # qs" "paddr x = paddr r" "releasing ?d = releasing c"
        using same_outer_release_and_free [of "upd_pool a (\<lambda>_. []) c" W "storage q"]
        by (cases "pools ?d") (auto simp: same_outer_def)
      moreover from this have "x = r\<lparr>storage := storage x\<rparr>"
        by (intro pool_same_addr)
      ultimately obtain st where "pools ?d = r\<lparr>storage := st\<rparr> # qs" "releasing ?d = releasing c"
        by metis
      with IH r show "pools c' = r\<lparr>storage := []\<rparr> # qs \<and> releasing c' = releasing c"
        by auto
    qed
  qed
  then show ?thesis using assms(2,3) by simp
qed

section \<open>Termination of the wipe\<close>

text \<open>
  The wipe ends when every object autoreleases only objects of lower rank, for instance the
  objects below it in an acyclic graph of owners.
\<close>

definition ranked :: "'m world \<Rightarrow> (oid \<Rightarrow> nat) \<Rightarrow> bool" where
  "ranked W rank \<longleftrightarrow> (\<forall>h o' x. x \<in> set (react W h o') \<longrightarrow> rank x < rank o')"

definition below :: "(oid \<Rightarrow> nat) \<Rightarrow> nat \<Rightarrow> nat \<Rightarrow> 'm poolconf \<Rightarrow> bool" where
  "below rank r a c \<longleftrightarrow>
     (\<forall>q. find_pool a c = Some q \<longrightarrow> (\<forall>p \<in> set (contents (storage q)). p \<noteq> nil \<longrightarrow> rank p < r))"

lemma find_pool_frame [simp]:
  "find_pool a (c\<lparr>object_map := om\<rparr>) = find_pool a c" "find_pool a (c\<lparr>sent := s\<rparr>) = find_pool a c"
  "find_pool a (c\<lparr>heap_live := n\<rparr>) = find_pool a c" "find_pool a (c\<lparr>releasing := b\<rparr>) = find_pool a c"
  by (simp_all add: find_pool_def)

lemma below_autorelease:
  assumes "below rank r a c" and "rank p < r"
  shows "below rank r a (autoreleaseObject W p c)"
proof (cases "pools c")
  case Nil
  then show ?thesis using assms(1) by (simp add: autoreleaseObject_def)
next
  case (Cons q qs)
  let ?c = "c\<lparr>object_map := map_option (map_incr (mops W) p) (object_map c)\<rparr>"
  have "pools ?c = q # qs" using Cons by simp
  then obtain st where "pools (addObject p ?c) = q\<lparr>storage := st\<rparr> # qs"
    "contents st = contents (storage q) @ [p]"
    by (rule addObject_pools)
  then show ?thesis
    using assms Cons by (auto simp: autoreleaseObject_def below_def find_pool_def split: if_splits)
qed

lemma below_fold_autorelease:
  "below rank r a c \<Longrightarrow> (\<forall>p \<in> set ps. rank p < r) \<Longrightarrow> below rank r a (fold (autoreleaseObject W) ps c)"
  by (induction ps arbitrary: c) (auto intro: below_autorelease)

lemma below_release_one:
  assumes "ranked W rank" and "rank p \<le> r" and "below rank r a c"
  shows "below rank r a (release_one W p c)"
proof -
  let ?om = "map_option (map_release (mops W) p) (object_map c)"
  have "below rank r a (c\<lparr>object_map := ?om, sent := sent c @ [p]\<rparr>)"
    using assms(3) by (simp add: below_def)
  moreover have "\<forall>x \<in> set (react W (sent c) p). rank x < r"
    using assms(1,2) by (auto simp: ranked_def dest: less_le_trans)
  ultimately have "below rank r a (fold (autoreleaseObject W) (react W (sent c) p)
      (c\<lparr>object_map := ?om, sent := sent c @ [p]\<rparr>))"
    by (rule below_fold_autorelease)
  then show ?thesis by (simp add: release_one_def send_release_def)
qed

lemma below_release_slots:
  assumes "ranked W rank" and "\<forall>p \<in> set ps. p \<noteq> nil \<longrightarrow> rank p \<le> r" and "below rank r a c"
  shows "below rank r a (release_slots W ps c)"
  using assms(2,3)
  by (induction ps arbitrary: c rule: rev_induct)
    (auto simp: release_slots_def intro!: below_release_one [OF assms(1)])

lemma below_heap_live: "below rank r a (c\<lparr>heap_live := n\<rparr>) = below rank r a c"
  by (simp add: below_def)

lemma below_release_and_free:
  assumes "ranked W rank" and "\<forall>p \<in> set (contents st). p \<noteq> nil \<longrightarrow> rank p \<le> r" and "below rank r a c"
  shows "below rank r a (release_and_free W st c)"
  using assms(2,3)
proof (induction st arbitrary: c rule: rev_induct)
  case Nil
  then show ?case by (simp add: release_and_free_def)
next
  case (snoc x st)
  have "below rank r a (release_array W x c)"
    using snoc.prems below_release_slots [OF assms(1)]
    by (simp add: release_array_def Let_def below_heap_live)
  then show ?case
    using snoc by (simp add: release_and_free_def)
qed

lemma release_slots_holes: "not_nil ps = {#} \<Longrightarrow> release_slots W ps c = c"
  by (induction ps arbitrary: c rule: rev_induct) (auto simp: release_slots_def split: if_splits)

lemma release_and_free_holes:
  "not_nil (contents st) = {#} \<Longrightarrow> pools (release_and_free W st c) = pools c"
proof (induction st arbitrary: c rule: rev_induct)
  case (snoc x st)
  then show ?case
    by (simp add: release_and_free_def release_array_def release_slots_holes Let_def)
qed (simp add: release_and_free_def)

theorem releaseAllObjectsInPool_terminates:
  assumes "ranked W rank"
  shows "\<exists>c'. releaseAllObjectsInPool W a c = Some c'"
proof -
  have step: "below rank r a c \<Longrightarrow> \<exists>c'. releaseAllObjectsInPool W a c = Some c'" for r c
  proof (induction r arbitrary: c)
    case 0
    show ?case
    proof (cases "find_pool a c")
      case (Some q)
      let ?d = "release_and_free W (storage q) (upd_pool a (\<lambda>_. []) c)"
      have "not_nil (contents (storage q)) = {#}"
        using 0 Some by (auto simp: below_def not_nil_def filter_empty_conv)
      then have "find_pool a ?d = find_pool a (upd_pool a (\<lambda>_. []) c)"
        by (simp add: find_pool_def release_and_free_holes)
      then have "releaseAllObjectsInPool W a ?d = Some ?d"
        using Some by (subst releaseAllObjectsInPool.simps) (simp add: find_pool_upd)
      then show ?thesis
        using Some by (subst releaseAllObjectsInPool.simps) simp
    qed (simp add: releaseAllObjectsInPool.simps)
  next
    case (Suc r)
    show ?case
    proof (cases "find_pool a c")
      case (Some q)
      have "below rank r a (upd_pool a (\<lambda>_. []) c)"
        by (auto simp: below_def find_pool_upd)
      moreover have "\<forall>p \<in> set (contents (storage q)). p \<noteq> nil \<longrightarrow> rank p \<le> r"
        using Suc.prems Some by (auto simp: below_def less_Suc_eq_le)
      ultimately have "below rank r a (release_and_free W (storage q) (upd_pool a (\<lambda>_. []) c))"
        using assms by (intro below_release_and_free)
      from Suc.IH [OF this] show ?thesis
        using Some by (subst releaseAllObjectsInPool.simps) simp
    qed (simp add: releaseAllObjectsInPool.simps)
  qed
  obtain r where "below rank r a c"
  proof (cases "find_pool a c")
    case (Some q)
    let ?m = "Suc (Max (insert 0 (rank ` set (contents (storage q)))))"
    have "below rank ?m a c"
      using Some by (auto simp: below_def less_Suc_eq_le intro: Max_ge)
    then show thesis by (rule that)
  qed (auto simp: below_def intro: that)
  then show ?thesis by (rule step)
qed

end
