(* ===== verification/PoolPop.thy ===== *)
theory PoolPop
  imports PoolLaws
begin

text \<open>
  Popping pools: the result of \<open>popAutoreleasePool\<close>, \<open>-dealloc\<close> and the two operations that pop
  everything, for pools whose objects may autorelease others while they are released, and the
  order of the releases when they do not.
\<close>

section \<open>The pools a pop removes and the ones it leaves\<close>

fun popped :: "nat \<Rightarrow> pool list \<Rightarrow> pool list" where
  "popped a [] = []"
| "popped a (q # qs) = q # (if paddr q = a then [] else popped a qs)"

fun remaining :: "nat \<Rightarrow> pool list \<Rightarrow> pool list" where
  "remaining a [] = []"
| "remaining a (q # qs) = (if paddr q = a then qs else remaining a qs)"

lemma popped_remaining: "popped a qs @ remaining a qs = qs"
  by (induction qs) auto

lemma structure_ok_tl:
  "structure_ok c \<Longrightarrow> pools c = q # qs \<Longrightarrow> pools c' = qs \<Longrightarrow> structure_ok c'"
  by (simp add: structure_ok_def)

lemma structure_ok_distinct:
  "structure_ok c \<Longrightarrow> pools c = q # qs \<Longrightarrow> \<forall>r \<in> set qs. paddr r \<noteq> paddr q"
  by (auto simp: structure_ok_def image_iff)

lemma structure_ok_frame [simp]:
  "structure_ok (c\<lparr>releasing := b\<rparr>) = structure_ok c" "structure_ok (c\<lparr>object_map := om\<rparr>) = structure_ok c"
  by (simp_all add: structure_ok_def)

lemma conf_inv_releasing [simp]: "conf_inv W D h (c\<lparr>releasing := b\<rparr>) = conf_inv W D h c"
  by (simp add: inv_defs pool_contents_def)

text \<open>One round of the loop, once the wipe is known to leave the outer pools alone.\<close>

definition drop_tail :: "pool list \<Rightarrow> 'm poolconf \<Rightarrow> 'm poolconf" where
  "drop_tail qs c = c\<lparr>pools := qs, releasing := (qs = [])\<rparr>"

lemma pools_drop_tail [simp]:
  "pools (drop_tail qs c) = qs" "releasing (drop_tail qs c) = (qs = [])"
  "sent (drop_tail qs c) = sent c" "added (drop_tail qs c) = added c"
  "object_map (drop_tail qs c) = object_map c" "heap_live (drop_tail qs c) = heap_live c"
  by (simp_all add: drop_tail_def)

lemma pop_round:
  assumes "structure_ok c" and "pools c = q # qs"
  shows "popAutoreleasePool W a c =
    Option.bind (releaseAllObjectsInPool W (paddr q) (c\<lparr>releasing := True\<rparr>))
      (\<lambda>c1. if paddr q = a then Some (Done (drop_tail qs c1))
             else popAutoreleasePool W a (drop_tail qs c1))"
proof -
  have "tl (pools c1) = qs"
    if "releaseAllObjectsInPool W (paddr q) (c\<lparr>releasing := True\<rparr>) = Some c1" for c1
    using releaseAllObjectsInPool_tail [OF that, of q qs] structure_ok_distinct [OF assms] assms(2)
    by simp
  then show ?thesis
    using assms(2)
    by (subst popAutoreleasePool.simps)
      (auto simp: drop_tail_def Let_def intro!: bind_option_cong)
qed

lemma pop_no_pool: "pools c = [] \<Longrightarrow> popAutoreleasePool W a c = Some Abort"
  by (simp add: popAutoreleasePool.simps)

text \<open>Dropping the emptied pool keeps the invariant.\<close>

lemma drop_tail_inv [wf_intros]:
  assumes "conf_inv W D h c" and "releaseAllObjectsInPool W (paddr q) (c\<lparr>releasing := True\<rparr>) = Some c1"
    and "pools c = q # qs" and "map_laws (mops W)"
  shows "conf_inv W D h (drop_tail qs c1)"
proof -
  have "structure_ok c"
    using assms(1) by (simp add: conf_inv_def)
  then have "pools c1 = q\<lparr>storage := []\<rparr> # qs"
    using releaseAllObjectsInPool_tail [OF assms(2), of q qs] structure_ok_distinct assms(3)
    by fastforce
  moreover have "conf_inv W D h c1"
    using assms by (intro releaseAllObjectsInPool_inv [OF assms(2)]) simp_all
  ultimately show ?thesis
    by (auto simp: inv_defs pool_contents_def drop_tail_def)
qed

lemma structure_ok_drop_tail:
  "structure_ok (c :: 'm poolconf) \<Longrightarrow> pools c = q # qs \<Longrightarrow> structure_ok (drop_tail qs (c1 :: 'm poolconf))"
  by (simp add: structure_ok_def drop_tail_def)

section \<open>The result of a pop\<close>

lemma pop_result:
  assumes "structure_ok c" and "popAutoreleasePool W a c = Some r"
  shows "if a \<in> paddr ` set (pools c)
    then \<exists>c'. r = Done c' \<and> pools c' = remaining a (pools c) \<and> releasing c' = (pools c' = [])
    else r = Abort"
  using assms
proof (induction "pools c" arbitrary: c)
  case Nil
  then show ?case by (simp add: pop_no_pool)
next
  case (Cons q qs)
  have c: "pools c = q # qs" using Cons.hyps(2) by simp
  then obtain c1 where c1: "releaseAllObjectsInPool W (paddr q) (c\<lparr>releasing := True\<rparr>) = Some c1"
    and r: "(if paddr q = a then Some (Done (drop_tail qs c1))
              else popAutoreleasePool W a (drop_tail qs c1)) = Some r"
    using Cons.prems pop_round [OF Cons.prems(1) c] by (auto simp: bind_eq_Some_conv)
  show ?case
  proof (cases "paddr q = a")
    case True
    then show ?thesis using r c by auto
  next
    case False
    then have "popAutoreleasePool W a (drop_tail qs c1) = Some r" using r by simp
    with Cons.hyps(1) [of "drop_tail qs c1"] structure_ok_drop_tail [OF Cons.prems(1) c]
    show ?thesis using False c by auto
  qed
qed

lemma pop_result_in:
  assumes "structure_ok c" and "popAutoreleasePool W a c = Some r" and "a \<in> paddr ` set (pools c)"
  obtains c' where "r = Done c'" and "pools c' = remaining a (pools c)"
    and "releasing c' = (pools c' = [])"
  using pop_result [OF assms(1,2), unfolded if_P [OF assms(3)]] by blast

lemma pop_terminates:
  assumes "ranked W rank" and "structure_ok c"
  shows "\<exists>r. popAutoreleasePool W a c = Some r"
  using assms(2)
proof (induction "pools c" arbitrary: c)
  case Nil
  then show ?case by (simp add: pop_no_pool)
next
  case (Cons q qs)
  have c: "pools c = q # qs" using Cons.hyps(2) by simp
  obtain c1 where "releaseAllObjectsInPool W (paddr q) (c\<lparr>releasing := True\<rparr>) = Some c1"
    using releaseAllObjectsInPool_terminates [OF assms(1)] by blast
  then show ?case
    using Cons.hyps(1) [of "drop_tail qs c1"] structure_ok_drop_tail [OF Cons.prems c]
    by (auto simp: pop_round [OF Cons.prems c])
qed

lemma pop_inv [wf_intros]:
  assumes "map_laws (mops W)" and "conf_inv W D h c" and "popAutoreleasePool W a c = Some (Done c')"
  shows "conf_inv W D h c'"
  using assms(2,3)
proof (induction "pools c" arbitrary: c)
  case Nil
  then show ?case by (simp add: pop_no_pool)
next
  case (Cons q qs)
  have c: "pools c = q # qs" and ok: "structure_ok c"
    using Cons.hyps(2) Cons.prems(1) by (simp_all add: conf_inv_def)
  then obtain c1 where c1: "releaseAllObjectsInPool W (paddr q) (c\<lparr>releasing := True\<rparr>) = Some c1"
    and r: "(if paddr q = a then Some (Done (drop_tail qs c1))
              else popAutoreleasePool W a (drop_tail qs c1)) = Some (Done c')"
    using Cons.prems(2) pop_round [OF ok c] by (auto simp: bind_eq_Some_conv)
  have "conf_inv W D h (drop_tail qs c1)"
    using drop_tail_inv [OF Cons.prems(1) c1 c assms(1)] .
  then show ?case
    using r Cons.hyps(1) [of "drop_tail qs c1"] by (auto split: if_splits)
qed

lemma push_inv [wf_intros]:
  "conf_inv W D h c \<Longrightarrow> a \<notin> paddr ` set (pools c) \<Longrightarrow> conf_inv W D h (pushAutoreleasePool a c)"
  by (auto simp: inv_defs pool_contents_def pushAutoreleasePool_def)

section \<open>Quiet objects: the order of the releases\<close>

definition quiet :: "'m world \<Rightarrow> bool" where
  "quiet W \<longleftrightarrow> (\<forall>h p. react W h p = [])"

lemma quiet_ranked: "quiet W \<Longrightarrow> ranked W (\<lambda>_. 0)"
  by (simp add: quiet_def ranked_def)

abbreviation lifo :: "oid list \<Rightarrow> oid list" where
  "lifo ps \<equiv> rev (filter (\<lambda>p. p \<noteq> nil) ps)"

lemma quiet_release_slots:
  assumes "quiet W"
  shows "sent (release_slots W ps c) = sent c @ lifo ps \<and> pools (release_slots W ps c) = pools c"
  using assms
  by (induction ps arbitrary: c rule: rev_induct)
    (auto simp: release_slots_def quiet_def release_one_def send_release_def)

lemma quiet_release_and_free:
  assumes "quiet W"
  shows "sent (release_and_free W st c) = sent c @ lifo (contents st)
    \<and> pools (release_and_free W st c) = pools c"
proof (induction st arbitrary: c rule: rev_induct)
  case (snoc a st)
  then show ?case
    using quiet_release_slots [OF assms, of "objects a" c]
    by (simp add: release_and_free_def release_array_def Let_def)
qed (simp add: release_and_free_def)

lemma quiet_releaseAll:
  assumes "quiet W" and "find_pool a c = Some q"
  obtains c' where "releaseAllObjectsInPool W a c = Some c'"
    and "sent c' = sent c @ lifo (contents (storage q))"
proof (cases "storage q = []")
  case True
  then show ?thesis
    using assms(2) that by (simp add: releaseAllObjectsInPool.simps)
next
  case False
  let ?d = "release_and_free W (storage q) (upd_pool a (\<lambda>_. []) c)"
  have d: "sent ?d = sent c @ lifo (contents (storage q))"
    "pools ?d = pools (upd_pool a (\<lambda>_. []) c)"
    using quiet_release_and_free [OF assms(1)] by simp_all
  then have "find_pool a ?d = find_pool a (upd_pool a (\<lambda>_. []) c)"
    by (simp add: find_pool_def)
  then have "releaseAllObjectsInPool W a ?d = Some ?d"
    using assms(2) by (subst releaseAllObjectsInPool.simps) (simp add: find_pool_upd)
  then have "releaseAllObjectsInPool W a c = Some ?d"
    using assms(2) False by (subst releaseAllObjectsInPool.simps) simp
  then show ?thesis using d(1) that by blast
qed

lemma pop_quiet_order:
  assumes "quiet W" and "structure_ok c" and "a \<in> paddr ` set (pools c)"
  shows "\<exists>c'. popAutoreleasePool W a c = Some (Done c') \<and> pools c' = remaining a (pools c)
    \<and> sent c' = sent c @ concat (map (\<lambda>q. lifo (contents (storage q))) (popped a (pools c)))"
  using assms(2,3)
proof (induction "pools c" arbitrary: c)
  case (Cons q qs)
  have c: "pools c = q # qs" using Cons.hyps(2) by simp
  then have "find_pool (paddr q) (c\<lparr>releasing := True\<rparr>) = Some q"
    by (simp add: find_pool_def)
  with assms(1) obtain c1
    where "releaseAllObjectsInPool W (paddr q) (c\<lparr>releasing := True\<rparr>) = Some c1"
      and "sent c1 = sent (c\<lparr>releasing := True\<rparr>) @ lifo (contents (storage q))"
    by (rule quiet_releaseAll)
  then have c1: "releaseAllObjectsInPool W (paddr q) (c\<lparr>releasing := True\<rparr>) = Some c1"
    "sent c1 = sent c @ lifo (contents (storage q))"
    by simp_all
  show ?case
  proof (cases "paddr q = a")
    case True
    then show ?thesis using c1 c by (simp add: pop_round [OF Cons.prems(1) c])
  next
    case False
    then have "a \<in> paddr ` set qs" using Cons.prems(2) c by auto
    with Cons.hyps(1) [of "drop_tail qs c1"] structure_ok_drop_tail [OF Cons.prems(1) c] False c1 c
    show ?thesis by (auto simp: pop_round [OF Cons.prems(1) c])
  qed
qed simp

section \<open>Dealloc and the operations that pop everything\<close>

text \<open>Popping the innermost pool is one round.\<close>

lemma pop_tail:
  assumes "structure_ok c" and "pools c = q # qs"
  shows "popAutoreleasePool W (paddr q) c =
    map_option (\<lambda>c1. Done (drop_tail qs c1)) (releaseAllObjectsInPool W (paddr q) (c\<lparr>releasing := True\<rparr>))"
  by (simp add: pop_round [OF assms] map_conv_bind_option comp_def)

lemma dealloc_eq_pop:
  assumes "structure_ok c"
  shows "dealloc W self c = popAutoreleasePool W self c"
  using assms
proof (induction "pools c" arbitrary: c)
  case Nil
  then show ?case by (simp add: pop_no_pool dealloc.simps)
next
  case (Cons q qs)
  have c: "pools c = q # qs" using Cons.hyps(2) by simp
  have IH: "dealloc W self (drop_tail qs c1) = popAutoreleasePool W self (drop_tail qs c1)" for c1
    using Cons.hyps(1) [of "drop_tail qs c1"] structure_ok_drop_tail [OF Cons.prems c] by simp
  have "dealloc W self c = Option.bind (popAutoreleasePool W (paddr q) c)
      (\<lambda>r. case r of Abort \<Rightarrow> Some Abort
           | Done c' \<Rightarrow> if paddr q = self then Some (Done c') else dealloc W self c')"
    using c by (subst dealloc.simps) simp
  also have "\<dots> = popAutoreleasePool W self c"
    by (cases "releaseAllObjectsInPool W (paddr q) (c\<lparr>releasing := True\<rparr>)")
      (simp_all add: pop_tail [OF Cons.prems c] pop_round [OF Cons.prems c] IH)
  finally show ?case .
qed

lemma pop_all_result:
  assumes "map_laws (mops W)" and "conf_inv W D h c" and "ranked W rank"
  shows "\<exists>c'. pop_all W c = Some (Done c') \<and> pools c' = [] \<and> conf_inv W D h c'"
  using assms(2)
proof (induction "pools c" arbitrary: c)
  case Nil
  then show ?case by (simp add: pop_all.simps)
next
  case (Cons q qs)
  have c: "pools c = q # qs" and ok: "structure_ok c"
    using Cons.hyps(2) Cons.prems by (simp_all add: conf_inv_def)
  obtain c1 where c1: "releaseAllObjectsInPool W (paddr q) (c\<lparr>releasing := True\<rparr>) = Some c1"
    using releaseAllObjectsInPool_terminates [OF assms(3)] by blast
  have "conf_inv W D h (drop_tail qs c1)"
    using drop_tail_inv [OF Cons.prems c1 c assms(1)] .
  with Cons.hyps(1) [of "drop_tail qs c1"] c1 c show ?case
    by (subst pop_all.simps) (simp add: pop_tail [OF ok c])
qed

end
