(* ===== verification/PoolEarly.thy ===== *)
theory PoolEarly
  imports PoolPop
begin

text \<open>
  The early release of objects (\<open>mulleReleasePoolObject:\<close> and its variants) and the queries of
  the pools.  The walk over a chain is followed while the releases it delivers may append to the
  same chain; the relation \<open>grows\<close> says how a chain can have changed in between.
\<close>

section \<open>How a chain grows\<close>

text \<open>Every old array keeps its slots and gets only new objects that satisfy \<open>P\<close>.\<close>

definition grows :: "(oid \<Rightarrow> bool) \<Rightarrow> storage \<Rightarrow> storage \<Rightarrow> bool" where
  "grows P st st' \<longleftrightarrow>
     length st \<le> length st' \<and>
     (\<forall>k < length st. \<exists>xs. objects (st' ! k) = objects (st ! k) @ xs \<and> (\<forall>p \<in> set xs. P p)) \<and>
     (\<forall>k. length st \<le> k \<longrightarrow> k < length st' \<longrightarrow> (\<forall>p \<in> set (objects (st' ! k)). P p))"

lemma grows_refl [simp, intro]: "grows P st st"
  by (auto simp: grows_def intro!: exI [of _ "[]"])

lemma grows_trans:
  assumes "grows P st st'" and "grows P st' st''"
  shows "grows P st st''"
proof -
  have "\<exists>xs. objects (st'' ! k) = objects (st ! k) @ xs \<and> (\<forall>p \<in> set xs. P p)" if "k < length st" for k
  proof -
    have "k < length st'" using that assms(1) by (simp add: grows_def)
    with that assms obtain xs ys where "objects (st' ! k) = objects (st ! k) @ xs" "\<forall>p \<in> set xs. P p"
      "objects (st'' ! k) = objects (st' ! k) @ ys" "\<forall>p \<in> set ys. P p"
      unfolding grows_def by blast
    then show ?thesis by (intro exI [of _ "xs @ ys"]) auto
  qed
  moreover have "P p" if "length st \<le> k" "k < length st''" "p \<in> set (objects (st'' ! k))" for k p
  proof (cases "k < length st'")
    case True
    with assms that obtain xs where "objects (st'' ! k) = objects (st' ! k) @ xs" "\<forall>p \<in> set xs. P p"
      unfolding grows_def by blast
    with True assms(1) that show ?thesis by (auto simp: grows_def)
  next
    case False
    with assms(2) that show ?thesis by (auto simp: grows_def not_less)
  qed
  ultimately show ?thesis
    using assms by (auto simp: grows_def)
qed

lemma grows_replace_last:
  assumes "st \<noteq> []" and "P p"
  shows "grows P st (butlast st @ [parray_add (last st) p])"
proof -
  have "objects ((butlast st @ [parray_add (last st) p]) ! k) =
      objects (st ! k) @ (if k = length st - 1 then [p] else [])" if "k < length st" for k
    using assms(1) that by (auto simp: nth_append nth_butlast last_conv_nth)
  then show ?thesis
    using assms by (auto simp: grows_def)
qed

lemma grows_create: "grows P st (parray_create st)"
  by (auto simp: grows_def parray_create_def nth_append intro!: exI [of _ "[]"])

text \<open>The chain of the pool with address \<open>a\<close>; the null pointer if there is none.\<close>

definition chain :: "nat \<Rightarrow> 'm poolconf \<Rightarrow> storage" where
  "chain a c = (case find_pool a c of None \<Rightarrow> [] | Some q \<Rightarrow> storage q)"

lemma chain_frame [simp]:
  "chain a (c\<lparr>object_map := om\<rparr>) = chain a c" "chain a (c\<lparr>sent := s\<rparr>) = chain a c"
  "chain a (c\<lparr>heap_live := n\<rparr>) = chain a c" "chain a (c\<lparr>releasing := b\<rparr>) = chain a c"
  by (simp_all add: chain_def)

lemma grows_addObject:
  assumes "P p"
  shows "grows P (chain a c) (chain a (addObject p c))"
proof (cases "pools c")
  case Nil
  then show ?thesis by (simp add: addObject_def)
next
  case (Cons q qs)
  define s where "s = (if parray_can_add (storage q) then storage q else parray_create (storage q))"
  have "s \<noteq> []" and "grows P (storage q) s"
    by (auto simp: s_def parray_can_add_def grows_create)
  then have "grows P (storage q) (butlast s @ [parray_add (last s) p])"
    using assms grows_replace_last grows_trans by blast
  moreover have "pools (addObject p c) = q\<lparr>storage := butlast s @ [parray_add (last s) p]\<rparr> # qs"
    using Cons by (simp add: addObject_def Let_def s_def)
  ultimately show ?thesis
    using Cons by (simp add: chain_def find_pool_def)
qed

lemma grows_autorelease: "P p \<Longrightarrow> grows P (chain a c) (chain a (autoreleaseObject W p c))"
  using grows_addObject [of P p a "c\<lparr>object_map := map_option (map_incr (mops W) p) (object_map c)\<rparr>"]
  by (auto simp: autoreleaseObject_def)

lemma grows_fold_autorelease:
  "(\<forall>p \<in> set ps. P p) \<Longrightarrow> grows P (chain a c) (chain a (fold (autoreleaseObject W) ps c))"
  by (induction ps arbitrary: c) (auto intro: grows_trans [OF grows_autorelease])

lemma grows_release_one:
  assumes "\<forall>h x. x \<in> set (react W h p) \<longrightarrow> P x"
  shows "grows P (chain a c) (chain a (release_one W p c))"
  using grows_fold_autorelease [of "react W (sent c) p" P a _ W] assms
  by (simp add: release_one_def send_release_def) (metis chain_frame(1,2))

section \<open>Punching a hole\<close>

lemma chain_upd_pool: "find_pool a c \<noteq> None \<Longrightarrow> chain a (upd_pool a f c) = f (chain a c)"
  by (auto simp: chain_def find_pool_upd)

lemma chain_bound_pool: "k < length (chain a c) \<Longrightarrow> find_pool a c \<noteq> None"
  by (auto simp: chain_def split: option.splits)

lemma slot_chain: "k < length (chain a c) \<Longrightarrow> slot a k j c = objects (chain a c ! k) ! j"
  by (auto simp: chain_def slot_def split: option.splits)

text \<open>What a hole does to a chain, as a function on chains.\<close>

definition hole :: "nat \<Rightarrow> nat \<Rightarrow> storage \<Rightarrow> storage" where
  "hole k j st = st[k := (st ! k)\<lparr>objects := (objects (st ! k))[j := nil], acount := acount (st ! k) - 1\<rparr>]"

lemma punch_hole: "punch a k j c = upd_pool a (hole k j) c"
  by (simp add: punch_def hole_def [abs_def])

lemma hole_decomp:
  assumes "k < length st"
  obtains xs ys b where "st = xs @ (st ! k) # ys" and "hole k j st = xs @ b # ys" and "length xs = k"
    and "objects b = (objects (st ! k))[j := nil]" and "heap_array b = heap_array (st ! k)"
proof -
  let ?b = "(st ! k)\<lparr>objects := (objects (st ! k))[j := nil], acount := acount (st ! k) - 1\<rparr>"
  have "st = take k st @ (st ! k) # drop (Suc k) st"
    using assms by (rule id_take_nth_drop)
  moreover have "hole k j st = take k st @ ?b # drop (Suc k) st"
    using assms by (simp add: hole_def upd_conv_take_nth_drop)
  ultimately show ?thesis
    using assms by (intro that [of "take k st" "drop (Suc k) st" ?b]) auto
qed

lemma storage_ok_hole:
  assumes "storage_ok st" and "k < length st"
  shows "storage_ok (hole k j st)"
proof -
  obtain xs ys b where s: "st = xs @ (st ! k) # ys" "hole k j st = xs @ b # ys"
    "objects b = (objects (st ! k))[j := nil]" "heap_array b = heap_array (st ! k)"
    using hole_decomp [OF assms(2)] by metis
  have "storage_ok (xs @ (st ! k) # ys)"
    using assms(1) s(1) by simp
  then have "storage_ok (xs @ b # ys)"
    using s(3,4) by (cases ys rule: rev_cases; cases xs) (auto simp: storage_ok_def butlast_append)
  then show ?thesis using s(2) by simp
qed

lemma mset_list_update_filter:
  assumes "j < length xs" and "xs ! j \<noteq> nil"
  shows "add_mset (xs ! j) (not_nil (xs[j := nil])) = not_nil xs"
proof -
  obtain ys x zs where xs: "xs = ys @ x # zs" "length ys = j"
    using id_take_nth_drop [OF assms(1)] assms(1) by (metis length_take less_imp_le min.absorb2)
  then show ?thesis using assms(2) by (simp add: nth_append list_update_append)
qed

lemma not_nil_hole:
  assumes "k < length st" and "j < used (st ! k)" and "objects (st ! k) ! j \<noteq> nil"
  shows "add_mset (objects (st ! k) ! j) (not_nil (contents (hole k j st))) = not_nil (contents st)"
proof -
  obtain xs ys b where s: "st = xs @ (st ! k) # ys" "hole k j st = xs @ b # ys"
    "objects b = (objects (st ! k))[j := nil]"
    using hole_decomp [OF assms(1)] by metis
  have "not_nil (contents st) = not_nil (contents xs) + not_nil (objects (st ! k)) + not_nil (contents ys)"
    by (subst s(1)) simp
  moreover have "not_nil (contents (hole k j st)) =
      not_nil (contents xs) + not_nil (objects b) + not_nil (contents ys)"
    by (subst s(2)) simp
  moreover have "add_mset (objects (st ! k) ! j) (not_nil (objects b)) = not_nil (objects (st ! k))"
    using mset_list_update_filter [OF assms(2,3)] s(3) by simp
  ultimately show ?thesis by (metis union_mset_add_mset_left union_mset_add_mset_right)
qed

lemma heap_arrays_hole: "k < length st \<Longrightarrow> heap_arrays (hole k j st) = heap_arrays st"
proof -
  assume "k < length st"
  then obtain xs ys b where s: "st = xs @ (st ! k) # ys" "hole k j st = xs @ b # ys"
    "heap_array b = heap_array (st ! k)"
    using hole_decomp by metis
  have "heap_arrays (xs @ b # ys) = heap_arrays (xs @ (st ! k) # ys)"
    using s(3) by simp
  then show ?thesis using s(1,2) by simp
qed

lemma punch_inv [wf_intros]:
  assumes "conf_inv W D h c" and "k < length (chain a c)" and "j < used (chain a c ! k)"
    and "objects (chain a c ! k) ! j = p" and "p \<noteq> nil"
  shows "conf_inv W (add_mset p D) h (punch a k j c)"
proof -
  have ok: "structure_ok c" using assms(1) by (simp add: conf_inv_def)
  obtain q where q: "find_pool a c = Some q" "chain a c = storage q"
    using assms(2) by (auto simp: chain_def split: option.splits)
  from q(1) ok obtain xs ys where s: "pools c = xs @ q # ys" "paddr q = a"
    "\<forall>r \<in> set (xs @ ys). paddr r \<noteq> a"
    by (rule find_pool_split)
  note upd = upd_pool_split [OF s, of "hole k j"]
  have "add_mset p (not_nil (contents (hole k j (storage q)))) = not_nil (contents (storage q))"
    using not_nil_hole assms(2-5) q(2) by metis
  moreover have "storage_ok (storage q)"
    using ok s(1) by (simp add: structure_ok_def)
  ultimately show ?thesis
    using assms(1,2) storage_ok_hole [of "storage q" k j] heap_arrays_hole [of k "storage q" j] q(2)
    unfolding punch_hole inv_defs
    by (simp add: pool_contents_def s(1) upd flip: \<open>add_mset p _ = _\<close>)
qed

section \<open>The walk of an early release\<close>

lemma release_hole_inv:
  assumes "map_laws (mops W)" and "conf_inv W D h c" and "nil \<notin> set ps"
    and "k < length (chain a c)" and "j < used (chain a c ! k)" and "slot a k j c \<in> set ps"
  shows "conf_inv W D h (release_one W (slot a k j c) (punch a k j c))"
proof -
  have "slot a k j c = objects (chain a c ! k) ! j"
    using assms(4) by (rule slot_chain)
  moreover from this have "objects (chain a c ! k) ! j \<noteq> nil"
    using assms(3,6) by auto
  ultimately show ?thesis
    using assms by (intro release_one_inv) (auto intro: punch_inv)
qed

text \<open>Positions of a chain still to be visited stay what they were.\<close>

lemma used_hole [simp]: "k < length st \<Longrightarrow> used (hole k j st ! k') = used (st ! k')"
  by (cases "k' = k") (auto simp: hole_def)

lemma length_hole [simp]: "length (hole k j st) = length st"
  by (simp add: hole_def)

lemma grows_any_mono: "grows P st st' \<Longrightarrow> k < length st \<Longrightarrow> k < length st' \<and> used (st ! k) \<le> used (st' ! k)"
  by (fastforce simp: grows_def)

lemma release_hole_bounds:
  assumes "k < length (chain a c)"
  shows "k' < length (chain a c) \<Longrightarrow>
     k' < length (chain a (release_one W p (punch a k j c)))
     \<and> used (chain a c ! k') \<le> used (chain a (release_one W p (punch a k j c)) ! k')"
  using grows_any_mono [OF grows_release_one [of W p "\<lambda>_. True" a "punch a k j c"], of k']
    chain_upd_pool [OF chain_bound_pool [OF assms], of "hole k j"] assms
  by (simp add: punch_hole)

lemma release_in_array_inv [wf_intros]:
  assumes "map_laws (mops W)" and "nil \<notin> set ps" and "conf_inv W D h c"
    and "k < length (chain a c)" and "j \<le> used (chain a c ! k)"
  shows "conf_inv W D h (release_in_array W a ps k j c) \<and>
    length (chain a c) \<le> length (chain a (release_in_array W a ps k j c))"
  using assms(3-5)
proof (induction j arbitrary: c)
  case (Suc j)
  let ?d = "if slot a k j c \<in> set ps then release_one W (slot a k j c) (punch a k j c) else c"
  have "conf_inv W D h ?d"
    using Suc.prems release_hole_inv [OF assms(1) Suc.prems(1) assms(2)] by auto
  moreover have "k' < length (chain a ?d) \<and> used (chain a c ! k') \<le> used (chain a ?d ! k')"
    if "k' < length (chain a c)" for k'
    using release_hole_bounds [OF Suc.prems(2) that] that by auto
  then have "k < length (chain a ?d)" "j \<le> used (chain a ?d ! k)"
    "length (chain a c) \<le> length (chain a ?d)"
    using Suc.prems by (auto intro: Suc_leD le_trans) (metis leI less_irrefl)
  ultimately show ?case
    using Suc.IH [of ?d] by (auto simp: Let_def)
qed simp

lemma release_in_chain_inv [wf_intros]:
  assumes "map_laws (mops W)" and "nil \<notin> set ps" and "conf_inv W D h c" and "k \<le> length (chain a c)"
  shows "conf_inv W D h (release_in_chain W a ps k c)"
  using assms(3,4)
proof (induction k arbitrary: c)
  case (Suc k)
  have "(case find_pool a c of None \<Rightarrow> 0 | Some q \<Rightarrow> used (storage q ! k)) = used (chain a c ! k)"
    using Suc.prems(2) by (auto simp: chain_def split: option.splits)
  then show ?case
    using Suc release_in_array_inv [OF assms(1,2) Suc.prems(1), of k a "used (chain a c ! k)"]
    by (simp add: Let_def)
qed simp

lemma releaseObjects_inv [wf_intros]:
  assumes "map_laws (mops W)" and "nil \<notin> set ps" and "conf_inv W D h c"
  shows "conf_inv W D h (releaseObjects W a ps c)"
  using release_in_chain_inv [OF assms, of "length (chain a c)" a] assms(3)
  by (auto simp: releaseObjects_def chain_def split: option.splits)

lemma mulleReleasePoolObjects_inst_inv [wf_intros]:
  "map_laws (mops W) \<Longrightarrow> nil \<notin> set ps \<Longrightarrow> conf_inv W D h c \<Longrightarrow>
     conf_inv W D h (mulleReleasePoolObjects_inst W ps c)"
  by (simp add: mulleReleasePoolObjects_inst_def releaseObjects_inv split: list.splits)

lemma fold_releaseObjects_inv:
  "map_laws (mops W) \<Longrightarrow> nil \<notin> set ps \<Longrightarrow> conf_inv W D h c \<Longrightarrow>
     conf_inv W D h (fold (\<lambda>q. releaseObjects W (paddr q) ps) qs c)"
  by (induction qs arbitrary: c) (auto intro: releaseObjects_inv)

lemma mulleReleasePoolObjects_class_inv [wf_intros]:
  "map_laws (mops W) \<Longrightarrow> nil \<notin> set ps \<Longrightarrow> conf_inv W D h c \<Longrightarrow>
     conf_inv W D h (mulleReleasePoolObjects_class W ps c)"
  by (simp add: mulleReleasePoolObjects_class_def fold_releaseObjects_inv)

section \<open>What an early release leaves behind\<close>

text \<open>From slot \<open>j\<close> of array \<open>k\<close> on, and in all newer arrays, no object of \<open>S\<close> is left.\<close>

definition clean :: "oid set \<Rightarrow> nat \<Rightarrow> nat \<Rightarrow> storage \<Rightarrow> bool" where
  "clean S k j st \<longleftrightarrow>
     (\<forall>k'. k < k' \<longrightarrow> k' < length st \<longrightarrow> set (objects (st ! k')) \<inter> S = {}) \<and>
     (\<forall>j'. j \<le> j' \<longrightarrow> j' < used (st ! k) \<longrightarrow> objects (st ! k) ! j' \<notin> S)"

lemma clean_grows:
  assumes "clean S k j st" and "grows (\<lambda>p. p \<notin> S) st st'" and "k < length st"
  shows "clean S k j st'"
proof -
  have "set (objects (st' ! k')) \<inter> S = {}" if "k < k'" "k' < length st'" for k'
  proof (cases "k' < length st")
    case True
    then obtain xs where "objects (st' ! k') = objects (st ! k') @ xs" "\<forall>p \<in> set xs. p \<notin> S"
      using assms(2) by (auto simp: grows_def)
    then show ?thesis using assms(1) True that by (auto simp: clean_def)
  next
    case False
    then show ?thesis using assms(2) that by (auto simp: grows_def not_less)
  qed
  moreover have "objects (st' ! k) ! j' \<notin> S" if "j \<le> j'" "j' < used (st' ! k)" for j'
  proof -
    obtain xs where "objects (st' ! k) = objects (st ! k) @ xs" "\<forall>p \<in> set xs. p \<notin> S"
      using assms(2,3) by (auto simp: grows_def)
    then show ?thesis
      using assms(1) that by (auto simp: clean_def nth_append)
  qed
  ultimately show ?thesis by (simp add: clean_def)
qed

lemma clean_hole:
  assumes "clean S k (Suc j) st" and "nil \<notin> S" and "k < length st"
  shows "clean S k j (hole k j st)"
  using assms by (auto simp: clean_def hole_def nth_list_update less_Suc_eq_le dest: le_neq_implies_less)

lemma clean_skip:
  "clean S k (Suc j) st \<Longrightarrow> objects (st ! k) ! j \<notin> S \<Longrightarrow> clean S k j st"
  by (auto simp: clean_def) (metis Suc_leI le_neq_implies_less)

text \<open>Releasing one of the objects of \<open>S\<close> autoreleases none of them.\<close>

definition not_revived :: "'m world \<Rightarrow> oid set \<Rightarrow> bool" where
  "not_revived W S \<longleftrightarrow> (\<forall>h. \<forall>p\<in>S. set (react W h p) \<inter> S = {})"

lemma grows_release_one_not_revived:
  "not_revived W S \<Longrightarrow> p \<in> S \<Longrightarrow> grows (\<lambda>p. p \<notin> S) (chain a c) (chain a (release_one W p c))"
  by (rule grows_release_one) (auto simp: not_revived_def)

lemma clean_release_in_array:
  assumes "not_revived W (set ps)" and "nil \<notin> set ps"
    and "clean (set ps) k j (chain a c)" and "k < length (chain a c)" and "j \<le> used (chain a c ! k)"
  shows "clean (set ps) k 0 (chain a (release_in_array W a ps k j c)) \<and>
    length (chain a c) \<le> length (chain a (release_in_array W a ps k j c))"
  using assms(3-5)
proof (induction j arbitrary: c)
  case (Suc j)
  let ?d = "if slot a k j c \<in> set ps then release_one W (slot a k j c) (punch a k j c) else c"
  have "clean (set ps) k j (chain a ?d) \<and> length (chain a c) \<le> length (chain a ?d)
      \<and> j \<le> used (chain a ?d ! k)"
  proof (cases "slot a k j c \<in> set ps")
    case True
    have h: "chain a (punch a k j c) = hole k j (chain a c)"
      using chain_upd_pool [OF chain_bound_pool [OF Suc.prems(2)]] by (simp add: punch_hole)
    then have "clean (set ps) k j (chain a (punch a k j c))"
      using Suc.prems assms(2) by (simp add: clean_hole)
    then have "clean (set ps) k j (chain a ?d)"
      using True Suc.prems(2) h
      by (simp add: clean_grows [OF _ grows_release_one_not_revived [OF assms(1) True]])
    moreover have "length (chain a c) \<le> length (chain a ?d)"
      using grows_release_one_not_revived [OF assms(1) True, of a "punch a k j c"] True h
      by (simp add: grows_def)
    moreover have "used (chain a c ! k) \<le> used (chain a ?d ! k)"
      using release_hole_bounds [OF Suc.prems(2) Suc.prems(2)] True by simp
    then have "j \<le> used (chain a ?d ! k)"
      using Suc.prems(3) by linarith
    ultimately show ?thesis by blast
  next
    case False
    then show ?thesis
      using Suc.prems slot_chain [OF Suc.prems(2)] by (auto intro!: clean_skip)
  qed
  then show ?case
    using Suc.IH [of ?d] Suc.prems(2) by (auto simp: Let_def)
qed simp

lemma clean_start: "clean S k (used (st ! k)) st \<longleftrightarrow> (\<forall>k'. k < k' \<longrightarrow> k' < length st \<longrightarrow> set (objects (st ! k')) \<inter> S = {})"
  by (simp add: clean_def)

lemma clean_done:
  "clean S k 0 st \<Longrightarrow> k \<le> k' \<Longrightarrow> k' < length st \<Longrightarrow> set (objects (st ! k')) \<inter> S = {}"
  by (cases "k = k'") (auto simp: clean_def in_set_conv_nth)

lemma clean_release_in_chain:
  assumes "not_revived W (set ps)" and "nil \<notin> set ps"
    and "\<forall>k'. k \<le> k' \<longrightarrow> k' < length (chain a c) \<longrightarrow> set (objects (chain a c ! k')) \<inter> set ps = {}"
    and "k \<le> length (chain a c)"
  shows "set (contents (chain a (release_in_chain W a ps k c))) \<inter> set ps = {}"
  using assms(3,4)
proof (induction k arbitrary: c)
  case 0
  then show ?case by (fastforce simp: contents_def in_set_conv_nth)
next
  case (Suc k)
  let ?n = "used (chain a c ! k)"
  have n: "(case find_pool a c of None \<Rightarrow> 0 | Some q \<Rightarrow> used (storage q ! k)) = ?n"
    using Suc.prems(2) by (auto simp: chain_def split: option.splits)
  have "clean (set ps) k ?n (chain a c)"
    using Suc.prems(1) by (simp add: clean_start Suc_le_eq)
  then have d: "clean (set ps) k 0 (chain a (release_in_array W a ps k ?n c)) \<and>
      length (chain a c) \<le> length (chain a (release_in_array W a ps k ?n c))"
    using Suc.prems(2) by (intro clean_release_in_array [OF assms(1,2)]) simp_all
  then have "\<forall>k'. k \<le> k' \<longrightarrow> k' < length (chain a (release_in_array W a ps k ?n c)) \<longrightarrow>
      set (objects (chain a (release_in_array W a ps k ?n c) ! k')) \<inter> set ps = {}"
    using clean_done by blast
  then show ?case
    using Suc.IH [of "release_in_array W a ps k ?n c"] Suc.prems(2) d by (simp add: n Let_def)
qed

lemma releaseObjects_removes:
  assumes "not_revived W (set ps)" and "nil \<notin> set ps"
  shows "set (contents (chain a (releaseObjects W a ps c))) \<inter> set ps = {}"
  using clean_release_in_chain [OF assms, of "length (chain a c)" a c]
  by (auto simp: releaseObjects_def chain_def split: option.splits)

section \<open>All pools\<close>

text \<open>An early release on one pool brings none of the objects back into another one.\<close>

definition free_of :: "oid set \<Rightarrow> nat \<Rightarrow> 'm poolconf \<Rightarrow> bool" where
  "free_of S b c \<longleftrightarrow> set (contents (chain b c)) \<inter> S = {}"

lemma set_contents: "set (contents st) = (\<Union>k<length st. set (objects (st ! k)))"
proof -
  have "set st = (!) st ` {..<length st}"
    by (auto simp: set_conv_nth)
  then show ?thesis by (simp add: contents_def)
qed

lemma grows_free:
  assumes "grows (\<lambda>p. p \<notin> S) st st'" and "set (contents st) \<inter> S = {}"
  shows "set (contents st') \<inter> S = {}"
proof -
  have "set (objects (st' ! k)) \<inter> S = {}" if k: "k < length st'" for k
  proof (cases "k < length st")
    case True
    then obtain xs where "objects (st' ! k) = objects (st ! k) @ xs" "\<forall>p \<in> set xs. p \<notin> S"
      using assms(1) by (auto simp: grows_def)
    moreover have "set (objects (st ! k)) \<inter> S = {}"
      using assms(2) True by (auto simp: set_contents)
    ultimately show ?thesis by auto
  next
    case False
    then show ?thesis using assms(1) k by (auto simp: grows_def not_less)
  qed
  then show ?thesis by (auto simp: set_contents)
qed

lemma set_contents_hole: "set (contents (hole k j st)) \<subseteq> insert nil (set (contents st))"
  using set_update_subset_insert [of "objects (st ! k)" j nil]
  by (cases "k < length st") (auto simp: set_contents hole_def nth_list_update split: if_splits)

lemma find_pool_upd_other: "b \<noteq> a \<Longrightarrow> find_pool b (upd_pool a f c) = find_pool b c"
proof -
  assume "b \<noteq> a"
  then have "find (\<lambda>q. paddr q = b) (map (\<lambda>q. if paddr q = a then q\<lparr>storage := f (storage q)\<rparr> else q) qs)
      = find (\<lambda>q. paddr q = b) qs" for qs :: "pool list"
    by (induction qs) auto
  then show ?thesis by (simp add: find_pool_def upd_pool_def)
qed

lemma chain_punch: "chain b (punch a k j c) = (if b = a \<and> find_pool a c \<noteq> None then hole k j (chain b c) else chain b c)"
  by (cases "b = a") (auto simp: punch_hole chain_def find_pool_upd find_pool_upd_other split: option.splits)

lemma free_punch: "nil \<notin> S \<Longrightarrow> free_of S b c \<Longrightarrow> free_of S b (punch a k j c)"
  using set_contents_hole [of k j "chain b c"] by (auto simp: free_of_def chain_punch)

lemma free_release_one: "not_revived W S \<Longrightarrow> p \<in> S \<Longrightarrow> free_of S b c \<Longrightarrow> free_of S b (release_one W p c)"
  unfolding free_of_def by (rule grows_free [OF grows_release_one_not_revived])

lemma free_release_in_array:
  assumes "not_revived W (set ps)" and "nil \<notin> set ps"
  shows "free_of (set ps) b c \<Longrightarrow> free_of (set ps) b (release_in_array W a ps k j c)"
  by (induction j arbitrary: c) (auto simp: Let_def intro: free_release_one [OF assms(1)] free_punch [OF assms(2)])

lemma free_release_in_chain:
  assumes "not_revived W (set ps)" and "nil \<notin> set ps"
  shows "free_of (set ps) b c \<Longrightarrow> free_of (set ps) b (release_in_chain W a ps k c)"
  by (induction k arbitrary: c) (auto simp: Let_def intro: free_release_in_array [OF assms])

lemma free_releaseObjects:
  assumes "not_revived W (set ps)" and "nil \<notin> set ps"
  shows "free_of (set ps) b c \<Longrightarrow> free_of (set ps) b (releaseObjects W a ps c)"
  by (auto simp: releaseObjects_def intro: free_release_in_chain [OF assms] split: option.splits)

lemma same_addresses:
  "map paddr (pools (punch a k j c)) = map paddr (pools c)"
  "map paddr (pools (release_one W p c)) = map paddr (pools c)"
  using same_outer_release_one [of c W p] by (simp_all add: punch_def upd_pool_def same_outer_def)

lemma same_addresses_array: "map paddr (pools (release_in_array W a ps k j c)) = map paddr (pools c)"
  by (induction j arbitrary: c) (simp_all add: Let_def same_addresses)

lemma same_addresses_chain: "map paddr (pools (release_in_chain W a ps k c)) = map paddr (pools c)"
  by (induction k arbitrary: c) (simp_all add: Let_def same_addresses_array)

lemma same_addresses_releaseObjects: "map paddr (pools (releaseObjects W a ps c)) = map paddr (pools c)"
  by (simp add: releaseObjects_def same_addresses_chain split: option.splits)

lemma same_addresses_fold:
  "map paddr (pools (fold (\<lambda>q. releaseObjects W (paddr q) ps) qs c)) = map paddr (pools c)"
  by (induction qs arbitrary: c) (simp_all add: same_addresses_releaseObjects)

lemma free_fold:
  assumes "not_revived W (set ps)" and "nil \<notin> set ps"
  shows "free_of (set ps) b c \<or> b \<in> paddr ` set qs \<Longrightarrow>
    free_of (set ps) b (fold (\<lambda>q. releaseObjects W (paddr q) ps) qs c)"
proof (induction qs arbitrary: c)
  case (Cons q qs)
  have "free_of (set ps) b (releaseObjects W (paddr q) ps c) \<or> b \<in> paddr ` set qs"
    using Cons.prems releaseObjects_removes [OF assms, of b c] free_releaseObjects [OF assms, of b c "paddr q"]
    by (auto simp: free_of_def)
  then show ?case
    using Cons.IH by simp
qed simp

lemma pool_of_address:
  assumes "distinct (map paddr (pools c))" and "q \<in> set (pools c)"
  shows "chain (paddr q) c = storage q"
proof -
  have "find (\<lambda>r. paddr r = paddr q) qs = Some q" if "distinct (map paddr qs)" "q \<in> set qs" for qs
    using that by (induction qs) force+
  then show ?thesis using assms by (simp add: chain_def find_pool_def)
qed

lemma fold_releaseObjects_removes:
  assumes "not_revived W (set ps)" and "nil \<notin> set ps" and "structure_ok c"
  shows "set (pool_contents (fold (\<lambda>q. releaseObjects W (paddr q) ps) (pools c) c)) \<inter> set ps = {}"
proof -
  let ?d = "fold (\<lambda>q. releaseObjects W (paddr q) ps) (pools c) c"
  have addr: "map paddr (pools ?d) = map paddr (pools c)" by (rule same_addresses_fold)
  then have dist: "distinct (map paddr (pools ?d))" using assms(3) by (simp add: structure_ok_def)
  have "set (contents (storage q)) \<inter> set ps = {}" if q: "q \<in> set (pools ?d)" for q
  proof -
    have "paddr q \<in> set (map paddr (pools ?d))" using q by simp
    then have "paddr q \<in> paddr ` set (pools c)" unfolding addr by simp
    then show ?thesis
      using free_fold [OF assms(1,2), of "paddr q" c "pools c"] pool_of_address [OF dist q] by (simp add: free_of_def)
  qed
  then show ?thesis by (auto simp: pool_contents_def)
qed

end
