(* ===== verification/PoolProps.thy ===== *)
theory PoolProps
  imports PoolEarly
begin

text \<open>
  The properties of the autorelease pools of a thread: every sequence of calls keeps the
  invariant and returns, a pop releases every object of the popped pools exactly once and in
  reverse order, the debug map answers like the walk over the pools, and what the bulk insertion
  does differently from the single one.
\<close>

section \<open>The calls of a client\<close>

datatype pool_call =
    Push nat
  | Pop nat
  | Dealloc nat
  | Autorelease oid
  | AutoreleaseMany "oid list"
  | ReleaseEarly "oid list"
  | ReleaseEarlyInAll "oid list"
  | ReleaseAllOf nat

text \<open>The \<open>id\<close> array of a bulk autorelease, as memory.\<close>

definition id_array :: "oid list \<Rightarrow> nat \<Rightarrow> oid" where
  "id_array ps i = ps ! (i div sizeof_pointer)"

lemma strided_id_array [simp]: "strided (id_array ps) (length ps) sizeof_pointer = ps"
  by (rule nth_equalityI) (simp_all add: strided_def id_array_def sizeof_pointer_def)

definition returned :: "'m world \<Rightarrow> 'm poolconf outcome option \<Rightarrow> ('m world \<times> 'm poolconf) option" where
  "returned W r = (case r of Some (Done c) \<Rightarrow> Some (W, c) | _ \<Rightarrow> None)"

fun pool_step :: "pool_call \<Rightarrow> 'm world \<times> 'm poolconf \<Rightarrow> ('m world \<times> 'm poolconf) option" where
  "pool_step (Push a) (W, c) = Some (W, pushAutoreleasePool a c)"
| "pool_step (Pop a) (W, c) = returned W (popAutoreleasePool W a c)"
| "pool_step (Dealloc a) (W, c) = returned W (dealloc W a c)"
| "pool_step (Autorelease p) (W, c) = Some (W, autoreleaseObject W p c)"
| "pool_step (AutoreleaseMany ps) (W, c) =
     Some (W, autoreleaseObjects W (Some (id_array ps)) (length ps) sizeof_pointer c)"
| "pool_step (ReleaseEarly ps) (W, c) = Some (W, mulleReleasePoolObjects_inst W ps c)"
| "pool_step (ReleaseEarlyInAll ps) (W, c) = Some (W, mulleReleasePoolObjects_class W ps c)"
| "pool_step (ReleaseAllOf a) (W, c) = map_option (Pair W) (releaseAllObjectsInPool W a c)"

text \<open>
  A pool lives at an address no other pool has, only an existing pool can be popped, and no
  \<open>nil\<close> is released early.
\<close>

fun pool_legal :: "pool_call \<Rightarrow> 'm world \<times> 'm poolconf \<Rightarrow> bool" where
  "pool_legal (Push a) (W, c) = (a \<notin> paddr ` set (pools c))"
| "pool_legal (Pop a) (W, c) = (a \<in> paddr ` set (pools c))"
| "pool_legal (Dealloc a) (W, c) = (a \<in> paddr ` set (pools c))"
| "pool_legal (Autorelease p) (W, c) = True"
| "pool_legal (AutoreleaseMany ps) (W, c) = True"
| "pool_legal (ReleaseEarly ps) (W, c) = (nil \<notin> set ps)"
| "pool_legal (ReleaseEarlyInAll ps) (W, c) = (nil \<notin> set ps)"
| "pool_legal (ReleaseAllOf a) (W, c) = True"

definition pool_ok :: "'m world \<times> 'm poolconf \<Rightarrow> bool" where
  "pool_ok s \<longleftrightarrow>
     map_laws (mops (fst s)) \<and> (\<exists>rank. ranked (fst s) rank) \<and> conf_ok (fst s) (snd s)"

lemma pop_returns:
  assumes "pool_ok (W, c)" and "a \<in> paddr ` set (pools c)"
  obtains c' where "popAutoreleasePool W a c = Some (Done c')" and "pools c' = remaining a (pools c)"
    and "conf_ok W c'"
proof -
  obtain rank where w: "map_laws (mops W)" "ranked W rank" "conf_ok W c" and "structure_ok c"
    using assms(1) by (auto simp: pool_ok_def conf_inv_def)
  obtain r where r: "popAutoreleasePool W a c = Some r"
    using pop_terminates [OF w(2) \<open>structure_ok c\<close>] by blast
  obtain c' where "r = Done c'" "pools c' = remaining a (pools c)"
    using pop_result_in [OF \<open>structure_ok c\<close> r assms(2)] .
  moreover from this r have "conf_ok W c'"
    using pop_inv [OF w(1,3)] by simp
  ultimately show ?thesis
    using that r by simp
qed

lemma pool_ok_structure: "pool_ok (W, c) \<Longrightarrow> structure_ok c"
  by (simp add: pool_ok_def conf_inv_def)

lemma pool_step_ok:
  assumes "pool_ok s" and "pool_legal x s"
  shows "\<exists>s'. pool_step x s = Some s' \<and> pool_ok s'"
proof -
  obtain W c where s: "s = (W, c)" by (cases s)
  obtain rank where w: "map_laws (mops W)" "ranked W rank" "conf_ok W c"
    using assms(1) s by (auto simp: pool_ok_def)
  note ok = assms(1) [unfolded s]
  have "\<exists>c'. pool_step x s = Some (W, c') \<and> conf_ok W c'"
  proof (cases x)
    case (Pop a)
    then have "a \<in> paddr ` set (pools c)" using assms(2) s by simp
    with ok obtain c' where "popAutoreleasePool W a c = Some (Done c')" "conf_ok W c'"
      by (rule pop_returns)
    then show ?thesis using Pop s by (simp add: returned_def)
  next
    case (Dealloc a)
    then have "a \<in> paddr ` set (pools c)" using assms(2) s by simp
    with ok obtain c' where "popAutoreleasePool W a c = Some (Done c')" "conf_ok W c'"
      by (rule pop_returns)
    then show ?thesis
      using Dealloc s dealloc_eq_pop [OF pool_ok_structure [OF ok]] by (simp add: returned_def)
  next
    case (ReleaseAllOf a)
    obtain c' where c': "releaseAllObjectsInPool W a c = Some c'"
      using releaseAllObjectsInPool_terminates [OF w(2)] by blast
    then have "conf_ok W c'"
      using releaseAllObjectsInPool_inv w by blast
    with c' show ?thesis using ReleaseAllOf s by simp
  qed (use w s assms(2) in \<open>auto intro!: wf_intros\<close>)
  then show ?thesis
    using w by (auto simp: pool_ok_def)
qed

interpretation pool: live_invariant pool_step pool_legal pool_ok
  by unfold_locales (use pool_step_ok in fastforce)+

section \<open>A concrete world for the witnesses\<close>

text \<open>A function as pointer map; releasing the object 10 autoreleases the object 5.\<close>

definition fun_mops :: "(oid \<Rightarrow> NSUInteger) mapops" where
  "fun_mops = \<lparr>mget = (\<lambda>m k. m k), mput = (\<lambda>m k v. m(k := v)), mremove = (\<lambda>m k. m(k := 0))\<rparr>"

definition demo_world :: "(oid \<Rightarrow> NSUInteger) world" where
  "demo_world = \<lparr>mops = fun_mops, is_constant = (\<lambda>p. p = 99), react = (\<lambda>h p. if p = 10 then [5] else [])\<rparr>"

definition quiet_world :: "(oid \<Rightarrow> NSUInteger) world" where
  "quiet_world = \<lparr>mops = fun_mops, is_constant = (\<lambda>p. p = 99), react = (\<lambda>h p. [])\<rparr>"

definition empty_conf :: "'m option \<Rightarrow> 'm poolconf" where
  "empty_conf m = \<lparr>pools = [], releasing = False, object_map = m, sent = [], added = [], heap_live = 0\<rparr>"

lemma fun_mops_laws [simp]: "map_laws fun_mops"
  by (simp add: map_laws_def fun_mops_def)

lemma demo_world_simps [simp]:
  "mops demo_world = fun_mops" "is_constant demo_world p = (p = 99)"
  "react demo_world h p = (if p = 10 then [5] else [])"
  "mops quiet_world = fun_mops" "is_constant quiet_world p = (p = 99)" "react quiet_world h p = []"
  by (simp_all add: demo_world_def quiet_world_def)

lemma demo_world_ranked: "ranked demo_world id"
  by (simp add: ranked_def)

lemma quiet_world_quiet: "quiet quiet_world"
  by (simp add: quiet_def)

lemma empty_conf_ok [simp]: "conf_ok W (empty_conf None)" "conf_ok demo_world (empty_conf (Some (\<lambda>_. 0)))"
  by (simp_all add: inv_defs empty_conf_def pool_contents_def fun_mops_def)

lemma demo_start_ok: "pool_ok (demo_world, empty_conf (Some (\<lambda>_. 0)))"
  using demo_world_ranked by (auto simp: pool_ok_def)

text \<open>Two nested pools, with the objects 10 and 7 in the outer and 8 in the inner one.\<close>

definition demo_conf :: "(oid \<Rightarrow> NSUInteger) poolconf" where
  "demo_conf = \<lparr>pools = [\<lparr>paddr = 2, storage = [\<lparr>objects = [8], acount = 1, heap_array = False\<rparr>]\<rparr>,
                         \<lparr>paddr = 1, storage = [\<lparr>objects = [10, 7], acount = 2, heap_array = False\<rparr>]\<rparr>],
      releasing = False, object_map = Some ((\<lambda>_. 0)(8 := 1, 10 := 1, 7 := 1)),
      sent = [], added = [10, 7, 8], heap_live = 0\<rparr>"

lemma demo_conf_ok: "conf_ok demo_world demo_conf" "conf_ok quiet_world demo_conf"
  by (auto simp: inv_defs demo_conf_def pool_contents_def fun_mops_def storage_ok_def n_objects_eq
      nil_def not_nil_def)

lemma demo_conf_simps [simp]:
  "paddr ` set (pools demo_conf) = {1, 2}"
  by (auto simp: demo_conf_def)

section \<open>The queries against the contents\<close>

lemma contains_walk:
  "mulleContainsObject_class W (c\<lparr>object_map := None\<rparr>) p \<longleftrightarrow> p \<in> set (pool_contents c)"
proof -
  have "mulleContainsObject q p \<longleftrightarrow> p \<in> set (contents (storage q))" for q
    by (auto simp: mulleContainsObject_def parray_contains_iff)
  then show ?thesis
    by (auto simp: mulleContainsObject_class_def list_ex_iff pool_contents_def)
qed

lemma scast_of_nat_up:
  assumes "n < 2 ^ 31"
  shows "scast (of_nat n :: uint32) = (of_nat n :: NSUInteger)"
proof -
  have "sint (of_nat n :: uint32) = int n"
    using assms by (simp add: signed_of_nat signed_take_bit_eq_if_positive bit_iff_odd take_bit_nat_eq_self)
      (simp add: take_bit_int_eq_self)
  then show ?thesis by (metis of_int_of_nat_eq of_int_sint)
qed

lemma fold_count_pools:
  "(\<Sum>q \<leftarrow> qs. count_list (contents (storage q)) p) < 2 ^ 31 \<Longrightarrow>
   fold (\<lambda>q n. n + scast (mulleCountObject q p)) qs (n :: NSUInteger) =
     n + of_nat (\<Sum>q \<leftarrow> qs. count_list (contents (storage q)) p)"
proof (induction qs arbitrary: n)
  case (Cons q qs)
  have "mulleCountObject q p = of_nat (count_list (contents (storage q)) p)"
    by (simp add: mulleCountObject_def parray_count_object_eq)
  moreover have "count_list (contents (storage q)) p < 2 ^ 31"
    using Cons.prems by simp
  ultimately show ?case
    using Cons by (simp add: scast_of_nat_up add.assoc)
qed simp

lemma count_walk:
  assumes "count_list (pool_contents c) p < 2 ^ 31"
  shows "mulleCountObject_class W (c\<lparr>object_map := None\<rparr>) p = of_nat (count_list (pool_contents c) p)"
  using fold_count_pools [where qs = "pools c" and p = p and n = 0] assms
  by (simp add: mulleCountObject_class_def pool_contents_def count_list_concat_map)

lemma count_not_nil_list: "p \<noteq> nil \<Longrightarrow> count (not_nil ps) p = count_list ps p"
  by (induction ps) (auto simp: nil_def)

lemma map_lookup:
  "conf_ok W c \<Longrightarrow> object_map c = Some m \<Longrightarrow> p \<noteq> nil \<Longrightarrow>
     mget (mops W) m p = of_nat (count_list (pool_contents c) p)"
  by (auto simp: conf_inv_def map_counts_def count_not_nil_list)

section \<open>Bulk and single insertion\<close>

lemma fold_autorelease_effect:
  assumes "pools c = q # qs" and "\<forall>p \<in> set ps. \<not> (p \<noteq> nil \<and> is_constant W p)"
  shows "\<exists>st. pools (fold (autoreleaseObject W) ps c) = q\<lparr>storage := st\<rparr> # qs
    \<and> contents st = contents (storage q) @ ps
    \<and> object_map (fold (autoreleaseObject W) ps c) = map_option (fold (map_incr (mops W)) ps) (object_map c)"
  using assms
proof (induction ps arbitrary: c q)
  case Nil
  then show ?case by (auto intro!: exI [of _ "storage q"] simp: option.map_ident)
next
  case (Cons p ps)
  let ?c = "c\<lparr>object_map := map_option (map_incr (mops W) p) (object_map c)\<rparr>"
  have "pools ?c = q # qs" using Cons.prems(1) by simp
  then obtain st where st: "pools (addObject p ?c) = q\<lparr>storage := st\<rparr> # qs" "contents st = contents (storage q) @ [p]"
    by (rule addObject_pools)
  have "autoreleaseObject W p c = addObject p ?c"
    using Cons.prems by (auto simp: autoreleaseObject_def)
  moreover have "object_map (addObject p ?c) = map_option (map_incr (mops W) p) (object_map c)"
    by (simp add: addObject_def Let_def split: list.splits)
  ultimately show ?case
    using Cons.IH [OF st(1)] Cons.prems(2) st(2) by (simp add: option.map_comp comp_def)
qed

lemma bulk_effect:
  assumes "pools c = q # qs" and "storage_ok (storage q)"
  shows "\<exists>st. pools (autoreleaseObjects W (Some (id_array ps)) (length ps) sizeof_pointer c) = q\<lparr>storage := st\<rparr> # qs
    \<and> contents st = contents (storage q) @ ps
    \<and> object_map (autoreleaseObjects W (Some (id_array ps)) (length ps) sizeof_pointer c)
        = map_option (fold (map_incr (mops W)) ps) (object_map c)"
proof -
  obtain st k where "add_blocks ps (storage q) = (st, k)"
    by (cases "add_blocks ps (storage q)") auto
  with add_blocks_ok [OF assms(2) this] assms(1) show ?thesis
    by (cases "ps = []")
      (auto simp: autoreleaseObjects_def addObjects_def option.map_id intro: exI [of _ "storage q"])
qed

text \<open>The sum of the \<open>count\<close> fields, which the block copy does not touch.\<close>

lemma parray_count_sum: "parray_count st = (\<Sum>a \<leftarrow> st. ucast (acount a))"
proof -
  have step: "ucast (ucast n + acount a) = n + (ucast (acount a) :: uint32)" for n :: uint32 and a
  proof -
    have "acount a = of_nat (unat (acount a))" by simp
    moreover have "ucast (ucast n + of_nat k :: NSUInteger) = n + (of_nat k :: uint32)" for k
      by (rule ucast_add_down) simp
    moreover have "ucast (of_nat k :: NSUInteger) = (of_nat k :: uint32)" for k
      by (rule ucast_of_nat_down) simp
    ultimately show ?thesis by metis
  qed
  have "fold (\<lambda>a n. ucast (ucast n + acount a)) xs (n :: uint32) = n + (\<Sum>a \<leftarrow> xs. ucast (acount a))" for xs :: storage and n
    by (induction xs arbitrary: n) (simp_all add: step add.assoc)
  then have "parray_count st = (\<Sum>a \<leftarrow> rev st. ucast (acount a))"
    by (simp add: parray_count_def)
  then show ?thesis by (simp add: rev_map [symmetric])
qed

lemma parray_count_replace_last:
  "st \<noteq> [] \<Longrightarrow> acount b = acount (last st) \<Longrightarrow> parray_count (butlast st @ [b]) = parray_count st"
  using sum_list_butlast_last [of st "\<lambda>a. ucast (acount a) :: uint32"] by (simp add: parray_count_sum)

lemma add_blocks_count: "parray_count (fst (add_blocks ps st)) = parray_count st"
proof (induction ps st rule: add_blocks.induct)
  case (1 ps st)
  show ?case
  proof (cases "ps = []")
    case True
    then show ?thesis by (simp add: add_blocks.simps)
  next
    case False
    define fresh where "fresh = (parray_space_left st = 0)"
    define s where "s = (if fresh then parray_create st else st)"
    define space where "space = (if fresh then n_objects else parray_space_left st)"
    define amount where "amount = (if length ps < space then length ps else space)"
    define b where "b = append_block (last s) (take amount ps)"
    have "s \<noteq> []" by (auto simp: s_def fresh_def parray_space_left_def)
    then have "parray_count (butlast s @ [b]) = parray_count s"
      by (intro parray_count_replace_last) (simp_all add: b_def append_block_def)
    also have "\<dots> = parray_count st"
      by (simp add: s_def parray_count_sum parray_create_def)
    finally have "parray_count (butlast s @ [b]) = parray_count st" .
    moreover have "fst (add_blocks ps st) = fst (add_blocks (drop amount ps) (butlast s @ [b]))"
      unfolding b_def amount_def space_def s_def fresh_def
      using False by (subst add_blocks.simps) (simp add: Let_def split: prod.splits)
    ultimately show ?thesis
      using "1.IH" [OF False fresh_def s_def space_def amount_def] by (simp add: b_def)
  qed
qed

section \<open>Properties\<close>

text \<open>
  C1. Any sequence of admissible calls on a thread's pools (push, pop, dealloc, autorelease of
  one or many objects, early release, wiping one pool) returns, and keeps the invariant of the
  pools: well-formed arrays, distinct pools, no array leaked or freed twice, the debug map equal
  to the number of occurrences, and every object either still in a pool or released exactly once.
\<close>

theorem pool_run_ok:
  assumes "pool_ok s" and "legal_run pool_step pool_legal calls s"
  shows "\<exists>s'. run pool_step calls s = Some s' \<and> pool_ok s'"
  using assms by (rule pool.run_returns)

theorem pool_run_ok_witness:
  "\<exists>s'. run pool_step [Push 1, Autorelease 10, Push 2, Autorelease 7, ReleaseEarly [7]]
      (demo_world, empty_conf (Some (\<lambda>_. 0))) = Some s' \<and> pool_ok s'"
  by (rule pool_run_ok [OF demo_start_ok])
    (simp add: empty_conf_def pushAutoreleasePool_def autoreleaseObject_def addObject_def nil_def Let_def)

text \<open>
  C2. A pop that returns has sent every object of the popped pools exactly one release for each
  of its autoreleases, including the objects that were autoreleased while the pop was running,
  and has sent no other release: releases after plus autoreleases before equal releases before
  plus the popped contents plus autoreleases after.
\<close>

theorem pop_releases_exactly_once:
  assumes "map_laws (mops W)" and "conf_ok W c" and "popAutoreleasePool W a c = Some (Done c')"
  shows "mset (sent c') + not_nil (added c) =
    mset (sent c) + not_nil (concat (map (\<lambda>q. contents (storage q)) (popped a (pools c)))) + not_nil (added c')"
proof -
  have "structure_ok c" using assms(2) by (simp add: conf_inv_def)
  from pop_result [OF this assms(3)] have "pools c' = remaining a (pools c)"
    by (auto split: if_splits)
  moreover have "pool_contents c =
      concat (map (\<lambda>q. contents (storage q)) (popped a (pools c) @ remaining a (pools c)))"
    by (simp only: popped_remaining pool_contents_def)
  moreover have "ledger {#} c" "ledger {#} c'"
    using assms pop_inv [OF assms] by (simp_all add: conf_inv_def)
  ultimately show ?thesis
    by (simp add: ledger_def pool_contents_def ac_simps)
qed

theorem pop_releases_exactly_once_witness:
  "\<exists>c'. popAutoreleasePool demo_world 1 demo_conf = Some (Done c') \<and>
     mset (sent c') + not_nil (added demo_conf) = mset (sent demo_conf)
       + not_nil (concat (map (\<lambda>q. contents (storage q)) (popped 1 (pools demo_conf)))) + not_nil (added c')"
proof -
  have "pool_ok (demo_world, demo_conf)"
    using demo_conf_ok(1) demo_world_ranked by (auto simp: pool_ok_def)
  then obtain c' where "popAutoreleasePool demo_world 1 demo_conf = Some (Done c')"
    by (rule pop_returns [where a = 1]) simp_all
  then show ?thesis
    using pop_releases_exactly_once [OF _ demo_conf_ok(1)] by simp
qed

text \<open>
  When the releases do not autorelease anything, a pop sends the releases of a pool in the
  reverse order of the autoreleases, innermost pool first, and leaves the outer pools alone.
\<close>

theorem pop_lifo:
  assumes "quiet W" and "structure_ok c" and "a \<in> paddr ` set (pools c)"
  shows "\<exists>c'. popAutoreleasePool W a c = Some (Done c') \<and> pools c' = remaining a (pools c)
    \<and> sent c' = sent c @ concat (map (\<lambda>q. lifo (contents (storage q))) (popped a (pools c)))"
  using assms by (rule pop_quiet_order)

theorem pop_lifo_witness:
  "\<exists>c'. popAutoreleasePool quiet_world 1 demo_conf = Some (Done c') \<and> sent c' = [8, 7, 10]"
proof -
  have "structure_ok demo_conf"
    using demo_conf_ok(2) by (simp add: conf_inv_def)
  then show ?thesis
    using pop_lifo [OF quiet_world_quiet, of demo_conf 1] by (auto simp: demo_conf_def nil_def)
qed

text \<open>
  C3. When every object autoreleases, while it is released, only objects of smaller rank, a pop
  always ends: it removes the pool and all pools inside it and leaves the others, or it aborts
  when the pool does not exist.
\<close>

theorem pop_total:
  assumes "ranked W rank" and "structure_ok c"
  shows "\<exists>r. popAutoreleasePool W a c = Some r \<and>
    (if a \<in> paddr ` set (pools c)
     then \<exists>c'. r = Done c' \<and> pools c' = remaining a (pools c) \<and> releasing c' = (pools c' = [])
     else r = Abort)"
proof -
  obtain r where r: "popAutoreleasePool W a c = Some r"
    using pop_terminates [OF assms] by blast
  from pop_result [OF assms(2) this] r show ?thesis by blast
qed

theorem pop_total_witness:
  "popAutoreleasePool demo_world 3 demo_conf = Some Abort"
  using pop_total [OF demo_world_ranked, of demo_conf 3] demo_conf_ok(1)
  by (auto simp: conf_inv_def)

text \<open>
  Sending \<open>-dealloc\<close> to a pool does what popping to it does: the loop of \<open>-dealloc\<close>, which
  pops one pool at a time, and the loop of \<open>popAutoreleasePool\<close> agree in all cases, the abort and
  the endless wipe included.
\<close>

theorem dealloc_is_pop:
  assumes "structure_ok c"
  shows "dealloc W self c = popAutoreleasePool W self c"
  using assms by (rule dealloc_eq_pop)

theorem dealloc_is_pop_witness:
  "dealloc demo_world 1 demo_conf = popAutoreleasePool demo_world 1 demo_conf"
  by (rule dealloc_is_pop) (use demo_conf_ok(1) in \<open>simp add: conf_inv_def\<close>)

text \<open>
  With the debug map switched on, \<open>+mulleContainsObject:\<close> answers from the map, without it by
  a walk over all pools: both give the same answer, and it is whether the object is in a pool.
\<close>

theorem contains_map_eq_walk:
  assumes "conf_ok W c" and "object_map c = Some m" and "p \<noteq> nil"
    and "count_list (pool_contents c) p < 2 ^ 64"
  shows "mulleContainsObject_class W c p = mulleContainsObject_class W (c\<lparr>object_map := None\<rparr>) p
    \<and> (mulleContainsObject_class W c p \<longleftrightarrow> p \<in> set (pool_contents c))"
proof -
  have "mulleContainsObject_class W c p \<longleftrightarrow> (of_nat (count_list (pool_contents c) p) :: NSUInteger) \<noteq> 0"
    using map_lookup [OF assms(1-3)] assms(2) by (simp add: mulleContainsObject_class_def)
  also have "\<dots> \<longleftrightarrow> p \<in> set (pool_contents c)"
    using of_nat_word_eq_0_iff [where 'a = 64, of "count_list (pool_contents c) p"] assms(4)
    by (simp add: count_list_0_iff)
  finally show ?thesis by (simp add: contains_walk)
qed

theorem contains_map_eq_walk_witness:
  "mulleContainsObject_class demo_world demo_conf 7 = mulleContainsObject_class demo_world (demo_conf\<lparr>object_map := None\<rparr>) 7"
  by (rule contains_map_eq_walk [OF demo_conf_ok(1), THEN conjunct1])
    (simp_all add: demo_conf_def nil_def pool_contents_def)

text \<open>
  \<open>+mulleCountObject:\<close> likewise: the map and the walk give the same count, the number of
  autoreleases of the object that no pool has released yet, as long as it fits the \<open>int\<close> which the
  walk sums up.
\<close>

theorem count_map_eq_walk:
  assumes "conf_ok W c" and "object_map c = Some m" and "p \<noteq> nil"
    and "count_list (pool_contents c) p < 2 ^ 31"
  shows "mulleCountObject_class W c p = mulleCountObject_class W (c\<lparr>object_map := None\<rparr>) p"
  using map_lookup [OF assms(1-3)] assms(2) count_walk [OF assms(4)]
  by (simp add: mulleCountObject_class_def)

theorem count_map_eq_walk_witness:
  "mulleCountObject_class demo_world demo_conf 10 = mulleCountObject_class demo_world (demo_conf\<lparr>object_map := None\<rparr>) 10"
  by (rule count_map_eq_walk [OF demo_conf_ok(1)])
    (simp_all add: demo_conf_def nil_def pool_contents_def)

text \<open>
  An early release takes all occurrences of the given objects out of the innermost pool, sends
  one release for each (the invariant, with its ledger, still holds), and leaves nothing for the
  pop to release again, provided the released objects do not put them back.
\<close>

theorem early_release_removes:
  assumes "map_laws (mops W)" and "conf_ok W c" and "pools c = q # qs"
    and "nil \<notin> set ps" and "not_revived W (set ps)"
  shows "conf_ok W (mulleReleasePoolObjects_inst W ps c)
    \<and> set (contents (chain (paddr q) (mulleReleasePoolObjects_inst W ps c))) \<inter> set ps = {}"
  using mulleReleasePoolObjects_inst_inv [OF assms(1,4,2)] releaseObjects_removes [OF assms(5,4), of "paddr q" c]
    assms(3) by (simp add: mulleReleasePoolObjects_inst_def)

theorem early_release_removes_witness:
  "set (contents (chain 2 (mulleReleasePoolObjects_inst demo_world [8] demo_conf))) \<inter> {8} = {}"
proof -
  have p: "pools demo_conf = hd (pools demo_conf) # tl (pools demo_conf)"
    by (simp add: demo_conf_def)
  have "paddr (hd (pools demo_conf)) = 2"
    by (simp add: demo_conf_def)
  then show ?thesis
    using early_release_removes [OF _ demo_conf_ok(1) p, of "[8]"] by (simp add: not_revived_def nil_def)
qed

text \<open>
  Tearing the pools of a thread down returns, releases every object that was ever put into a
  pool exactly once, and frees every array it allocated.
\<close>

theorem done_releases_everything:
  assumes "map_laws (mops W)" and "conf_ok W c" and "ranked W rank"
  shows "\<exists>c'. poolconfiguration_done W c = Some (Done c') \<and> pools c' = [] \<and> heap_live c' = 0
    \<and> mset (sent c') = not_nil (added c') \<and> object_map c' = None"
proof -
  obtain c' where c': "pop_all W c = Some (Done c')" "pools c' = []" "conf_inv W {#} 0 c'"
    using pop_all_result [OF assms] by blast
  then show ?thesis
    by (auto simp: poolconfiguration_done_def inv_defs pool_contents_def)
qed

theorem done_releases_everything_witness:
  "\<exists>c'. poolconfiguration_done demo_world demo_conf = Some (Done c') \<and> pools c' = [] \<and> heap_live c' = 0
    \<and> mset (sent c') = not_nil (added c') \<and> object_map c' = None"
  by (rule done_releases_everything [OF _ demo_conf_ok(1) demo_world_ranked]) simp

text \<open>
  Autoreleasing an array of objects in one call leaves the same objects in the same order in
  the pool, and the same map, as autoreleasing them one by one, if no object is constant.
\<close>

theorem bulk_eq_singles:
  assumes "structure_ok c" and "\<forall>p \<in> set ps. p = nil \<or> \<not> is_constant W p"
  defines "b \<equiv> autoreleaseObjects W (Some (id_array ps)) (length ps) sizeof_pointer c"
  shows "pool_contents b = pool_contents (fold (autoreleaseObject W) ps c)
    \<and> object_map b = object_map (fold (autoreleaseObject W) ps c)"
proof (cases "pools c")
  case Nil
  have "fold (autoreleaseObject W) ps c = c"
    by (induction ps) (simp_all add: autoreleaseObject_def Nil)
  then show ?thesis using Nil by (simp add: b_def autoreleaseObjects_def)
next
  case (Cons q qs)
  then have "storage_ok (storage q)" using assms(1) by (simp add: structure_ok_def)
  from bulk_effect [OF Cons this, of W ps] fold_autorelease_effect [OF Cons, of ps W] assms(2)
  show ?thesis unfolding b_def by (auto simp: pool_contents_def)
qed

theorem bulk_eq_singles_witness:
  "pool_contents (autoreleaseObjects demo_world (Some (id_array [3, 4])) (length [3, 4 :: oid]) sizeof_pointer demo_conf)
     = pool_contents (fold (autoreleaseObject demo_world) [3, 4] demo_conf)"
proof -
  have "structure_ok demo_conf" using demo_conf_ok(1) by (simp add: conf_inv_def)
  from bulk_eq_singles [OF this, of "[3, 4]" demo_world] show ?thesis by simp
qed

text \<open>
  A constant object is never put into a pool by \<open>-autorelease\<close>, which would hand it out
  twice, but the bulk insertion lacks the test and takes it.
\<close>

theorem bulk_takes_constants:
  assumes "structure_ok c" and "pools c \<noteq> []" and "p \<noteq> nil" and "is_constant W p"
  shows "autoreleaseObject W p c = c
    \<and> p \<in> set (pool_contents (autoreleaseObjects W (Some (id_array [p])) (length [p]) sizeof_pointer c))"
proof -
  obtain q qs where c: "pools c = q # qs" using assms(2) by (cases "pools c") auto
  then have "storage_ok (storage q)" using assms(1) by (simp add: structure_ok_def)
  from bulk_effect [OF c this, of W "[p]"] show ?thesis
    using assms(3,4) by (auto simp: autoreleaseObject_def pool_contents_def)
qed

theorem bulk_takes_constants_witness:
  "99 \<in> set (pool_contents (autoreleaseObjects demo_world (Some (id_array [99])) (length [99 :: oid]) sizeof_pointer demo_conf))"
proof -
  have "structure_ok demo_conf" using demo_conf_ok(1) by (simp add: conf_inv_def)
  from bulk_takes_constants [OF this, of 99 demo_world] show ?thesis
    by (simp add: demo_conf_def nil_def)
qed

text \<open>
  The bulk insertion does not count what it inserts: \<open>+mulleCount\<close> answers the same before and
  after, whatever was inserted.
\<close>

theorem bulk_not_counted:
  "mulleCount_class (autoreleaseObjects W buffer n step (c :: 'm poolconf)) = mulleCount_class c"
proof -
  have "mulleCount (q\<lparr>storage := fst (add_blocks ps (storage q))\<rparr>) = mulleCount q" for q ps
    using add_blocks_count [of ps "storage q"]
    by (auto simp: mulleCount_def parray_count_def)
  then have "mulleCount_class (addObjects ps d) = mulleCount_class d" for ps and d :: "'m poolconf"
    by (auto simp: addObjects_def mulleCount_class_def split: list.splits prod.splits) (metis fst_conv)+
  moreover have "mulleCount_class (d\<lparr>object_map := om\<rparr>) = mulleCount_class d" for d :: "'m poolconf" and om
    by (simp add: mulleCount_class_def)
  ultimately show ?thesis
    by (simp add: autoreleaseObjects_def split: option.splits)
qed

text \<open>
  With a spacing other than the size of a pointer the bulk insertion feeds the debug map
  from the wrong places: here it inserts the objects 3 and 5 that lie 16 bytes apart, but counts
  3 and the word between them, and \<open>+mulleContainsObject:\<close> denies the object 5 that the pool holds.
\<close>

theorem spaced_add_confuses_map:
  "let c = autoreleaseObjects demo_world (Some (\<lambda>i. if i = 0 then 3 else if i = 8 then 4 else 5)) 2 16
             (pushAutoreleasePool 1 (empty_conf (Some (\<lambda>_. 0))))
   in pool_contents c = [3, 5] \<and> \<not> mulleContainsObject_class demo_world c 5
      \<and> mulleContainsObject_class demo_world c 4"
  by (simp add: autoreleaseObjects_def pushAutoreleasePool_def empty_conf_def addObjects_def
      strided_def upt_rec sizeof_pointer_def add_blocks.simps Let_def parray_space_left_def n_objects_eq
      append_block_def pool_contents_def mulleContainsObject_class_def fun_mops_def map_incr_def)

end
