(* ===== verification/PoolThread.thy ===== *)
theory PoolThread
  imports PoolProps
begin

text \<open>
  The pools of the current thread as the rest of the program sees them: the thread information
  (\<open>src/mulle-objc-threadfoundationinfo.h\<close>), the functions that autorelease through it
  (\<open>src/class/MulleObjCAutoreleasePool.h\<close>) and the functions that push and pop pools
  (\<open>src/class/NSAutoreleasePool.h\<close>), with the methods of the pool class that theory
  \<open>AutoreleasePool\<close> leaves out.

  Every call goes through the function pointers in the configuration of the thread; the pointers are
  functions here.  A universe and an object belong to a thread by \<open>info\<close>: the model has the one
  universe of the program and the current thread, so that looking up the configuration is a field
  access.  Push takes the address of the new pool as an argument.
\<close>

section \<open>The thread information\<close>

record 'm poolconfiguration =
  v_autoreleaseObject :: "oid \<Rightarrow> 'm poolconf \<Rightarrow> 'm poolconf"
  v_autoreleaseObjects :: "(nat \<Rightarrow> oid) option \<Rightarrow> nat \<Rightarrow> nat \<Rightarrow> 'm poolconf \<Rightarrow> 'm poolconf"
  conf :: "'m poolconf"
  poolClass :: ref
  v_push :: "nat \<Rightarrow> 'm poolconf \<Rightarrow> 'm poolconf"
  v_pop :: "nat \<Rightarrow> 'm poolconf \<Rightarrow> 'm poolconf outcome option"
  trace :: int
  maxObjects :: uint32

record 'm threadfoundationinfo =
  poolconfig :: "'m poolconfiguration"
  info_allocator :: ref

definition threadfoundationinfo_get_poolconfiguration ::
    "'m threadfoundationinfo \<Rightarrow> 'm poolconfiguration" where
  "threadfoundationinfo_get_poolconfiguration foundation = poolconfig foundation"

text \<open>\<open>foundationspace\<close> finds the foundation's part in the thread information of the runtime.\<close>

definition threadinfo_get_poolconfiguration ::
    "('t \<Rightarrow> 'm threadfoundationinfo) \<Rightarrow> 't \<Rightarrow> 'm poolconfiguration" where
  "threadinfo_get_poolconfiguration foundationspace config =
     (let foundation = foundationspace config in poolconfig foundation)"

definition thread_get_poolconfiguration :: "'m threadfoundationinfo \<Rightarrow> 'm poolconfiguration" where
  "thread_get_poolconfiguration info = threadfoundationinfo_get_poolconfiguration info"

definition thread_get_autoreleasepoolclass :: "'m threadfoundationinfo \<Rightarrow> ref" where
  "thread_get_autoreleasepoolclass info =
     (let poolconfig = thread_get_poolconfiguration info in poolClass poolconfig)"

text \<open>A call through a function pointer that works on the configuration.\<close>

definition with_conf :: "('m poolconf \<Rightarrow> 'm poolconf) \<Rightarrow> 'm threadfoundationinfo \<Rightarrow> 'm threadfoundationinfo" where
  "with_conf f info = info\<lparr>poolconfig := (poolconfig info)\<lparr>conf := f (conf (poolconfig info))\<rparr>\<rparr>"

section \<open>Configuration\<close>

text \<open>
  \<open>_mulle_objc_poolconfiguration_init\<close> installs the functions; \<open>fresh_map\<close> is the debug map if it is
  wanted, \<open>trace_level\<close> what the environment says.
\<close>

definition poolconfiguration_install ::
    "'m world \<Rightarrow> ref \<Rightarrow> 'm option \<Rightarrow> int \<Rightarrow> 'm poolconfiguration \<Rightarrow> 'm poolconfiguration" where
  "poolconfiguration_install W cls fresh_map trace_level config =
     config\<lparr>poolClass := cls,
       v_autoreleaseObject := autoreleaseObject W,
       v_autoreleaseObjects := autoreleaseObjects W,
       v_push := pushAutoreleasePool,
       v_pop := popAutoreleasePool W,
       conf := poolconfiguration_init fresh_map (conf config),
       trace := trace_level\<rparr>"

definition thread_new_poolconfiguration ::
    "'m world \<Rightarrow> ref \<Rightarrow> 'm option \<Rightarrow> int \<Rightarrow> nat \<Rightarrow> 'm threadfoundationinfo \<Rightarrow> 'm threadfoundationinfo" where
  "thread_new_poolconfiguration W cls fresh_map trace_level a info =
     (let config = poolconfiguration_install W cls fresh_map trace_level (poolconfig info)
      in info\<lparr>poolconfig := config\<lparr>conf := v_push config a (conf config)\<rparr>\<rparr>)"

section \<open>Autoreleasing\<close>


definition object_autorelease :: "oid \<Rightarrow> 'm threadfoundationinfo \<Rightarrow> oid \<times> 'm threadfoundationinfo" where
  "object_autorelease obj info =
     (let config = thread_get_poolconfiguration info in (obj, with_conf (v_autoreleaseObject config obj) info))"

definition MulleObjCAutoreleaseObjects ::
    "(nat \<Rightarrow> oid) option \<Rightarrow> nat \<Rightarrow> 'm threadfoundationinfo \<Rightarrow> 'm threadfoundationinfo" where
  "MulleObjCAutoreleaseObjects objs n info =
     (let config = thread_get_poolconfiguration info
      in with_conf (v_autoreleaseObjects config objs n sizeof_pointer) info)"

definition MulleObjCAutoreleaseSpacedObjects ::
    "(nat \<Rightarrow> oid) option \<Rightarrow> nat \<Rightarrow> nat \<Rightarrow> 'm threadfoundationinfo \<Rightarrow> 'm threadfoundationinfo" where
  "MulleObjCAutoreleaseSpacedObjects objs n step info =
     (let config = thread_get_poolconfiguration info
      in with_conf (v_autoreleaseObjects config objs n step) info)"


section \<open>Pushing and popping\<close>

text \<open>
  A universe is the reference that \<open>lookup\<close> finds for its identifier; the null pointer when there is
  none, and then no pool is pushed.
\<close>

definition autoreleasepool_push ::
    "ref \<Rightarrow> nat \<Rightarrow> 'm threadfoundationinfo \<Rightarrow> nat option \<times> 'm threadfoundationinfo" where
  "autoreleasepool_push universe a info =
     (if universe = 0 then (None, info)
      else let config = thread_get_poolconfiguration info in (Some a, with_conf (v_push config a) info))"

definition autoreleasepool_push_id ::
    "(uint32 \<Rightarrow> ref) \<Rightarrow> uint32 \<Rightarrow> nat \<Rightarrow> 'm threadfoundationinfo \<Rightarrow> nat option \<times> 'm threadfoundationinfo" where
  "autoreleasepool_push_id lookup universeid a info =
     (let universe = lookup universeid in autoreleasepool_push universe a info)"

definition MulleAutoreleasePoolPush ::
    "(uint32 \<Rightarrow> ref) \<Rightarrow> uint32 \<Rightarrow> nat \<Rightarrow> 'm threadfoundationinfo \<Rightarrow> nat option \<times> 'm threadfoundationinfo" where
  "MulleAutoreleasePoolPush lookup this_universeid a info = autoreleasepool_push_id lookup this_universeid a info"

definition NSPushAutoreleasePool ::
    "(uint32 \<Rightarrow> ref) \<Rightarrow> uint32 \<Rightarrow> uint32 \<Rightarrow> nat \<Rightarrow> 'm threadfoundationinfo \<Rightarrow> nat option \<times> 'm threadfoundationinfo" where
  "NSPushAutoreleasePool lookup default_universeid size_ignored a info =
     (let universe = lookup default_universeid in autoreleasepool_push universe a info)"



section \<open>More methods of the pool class\<close>

text \<open>The instance methods work on the innermost pool, whatever pool they are sent to.\<close>

definition addObject_method :: "oid \<Rightarrow> 'm threadfoundationinfo \<Rightarrow> 'm threadfoundationinfo" where
  "addObject_method p info = with_conf (v_autoreleaseObject (thread_get_poolconfiguration info) p) info"

definition mulleAddObjects :: "(nat \<Rightarrow> oid) option \<Rightarrow> nat \<Rightarrow> 'm threadfoundationinfo \<Rightarrow> 'm threadfoundationinfo" where
  "mulleAddObjects objs n info =
     with_conf (v_autoreleaseObjects (thread_get_poolconfiguration info) objs n sizeof_pointer) info"

definition mulleCountObject_inst :: "'m poolconf \<Rightarrow> oid \<Rightarrow> NSUInteger" where
  "mulleCountObject_inst c p = (case pools c of [] \<Rightarrow> 0 | q # _ \<Rightarrow> scast (mulleCountObject q p))"

definition mulleCount_inst :: "'m poolconf \<Rightarrow> NSUInteger" where
  "mulleCount_inst c = (case pools c of [] \<Rightarrow> 0 | q # _ \<Rightarrow> ucast (mulleCount q))"

definition mulleReleasePoolObject_inst :: "'m world \<Rightarrow> oid \<Rightarrow> 'm poolconf \<Rightarrow> 'm poolconf" where
  "mulleReleasePoolObject_inst W p c =
     (case pools c of [] \<Rightarrow> c | q # qs \<Rightarrow> releaseObjects W (paddr q) [p] c)"

definition mulleReleasePoolObject_class :: "'m world \<Rightarrow> oid \<Rightarrow> 'm poolconf \<Rightarrow> 'm poolconf" where
  "mulleReleasePoolObject_class W p c = fold (\<lambda>q. releaseObjects W (paddr q) [p]) (pools c) c"

text \<open>This one does work on the receiver, the pool at address \<open>self\<close>.\<close>

definition mulleReleaseAllPoolObjects :: "'m world \<Rightarrow> nat \<Rightarrow> 'm poolconf \<Rightarrow> 'm poolconf option" where
  "mulleReleaseAllPoolObjects W self c = releaseAllObjectsInPool W self c"

section \<open>The entry points of an installed configuration\<close>

definition installed :: "'m world \<Rightarrow> 'm threadfoundationinfo \<Rightarrow> bool" where
  "installed W info \<longleftrightarrow>
     v_autoreleaseObject (poolconfig info) = autoreleaseObject W \<and>
     v_autoreleaseObjects (poolconfig info) = autoreleaseObjects W \<and>
     v_push (poolconfig info) = pushAutoreleasePool \<and> v_pop (poolconfig info) = popAutoreleasePool W"


lemma new_poolconfiguration_installed:
  "installed W (thread_new_poolconfiguration W cls m t a info)"
  by (simp add: installed_def thread_new_poolconfiguration_def poolconfiguration_install_def Let_def)

lemma with_conf_installed [simp]: "installed W (with_conf f info) = installed W info"
  by (simp add: installed_def with_conf_def)

lemma conf_with_conf [simp]: "conf (poolconfig (with_conf f info)) = f (conf (poolconfig info))"
  by (simp add: with_conf_def)






section \<open>A block with its own pool\<close>





end
