(* ===== verification/EnumTable.thy ===== *)
theory EnumTable
  imports Prelude "HOL-Library.Sublist"
begin

text \<open>
  Printing and parsing of enumerations and option sets through name tables
  (\<open>src/mulle-objc-enum.m\<close>, \<open>src/mulle-objc-enum.h\<close>).

  A table is the list of its lines, \<open>len\<close> is its length.  A line is a C string, which may be the
  null pointer, and a value field of \<open>item_len\<close> bytes, kept as the 64 bit pattern whose low
  bytes are the field.  C strings are character lists without their terminator.  The text buffer
  of the library \<open>mulle-buffer\<close> is the record \<open>bufops\<close> with its documented behaviour as the
  hypothesis \<open>buf_laws\<close>.
\<close>

section \<open>Tables\<close>

record line =
  key :: "string option"
  field :: NSUInteger

type_synonym table = "line list"

text \<open>The \<open>switch\<close> over \<open>item_len\<close>; \<open>None\<close> is its \<open>default: abort()\<close>.\<close>

definition read_value :: "nat \<Rightarrow> line \<Rightarrow> NSUInteger option" where
  "read_value item_len l =
     (if item_len = 1 then Some (ucast (ucast (field l) :: 8 word))
      else if item_len = 2 then Some (ucast (ucast (field l) :: 16 word))
      else if item_len = 4 then Some (ucast (ucast (field l) :: 32 word))
      else if item_len = 8 then Some (field l)
      else None)"

fun NS_table_search_UTF8String :: "table \<Rightarrow> nat \<Rightarrow> NSUInteger \<Rightarrow> string option outcome" where
  "NS_table_search_UTF8String [] item_len b = Done None"
| "NS_table_search_UTF8String (l # ls) item_len b =
     (case read_value item_len l of
        None \<Rightarrow> Abort
      | Some v \<Rightarrow> if b = v then Done (key l) else NS_table_search_UTF8String ls item_len b)"

section \<open>Numbers as text\<close>

text \<open>The digits that \<open>printf\<close> writes for \<open>%llx\<close>.\<close>

definition hex_digit :: "nat \<Rightarrow> char" where
  "hex_digit n = (''0123456789abcdef'' ! n)"

fun hex_nat :: "nat \<Rightarrow> string" where
  "hex_nat n = (if n < 16 then [hex_digit n] else hex_nat (n div 16) @ [hex_digit (n mod 16)])"

declare hex_nat.simps [simp del]

definition hex :: "NSUInteger \<Rightarrow> string" where
  "hex w = ''0x'' @ hex_nat (unat w)"

definition isdigit :: "char \<Rightarrow> bool" where
  "isdigit c \<longleftrightarrow> 48 \<le> (of_char c :: nat) \<and> (of_char c :: nat) \<le> 57"

text \<open>
  \<open>atoll\<close> on a string that starts with a digit: the value of the leading digits, at most
  \<open>LLONG_MAX\<close> (the C standard leaves larger values open; this is what \<open>strtoll\<close> does).
\<close>

definition digit_value :: "char \<Rightarrow> nat" where
  "digit_value c = of_char c - 48"

definition atoll :: "string \<Rightarrow> NSUInteger" where
  "atoll s = of_nat (min (2 ^ 63 - 1) (fold (\<lambda>c n. 10 * n + digit_value c) (takeWhile isdigit s) 0))"

section \<open>Printing\<close>

record 'b bufops =
  bnew :: "'b"
  badd :: "'b \<Rightarrow> string option \<Rightarrow> 'b"
  badd_if_not_empty :: "'b \<Rightarrow> string \<Rightarrow> 'b"
  badd_if_empty :: "'b \<Rightarrow> string \<Rightarrow> 'b"
  bstring :: "'b \<Rightarrow> string"

definition buf_laws :: "'b bufops \<Rightarrow> bool" where
  "buf_laws B \<longleftrightarrow> bstring B (bnew B) = [] \<and>
     (\<forall>b s. bstring B (badd B b (Some s)) = bstring B b @ s) \<and>
     (\<forall>b s. bstring B (badd_if_not_empty B b s) = (if bstring B b = [] then [] else bstring B b @ s)) \<and>
     (\<forall>b s. bstring B (badd_if_empty B b s) = (if bstring B b = [] then s else bstring B b))"

text \<open>
  The loop of \<open>_NS_OPTIONS_UTF8String\<close> over the lines: its state is the buffer, the name for
  "no bits" and the bits not printed yet.
\<close>

fun options_print_loop ::
    "'b bufops \<Rightarrow> nat \<Rightarrow> table \<Rightarrow> 'b \<Rightarrow> string option \<Rightarrow> NSUInteger
       \<Rightarrow> ('b \<times> string option \<times> NSUInteger) outcome" where
  "options_print_loop B item_len [] b zname bits = Done (b, zname, bits)"
| "options_print_loop B item_len (l # ls) b zname bits =
     (case read_value item_len l of
        None \<Rightarrow> Abort
      | Some v \<Rightarrow>
          if v = 0 then options_print_loop B item_len ls b (key l) bits
          else if bits AND v = v then
            options_print_loop B item_len ls (badd B (badd_if_not_empty B b ''|'') (key l)) zname (bits AND NOT v)
          else options_print_loop B item_len ls b zname bits)"

definition NS_OPTIONS_UTF8String :: "'b bufops \<Rightarrow> table \<Rightarrow> nat \<Rightarrow> NSUInteger \<Rightarrow> string outcome" where
  "NS_OPTIONS_UTF8String B t item_len bits =
     (case options_print_loop B item_len t (bnew B) None bits of
        Abort \<Rightarrow> Abort
      | Done (b, zname, rest) \<Rightarrow>
          (let b' = (if rest \<noteq> 0 then badd B (badd_if_not_empty B b ''|'') (Some (hex rest)) else b)
           in Done (bstring B (badd_if_empty B b' (case zname of None \<Rightarrow> ''0'' | Some s \<Rightarrow> s)))))"

definition NS_ENUM_UTF8String :: "table \<Rightarrow> nat \<Rightarrow> NSUInteger \<Rightarrow> string outcome" where
  "NS_ENUM_UTF8String t item_len value =
     (case NS_table_search_UTF8String t item_len value of
        Abort \<Rightarrow> Abort
      | Done (Some s) \<Rightarrow> Done s
      | Done None \<Rightarrow> if value = 0 then Done ''0'' else Done (hex value))"

text \<open>
  The macro \<open>NS_ENUM_PRINT\<close> hands a value of the enumeration's type to a parameter of type
  \<open>unsigned long long\<close>; for a signed 32 bit type that conversion extends the sign.
\<close>

definition NS_ENUM_PRINT_int :: "table \<Rightarrow> 32 word \<Rightarrow> string outcome" where
  "NS_ENUM_PRINT_int t item = NS_ENUM_UTF8String t 4 (scast item)"

section \<open>The common prefix of the names\<close>

text \<open>
  Position \<open>j\<close> of the first name against all others; \<open>first\<close> and \<open>others\<close> are the names of the
  table, none of them null.  The check stops at the terminator of a shorter name.
\<close>

definition agrees_at :: "string \<Rightarrow> string list \<Rightarrow> nat \<Rightarrow> bool" where
  "agrees_at first others j \<longleftrightarrow>
     list_all (\<lambda>s. \<not> (length s \<le> j \<or> s ! j \<noteq> first ! j)) others"

fun prefix_scan :: "string \<Rightarrow> string list \<Rightarrow> nat \<Rightarrow> nat \<Rightarrow> nat" where
  "prefix_scan first others 0 j = j"
| "prefix_scan first others (Suc n) j =
     (if agrees_at first others j then prefix_scan first others n (Suc j) else j)"

definition NS_OPTIONS_prefix_length :: "string list \<Rightarrow> nat" where
  "NS_OPTIONS_prefix_length keys =
     (case keys of [] \<Rightarrow> 0 | first # others \<Rightarrow> prefix_scan first others (length first) 0)"

section \<open>Parsing\<close>

text \<open>
  The inner loop of the parsers: the first line whose name starts the text.  Running off the
  table and meeting a null name both make the parser return \<open>NO\<close>, here \<open>None\<close>.
\<close>

fun find_key :: "table \<Rightarrow> string \<Rightarrow> (string \<times> line) option" where
  "find_key [] s = None"
| "find_key (l # ls) s =
     (case key l of
        None \<Rightarrow> None
      | Some k \<Rightarrow> if prefix k s then Some (k, l) else find_key ls s)"

text \<open>\<open>if( *s == '|' && s[ 1] != 0) ++s\<close>\<close>

definition skip_bar :: "string \<Rightarrow> string" where
  "skip_bar s = (case s of c # d # rest \<Rightarrow> if c = CHR ''|'' then d # rest else s | _ \<Rightarrow> s)"

text \<open>
  The result is the returned \<open>YES\<close> or \<open>NO\<close> with the final \<open>*value\<close>; \<open>None\<close> means that the
  loop does not end.
\<close>

partial_function (option) options_parse_loop ::
    "table \<Rightarrow> nat \<Rightarrow> string \<Rightarrow> NSUInteger \<Rightarrow> (bool \<times> NSUInteger) outcome option" where
  "options_parse_loop t item_len s value =
     (if s = [] then Some (Done (True, value))
      else
        (case find_key t s of
           None \<Rightarrow> Some (Done (False, value))
         | Some (k, l) \<Rightarrow>
             (case read_value item_len l of
                None \<Rightarrow> Some Abort
              | Some v \<Rightarrow> options_parse_loop t item_len (skip_bar (drop (length k) s)) (value OR v))))"

text \<open>With a null \<open>s\<close> the parser returns \<open>NO\<close> and does not write \<open>*value\<close>.\<close>

definition NS_OPTIONS_ParseUTF8String_strict ::
    "table \<Rightarrow> nat \<Rightarrow> string option \<Rightarrow> (bool \<times> NSUInteger option) outcome option" where
  "NS_OPTIONS_ParseUTF8String_strict t item_len s =
     (case s of
        None \<Rightarrow> Some (Done (False, None))
      | Some s \<Rightarrow> map_option (\<lambda>r. case r of Abort \<Rightarrow> Abort | Done (ok, v) \<Rightarrow> Done (ok, Some v))
                     (options_parse_loop t item_len s 0))"

definition NS_OPTIONS_ParseUTF8String ::
    "table \<Rightarrow> nat \<Rightarrow> string option \<Rightarrow> NSUInteger outcome option" where
  "NS_OPTIONS_ParseUTF8String t item_len s =
     (if (case s of Some (c # _) \<Rightarrow> isdigit c | _ \<Rightarrow> False) then Some (Done (atoll (the s)))
      else map_option (\<lambda>r. case r of Abort \<Rightarrow> Abort | Done (True, Some v) \<Rightarrow> Done v | Done _ \<Rightarrow> Done 0)
             (NS_OPTIONS_ParseUTF8String_strict t item_len s))"

definition NS_ENUM_ParseUTF8String_strict ::
    "table \<Rightarrow> nat \<Rightarrow> string option \<Rightarrow> (bool \<times> NSUInteger option) outcome" where
  "NS_ENUM_ParseUTF8String_strict t item_len s =
     (case s of
        None \<Rightarrow> Done (False, None)
      | Some s \<Rightarrow>
          (case find_key t s of
             None \<Rightarrow> Done (False, None)
           | Some (k, l) \<Rightarrow>
               (case read_value item_len l of None \<Rightarrow> Abort | Some v \<Rightarrow> Done (True, Some v))))"

definition NS_ENUM_ParseUTF8String :: "table \<Rightarrow> nat \<Rightarrow> string option \<Rightarrow> NSUInteger outcome" where
  "NS_ENUM_ParseUTF8String t item_len s =
     (if (case s of Some (c # _) \<Rightarrow> isdigit c | _ \<Rightarrow> False) then Done (atoll (the s))
      else (case NS_ENUM_ParseUTF8String_strict t item_len s of
              Abort \<Rightarrow> Abort | Done (True, Some v) \<Rightarrow> Done v | Done _ \<Rightarrow> Done 0))"


section \<open>Reading fields\<close>

lemma read_value_defined: "item_len \<in> {1, 2, 4, 8} \<Longrightarrow> \<exists>v. read_value item_len l = Some v"
  by (auto simp: read_value_def)

definition value_of :: "nat \<Rightarrow> line \<Rightarrow> NSUInteger" where
  "value_of item_len l = (case read_value item_len l of None \<Rightarrow> 0 | Some v \<Rightarrow> v)"

lemma read_value_of: "item_len \<in> {1, 2, 4, 8} \<Longrightarrow> read_value item_len l = Some (value_of item_len l)"
  using read_value_defined [of item_len l] by (auto simp: value_of_def)

section \<open>Tables without ambiguity\<close>

text \<open>
  All names exist, are not empty and have no bar in them, and no name stands behind one that it begins with: the longer
  name comes first.  The width is one that the code knows.
\<close>

definition name :: "line \<Rightarrow> string" where
  "name l = the (key l)"

definition good_table :: "nat \<Rightarrow> table \<Rightarrow> bool" where
  "good_table item_len t \<longleftrightarrow>
     item_len \<in> {1, 2, 4, 8} \<and>
     (\<forall>l \<in> set t. key l \<noteq> None \<and> key l \<noteq> Some [] \<and> CHR ''|'' \<notin> set (name l)) \<and>
     sorted_wrt (\<lambda>l l'. \<not> prefix (name l) (name l')) t"

lemma good_tableD:
  assumes "good_table il t" and "l \<in> set t"
  shows "read_value il l = Some (value_of il l)" "key l = Some (name l)" "name l \<noteq> []" "CHR ''|'' \<notin> set (name l)"
proof -
  show "read_value il l = Some (value_of il l)"
    using assms by (intro read_value_of) (simp add: good_table_def)
  show "key l = Some (name l)" "name l \<noteq> []" "CHR ''|'' \<notin> set (name l)"
    using assms by (auto simp: good_table_def name_def)
qed

text \<open>
  A name that is followed by nothing or by a bar is found in its own line, since an earlier name is no prefix of
  it, and a longer one has no bar.
\<close>

definition ends_name :: "string \<Rightarrow> bool" where
  "ends_name rest \<longleftrightarrow> rest = [] \<or> hd rest = CHR ''|''"

lemma ends_name_simps [simp]: "ends_name []" "ends_name (CHR ''|'' # s)"
  by (simp_all add: ends_name_def)

lemma prefix_of_name:
  assumes "prefix k (n @ rest)" and "ends_name rest" and "CHR ''|'' \<notin> set k"
  shows "prefix k n"
proof -
  from assms(1) consider "prefix k n" | us where "k = n @ us" "prefix us rest"
    by (auto simp: prefix_append)
  then show ?thesis
  proof cases
    case 2
    then have "us = []"
      using assms(2,3) by (cases us; cases rest) (auto simp: ends_name_def)
    then show ?thesis using 2 by simp
  qed
qed

lemma find_key_hit_sub:
  assumes "\<forall>x \<in> set ls. key x = Some (name x) \<and> CHR ''|'' \<notin> set (name x)"
    and "sorted_wrt (\<lambda>l l'. \<not> prefix (name l) (name l')) ls" and "l \<in> set ls" and "ends_name rest"
  shows "find_key ls (name l @ rest) = Some (name l, l)"
  using assms(1-3)
proof (induction ls)
  case (Cons x ls)
  show ?case
  proof (cases "x = l")
    case True
    then show ?thesis using Cons.prems(1) by simp
  next
    case False
    then have l: "l \<in> set ls" using Cons.prems(3) by simp
    then have "\<not> prefix (name x) (name l)" using Cons.prems(2) by simp
    then have "\<not> prefix (name x) (name l @ rest)"
      using prefix_of_name [OF _ assms(4), of "name x" "name l"] Cons.prems(1) by auto
    then show ?thesis using Cons.IH Cons.prems l by simp
  qed
qed simp

lemma find_key_hit:
  "good_table il t \<Longrightarrow> l \<in> set t \<Longrightarrow> ends_name rest \<Longrightarrow> find_key t (name l @ rest) = Some (name l, l)"
  by (rule find_key_hit_sub) (auto simp: good_table_def name_def)

lemma find_key_prefix: "find_key t s = Some (k, l) \<Longrightarrow> l \<in> set t \<and> key l = Some k \<and> prefix k s"
  by (induction t) (auto split: option.splits if_splits)

section \<open>Texts made of names and bars\<close>

fun bar_join :: "string list \<Rightarrow> string" where
  "bar_join [] = []"
| "bar_join [k] = k"
| "bar_join (k # ks) = k @ ''|'' @ bar_join ks"

lemma bar_join_Cons: "ks \<noteq> [] \<Longrightarrow> bar_join (k # ks) = k @ ''|'' @ bar_join ks"
  by (cases ks) auto

lemma bar_join_snoc: "bar_join (ks @ [k]) = (if ks = [] then k else bar_join ks @ ''|'' @ k)"
  by (induction ks rule: bar_join.induct) auto

lemma bar_join_empty: "[] \<notin> set ks \<Longrightarrow> bar_join ks = [] \<longleftrightarrow> ks = []"
  by (cases ks rule: bar_join.cases) auto

definition or_values :: "nat \<Rightarrow> table \<Rightarrow> NSUInteger" where
  "or_values il ls = foldr (\<lambda>l v. value_of il l OR v) ls 0"

lemma or_values_simps [simp]:
  "or_values il [] = 0" "or_values il (l # ls) = value_of il l OR or_values il ls"
  by (simp_all add: or_values_def)

lemma or_values_append: "or_values il (xs @ ys) = or_values il xs OR or_values il ys"
  by (induction xs) (auto simp: or.assoc)

lemma skip_bar_simps [simp]:
  "skip_bar [] = []" "s \<noteq> [] \<Longrightarrow> skip_bar (CHR ''|'' # s) = s"
  by (auto simp: skip_bar_def split: list.splits)

text \<open>Parsing such a text consumes one name after the other; \<open>tail\<close> is what follows the last bar.\<close>

lemma names_nonempty: "good_table il t \<Longrightarrow> set ls \<subseteq> set t \<Longrightarrow> [] \<notin> set (map name ls)"
  using good_tableD(3) by fastforce

lemma parse_names:
  assumes "good_table il t" and "set ls \<subseteq> set t"
  shows "options_parse_loop t il (bar_join (map name ls)) v = Some (Done (True, v OR or_values il ls))"
  using assms(2)
proof (induction ls arbitrary: v)
  case Nil
  then show ?case by (simp add: options_parse_loop.simps)
next
  case (Cons l ls)
  then have l: "l \<in> set t" and ls: "set ls \<subseteq> set t" by simp_all
  note lD = good_tableD [OF assms(1) l]
  define rest where "rest = (if ls = [] then [] else ''|'' @ bar_join (map name ls))"
  have joined: "bar_join (map name (l # ls)) = name l @ rest"
    by (cases "ls = []") (simp_all add: rest_def bar_join_Cons)
  have "skip_bar rest = bar_join (map name ls)"
    using bar_join_empty [OF names_nonempty [OF assms(1) ls]] by (simp add: rest_def)
  then have "options_parse_loop t il (name l @ rest) v =
      options_parse_loop t il (bar_join (map name ls)) (v OR value_of il l)"
    using find_key_hit [OF assms(1) l, of rest] lD by (subst options_parse_loop.simps) (simp add: rest_def)
  then show ?case
    using Cons.IH [OF ls] joined by (simp add: or.assoc)
qed

section \<open>What the printer writes\<close>

text \<open>The bits that no line accounts for.\<close>

fun leftover :: "nat \<Rightarrow> table \<Rightarrow> NSUInteger \<Rightarrow> NSUInteger" where
  "leftover il [] bits = bits"
| "leftover il (l # ls) bits =
     (let v = value_of il l in leftover il ls (if v \<noteq> 0 \<and> bits AND v = v then bits AND NOT v else bits))"

lemma and_not_or: "bits AND v = v \<Longrightarrow> v OR (bits AND NOT v) = (bits :: 'a::len word)"
  by (rule bit_eqI) (metis bit_and_iff bit_not_iff bit_or_iff)

lemma buf_laws_simps:
  assumes "buf_laws B"
  shows "bstring B (bnew B) = []" "bstring B (badd B b (Some s)) = bstring B b @ s"
    "bstring B (badd_if_not_empty B b s) = (if bstring B b = [] then [] else bstring B b @ s)"
    "bstring B (badd_if_empty B b s) = (if bstring B b = [] then s else bstring B b)"
  using assms by (simp_all add: buf_laws_def)

lemma options_print_loop_spec:
  assumes "buf_laws B" and "good_table il t"
    and "set ls \<subseteq> set t" and "set ls0 \<subseteq> set t" and "bstring B b = bar_join (map name ls0)"
  shows "\<exists>b' e' ls1. options_print_loop B il ls b e bits = Done (b', e', leftover il ls bits)
    \<and> set ls1 \<subseteq> set t \<and> bstring B b' = bar_join (map name (ls0 @ ls1))
    \<and> bits = or_values il ls1 OR leftover il ls bits"
  using assms(3-5)
proof (induction ls arbitrary: b e bits ls0)
  case Nil
  then show ?case by (auto intro!: exI [of _ "[]"])
next
  case (Cons l ls)
  have l: "l \<in> set t" using Cons.prems by simp
  note r = good_tableD(1) [OF assms(2) l]
  consider "value_of il l = 0" | "value_of il l \<noteq> 0" "bits AND value_of il l = value_of il l"
    | "value_of il l \<noteq> 0" "bits AND value_of il l \<noteq> value_of il l" by blast
  then show ?case
  proof cases
    case 1
    obtain b' e' ls1 where "options_print_loop B il ls b (key l) bits = Done (b', e', leftover il ls bits)"
      "set ls1 \<subseteq> set t" "bstring B b' = bar_join (map name (ls0 @ ls1))"
      "bits = or_values il ls1 OR leftover il ls bits"
      using Cons.IH [of ls0 b "key l" bits] Cons.prems by auto
    then show ?thesis using 1 r l by (auto intro!: exI [of _ ls1])
  next
    case 2
    note k = good_tableD(2,3) [OF assms(2) l]
    let ?b = "badd B (badd_if_not_empty B b ''|'') (key l)"
    let ?bits = "bits AND NOT (value_of il l)"
    have "bstring B b = [] \<longleftrightarrow> ls0 = []"
      using Cons.prems(3) bar_join_empty [OF names_nonempty [OF assms(2) Cons.prems(2)]] by simp
    then have "bstring B ?b = bar_join (map name (ls0 @ [l]))"
      using Cons.prems(3) k by (simp add: buf_laws_simps [OF assms(1)] bar_join_snoc)
    then obtain b' e' ls1 where h: "options_print_loop B il ls ?b e ?bits = Done (b', e', leftover il ls ?bits)"
      "set ls1 \<subseteq> set t" "bstring B b' = bar_join (map name ((ls0 @ [l]) @ ls1))"
      "?bits = or_values il ls1 OR leftover il ls ?bits"
      using Cons.IH [of "ls0 @ [l]" ?b e ?bits] Cons.prems l by auto
    have "bits = value_of il l OR ?bits"
      using and_not_or [OF 2(2)] by simp
    then have "bits = or_values il (l # ls1) OR leftover il ls ?bits"
      using h(4) by (simp add: or.assoc)
    then show ?thesis
      using 2 r l h by (auto simp: Let_def intro!: exI [of _ "l # ls1"])
  next
    case 3
    obtain b' e' ls1 where "options_print_loop B il ls b e bits = Done (b', e', leftover il ls bits)"
      "set ls1 \<subseteq> set t" "bstring B b' = bar_join (map name (ls0 @ ls1))"
      "bits = or_values il ls1 OR leftover il ls bits"
      using Cons.IH [of ls0 b e bits] Cons.prems by auto
    then show ?thesis using 3 r by (auto simp: Let_def intro!: exI [of _ ls1])
  qed
qed

text \<open>The name that stands for "no bits" is that of a line whose value is zero, if there is one.\<close>

definition zero_name :: "nat \<Rightarrow> table \<Rightarrow> string option \<Rightarrow> string option \<Rightarrow> bool" where
  "zero_name il ls e e' \<longleftrightarrow> (if \<exists>l\<in>set ls. value_of il l = 0 then \<exists>l\<in>set ls. value_of il l = 0 \<and> e' = Some (name l) else e' = e)"

lemma zero_name_Cons:
  "zero_name il ls (if value_of il l = 0 then Some (name l) else e) e' \<Longrightarrow> zero_name il (l # ls) e e'"
  by (auto simp: zero_name_def split: if_splits)

lemma options_print_loop_zero:
  assumes "good_table il t" and "set ls \<subseteq> set t" and "options_print_loop B il ls b e bits = Done (b', e', r)"
  shows "zero_name il ls e e'"
  using assms(2,3)
proof (induction ls arbitrary: b e bits)
  case (Cons l ls)
  then have "l \<in> set t" by simp
  note r = good_tableD(1,2) [OF assms(1) this]
  show ?case
    by (rule zero_name_Cons) (use Cons r in \<open>auto split: if_splits\<close>)
qed (simp add: zero_name_def)

lemma options_print_spec:
  assumes "buf_laws B" and "good_table il t"
  shows "\<exists>ls e. set ls \<subseteq> set t \<and> bits = or_values il ls OR leftover il t bits \<and> zero_name il t None e \<and>
    NS_OPTIONS_UTF8String B t il bits = Done
      (if leftover il t bits \<noteq> 0 then (if ls = [] then [] else bar_join (map name ls) @ ''|'') @ hex (leftover il t bits)
       else if ls \<noteq> [] then bar_join (map name ls) else (case e of None \<Rightarrow> ''0'' | Some s \<Rightarrow> s))"
proof -
  obtain b e ls where h: "options_print_loop B il t (bnew B) None bits = Done (b, e, leftover il t bits)"
    "set ls \<subseteq> set t" "bstring B b = bar_join (map name ls)" "bits = or_values il ls OR leftover il t bits"
    using options_print_loop_spec [OF assms, of t "[]" "bnew B" None bits]
    by (auto simp: buf_laws_simps [OF assms(1)])
  have "bar_join (map name ls) = [] \<longleftrightarrow> ls = []"
    using bar_join_empty [OF names_nonempty [OF assms(2) h(2)]] by simp
  moreover have "hex w \<noteq> []" for w by (simp add: hex_def)
  moreover have "zero_name il t None e"
    using options_print_loop_zero [OF assms(2) subset_refl h(1)] .
  ultimately show ?thesis
    using h by (intro exI [of _ ls] exI [of _ e])
      (auto simp: NS_OPTIONS_UTF8String_def buf_laws_simps [OF assms(1)] Let_def)
qed

text \<open>A bit that has a line of its own is never left over.\<close>

lemma leftover_subset: "bit (leftover il t bits) n \<Longrightarrow> bit bits n"
  by (induction t arbitrary: bits) (force simp: Let_def bit_and_iff split: if_splits)+

lemma leftover_single:
  assumes "l \<in> set t" and "value_of il l = push_bit n 1"
  shows "\<not> bit (leftover il t bits) n"
  using assms(1)
proof (induction t arbitrary: bits)
  case (Cons x t)
  show ?case
  proof (cases "x = l")
    case True
    let ?bits = "if value_of il l \<noteq> 0 \<and> bits AND value_of il l = value_of il l
      then bits AND NOT (value_of il l) else bits"
    have "\<not> bit ?bits n"
    proof
      assume b: "bit ?bits n"
      then have n: "bit bits n" "n < 64"
        by (auto simp: bit_simps split: if_splits dest: bit_imp_le_length)
      then have "bit (value_of il l) n"
        by (simp add: assms(2) bit_simps)
      moreover have "bits AND value_of il l = value_of il l"
        using n(1) by (intro bit_eqI) (auto simp: assms(2) bit_simps)
      ultimately show False
        using b by (auto simp: bit_simps split: if_splits)
    qed
    then show ?thesis using True leftover_subset by (auto simp: Let_def)
  next
    case False
    then show ?thesis using Cons by (simp add: Let_def)
  qed
qed simp

end
