(* ===== verification/EnumProps.thy ===== *)
theory EnumProps
  imports EnumTable
begin

text \<open>
  The properties of the enumeration tables: printing and parsing are inverse where the table is
  unambiguous and names every bit, the parser of option sets ends, and what happens to unknown
  bits, to names that are a prefix of another name, and to negative values of narrow types.
\<close>

section \<open>Tables for the witnesses\<close>

definition string_bufops :: "string bufops" where
  "string_bufops = \<lparr>bnew = [], badd = (\<lambda>b s. b @ (case s of None \<Rightarrow> [] | Some s \<Rightarrow> s)),
     badd_if_not_empty = (\<lambda>b s. if b = [] then [] else b @ s),
     badd_if_empty = (\<lambda>b s. if b = [] then s else b), bstring = (\<lambda>b. b)\<rparr>"

lemma string_buf_laws: "buf_laws string_bufops"
  by (simp add: buf_laws_def string_bufops_def)

definition flag_table :: table where
  "flag_table = [\<lparr>key = Some ''Read'', field = 1\<rparr>, \<lparr>key = Some ''Write'', field = 2\<rparr>,
                 \<lparr>key = Some ''Exec'', field = 4\<rparr>]"

lemma flag_table_good: "good_table 4 flag_table"
  by (simp add: good_table_def flag_table_def name_def)

lemma flag_table_values:
  "l \<in> set flag_table \<Longrightarrow> value_of 4 l = field l"
  by (auto simp: flag_table_def value_of_def read_value_def)

section \<open>Option sets\<close>

lemma digit_key_missing:
  assumes "good_table il t" and "\<forall>l \<in> set t. \<not> isdigit (hd (name l))" and "isdigit c"
  shows "find_key t (c # s) = None"
proof (cases "find_key t (c # s)")
  case (Some x)
  then obtain k l where x: "find_key t (c # s) = Some (k, l)" by (cases x) auto
  from find_key_prefix [OF x] have l: "l \<in> set t" "key l = Some k" "prefix k (c # s)" by auto
  then have "name l = k" by (simp add: name_def)
  then have "hd (name l) = c"
    using l good_tableD(3) [OF assms(1) l(1)] by (cases k) auto
  then show ?thesis using assms(2,3) l(1) by auto
qed simp

lemma zero_key_missing:
  "good_table il t \<Longrightarrow> \<forall>l \<in> set t. \<not> isdigit (hd (name l)) \<Longrightarrow> find_key t ''0'' = None"
  by (rule digit_key_missing) (simp_all add: isdigit_def)

text \<open>
  C25. Printing a set of options and parsing the text gives the set back, also the empty set, when each of its bits has
  a line of its own in the table.  The strict parser says NO for the empty set if the table has no name for it, because
  the text is 0 then, but its value is 0 as well; in all other cases it says YES.  Names may not be empty, have a bar or
  begin with a digit, and a name may not stand behind one that it begins with, where it is never found
  (\<open>enum_prefix_shadows\<close>).
\<close>

theorem options_roundtrip:
  assumes "buf_laws B" and "good_table il t" and "\<forall>l \<in> set t. \<not> isdigit (hd (name l))"
    and "\<forall>n. bit bits n \<longrightarrow> (\<exists>l \<in> set t. value_of il l = push_bit n 1)"
  shows "\<exists>s. NS_OPTIONS_UTF8String B t il bits = Done s
    \<and> NS_OPTIONS_ParseUTF8String t il (Some s) = Some (Done bits)
    \<and> NS_OPTIONS_ParseUTF8String_strict t il (Some s)
        = Some (Done (bits \<noteq> 0 \<or> (\<exists>l \<in> set t. value_of il l = 0), Some bits))"
proof -
  have "\<not> bit (leftover il t bits) n" for n
    using assms(4) leftover_single leftover_subset by metis
  then have none: "leftover il t bits = 0"
    by (simp add: bit_eq_iff)
  obtain ls e where ls: "set ls \<subseteq> set t" "bits = or_values il ls" "zero_name il t None e"
    "NS_OPTIONS_UTF8String B t il bits = Done
      (if ls \<noteq> [] then bar_join (map name ls) else (case e of None \<Rightarrow> ''0'' | Some s \<Rightarrow> s))"
    using options_print_spec [OF assms(1,2), of bits] none by auto
  have parsed: "NS_OPTIONS_ParseUTF8String_strict t il (Some (bar_join (map name ks))) = Some (Done (True, Some (or_values il ks)))
      \<and> NS_OPTIONS_ParseUTF8String t il (Some (bar_join (map name ks))) = Some (Done (or_values il ks))"
    if ks: "set ks \<subseteq> set t" "ks \<noteq> []" for ks
  proof -
    obtain k ks' where "ks = k # ks'" "k \<in> set t" using ks by (cases ks) auto
    then have "bar_join (map name ks) \<noteq> [] \<and> \<not> isdigit (hd (bar_join (map name ks)))"
      using good_tableD(3) [OF assms(2), of k] assms(3) by (cases ks') auto
    then show ?thesis
      using parse_names [OF assms(2) ks(1), of 0]
      by (auto simp: NS_OPTIONS_ParseUTF8String_def NS_OPTIONS_ParseUTF8String_strict_def split: list.splits)
  qed
  show ?thesis
  proof (cases "ls = []")
    case False
    then obtain l where "l \<in> set ls" by (cases ls) auto
    have "bits = 0 \<Longrightarrow> value_of il l = 0"
      using \<open>l \<in> set ls\<close> ls(2) by (induction ls) (auto simp: or_eq_0_iff)
    then have "bits \<noteq> 0 \<or> (\<exists>l \<in> set t. value_of il l = 0)"
      using \<open>l \<in> set ls\<close> ls(1) by blast
    then show ?thesis
      using parsed [OF ls(1) False] ls(2,4) False by simp
  next
    case True
    then have zero: "bits = 0" using ls(2) by simp
    show ?thesis
    proof (cases "\<exists>l \<in> set t. value_of il l = 0")
      case named: True
      then obtain l where "l \<in> set t" "value_of il l = 0" "e = Some (name l)"
        using ls(3) by (auto simp: zero_name_def)
      then show ?thesis
        using parsed [of "[l]"] ls(4) True zero named by simp
    next
      case False
      then have e: "e = None" using ls(3) by (simp add: zero_name_def)
      have "find_key t ''0'' = None"
        using zero_key_missing [OF assms(2,3)] .
      then show ?thesis
        using ls(4) True zero False e
        by (simp add: NS_OPTIONS_ParseUTF8String_def NS_OPTIONS_ParseUTF8String_strict_def options_parse_loop.simps
            isdigit_def atoll_def digit_value_def)
    qed
  qed
qed

theorem options_roundtrip_witness:
  "\<exists>s. NS_OPTIONS_UTF8String string_bufops flag_table 4 5 = Done s
    \<and> NS_OPTIONS_ParseUTF8String flag_table 4 (Some s) = Some (Done 5)
    \<and> NS_OPTIONS_ParseUTF8String_strict flag_table 4 (Some s)
        = Some (Done ((5 :: NSUInteger) \<noteq> 0 \<or> (\<exists>l \<in> set flag_table. value_of 4 l = 0), Some 5))"
proof (rule options_roundtrip [OF string_buf_laws flag_table_good])
  show "\<forall>n. bit (5 :: NSUInteger) n \<longrightarrow> (\<exists>l \<in> set flag_table. value_of 4 l = push_bit n 1)"
  proof (intro allI impI)
    fix n assume "bit (5 :: NSUInteger) n"
    moreover have "(5 :: NSUInteger) = push_bit 0 1 OR push_bit 2 1" by simp
    ultimately have "n = 0 \<or> n = 2" by (metis bit_or_iff bit_push_bit_iff bit_1_iff add_diff_inverse_nat add.right_neutral not_less)
    then show "\<exists>l \<in> set flag_table. value_of 4 l = push_bit n 1"
      by (auto simp: flag_table_def value_of_def read_value_def)
  qed
qed (simp add: flag_table_def name_def isdigit_def)

lemma skip_bar_length: "length (skip_bar s) \<le> length s"
  by (auto simp: skip_bar_def split: list.splits)

lemma options_parse_loop_returns:
  assumes "\<forall>l \<in> set t. key l \<noteq> Some []"
  shows "\<exists>r. options_parse_loop t il s v = Some r"
proof (induction "length s" arbitrary: s v rule: less_induct)
  case less
  show ?case
  proof (cases "s = [] \<or> find_key t s = None")
    case True
    then show ?thesis by (subst options_parse_loop.simps) (auto simp: options_parse_loop.simps)
  next
    case False
    then obtain k l where f: "find_key t s = Some (k, l)" "s \<noteq> []" by fastforce
    then have "l \<in> set t" "key l = Some k" "prefix k s"
      using find_key_prefix [OF f(1)] by auto
    then have "length (drop (length k) s) < length s"
      using assms f(2) by (cases k) auto
    then have "length (skip_bar (drop (length k) s)) < length s"
      using skip_bar_length le_less_trans by blast
    from less [OF this] show ?thesis
      using f by (subst options_parse_loop.simps) (auto split: option.splits)
  qed
qed

text \<open>
  The strict parser of option sets returns on every text, as long as the table has no empty
  name: each round consumes the name it matched.
\<close>

theorem options_parse_terminates:
  assumes "\<forall>l \<in> set t. key l \<noteq> Some []"
  shows "\<exists>r. NS_OPTIONS_ParseUTF8String_strict t il s = Some r"
  using options_parse_loop_returns [OF assms]
  by (auto simp: NS_OPTIONS_ParseUTF8String_strict_def split: option.splits)

theorem options_parse_terminates_witness:
  "\<exists>r. NS_OPTIONS_ParseUTF8String_strict flag_table 4 (Some ''Read|Exec'') = Some r"
  by (rule options_parse_terminates) (simp add: flag_table_def)

lemma takeWhile_isdigit_hex: "takeWhile isdigit (hex w) = ''0''"
  by (simp add: hex_def isdigit_def)

lemma parse_names_then:
  assumes "good_table il t" and "set ls \<subseteq> set t" and "find_key t s = None" and "s \<noteq> []"
  shows "\<exists>v'. options_parse_loop t il ((if ls = [] then [] else bar_join (map name ls) @ ''|'') @ s) v
    = Some (Done (False, v'))"
  using assms(2)
proof (induction ls arbitrary: v)
  case Nil
  then show ?case using assms(3,4) by (simp add: options_parse_loop.simps)
next
  case (Cons l ls)
  then have l: "l \<in> set t" and ls: "set ls \<subseteq> set t" by simp_all
  let ?rest = "(if ls = [] then [] else bar_join (map name ls) @ ''|'') @ s"
  have "(if l # ls = [] then [] else bar_join (map name (l # ls)) @ ''|'') @ s = name l @ ''|'' @ ?rest"
    by (cases "ls = []") (simp_all add: bar_join_Cons)
  moreover have "skip_bar (''|'' @ ?rest) = ?rest"
    using assms(4) by simp
  ultimately show ?case
    using Cons.IH [OF ls, of "v OR value_of il l"] find_key_hit [OF assms(1) l, of "''|'' @ ?rest"]
      good_tableD [OF assms(1) l]
    by (subst options_parse_loop.simps) simp
qed

text \<open>
  A set with a bit that the table does not name is printed with that rest in hexadecimal,
  and parsing the text yields 0: all bits are lost, the named ones too.
\<close>

theorem options_unknown_bits_lost:
  assumes "buf_laws B" and "good_table il t" and "leftover il t bits \<noteq> 0"
    and "\<forall>l \<in> set t. \<not> isdigit (hd (name l))"
  shows "\<exists>s. NS_OPTIONS_UTF8String B t il bits = Done s
    \<and> NS_OPTIONS_ParseUTF8String t il (Some s) = Some (Done 0)"
proof -
  let ?h = "hex (leftover il t bits)"
  obtain ls where ls: "set ls \<subseteq> set t"
    "NS_OPTIONS_UTF8String B t il bits = Done ((if ls = [] then [] else bar_join (map name ls) @ ''|'') @ ?h)"
    using options_print_spec [OF assms(1,2), of bits] assms(3) by auto
  have no_key: "find_key t ?h = None"
    unfolding hex_def using digit_key_missing [OF assms(2,4), of "CHR ''0''"] by (simp add: isdigit_def)
  show ?thesis
  proof (cases "ls = []")
    case True
    have "atoll ?h = 0"
      by (simp add: atoll_def takeWhile_isdigit_hex digit_value_def)
    then show ?thesis
      using ls True by (simp add: NS_OPTIONS_ParseUTF8String_def) (simp add: hex_def isdigit_def)
  next
    case False
    then obtain l ls' where c: "ls = l # ls'" by (cases ls) auto
    then have l: "l \<in> set t" using ls(1) by simp
    then obtain c0 cs where "name l = c0 # cs" "\<not> isdigit c0"
      using good_tableD(3) [OF assms(2)] assms(4) by (cases "name l") auto
    then obtain cs' where "bar_join (map name ls) @ ''|'' @ ?h = c0 # cs'"
      using c by (cases ls') auto
    moreover obtain v' where "options_parse_loop t il (bar_join (map name ls) @ ''|'' @ ?h) 0
        = Some (Done (False, v'))"
      using parse_names_then [OF assms(2) ls(1) no_key, of 0] False by (auto simp: hex_def)
    ultimately show ?thesis
      using ls(2) False \<open>\<not> isdigit c0\<close>
      by (simp add: NS_OPTIONS_ParseUTF8String_def NS_OPTIONS_ParseUTF8String_strict_def)
  qed
qed

theorem options_unknown_bits_lost_witness:
  "\<exists>s. NS_OPTIONS_UTF8String string_bufops flag_table 4 9 = Done s
    \<and> NS_OPTIONS_ParseUTF8String flag_table 4 (Some s) = Some (Done 0)"
  by (rule options_unknown_bits_lost [OF string_buf_laws flag_table_good])
    (simp_all add: flag_table_def value_of_def read_value_def name_def isdigit_def)

section \<open>Enumerations\<close>

lemma table_search_hit:
  assumes "good_table il t" and "set ls \<subseteq> set t" and "\<exists>l \<in> set ls. value_of il l = v"
  shows "\<exists>l \<in> set ls. value_of il l = v \<and> NS_table_search_UTF8String ls il v = Done (Some (name l))"
  using assms(2,3)
proof (induction ls)
  case (Cons x ls)
  then have x: "x \<in> set t" by simp
  show ?case
    using Cons good_tableD(1,2) [OF assms(1) x] by (cases "value_of il x = v") auto
qed simp

text \<open>
  Printing a value that an unambiguous table names, and parsing the text, gives the value
  back.
\<close>

theorem enum_roundtrip:
  assumes "good_table il t" and "l \<in> set t"
  shows "\<exists>s. NS_ENUM_UTF8String t il (value_of il l) = Done s
    \<and> NS_ENUM_ParseUTF8String_strict t il (Some s) = Done (True, Some (value_of il l))"
proof -
  obtain l' where l': "l' \<in> set t" "value_of il l' = value_of il l"
    "NS_table_search_UTF8String t il (value_of il l) = Done (Some (name l'))"
    using table_search_hit [OF assms(1) subset_refl, of "value_of il l"] assms(2) by blast
  then show ?thesis
    using find_key_hit [OF assms(1) l'(1), of "[]"] good_tableD(1) [OF assms(1) l'(1)]
    by (simp add: NS_ENUM_UTF8String_def NS_ENUM_ParseUTF8String_strict_def)
qed

theorem enum_roundtrip_witness:
  "\<exists>s. NS_ENUM_UTF8String flag_table 4 (value_of 4 \<lparr>key = Some ''Write'', field = 2\<rparr>) = Done s
    \<and> NS_ENUM_ParseUTF8String_strict flag_table 4 (Some s)
        = Done (True, Some (value_of 4 \<lparr>key = Some ''Write'', field = 2\<rparr>))"
  by (rule enum_roundtrip [OF flag_table_good]) (simp add: flag_table_def)

text \<open>
  The parsers accept the first line whose name is a prefix of the text.  So a name that
  starts with the name of an earlier line can never be parsed: the earlier value comes out.
\<close>

theorem enum_prefix_shadows:
  assumes "\<forall>l \<in> set before. \<exists>k. key l = Some k \<and> \<not> prefix k longer" and "prefix short longer"
    and "read_value il \<lparr>key = Some short, field = x\<rparr> = Some v"
  shows "NS_ENUM_ParseUTF8String_strict (before @ \<lparr>key = Some short, field = x\<rparr> # after) il (Some longer)
    = Done (True, Some v)"
proof -
  have "find_key (before @ \<lparr>key = Some short, field = x\<rparr> # after) longer
      = Some (short, \<lparr>key = Some short, field = x\<rparr>)"
    using assms(1,2) by (induction before) auto
  then show ?thesis using assms(3) by (simp add: NS_ENUM_ParseUTF8String_strict_def)
qed

theorem enum_prefix_shadows_witness:
  "NS_ENUM_ParseUTF8String_strict
     ([] @ \<lparr>key = Some ''Foo'', field = 1\<rparr> # [\<lparr>key = Some ''FooBar'', field = 2\<rparr>]) 8 (Some ''FooBar'')
     = Done (True, Some 1)"
  by (rule enum_prefix_shadows) (simp_all add: read_value_def)

lemma table_search_miss:
  assumes "\<forall>l. value_of 4 l \<noteq> v"
  shows "NS_table_search_UTF8String t 4 v = Done None"
  using assms by (induction t) (auto simp: read_value_of [of 4, simplified])

text \<open>
  Printing an enumeration of type \<open>int\<close>: a negative value is sign extended on its way into
  the printer while the table is read without sign, so the printer never finds the name and
  writes the 64 bit pattern, whatever the table holds.
\<close>

theorem enum_print_negative_int:
  assumes "sint item < 0"
  shows "NS_ENUM_PRINT_int t item = Done (hex (scast item))"
proof -
  have b: "bit (scast item :: NSUInteger) 63"
    using assms bit_last_iff [of item] by (simp add: bit_simps)
  have "value_of 4 l \<noteq> (scast item :: NSUInteger)" for l
  proof
    assume "value_of 4 l = (scast item :: NSUInteger)"
    moreover have "\<not> bit (value_of 4 l) 63"
      by (simp add: value_of_def read_value_def bit_simps)
    ultimately show False using b by simp
  qed
  moreover have "(scast item :: NSUInteger) \<noteq> 0"
    using b by auto
  ultimately show ?thesis
    by (simp add: NS_ENUM_PRINT_int_def NS_ENUM_UTF8String_def table_search_miss)
qed

theorem enum_print_negative_int_witness:
  "NS_ENUM_PRINT_int [\<lparr>key = Some ''NSOrderedAscending'', field = 0xffffffff\<rparr>] (- 1)
     = Done (hex (scast (- 1 :: 32 word)))"
  by (rule enum_print_negative_int) simp

section \<open>Prefixes\<close>

lemma agrees_at_iff:
  "agrees_at first others j \<longleftrightarrow> (\<forall>s \<in> set others. j < length s \<and> s ! j = first ! j)"
  by (auto simp: agrees_at_def list_all_iff)

lemma prefix_scan_spec:
  assumes "j + n = length first" and "\<forall>i < j. agrees_at first others i"
  shows "\<exists>m. prefix_scan first others n j = m \<and> m \<le> length first \<and> (\<forall>i < m. agrees_at first others i)
    \<and> (m < length first \<longrightarrow> \<not> agrees_at first others m)"
  using assms
proof (induction n arbitrary: j)
  case (Suc n)
  show ?case
  proof (cases "agrees_at first others j")
    case True
    then show ?thesis using Suc.IH [of "Suc j"] Suc.prems by (auto simp: less_Suc_eq)
  qed (use Suc.prems in auto)
qed auto

lemma common_prefix_take:
  "m \<le> length first \<Longrightarrow> (\<forall>i < m. i < length s \<and> s ! i = first ! i) \<Longrightarrow> prefix (take m first) s"
proof -
  assume m: "m \<le> length first" "\<forall>i < m. i < length s \<and> s ! i = first ! i"
  then have "m \<le> length s" by (cases m) auto
  then have "take m first = take m s"
    using m by (intro nth_equalityI) auto
  then show ?thesis by (simp add: take_is_prefix)
qed

text \<open>The prefix length of a table is the length of the longest common prefix of its names.\<close>

theorem prefix_length_is_longest_common_prefix:
  assumes "keys \<noteq> []"
  shows "NS_OPTIONS_prefix_length keys = length (Longest_common_prefix (set keys))"
proof -
  obtain first others where k: "keys = first # others" using assms by (cases keys) auto
  define m where "m = NS_OPTIONS_prefix_length keys"
  have m: "m \<le> length first" "\<forall>i < m. agrees_at first others i"
    "m < length first \<longrightarrow> \<not> agrees_at first others m"
    using prefix_scan_spec [of 0 "length first" first others] by (auto simp: m_def k NS_OPTIONS_prefix_length_def)
  have "Longest_common_prefix (set keys) = take m first"
  proof (rule Longest_common_prefix_eq)
    show "\<forall>s \<in> set keys. prefix (take m first) s"
      using m(1,2) by (auto simp: k agrees_at_iff take_is_prefix intro!: common_prefix_take)
    show "\<forall>p. (\<forall>s \<in> set keys. prefix p s) \<longrightarrow> length p \<le> length (take m first)"
    proof (intro allI impI)
      fix p assume p: "\<forall>s \<in> set keys. prefix p s"
      have "length p \<le> m"
      proof (rule ccontr)
        assume "\<not> length p \<le> m"
        then have "m < length p" by simp
        then have "m < length s \<and> s ! m = p ! m" if "s \<in> set keys" for s
          using p that by (auto simp: prefix_def nth_append)
        then have "m < length first" "agrees_at first others m"
          by (auto simp: k agrees_at_iff)
        then show False using m(3) by simp
      qed
      then show "length p \<le> length (take m first)" using m(1) by simp
    qed
  qed (simp add: k)
  then show ?thesis using m(1) by (simp add: m_def)
qed

theorem prefix_length_is_longest_common_prefix_witness:
  "NS_OPTIONS_prefix_length [''NSFoo'', ''NSFab''] = length (Longest_common_prefix (set [''NSFoo'', ''NSFab'']))"
  by (rule prefix_length_is_longest_common_prefix) simp

end
