(* ===== verification/EnumCalls.thy ===== *)
theory EnumCalls
  imports EnumTable
begin

text \<open>
  The macros of \<open>src/mulle-objc-enum.h\<close>, through which programs use the tables: they hand the table, the
  number of its lines and the layout of a line to the functions of theory \<open>EnumTable\<close>.  \<open>value_len\<close> is the
  size of the enumeration's type; a value is given as converted to \<open>unsigned long long\<close>.
\<close>

definition NS_ENUM_ITEM :: "string \<Rightarrow> NSUInteger \<Rightarrow> line" where
  "NS_ENUM_ITEM nm val = \<lparr>key = Some nm, field = val\<rparr>"

definition NS_OPTIONS_ITEM :: "string \<Rightarrow> NSUInteger \<Rightarrow> line" where
  "NS_OPTIONS_ITEM nm val = \<lparr>key = Some nm, field = val\<rparr>"

definition NS_ENUM_PRINT where
  "NS_ENUM_PRINT table value_len item = NS_ENUM_UTF8String table value_len item"

definition NS_ENUM_LOOKUP where
  "NS_ENUM_LOOKUP table value_len item = NS_table_search_UTF8String table value_len item"

definition NS_ENUM_PARSE where
  "NS_ENUM_PARSE table value_len s = NS_ENUM_ParseUTF8String table value_len s"

definition NS_ENUM_PARSE_STRICT where
  "NS_ENUM_PARSE_STRICT table value_len s = NS_ENUM_ParseUTF8String_strict table value_len s"

definition NS_OPTIONS_PRINT where
  "NS_OPTIONS_PRINT B table value_len options = NS_OPTIONS_UTF8String B table value_len options"

definition NS_OPTIONS_LOOKUP where
  "NS_OPTIONS_LOOKUP table value_len item = NS_table_search_UTF8String table value_len item"

definition NS_OPTIONS_PARSE where
  "NS_OPTIONS_PARSE table value_len s = NS_OPTIONS_ParseUTF8String table value_len s"

definition NS_OPTIONS_PARSE_STRICT where
  "NS_OPTIONS_PARSE_STRICT table value_len s = NS_OPTIONS_ParseUTF8String_strict table value_len s"

definition NS_ENUM_prefix_length where
  "NS_ENUM_prefix_length names = NS_OPTIONS_prefix_length names"

definition NS_OPTIONS_PREFIX_LEN where
  "NS_OPTIONS_PREFIX_LEN names = NS_OPTIONS_prefix_length names"

definition NS_ENUM_PREFIX_LEN where
  "NS_ENUM_PREFIX_LEN names = NS_ENUM_prefix_length names"

text \<open>Looking a value up finds the first line with that value, under the name it was written with.\<close>

lemma lookup_item:
  "NS_ENUM_LOOKUP (NS_ENUM_ITEM n v # t) 8 v = Done (Some n)"
  "v \<noteq> w \<Longrightarrow> NS_ENUM_LOOKUP (NS_ENUM_ITEM n v # t) 8 w = NS_ENUM_LOOKUP t 8 w"
  by (simp_all add: NS_ENUM_LOOKUP_def NS_ENUM_ITEM_def read_value_def)

end
