(* ===== verification/Ranges.thy ===== *)
theory Ranges
  imports Prelude
begin

text \<open>
  Ranges of indices (\<open>src/struct/NSRange.h\<close>, \<open>src/struct/NSRange.c\<close>).  \<open>NSRange\<close> is the struct
  \<open>mulle_range\<close> of the library mulle-data with its two words.  Of that library \<open>NSRange.c\<close> calls
  \<open>mulle_range_get_max\<close>, the parameter \<open>get_max\<close>, and uses the constant \<open>mulle_not_found_e\<close>, the
  parameter \<open>not_found\<close>.
\<close>

datatype NSRange = NSRange (location: NSUInteger) (len: NSUInteger)

datatype NSComparisonResult = NSOrderedAscending | NSOrderedSame | NSOrderedDescending

definition MulleMakeFullRange :: NSRange where
  "MulleMakeFullRange = NSRange 0 (- 1)"

definition NSRangeMake :: "NSUInteger \<Rightarrow> NSUInteger \<Rightarrow> NSRange" where
  "NSRangeMake l n = NSRange l n"

definition NSRangeEqualToRange :: "NSRange \<Rightarrow> NSRange \<Rightarrow> bool" where
  "NSRangeEqualToRange a b \<longleftrightarrow> location a = location b \<and> len a = len b"

definition MulleObjCRangeCompare :: "NSRange \<Rightarrow> NSRange \<Rightarrow> NSComparisonResult" where
  "MulleObjCRangeCompare a b =
     (if location a \<noteq> location b
      then (if location a < location b then NSOrderedAscending else NSOrderedDescending)
      else if len a \<noteq> len b
      then (if len a < len b then NSOrderedAscending else NSOrderedDescending)
      else NSOrderedSame)"

definition MulleObjCRangeCombine ::
    "(NSRange \<Rightarrow> NSUInteger) \<Rightarrow> NSUInteger \<Rightarrow> NSRange \<Rightarrow> NSRange \<Rightarrow> NSRange" where
  "MulleObjCRangeCombine get_max not_found aRange bRange =
     (let (a, b) = (if location aRange > location bRange then (bRange, aRange) else (aRange, bRange));
          a_end = get_max a
      in if a_end < location b then NSRangeMake not_found 0
         else (let b_end = get_max b;
                   a_end' = (if b_end > a_end then b_end else a_end)
               in NSRangeMake (location a) (a_end' - location a)))"

definition MulleObjCRangeIsCombinableRange ::
    "(NSRange \<Rightarrow> NSUInteger) \<Rightarrow> NSUInteger \<Rightarrow> NSRange \<Rightarrow> NSRange \<Rightarrow> bool" where
  "MulleObjCRangeIsCombinableRange get_max not_found a b \<longleftrightarrow>
     len (MulleObjCRangeCombine get_max not_found a b) \<noteq> 0"

lemma unat_Suc: "i < e \<Longrightarrow> unat (i + 1) = Suc (unat i)" for i e :: NSUInteger
  by unat_arith

text \<open>The indices that \<open>MulleObjCRangeFor\<close> visits: the end is computed once, and may wrap.\<close>

function range_loop :: "NSUInteger \<Rightarrow> NSUInteger \<Rightarrow> NSUInteger list" where
  "range_loop i e = (if i < e then i # range_loop (i + 1) e else [])"
  by pat_completeness auto

termination
  by (relation "measure (\<lambda>(i, e). unat e - unat i)") (auto simp: unat_Suc word_less_nat_alt)

declare range_loop.simps [simp del]

definition MulleObjCRangeFor :: "NSRange \<Rightarrow> NSUInteger list" where
  "MulleObjCRangeFor r = range_loop (location r) (location r + len r)"

section \<open>The order of ranges\<close>

text \<open>The comparison function makes the ranges a linear order, as sorting with it requires.\<close>

instantiation NSRange :: linorder
begin

definition less_eq_NSRange :: "NSRange \<Rightarrow> NSRange \<Rightarrow> bool" where
  "less_eq_NSRange a b \<longleftrightarrow> MulleObjCRangeCompare a b \<noteq> NSOrderedDescending"

definition less_NSRange :: "NSRange \<Rightarrow> NSRange \<Rightarrow> bool" where
  "less_NSRange a b \<longleftrightarrow> MulleObjCRangeCompare a b = NSOrderedAscending"

instance
  by standard
    (auto simp: less_eq_NSRange_def less_NSRange_def MulleObjCRangeCompare_def NSRange.expand split: if_splits)

end

text \<open>
  The comparison of ranges is a three way comparison of a linear order: ascending, same and
  descending are less, equal and greater, it orders by location first, and exchanging the
  arguments exchanges the answers.
\<close>

theorem compare_is_linear_order:
  "(MulleObjCRangeCompare a b = NSOrderedAscending \<longleftrightarrow> a < b)
   \<and> (MulleObjCRangeCompare a b = NSOrderedSame \<longleftrightarrow> a = b \<and> NSRangeEqualToRange a b)
   \<and> (MulleObjCRangeCompare a b = NSOrderedDescending \<longleftrightarrow> b < a)
   \<and> (a < b \<longleftrightarrow> location a < location b \<or> location a = location b \<and> len a < len b)"
  by (cases a; cases b)
    (auto simp: less_NSRange_def MulleObjCRangeCompare_def NSRangeEqualToRange_def)

section \<open>Combining ranges\<close>

text \<open>The indices of a range, as numbers, and the ranges whose end does not wrap around.\<close>

definition indices :: "NSRange \<Rightarrow> nat set" where
  "indices r = {unat (location r) ..< unat (location r) + unat (len r)}"

definition fits :: "NSRange \<Rightarrow> bool" where
  "fits r \<longleftrightarrow> unat (location r) + unat (len r) < 2 ^ 64"

definition max_law :: "(NSRange \<Rightarrow> NSUInteger) \<Rightarrow> bool" where
  "max_law get_max \<longleftrightarrow> (\<forall>r. get_max r = location r + len r)"

lemma unat_max: "max_law get_max \<Longrightarrow> fits r \<Longrightarrow> unat (get_max r) = unat (location r) + unat (len r)"
  by (simp add: max_law_def fits_def unat_word_ariths)

lemma combine_ordered:
  assumes "max_law get_max" and "fits a" and "fits b" and "location a \<le> location b"
  shows "MulleObjCRangeCombine get_max not_found a b =
    (if unat (location a) + unat (len a) < unat (location b) then NSRange not_found 0
     else NSRange (location a)
       (of_nat (max (unat (location a) + unat (len a)) (unat (location b) + unat (len b)) - unat (location a))))"
proof -
  define ea eb where "ea = get_max a" and "eb = get_max b"
  have m: "unat ea = unat (location a) + unat (len a)" "unat eb = unat (location b) + unat (len b)"
    using unat_max assms(1-3) by (simp_all add: ea_def eb_def)
  have sub: "of_nat (unat x - unat (location a)) = x - location a" if "location a \<le> x" for x :: NSUInteger
  proof -
    have "of_nat (unat (x - location a)) = x - location a" by simp
    then show ?thesis by (simp add: unat_sub [OF that])
  qed
  have c: "MulleObjCRangeCombine get_max not_found a b =
      (if ea < location b then NSRange not_found 0
       else NSRange (location a) ((if ea < eb then eb else ea) - location a))"
    using assms(4) [THEN leD] by (simp add: MulleObjCRangeCombine_def NSRangeMake_def Let_def ea_def eb_def)
  have le: "location a \<le> ea" "location a \<le> eb"
    using m assms(4) by (simp_all add: word_le_nat_alt)
  have "max (unat ea) (unat eb) = unat (if ea < eb then eb else ea)"
    by (simp add: max_def word_less_nat_alt)
  then show ?thesis
    using sub [of "if ea < eb then eb else ea"] le by (simp add: c m [symmetric] word_less_nat_alt)
qed

text \<open>
  Two ranges that overlap or touch combine to the range of exactly their indices, in either
  order of the arguments; ranges with a gap between them give the invalid range.
\<close>

theorem combine_is_union:
  assumes "max_law get_max" and "fits a" and "fits b"
  shows "MulleObjCRangeCombine get_max not_found a b =
    (if unat (location a) + unat (len a) < unat (location b) \<or> unat (location b) + unat (len b) < unat (location a)
     then NSRange not_found 0
     else NSRange (min (location a) (location b))
       (of_nat (max (unat (location a) + unat (len a)) (unat (location b) + unat (len b))
          - min (unat (location a)) (unat (location b)))))"
proof (cases "location a \<le> location b")
  case True
  then show ?thesis
    using combine_ordered [OF assms True] by (auto simp: word_le_nat_alt min_def)
next
  case False
  then have "MulleObjCRangeCombine get_max not_found a b = MulleObjCRangeCombine get_max not_found b a"
    by (auto simp: MulleObjCRangeCombine_def)
  with combine_ordered [OF assms(1,3,2), of not_found] False show ?thesis
    by (auto simp: word_le_nat_alt min_def max.commute)
qed

theorem combine_is_union_witness:
  "MulleObjCRangeCombine (\<lambda>r. location r + len r) 99 (NSRange 3 4) (NSRange 0 3) = NSRange 0 7"
  using combine_is_union [of "\<lambda>r. location r + len r" "NSRange 3 4" "NSRange 0 3" 99]
  by (simp add: max_law_def fits_def)

section \<open>Iterating over a range\<close>

lemma range_loop_eq: "range_loop i e = map of_nat [unat i ..< unat e]"
proof (induction i e rule: range_loop.induct)
  case (1 i e)
  show ?case
  proof (cases "i < e")
    case True
    then have "[unat i ..< unat e] = unat i # [unat (i + 1) ..< unat e]"
      by (simp add: unat_Suc upt_rec word_less_nat_alt)
    then show ?thesis using 1 True by (subst range_loop.simps) simp
  next
    case False
    then show ?thesis by (subst range_loop.simps) (simp add: word_less_nat_alt)
  qed
qed

text \<open>
  The loop macro visits the indices of a range in ascending order and each once, provided the
  range does not wrap around; a range that wraps is not visited at all unless it wraps by more
  than its start.
\<close>

theorem range_for_visits:
  "MulleObjCRangeFor r =
     (if fits r then map of_nat (sorted_list_of_set (indices r))
      else map of_nat [unat (location r) ..< unat (location r) + unat (len r) - 2 ^ 64])"
proof -
  define s where "s = unat (location r) + unat (len r)"
  have s: "unat (location r + len r) = s mod 2 ^ 64" "s < 2 ^ 64 + 2 ^ 64"
    using unat_less_64 [of "location r"] unat_less_64 [of "len r"]
    by (simp_all add: s_def unat_word_ariths)
  have "s mod 2 ^ 64 = (if fits r then s else s - 2 ^ 64)"
  proof (cases "fits r")
    case True
    then show ?thesis by (simp add: fits_def s_def)
  next
    case False
    then have "2 ^ 64 \<le> s" by (simp add: fits_def s_def)
    then have "s mod 2 ^ 64 = (s - 2 ^ 64) mod 2 ^ 64"
      by (rule le_mod_geq)
    also have "\<dots> = s - 2 ^ 64"
      using s(2) by (intro mod_less) linarith
    finally show ?thesis using False by simp
  qed
  then show ?thesis
    unfolding MulleObjCRangeFor_def range_loop_eq s(1) indices_def s_def [symmetric] by simp
qed

end
