(* ===== verification/RangeCalls.thy ===== *)
theory RangeCalls
  imports Ranges
begin

text \<open>
  The functions of \<open>src/struct/NSRange.h\<close> and \<open>src/struct/NSRange.c\<close> that forward to \<open>mulle_range_...\<close> of
  the library mulle-data, with the older names for them, and the textual form.  The functions of that
  library are the fields of \<open>range_api\<close>.  A result array of two ranges is a pair.
\<close>

record range_api =
  range_get_max :: "NSRange \<Rightarrow> NSUInteger"
  range_contains_location :: "NSRange \<Rightarrow> NSUInteger \<Rightarrow> bool"
  range_union :: "NSRange \<Rightarrow> NSRange \<Rightarrow> NSRange"
  range_intersect :: "NSRange \<Rightarrow> NSRange \<Rightarrow> NSRange"
  range_subtract :: "NSRange \<Rightarrow> NSRange \<Rightarrow> NSRange \<times> NSRange \<Rightarrow> NSRange \<times> NSRange"
  range_insert :: "NSRange \<Rightarrow> NSRange \<Rightarrow> NSRange \<times> NSRange \<Rightarrow> NSUInteger \<times> NSRange \<times> NSRange"
  range_validate :: "NSRange \<Rightarrow> NSUInteger \<Rightarrow> NSRange"
  range_is_valid :: "NSRange \<Rightarrow> bool"
  range_make_invalid :: NSRange
  range_contains :: "NSRange \<Rightarrow> NSRange \<Rightarrow> bool"
  range_not_found :: NSUInteger

section \<open>Accessors\<close>

definition NSRangeGetLocation :: "NSRange \<Rightarrow> NSUInteger" where
  "NSRangeGetLocation rng = location rng"

definition NSRangeGetLength :: "NSRange \<Rightarrow> NSUInteger" where
  "NSRangeGetLength rng = len rng"

definition NSRangeGetMax :: "range_api \<Rightarrow> NSRange \<Rightarrow> NSUInteger" where
  "NSRangeGetMax A rng = range_get_max A rng"

definition NSRangeContainsLocation :: "range_api \<Rightarrow> NSRange \<Rightarrow> NSUInteger \<Rightarrow> bool" where
  "NSRangeContainsLocation A rng loc = range_contains_location A rng loc"

definition NSRangeUnion :: "range_api \<Rightarrow> NSRange \<Rightarrow> NSRange \<Rightarrow> NSRange" where
  "NSRangeUnion A range1 range2 = range_union A range1 range2"

definition NSRangeIntersect :: "range_api \<Rightarrow> NSRange \<Rightarrow> NSRange \<Rightarrow> NSRange" where
  "NSRangeIntersect A range1 range2 = range_intersect A range1 range2"

definition MulleObjCRangeSubtract :: "range_api \<Rightarrow> NSRange \<Rightarrow> NSRange \<Rightarrow> NSRange \<times> NSRange \<Rightarrow> NSRange \<times> NSRange" where
  "MulleObjCRangeSubtract A range1 range2 result = range_subtract A range1 range2 result"

definition MulleObjCRangeInsert ::
    "range_api \<Rightarrow> NSRange \<Rightarrow> NSRange \<Rightarrow> NSRange \<times> NSRange \<Rightarrow> NSUInteger \<times> NSRange \<times> NSRange" where
  "MulleObjCRangeInsert A range1 range2 result = range_insert A range1 range2 result"

section \<open>Older names\<close>

definition NSMakeRange :: "NSUInteger \<Rightarrow> NSUInteger \<Rightarrow> NSRange" where
  "NSMakeRange loc n = NSRangeMake loc n"

definition NSMaxRange :: "range_api \<Rightarrow> NSRange \<Rightarrow> NSUInteger" where
  "NSMaxRange A rng = NSRangeGetMax A rng"

definition NSLocationInRange :: "range_api \<Rightarrow> NSUInteger \<Rightarrow> NSRange \<Rightarrow> bool" where
  "NSLocationInRange A loc rng = NSRangeContainsLocation A rng loc"

definition NSEqualRanges :: "NSRange \<Rightarrow> NSRange \<Rightarrow> bool" where
  "NSEqualRanges range1 range2 = NSRangeEqualToRange range1 range2"

definition NSUnionRange :: "range_api \<Rightarrow> NSRange \<Rightarrow> NSRange \<Rightarrow> NSRange" where
  "NSUnionRange A range1 range2 = NSRangeUnion A range1 range2"

definition NSIntersectionRange :: "range_api \<Rightarrow> NSRange \<Rightarrow> NSRange \<Rightarrow> NSRange" where
  "NSIntersectionRange A range1 range2 = NSRangeIntersect A range1 range2"

section \<open>Validity and intersection\<close>

definition MulleObjCRangeValidateAgainstLength :: "range_api \<Rightarrow> NSRange \<Rightarrow> NSUInteger \<Rightarrow> NSRange" where
  "MulleObjCRangeValidateAgainstLength A rng n = range_validate A rng n"

definition MulleObjCRangeIsValid :: "range_api \<Rightarrow> NSRange \<Rightarrow> bool" where
  "MulleObjCRangeIsValid A rng = range_is_valid A rng"

definition MulleObjCMakeInvalidRange :: "range_api \<Rightarrow> NSRange" where
  "MulleObjCMakeInvalidRange A = range_make_invalid A"

definition MulleObjCRangeContainsRange :: "range_api \<Rightarrow> NSRange \<Rightarrow> NSRange \<Rightarrow> bool" where
  "MulleObjCRangeContainsRange A big small = range_contains A big small"

definition MulleObjCRangeIntersectsRange :: "range_api \<Rightarrow> NSRange \<Rightarrow> NSRange \<Rightarrow> bool" where
  "MulleObjCRangeIntersectsRange A a b = (if len (NSRangeIntersect A a b) \<noteq> 0 then True else False)"

text \<open>The pointers are addresses of ranges in the memory \<open>mem\<close>.\<close>

definition MulleObjCRangePointerCompare :: "(nat \<Rightarrow> NSRange) \<Rightarrow> nat \<Rightarrow> nat \<Rightarrow> NSComparisonResult" where
  "MulleObjCRangePointerCompare mem a b = MulleObjCRangeCompare (mem a) (mem b)"

text \<open>\<open>td\<close> is the text of the conversion \<open>%td\<close>, which reads its argument as signed.\<close>

definition MulleObjCRangeUTF8String :: "(int \<Rightarrow> string) \<Rightarrow> NSRange \<Rightarrow> string" where
  "MulleObjCRangeUTF8String td rng = ''['' @ td (sint (location rng)) @ '','' @ td (sint (len rng)) @ '']''"

text \<open>The sign of a comparison.\<close>

definition NSComparisonResultUTF8String :: "NSComparisonResult \<Rightarrow> string" where
  "NSComparisonResultUTF8String result =
     (case result of NSOrderedAscending \<Rightarrow> ''<'' | NSOrderedSame \<Rightarrow> ''='' | NSOrderedDescending \<Rightarrow> ''>'')"

section \<open>What they mean\<close>

text \<open>The documented behaviour of the two functions that the facts below rest on.\<close>

definition range_laws :: "range_api \<Rightarrow> bool" where
  "range_laws A \<longleftrightarrow>
     (\<forall>a b. fits a \<longrightarrow> fits b \<longrightarrow>
        fits (range_intersect A a b) \<and> indices (range_intersect A a b) = indices a \<inter> indices b) \<and>
     (\<forall>r i. fits r \<longrightarrow> range_contains_location A r i = (unat i \<in> indices r))"

lemma indices_empty: "indices r = {} \<longleftrightarrow> len r = 0"
  by (auto simp: indices_def unat_eq_zero)

text \<open>Two ranges intersect exactly if some index is in both.\<close>

lemma intersects_common_index:
  assumes "range_laws A" and "fits a" and "fits b"
  shows "MulleObjCRangeIntersectsRange A a b \<longleftrightarrow>
    (\<exists>i. NSLocationInRange A i a \<and> NSLocationInRange A i b)"
proof -
  have c: "range_contains_location A r i = (unat i \<in> indices r)" if "fits r" for r i
    using assms(1) that by (simp add: range_laws_def)
  have "MulleObjCRangeIntersectsRange A a b \<longleftrightarrow> indices a \<inter> indices b \<noteq> {}"
    using assms indices_empty [of "range_intersect A a b"]
    by (simp add: range_laws_def MulleObjCRangeIntersectsRange_def NSRangeIntersect_def)
  also have "\<dots> \<longleftrightarrow> (\<exists>i :: NSUInteger. unat i \<in> indices a \<and> unat i \<in> indices b)"
  proof
    assume "indices a \<inter> indices b \<noteq> {}"
    then obtain k where k: "k \<in> indices a" "k \<in> indices b" by blast
    then have "k < 2 ^ LENGTH(64)"
      using assms(2) by (simp add: indices_def fits_def)
    then have "unat (of_nat k :: NSUInteger) = k"
      by (rule unat_of_nat_small)
    with k show "\<exists>i :: NSUInteger. unat i \<in> indices a \<and> unat i \<in> indices b" by metis
  qed blast
  finally show ?thesis
    by (simp add: NSLocationInRange_def NSRangeContainsLocation_def c assms(2,3))
qed

end
