(* ===== verification/Locks.thy ===== *)
theory Locks
  imports Prelude
begin

text \<open>
  The locks: \<open>NSLock\<close> (\<open>src/class/NSLock.m\<close>, \<open>src/class/NSLock-Private.h\<close>), \<open>NSRecursiveLock\<close>,
  \<open>NSCondition\<close> (\<open>src/class/NSCondition.m\<close>) and the condition lock built on it
  (\<open>src/class/NSConditionLock.m\<close>).

  The mutex and the condition variable are those of the library mulle-thread.  The record
  \<open>thread_api\<close> holds its calls as relations between the state of the library before and after
  the call, \<open>api_laws\<close> their documented behaviour.  The condition lock is a step relation over any
  number of threads: every thread is at some point of the method it executes, and a step is one
  call of the library together with the assignments of the method up to the next call.
\<close>

section \<open>The thread library\<close>

type_synonym tid = nat

record 'k thread_api =
  holder :: "'k \<Rightarrow> tid option"
  sleepers :: "'k \<Rightarrow> tid set"
  mutex_lock :: "tid \<Rightarrow> 'k \<Rightarrow> 'k \<Rightarrow> bool"
  mutex_trylock :: "tid \<Rightarrow> 'k \<Rightarrow> bool \<Rightarrow> 'k \<Rightarrow> bool"
  mutex_unlock :: "tid \<Rightarrow> 'k \<Rightarrow> 'k \<Rightarrow> bool"
  wait_enter :: "tid \<Rightarrow> 'k \<Rightarrow> 'k \<Rightarrow> bool"
  wait_leave :: "tid \<Rightarrow> 'k \<Rightarrow> 'k \<Rightarrow> bool"
  cond_signal :: "tid \<Rightarrow> 'k \<Rightarrow> 'k \<Rightarrow> bool"
  cond_broadcast :: "tid \<Rightarrow> 'k \<Rightarrow> 'k \<Rightarrow> bool"

text \<open>
  \<open>holder\<close> is the thread that owns the mutex, \<open>sleepers\<close> the threads blocked in the condition
  variable.  Waiting gives the mutex up and goes to sleep in one step; it returns with the mutex,
  possibly without having been signalled.  A broadcast leaves nobody asleep.
\<close>

definition api_laws :: "'k thread_api \<Rightarrow> bool" where
  "api_laws A \<longleftrightarrow>
     (\<forall>t k k'. mutex_lock A t k k' \<longrightarrow>
        holder A k = None \<and> holder A k' = Some t \<and> sleepers A k' = sleepers A k) \<and>
     (\<forall>t k k'. mutex_trylock A t k True k' \<longrightarrow>
        holder A k = None \<and> holder A k' = Some t \<and> sleepers A k' = sleepers A k) \<and>
     (\<forall>t k k'. mutex_trylock A t k False k' \<longrightarrow>
        holder A k' = holder A k \<and> sleepers A k' = sleepers A k) \<and>
     (\<forall>t k k'. mutex_unlock A t k k' \<longrightarrow> holder A k = Some t \<longrightarrow>
        holder A k' = None \<and> sleepers A k' = sleepers A k) \<and>
     (\<forall>t k k'. wait_enter A t k k' \<longrightarrow> holder A k = Some t \<longrightarrow>
        holder A k' = None \<and> sleepers A k' = insert t (sleepers A k)) \<and>
     (\<forall>t k k'. wait_leave A t k k' \<longrightarrow>
        holder A k = None \<and> holder A k' = Some t \<and> sleepers A k' = sleepers A k - {t}) \<and>
     (\<forall>t k k'. cond_signal A t k k' \<longrightarrow>
        holder A k' = holder A k \<and> sleepers A k' \<subseteq> sleepers A k) \<and>
     (\<forall>t k k'. cond_broadcast A t k k' \<longrightarrow> holder A k' = holder A k \<and> sleepers A k' = {})"

section \<open>NSLock\<close>

text \<open>The result of \<open>mulle_thread_mutex_trylock\<close> as \<open>tryLock\<close> reports it.\<close>

definition EBUSY :: int where
  "EBUSY = 16"

definition MulleObjCLockTryLock :: "int \<Rightarrow> bool outcome" where
  "MulleObjCLockTryLock rval =
     (if rval = 0 then Done True else if rval = EBUSY then Done False else Abort)"

definition MulleObjCRecursiveLockTryLock :: "int \<Rightarrow> bool" where
  "MulleObjCRecursiveLockTryLock rval \<longleftrightarrow> rval = 0"

definition NSCondition_tryLock :: "int \<Rightarrow> bool outcome" where
  "NSCondition_tryLock rval =
     (if rval \<noteq> 0 then (if rval = EBUSY then Done False else Abort) else Done True)"

text \<open>
  \<open>lockBeforeTimeInterval:\<close>.  In round \<open>i\<close> the clock shows \<open>now i\<close> and \<open>tryLock\<close> answers
  \<open>try_lock i\<close>; \<open>None\<close> means that the loop never ends.
\<close>

partial_function (option) lockBeforeTimeInterval ::
    "(nat \<Rightarrow> int) \<Rightarrow> (nat \<Rightarrow> bool) \<Rightarrow> int \<Rightarrow> nat \<Rightarrow> bool option" where
  "lockBeforeTimeInterval now try_lock timeInterval i =
     (if now i \<ge> timeInterval then Some False
      else if try_lock i then Some True
      else lockBeforeTimeInterval now try_lock timeInterval (Suc i))"

section \<open>The condition lock\<close>

text \<open>What a locking call waits for: nothing, a value of the condition, or any other value.\<close>

datatype want = Any | Is NSUInteger | IsNot NSUInteger

fun met :: "want \<Rightarrow> NSUInteger \<Rightarrow> bool" where
  "met Any c = True"
| "met (Is v) c = (v = c)"
| "met (IsNot v) c = (v \<noteq> c)"

datatype pc =
    Out
  | Locking want
  | Testing want
  | WaitCall want
  | Waiting want
  | Trying want
  | TryTesting want
  | Hold want
  | Signalling bool
  | Unlocking

record 'k clock =
  lib :: 'k
  currentCondition :: NSUInteger
  isLocked :: bool
  at :: "tid \<Rightarrow> pc"

abbreviation goto :: "tid \<Rightarrow> pc \<Rightarrow> 'k clock \<Rightarrow> 'k clock" where
  "goto t p s \<equiv> s\<lparr>at := (at s)(t := p)\<rparr>"

definition initWithCondition :: "'k \<Rightarrow> NSUInteger \<Rightarrow> 'k clock" where
  "initWithCondition k value = \<lparr>lib = k, currentCondition = value, isLocked = False, at = (\<lambda>_. Out)\<rparr>"

text \<open>
  \<open>sig\<close> tells whether clients use \<open>mulleUnlockWithCondition:broadcast:\<close> with \<open>NO\<close>, which signals
  one thread instead of waking all.
\<close>

inductive step :: "'k thread_api \<Rightarrow> bool \<Rightarrow> 'k clock \<Rightarrow> 'k clock \<Rightarrow> bool" for A sig where
  lock_call: "at s t = Out \<Longrightarrow> step A sig s (goto t (Locking w) s)"
| lock_got: "at s t = Locking w \<Longrightarrow> mutex_lock A t (lib s) k \<Longrightarrow>
     step A sig s (goto t (Testing w) (s\<lparr>lib := k, isLocked := True\<rparr>))"
| lock_met: "at s t = Testing w \<Longrightarrow> met w (currentCondition s) \<Longrightarrow> step A sig s (goto t (Hold w) s)"
| wait_call: "at s t = Testing w \<Longrightarrow> \<not> met w (currentCondition s) \<Longrightarrow>
     step A sig s (goto t (WaitCall w) (s\<lparr>isLocked := False\<rparr>))"
| wait_sleep: "at s t = WaitCall w \<Longrightarrow> wait_enter A t (lib s) k \<Longrightarrow>
     step A sig s (goto t (Waiting w) (s\<lparr>lib := k\<rparr>))"
| wait_wake: "at s t = Waiting w \<Longrightarrow> wait_leave A t (lib s) k \<Longrightarrow>
     step A sig s (goto t (Testing w) (s\<lparr>lib := k, isLocked := True\<rparr>))"
| try_call: "at s t = Out \<Longrightarrow> step A sig s (goto t (Trying w) s)"
| try_busy: "at s t = Trying w \<Longrightarrow> mutex_trylock A t (lib s) False k \<Longrightarrow>
     step A sig s (goto t Out (s\<lparr>lib := k\<rparr>))"
| try_got: "at s t = Trying w \<Longrightarrow> mutex_trylock A t (lib s) True k \<Longrightarrow>
     step A sig s (goto t (TryTesting w) (s\<lparr>lib := k, isLocked := True\<rparr>))"
| try_met: "at s t = TryTesting w \<Longrightarrow> met w (currentCondition s) \<Longrightarrow> step A sig s (goto t (Hold w) s)"
| try_back: "at s t = TryTesting w \<Longrightarrow> \<not> met w (currentCondition s) \<Longrightarrow> mutex_unlock A t (lib s) k \<Longrightarrow>
     step A sig s (goto t Out (s\<lparr>lib := k, isLocked := False\<rparr>))"
| unlock: "at s t = Hold w \<Longrightarrow> mutex_unlock A t (lib s) k \<Longrightarrow>
     step A sig s (goto t Out (s\<lparr>lib := k, isLocked := False\<rparr>))"
| unlock_with: "at s t = Hold w \<Longrightarrow> b \<or> sig \<Longrightarrow>
     step A sig s (goto t (Signalling b) (s\<lparr>currentCondition := c\<rparr>))"
| broadcast: "at s t = Signalling True \<Longrightarrow> cond_broadcast A t (lib s) k \<Longrightarrow>
     step A sig s (goto t Unlocking (s\<lparr>lib := k\<rparr>))"
| signal: "at s t = Signalling False \<Longrightarrow> cond_signal A t (lib s) k \<Longrightarrow>
     step A sig s (goto t Unlocking (s\<lparr>lib := k\<rparr>))"
| unlocked: "at s t = Unlocking \<Longrightarrow> mutex_unlock A t (lib s) k \<Longrightarrow>
     step A sig s (goto t Out (s\<lparr>lib := k, isLocked := False\<rparr>))"

definition new_lock :: "'k thread_api \<Rightarrow> 'k clock \<Rightarrow> bool" where
  "new_lock A s \<longleftrightarrow> (\<exists>k c. holder A k = None \<and> sleepers A k = {} \<and> s = initWithCondition k c)"

abbreviation reachable :: "'k thread_api \<Rightarrow> bool \<Rightarrow> 'k clock \<Rightarrow> bool" where
  "reachable A sig \<equiv> reached (new_lock A) (step A sig)"

section \<open>The invariant\<close>

text \<open>The points of a method at which its thread owns the mutex, and those where it has said so.\<close>

fun owns :: "pc \<Rightarrow> bool" where
  "owns (Testing w) = True"
| "owns (WaitCall w) = True"
| "owns (TryTesting w) = True"
| "owns (Hold w) = True"
| "owns (Signalling b) = True"
| "owns Unlocking = True"
| "owns _ = False"

fun marked :: "pc \<Rightarrow> bool" where
  "marked (WaitCall w) = False"
| "marked p = owns p"

definition lock_inv :: "'k thread_api \<Rightarrow> 'k clock \<Rightarrow> bool" where
  "lock_inv A s \<longleftrightarrow>
     (\<forall>t. owns (at s t) \<longleftrightarrow> holder A (lib s) = Some t) \<and>
     (isLocked s \<longleftrightarrow> (\<exists>t. marked (at s t))) \<and>
     (\<forall>t w. at s t = Hold w \<longrightarrow> met w (currentCondition s)) \<and>
     (\<forall>t w. at s t = WaitCall w \<longrightarrow> \<not> met w (currentCondition s))"

text \<open>Nobody sleeps through a condition it waits for, unless the broadcast is still to come.\<close>

definition awake_inv :: "'k thread_api \<Rightarrow> 'k clock \<Rightarrow> bool" where
  "awake_inv A s \<longleftrightarrow>
     (\<forall>t w. at s t = Waiting w \<longrightarrow> t \<in> sleepers A (lib s) \<longrightarrow> met w (currentCondition s) \<longrightarrow>
        (\<exists>u. at s u = Signalling True)) \<and>
     (\<forall>t. at s t \<noteq> Signalling False)"

lemma marked_owns: "marked p \<Longrightarrow> owns p"
  by (cases p) auto

lemma lock_inv_init: "holder A k = None \<Longrightarrow> lock_inv A (initWithCondition k value)"
  by (simp add: lock_inv_def initWithCondition_def)

lemma owner_unique: "lock_inv A s \<Longrightarrow> owns (at s t) \<Longrightarrow> owns (at s u) \<Longrightarrow> t = u"
  by (simp add: lock_inv_def)

text \<open>
  How a step of thread \<open>t\<close> keeps the invariant: it is enough to look at \<open>t\<close>, as nobody else owns
  the mutex before or after.
\<close>

lemma lock_inv_goto:
  assumes "lock_inv A s"
    and "\<And>u. u \<noteq> t \<Longrightarrow> holder A k = Some u \<longleftrightarrow> holder A (lib s) = Some u"
    and "owns p \<longleftrightarrow> holder A k = Some t"
    and "b \<longleftrightarrow> marked p \<or> (\<exists>u. u \<noteq> t \<and> marked (at s u))"
    and "\<And>w. p = Hold w \<Longrightarrow> met w c" and "\<And>w. p = WaitCall w \<Longrightarrow> \<not> met w c"
    and "c = currentCondition s \<or> owns (at s t)"
  shows "lock_inv A (goto t p (s\<lparr>lib := k, isLocked := b, currentCondition := c\<rparr>))"
proof -
  have other: "c = currentCondition s" if "owns (at s u)" "u \<noteq> t" for u
    using assms(7) owner_unique [OF assms(1) that(1), of t] that(2) by auto
  have "met w c" if "at s u = Hold w" "u \<noteq> t" for u w
    using assms(1) that other [of u] by (auto simp: lock_inv_def)
  moreover have "\<not> met w c" if "at s u = WaitCall w" "u \<noteq> t" for u w
    using assms(1) that other [of u] by (auto simp: lock_inv_def)
  ultimately show ?thesis
    using assms(1-6) by (auto simp: lock_inv_def)
qed

lemma nobody_marked:
  assumes "lock_inv A s" and "owns (at s t)" and "u \<noteq> t"
  shows "\<not> marked (at s u)"
  using owner_unique [OF assms(1,2)] assms(3) marked_owns by blast

lemma free_nobody_marked: "lock_inv A s \<Longrightarrow> holder A (lib s) = None \<Longrightarrow> \<not> marked (at s u)"
  using marked_owns by (fastforce simp: lock_inv_def)

lemma at_holder: "lock_inv A s \<Longrightarrow> owns (at s t) \<Longrightarrow> holder A (lib s) = Some t"
  by (simp add: lock_inv_def)

lemma isLocked_iff: "lock_inv A s \<Longrightarrow> isLocked s \<longleftrightarrow> (\<exists>u. marked (at s u))"
  by (simp add: lock_inv_def)

lemma record_frame:
  "goto t p s = goto t p (s\<lparr>lib := lib s, isLocked := isLocked s, currentCondition := currentCondition s\<rparr>)"
  "goto t p (s\<lparr>lib := k\<rparr>) = goto t p (s\<lparr>lib := k, isLocked := isLocked s, currentCondition := currentCondition s\<rparr>)"
  "goto t p (s\<lparr>isLocked := b\<rparr>) = goto t p (s\<lparr>lib := lib s, isLocked := b, currentCondition := currentCondition s\<rparr>)"
  "goto t p (s\<lparr>lib := k, isLocked := b\<rparr>) = goto t p (s\<lparr>lib := k, isLocked := b, currentCondition := currentCondition s\<rparr>)"
  "goto t p (s\<lparr>currentCondition := c\<rparr>) = goto t p (s\<lparr>lib := lib s, isLocked := isLocked s, currentCondition := c\<rparr>)"
  by simp_all


text \<open>The laws of the library, one call at a time.\<close>

lemma api_laws_dest:
  assumes "api_laws A"
  shows "mutex_lock A t k k' \<Longrightarrow> holder A k = None \<and> holder A k' = Some t \<and> sleepers A k' = sleepers A k"
    and "mutex_trylock A t k True k' \<Longrightarrow> holder A k = None \<and> holder A k' = Some t \<and> sleepers A k' = sleepers A k"
    and "mutex_trylock A t k False k' \<Longrightarrow> holder A k' = holder A k \<and> sleepers A k' = sleepers A k"
    and "mutex_unlock A t k k' \<Longrightarrow> holder A k = Some t \<Longrightarrow> holder A k' = None \<and> sleepers A k' = sleepers A k"
    and "wait_enter A t k k' \<Longrightarrow> holder A k = Some t \<Longrightarrow>
           holder A k' = None \<and> sleepers A k' = insert t (sleepers A k)"
    and "wait_leave A t k k' \<Longrightarrow> holder A k = None \<and> holder A k' = Some t \<and> sleepers A k' = sleepers A k - {t}"
    and "cond_signal A t k k' \<Longrightarrow> holder A k' = holder A k \<and> sleepers A k' \<subseteq> sleepers A k"
    and "cond_broadcast A t k k' \<Longrightarrow> holder A k' = holder A k \<and> sleepers A k' = {}"
  using assms by (simp_all add: api_laws_def)

text \<open>The three ways a step moves the mutex: \<open>t\<close> keeps what it has, takes the free mutex, or gives it up.\<close>

lemma lock_inv_stay:
  assumes "lock_inv A s" and "holder A k = holder A (lib s)" and "owns p = owns (at s t)"
    and "b \<longleftrightarrow> marked p \<or> (\<exists>u. u \<noteq> t \<and> marked (at s u))"
    and "\<And>w. p = Hold w \<Longrightarrow> met w c" and "\<And>w. p = WaitCall w \<Longrightarrow> \<not> met w c"
    and "c = currentCondition s \<or> owns (at s t)"
  shows "lock_inv A (goto t p (s\<lparr>lib := k, isLocked := b, currentCondition := c\<rparr>))"
  by (rule lock_inv_goto [OF assms(1)]) (use assms in \<open>auto simp: lock_inv_def\<close>)

lemma lock_inv_take:
  assumes "lock_inv A s" and "holder A (lib s) = None" and "holder A k = Some t" and "owns p" and "marked p"
    and "\<And>w. p = Hold w \<Longrightarrow> met w (currentCondition s)" and "\<And>w. p \<noteq> WaitCall w"
  shows "lock_inv A (goto t p (s\<lparr>lib := k, isLocked := True\<rparr>))"
  by (subst record_frame(4), rule lock_inv_goto [OF assms(1)]) (use assms free_nobody_marked [OF assms(1,2)] in auto)

lemma lock_inv_give:
  assumes "lock_inv A s" and "owns (at s t)" and "holder A k = None" and "\<not> owns p"
  shows "lock_inv A (goto t p (s\<lparr>lib := k, isLocked := False\<rparr>))"
  by (subst record_frame(4), rule lock_inv_goto [OF assms(1)])
     (use assms nobody_marked [OF assms(1,2)] at_holder [OF assms(1,2)] marked_owns [of p] in auto)

lemma isLocked_split:
  "lock_inv A s \<Longrightarrow> isLocked s \<longleftrightarrow> marked (at s t) \<or> (\<exists>u. u \<noteq> t \<and> marked (at s u))"
  by (auto simp: isLocked_iff)

lemma step_lock_inv:
  assumes "api_laws A" and "lock_inv A s" and "step A sig s s'"
  shows "lock_inv A s'"
  using assms(3)
proof (cases rule: step.cases)
  case (lock_call t w)
  show ?thesis unfolding lock_call
    by (subst record_frame(1), rule lock_inv_stay) (use assms(2) lock_call isLocked_split [OF assms(2), of t] in auto)
next
  case (lock_got t w k)
  show ?thesis unfolding lock_got
    by (rule lock_inv_take) (use assms(2) lock_got api_laws_dest(1) [OF assms(1)] in auto)
next
  case (lock_met t w)
  show ?thesis unfolding lock_met
    by (subst record_frame(1), rule lock_inv_stay) (use assms(2) lock_met isLocked_split [OF assms(2), of t] in auto)
next
  case (wait_call t w)
  have "\<not> marked (at s u)" if "u \<noteq> t" for u
    by (rule nobody_marked [OF assms(2)]) (use wait_call that in auto)
  then show ?thesis unfolding wait_call
    by - (subst record_frame(3), rule lock_inv_stay, use assms(2) wait_call in auto)
next
  case (wait_sleep t w k)
  have *: "holder A (lib s) = Some t"
    by (rule at_holder [OF assms(2)]) (simp add: wait_sleep)
  have "\<not> marked (at s u)" for u
    using nobody_marked [OF assms(2), of t u] wait_sleep by (cases "u = t") simp_all
  then have "\<not> isLocked s"
    by (simp add: isLocked_iff [OF assms(2)])
  then have "s\<lparr>lib := k\<rparr> = s\<lparr>lib := k, isLocked := False\<rparr>"
    by simp
  then show ?thesis unfolding wait_sleep
    using lock_inv_give [OF assms(2), of t k "Waiting w"] wait_sleep api_laws_dest(5) [OF assms(1) _ *] by simp
next
  case (wait_wake t w k)
  show ?thesis unfolding wait_wake
    by (rule lock_inv_take) (use assms(2) wait_wake api_laws_dest(6) [OF assms(1)] in auto)
next
  case (try_call t w)
  show ?thesis unfolding try_call
    by (subst record_frame(1), rule lock_inv_stay) (use assms(2) try_call isLocked_split [OF assms(2), of t] in auto)
next
  case (try_busy t w k)
  show ?thesis unfolding try_busy
    by (subst record_frame(2), rule lock_inv_stay)
       (use assms(2) try_busy isLocked_split [OF assms(2), of t] api_laws_dest(3) [OF assms(1)] in auto)
next
  case (try_got t w k)
  show ?thesis unfolding try_got
    by (rule lock_inv_take) (use assms(2) try_got api_laws_dest(2) [OF assms(1)] in auto)
next
  case (try_met t w)
  show ?thesis unfolding try_met
    by (subst record_frame(1), rule lock_inv_stay) (use assms(2) try_met isLocked_split [OF assms(2), of t] in auto)
next
  case (try_back t w k)
  then show ?thesis
    using lock_inv_give [OF assms(2), of t k Out] at_holder [OF assms(2), of t] api_laws_dest(4) [OF assms(1)] by simp
next
  case (unlock t w k)
  then show ?thesis
    using lock_inv_give [OF assms(2), of t k Out] at_holder [OF assms(2), of t] api_laws_dest(4) [OF assms(1)] by simp
next
  case (unlock_with t w b c)
  show ?thesis unfolding unlock_with
    by (subst record_frame(5), rule lock_inv_stay) (use assms(2) unlock_with isLocked_split [OF assms(2), of t] in auto)
next
  case (broadcast t k)
  show ?thesis unfolding broadcast
    by (subst record_frame(2), rule lock_inv_stay)
       (use assms(2) broadcast isLocked_split [OF assms(2), of t] api_laws_dest(8) [OF assms(1)] in auto)
next
  case (signal t k)
  show ?thesis unfolding signal
    by (subst record_frame(2), rule lock_inv_stay)
       (use assms(2) signal isLocked_split [OF assms(2), of t] api_laws_dest(7) [OF assms(1)] in auto)
next
  case (unlocked t k)
  then show ?thesis
    using lock_inv_give [OF assms(2), of t k Out] at_holder [OF assms(2), of t] api_laws_dest(4) [OF assms(1)] by simp
qed

interpretation condition_lock: stable_invariant "new_lock A" "step A sig" "\<lambda>s. api_laws A \<longrightarrow> lock_inv A s"
  by unfold_locales (auto simp: new_lock_def intro: lock_inv_init step_lock_inv)

lemma reachable_lock_inv: "api_laws A \<Longrightarrow> reachable A sig s \<Longrightarrow> lock_inv A s"
  using condition_lock.reached_invariant by blast


section \<open>No lost wake-up\<close>

lemma awake_frame:
  assumes "awake_inv A s" and "sleepers A k \<subseteq> sleepers A (lib s)" and "\<And>w. p \<noteq> Waiting w"
    and "p \<noteq> Signalling False" and "at s t \<noteq> Signalling True"
  shows "awake_inv A (goto t p (s\<lparr>lib := k, isLocked := b\<rparr>))"
  using assms by (fastforce simp: awake_inv_def)

lemma step_awake_inv:
  assumes "api_laws A" and "lock_inv A s" and "awake_inv A s" and "step A False s s'"
  shows "awake_inv A s'"
  using assms(4)
proof (cases rule: step.cases)
  case (lock_call t w)
  then show ?thesis using awake_frame [OF assms(3), of "lib s" "Locking w" t "isLocked s"] by simp
next
  case (lock_got t w k)
  then show ?thesis
    using awake_frame [OF assms(3), of k "Testing w" t True] api_laws_dest(1) [OF assms(1)] by auto
next
  case (lock_met t w)
  then show ?thesis using awake_frame [OF assms(3), of "lib s" "Hold w" t "isLocked s"] by simp
next
  case (wait_call t w)
  then show ?thesis using awake_frame [OF assms(3), of "lib s" "WaitCall w" t False] by simp
next
  case (wait_sleep t w k)
  have "\<not> met w (currentCondition s)"
    using assms(2) wait_sleep by (simp add: lock_inv_def)
  moreover have "sleepers A k = insert t (sleepers A (lib s))"
    using api_laws_dest(5) [OF assms(1)] at_holder [OF assms(2), of t] wait_sleep by simp
  moreover have "\<exists>u. u \<noteq> t \<and> at s u = Signalling True"
    if asleep: "at s v = Waiting w'" "v \<in> sleepers A (lib s)" "met w' (currentCondition s)" for v w'
  proof -
    obtain u where "at s u = Signalling True"
      using assms(3) asleep unfolding awake_inv_def by blast
    then show ?thesis
      using wait_sleep by (intro exI [of _ u]) auto
  qed
  moreover have "at s u \<noteq> Signalling False" for u
    using assms(3) by (simp add: awake_inv_def)
  ultimately show ?thesis
    unfolding wait_sleep awake_inv_def by (auto; blast)
next
  case (wait_wake t w k)
  then show ?thesis
    using awake_frame [OF assms(3), of k "Testing w" t True] api_laws_dest(6) [OF assms(1)] by auto
next
  case (try_call t w)
  then show ?thesis using awake_frame [OF assms(3), of "lib s" "Trying w" t "isLocked s"] by simp
next
  case (try_busy t w k)
  then show ?thesis
    using awake_frame [OF assms(3), of k Out t "isLocked s"] api_laws_dest(3) [OF assms(1)] by auto
next
  case (try_got t w k)
  then show ?thesis
    using awake_frame [OF assms(3), of k "TryTesting w" t True] api_laws_dest(2) [OF assms(1)] by auto
next
  case (try_met t w)
  then show ?thesis using awake_frame [OF assms(3), of "lib s" "Hold w" t "isLocked s"] by simp
next
  case (try_back t w k)
  then show ?thesis
    using awake_frame [OF assms(3), of k Out t False] api_laws_dest(4) [OF assms(1)] at_holder [OF assms(2), of t]
    by auto
next
  case (unlock t w k)
  then show ?thesis
    using awake_frame [OF assms(3), of k Out t False] api_laws_dest(4) [OF assms(1)] at_holder [OF assms(2), of t]
    by auto
next
  case (unlock_with t w b c)
  then show ?thesis using assms(3) by (auto simp: awake_inv_def)
next
  case (broadcast t k)
  then show ?thesis
    using assms(3) api_laws_dest(8) [OF assms(1)] by (auto simp: awake_inv_def)
next
  case (signal t k)
  then show ?thesis using assms(3) by (simp add: awake_inv_def)
next
  case (unlocked t k)
  then show ?thesis
    using awake_frame [OF assms(3), of k Out t False] api_laws_dest(4) [OF assms(1)] at_holder [OF assms(2), of t]
    by auto
qed

interpretation awake: strengthened_invariant "new_lock A" "step A False"
  "\<lambda>s. api_laws A \<longrightarrow> lock_inv A s" "\<lambda>s. api_laws A \<longrightarrow> awake_inv A s"
proof unfold_locales
  show "api_laws A \<longrightarrow> awake_inv A s" if "new_lock A s" for s
    using that by (auto simp: new_lock_def awake_inv_def initWithCondition_def)
qed (use step_awake_inv in blast)

lemma reachable_awake_inv: "api_laws A \<Longrightarrow> reachable A False s \<Longrightarrow> awake_inv A s"
  using awake.reached_further by blast

section \<open>A concrete thread library\<close>

text \<open>The state of a mutex and a condition variable, with the operations that satisfy the laws.\<close>

definition demo_api :: "(tid option \<times> tid set) thread_api" where
  "demo_api = \<lparr>holder = fst, sleepers = snd,
     mutex_lock = (\<lambda>t k k'. fst k = None \<and> k' = (Some t, snd k)),
     mutex_trylock = (\<lambda>t k b k'. (b \<longleftrightarrow> fst k = None) \<and> k' = (if b then (Some t, snd k) else k)),
     mutex_unlock = (\<lambda>t k k'. fst k = Some t \<and> k' = (None, snd k)),
     wait_enter = (\<lambda>t k k'. fst k = Some t \<and> k' = (None, insert t (snd k))),
     wait_leave = (\<lambda>t k k'. fst k = None \<and> t \<notin> snd k \<and> k' = (Some t, snd k)),
     cond_signal = (\<lambda>t k k'. fst k' = fst k \<and> (snd k = {} \<and> snd k' = {} \<or> (\<exists>u \<in> snd k. snd k' = snd k - {u}))),
     cond_broadcast = (\<lambda>t k k'. k' = (fst k, {}))\<rparr>"

lemma demo_laws: "api_laws demo_api"
  by (auto simp: api_laws_def demo_api_def)

lemma demo_signal: "cond_signal demo_api t (h, {2, 1}) (h, {2})"
  by (auto simp: demo_api_def)

lemma demo_unlock: "mutex_unlock demo_api t (Some t, sl) (None, sl)"
  by (simp add: demo_api_def)

text \<open>A state written out, and the steps to it: \<open>next_step\<close> with the state it leads to.\<close>

abbreviation cstate :: "tid option \<Rightarrow> tid set \<Rightarrow> NSUInteger \<Rightarrow> bool \<Rightarrow> (tid \<Rightarrow> pc) \<Rightarrow> (tid option \<times> tid set) clock" where
  "cstate h sl c b p \<equiv> \<lparr>lib = (h, sl), currentCondition = c, isLocked = b, at = p\<rparr>"

lemma demo_reach:
  "reachable demo_api sg (cstate None {} c False (\<lambda>_. Out))"
  "reachable demo_api sg (cstate None sl c b p) \<Longrightarrow> p t = Out \<Longrightarrow>
     reachable demo_api sg (cstate (Some t) sl c True (p(t := Testing w)))"
  "reachable demo_api sg (cstate (Some t) sl c b p) \<Longrightarrow> p t = Testing w \<Longrightarrow> met w c \<Longrightarrow>
     reachable demo_api sg (cstate (Some t) sl c b (p(t := Hold w)))"
  "reachable demo_api sg (cstate (Some t) sl c b p) \<Longrightarrow> p t = Testing w \<Longrightarrow> \<not> met w c \<Longrightarrow>
     reachable demo_api sg (cstate None (insert t sl) c False (p(t := Waiting w)))"
proof -
  show "reachable demo_api sg (cstate None {} c False (\<lambda>_. Out))"
    by (rule reached.at_start) (simp add: new_lock_def demo_api_def initWithCondition_def)
  show "reachable demo_api sg (cstate (Some t) sl c True (p(t := Testing w)))"
    if "reachable demo_api sg (cstate None sl c b p)" "p t = Out"
    using reached.next_step [OF reached.next_step [OF that(1) step.lock_call [of _ t _ _ w]]
            step.lock_got [of _ t w _ "(Some t, sl)"]] that(2)
    by (simp add: demo_api_def)
  show "reachable demo_api sg (cstate (Some t) sl c b (p(t := Hold w)))"
    if "reachable demo_api sg (cstate (Some t) sl c b p)" "p t = Testing w" "met w c"
    using reached.next_step [OF that(1) step.lock_met [of _ t w]] that(2,3) by simp
  show "reachable demo_api sg (cstate None (insert t sl) c False (p(t := Waiting w)))"
    if "reachable demo_api sg (cstate (Some t) sl c b p)" "p t = Testing w" "\<not> met w c"
    using reached.next_step [OF reached.next_step [OF that(1) step.wait_call [of _ t w]]
            step.wait_sleep [of _ t w _ "(None, insert t sl)"]] that(2,3)
    by (simp add: demo_api_def)
qed

lemma demo_hold: "reachable demo_api sg (cstate (Some 1) {} 7 True ((\<lambda>_. Out)(1 := Hold (Is 7))))"
  using demo_reach(3) [OF demo_reach(2) [where t = 1 and w = "Is 7", OF demo_reach(1)]] by simp

lemma demo_asleep: "reachable demo_api sg (cstate None {1} 7 False ((\<lambda>_. Out)(1 := Waiting (Is 8))))"
  using demo_reach(4) [OF demo_reach(2) [where t = 1 and w = "Is 8", OF demo_reach(1)]] by simp


section \<open>Properties\<close>

text \<open>
  C5. Mutual exclusion of the condition lock.  Whatever the threads do, at most one of them is
  past its locking call and before the end of its unlocking call, it is the owner of the mutex,
  and \<open>mulleIsLocked\<close> is set while it holds the lock.  A thread that has come back from
  \<open>lockWhenCondition:\<close>, \<open>mulleLockWhenNotCondition:\<close> or their \<open>try\<close> variants finds the condition it
  asked for, and it stays so as long as the thread holds the lock.
\<close>

theorem condition_lock_exclusive:
  assumes "api_laws A" and "reachable A sig s" and "at s t = Hold w"
  shows "met w (currentCondition s) \<and> isLocked s \<and> holder A (lib s) = Some t \<and> (\<forall>u w'. at s u = Hold w' \<longrightarrow> u = t)"
proof -
  have inv: "lock_inv A s"
    by (rule reachable_lock_inv [OF assms(1,2)])
  have "owns (at s t)" and "marked (at s t)"
    using assms(3) by simp_all
  moreover have "u = t" if "at s u = Hold w'" for u w'
    by (rule owner_unique [OF inv]) (use that \<open>owns (at s t)\<close> in simp_all)
  moreover have "met w (currentCondition s)"
    using inv assms(3) unfolding lock_inv_def by blast
  ultimately show ?thesis
    using isLocked_iff [OF inv] at_holder [OF inv, of t] by blast
qed

theorem condition_lock_exclusive_witness:
  "met (Is 7) (currentCondition (cstate (Some 1) {} 7 True ((\<lambda>_. Out)(1 := Hold (Is 7))))) \<and>
     holder demo_api (Some 1, {}) = Some 1"
  using condition_lock_exclusive [OF demo_laws demo_hold [of True], of 1 "Is 7"]
  unfolding clock.simps fun_upd_same by blast

text \<open>
  The condition is changed by the holder only: a step that changes \<open>currentCondition\<close> is the
  start of \<open>unlockWithCondition:\<close> by the thread that owns the lock, and while it is between the
  change and the end of the call nobody else can acquire the lock.
\<close>

theorem condition_changed_by_holder:
  assumes "api_laws A" and "reachable A sig s" and "step A sig s s'"
    and "currentCondition s' \<noteq> currentCondition s"
  shows "\<exists>t w b. at s t = Hold w \<and> at s' t = Signalling b \<and> holder A (lib s') = Some t \<and> (\<forall>u. u \<noteq> t \<longrightarrow> \<not> owns (at s' u))"
  using assms(3)
proof (cases rule: step.cases)
  case (unlock_with t w b c)
  have inv: "lock_inv A s'"
    using step_lock_inv [OF assms(1) reachable_lock_inv [OF assms(1,2)] assms(3)] .
  have "at s' t = Signalling b"
    using unlock_with by simp
  moreover from this have "owns (at s' t)"
    by simp
  ultimately show ?thesis
    using unlock_with(2) at_holder [OF inv] owner_unique [OF inv] by blast
qed (use assms(4) in simp_all)

theorem condition_changed_by_holder_witness:
  "\<exists>t w b. ((\<lambda>_. Out)(1 := Hold (Is 7))) t = Hold w \<and>
     ((\<lambda>_. Out)(1 := Hold (Is 7), 1 := Signalling True)) t = Signalling b \<and> (Some (1 :: tid)) = Some t"
  using condition_changed_by_holder [OF demo_laws demo_hold
      step.unlock_with [where t = 1 and w = "Is 7" and b = True and c = 9]]
  by (simp add: demo_api_def)

text \<open>
  C6. No wake-up is lost when every \<open>unlockWithCondition:\<close> broadcasts.  In a state in which nobody
  owns the lock, no thread is blocked in the condition variable although the condition it waits
  for holds.
\<close>

theorem broadcast_loses_no_wakeup:
  assumes "api_laws A" and "reachable A False s" and "holder A (lib s) = None"
    and "at s t = Waiting w" and "t \<in> sleepers A (lib s)"
  shows "\<not> met w (currentCondition s)"
proof
  assume "met w (currentCondition s)"
  then obtain u where "at s u = Signalling True"
    using reachable_awake_inv [OF assms(1,2)] assms(4,5) unfolding awake_inv_def by blast
  then show False
    using at_holder [OF reachable_lock_inv [OF assms(1,2)], of u] assms(3) by simp
qed

theorem broadcast_loses_no_wakeup_witness: "\<not> met (Is 8) 7"
  using broadcast_loses_no_wakeup [OF demo_laws demo_asleep, of 1 "Is 8"] by (simp add: demo_api_def)

text \<open>
  \<open>lockBeforeTimeInterval:\<close> returns once the clock has passed the limit, and its result tells
  whether one of the \<open>tryLock\<close> calls before that succeeded.
\<close>

theorem lock_before_returns:
  assumes "timeInterval \<le> now n" and "\<And>i. i < n \<Longrightarrow> now i < timeInterval"
  shows "lockBeforeTimeInterval now try_lock timeInterval 0 = Some (\<exists>i < n. try_lock i)"
proof -
  have "lockBeforeTimeInterval now try_lock timeInterval (n - k) = Some (\<exists>i. n - k \<le> i \<and> i < n \<and> try_lock i)"
    if "k \<le> n" for k
    using that
  proof (induction k)
    case 0
    show ?case
      using assms(1) by (subst lockBeforeTimeInterval.simps) auto
  next
    case (Suc k)
    then have *: "Suc (n - Suc k) = n - k" and "n - Suc k < n"
      by auto
    moreover have "(\<exists>i. n - Suc k \<le> i \<and> i < n \<and> try_lock i) \<longleftrightarrow>
        try_lock (n - Suc k) \<or> (\<exists>i. n - k \<le> i \<and> i < n \<and> try_lock i)"
      using * by (metis Suc_leD Suc_le_eq \<open>n - Suc k < n\<close> le_eq_less_or_eq)
    ultimately show ?case
      using Suc assms(2) [of "n - Suc k"] by (subst lockBeforeTimeInterval.simps) auto
  qed
  from this [of n] show ?thesis by simp
qed

theorem lock_before_returns_witness:
  "lockBeforeTimeInterval (\<lambda>i. int i) (\<lambda>i. i = 2) 5 0 = Some True"
  using lock_before_returns [of 5 "\<lambda>i. int i" 5 "\<lambda>i. i = 2"] by auto

text \<open>
  Signalling one thread can lose a wake-up.  With \<open>mulleUnlockWithCondition:broadcast:\<close> and
  \<open>NO\<close> a state can be reached in which the lock is free, a thread waits for exactly the value the
  condition has, and it is still blocked, as the signal went to a thread that waits for another
  value.
\<close>

theorem signal_may_lose_wakeup:
  "\<exists>s. reachable demo_api True s \<and> holder demo_api (lib s) = None \<and>
     (\<exists>t w. at s t = Waiting w \<and> t \<in> sleepers demo_api (lib s) \<and> met w (currentCondition s))"
proof -
  let ?p = "(\<lambda>_. Out)(1 := Waiting (Is 8), 2 := Waiting (Is 9))"
  have "reachable demo_api True (cstate (Some 2) {1} 7 True ((\<lambda>_. Out)(1 := Waiting (Is 8), 2 := Testing (Is 9))))"
    using demo_reach(2) [where t = 2 and w = "Is 9", OF demo_asleep] by simp
  then have "reachable demo_api True (cstate None {2, 1} 7 False ?p)"
    using demo_reach(4) [where t = 2 and w = "Is 9"] by fastforce
  then have "reachable demo_api True (cstate (Some 3) {2, 1} 7 True (?p(3 := Testing Any)))"
    by (rule demo_reach(2)) simp
  then have "reachable demo_api True (cstate (Some 3) {2, 1} 7 True (?p(3 := Hold Any)))"
    using demo_reach(3) [where t = 3 and w = Any] by fastforce
  from reached.next_step [OF this step.unlock_with [where t = 3 and w = Any and b = False and c = 9]]
  have "reachable demo_api True (cstate (Some 3) {2, 1} 9 True (?p(3 := Signalling False)))"
    by simp
  from reached.next_step [OF this step.signal [where t = 3 and k = "(Some 3, {2})"]]
  have "reachable demo_api True (cstate (Some 3) {2} 9 True (?p(3 := Unlocking)))"
    by (simp add: demo_signal del: One_nat_def)
  from reached.next_step [OF this step.unlocked [where t = 3 and k = "(None, {2})"]]
  have "reachable demo_api True (cstate None {2} 9 False (?p(3 := Out)))"
    by (simp add: demo_unlock)
  then show ?thesis
    by (intro exI [of _ "cstate None {2} 9 False (?p(3 := Out))"]) (auto simp: demo_api_def)
qed

end
