(* ===== verification/LockCalls.thy ===== *)
theory LockCalls
  imports Locks
begin

text \<open>
  The functions that a lock object's methods forward to (\<open>src/class/NSLock-Private.h\<close>,
  \<open>src/class/NSRecursiveLock-Private.h\<close>) and the statement that runs a block under a lock
  (\<open>src/protocol/NSLocking.h\<close>).

  The mutexes are those of mulle-thread.  A call of the library is its return code and the state after
  it: the fields of \<open>mutex_api\<close> and \<open>recursive_api\<close>.  With \<open>asserts\<close> a failed assertion ends the process.
\<close>

record 's mutex_api =
  mutex_init :: "ref \<Rightarrow> 's \<Rightarrow> int \<times> 's"
  mutex_done :: "ref \<Rightarrow> 's \<Rightarrow> 's"
  mutex_lock_call :: "ref \<Rightarrow> 's \<Rightarrow> int \<times> 's"
  mutex_unlock_call :: "ref \<Rightarrow> 's \<Rightarrow> int \<times> 's"

section \<open>NSLock\<close>

text \<open>\<open>lock_of\<close> is the address of the instance variable.\<close>

definition MulleObjCLockInit :: "'s mutex_api \<Rightarrow> (ref \<Rightarrow> ref) \<Rightarrow> ref \<Rightarrow> 's \<Rightarrow> (ref \<times> 's) outcome" where
  "MulleObjCLockInit A lock_of self s =
     (let (rval, s) = mutex_init A (lock_of self) s in if rval \<noteq> 0 then Abort else Done (self, s))"

definition MulleObjCLockDone :: "'s mutex_api \<Rightarrow> (ref \<Rightarrow> ref) \<Rightarrow> ref \<Rightarrow> 's \<Rightarrow> 's" where
  "MulleObjCLockDone A lock_of self s = mutex_done A (lock_of self) s"

definition MulleObjCLockLock :: "bool \<Rightarrow> 's mutex_api \<Rightarrow> (ref \<Rightarrow> ref) \<Rightarrow> ref \<Rightarrow> 's \<Rightarrow> 's outcome" where
  "MulleObjCLockLock asserts A lock_of self s =
     (let (rval, s) = mutex_lock_call A (lock_of self) s in if asserts \<and> rval \<noteq> 0 then Abort else Done s)"

definition MulleObjCLockUnlock :: "bool \<Rightarrow> 's mutex_api \<Rightarrow> (ref \<Rightarrow> ref) \<Rightarrow> ref \<Rightarrow> 's \<Rightarrow> 's outcome" where
  "MulleObjCLockUnlock asserts A lock_of self s =
     (let (rval, s) = mutex_unlock_call A (lock_of self) s in if asserts \<and> rval \<noteq> 0 then Abort else Done s)"

section \<open>NSRecursiveLock\<close>

record 's recursive_api =
  recursive_init :: "ref \<Rightarrow> 's \<Rightarrow> 's"
  recursive_done :: "ref \<Rightarrow> 's \<Rightarrow> 's"
  recursive_lock :: "ref \<Rightarrow> 's \<Rightarrow> 's"
  recursive_unlock :: "ref \<Rightarrow> 's \<Rightarrow> 's"
  recursive_depth :: "ref \<Rightarrow> 's \<Rightarrow> NSUInteger"

definition MulleObjCRecursiveLockGetMutex :: "(ref \<Rightarrow> ref) \<Rightarrow> ref \<Rightarrow> ref" where
  "MulleObjCRecursiveLockGetMutex lock_of self = lock_of self"

definition MulleObjCRecursiveLockInit :: "'s recursive_api \<Rightarrow> (ref \<Rightarrow> ref) \<Rightarrow> ref \<Rightarrow> 's \<Rightarrow> ref \<times> 's" where
  "MulleObjCRecursiveLockInit A lock_of self s = (self, recursive_init A (MulleObjCRecursiveLockGetMutex lock_of self) s)"

definition MulleObjCRecursiveLockDone :: "'s recursive_api \<Rightarrow> (ref \<Rightarrow> ref) \<Rightarrow> ref \<Rightarrow> 's \<Rightarrow> 's" where
  "MulleObjCRecursiveLockDone A lock_of self s = recursive_done A (MulleObjCRecursiveLockGetMutex lock_of self) s"

definition MulleObjCRecursiveLockLock :: "'s recursive_api \<Rightarrow> (ref \<Rightarrow> ref) \<Rightarrow> ref \<Rightarrow> 's \<Rightarrow> 's" where
  "MulleObjCRecursiveLockLock A lock_of self s = recursive_lock A (MulleObjCRecursiveLockGetMutex lock_of self) s"

definition MulleObjCRecursiveLockUnlock :: "'s recursive_api \<Rightarrow> (ref \<Rightarrow> ref) \<Rightarrow> ref \<Rightarrow> 's \<Rightarrow> 's" where
  "MulleObjCRecursiveLockUnlock A lock_of self s = recursive_unlock A (MulleObjCRecursiveLockGetMutex lock_of self) s"

definition MulleObjCRecursiveLockGetLockingDepth :: "'s recursive_api \<Rightarrow> (ref \<Rightarrow> ref) \<Rightarrow> ref \<Rightarrow> 's \<Rightarrow> NSUInteger" where
  "MulleObjCRecursiveLockGetLockingDepth A lock_of self s =
     (let p = MulleObjCRecursiveLockGetMutex lock_of self in recursive_depth A p s)"

section \<open>A block under a lock\<close>

text \<open>How control leaves the block: at its end or by \<open>continue\<close>, by \<open>break\<close>, or by \<open>return\<close> or \<open>goto\<close>.\<close>

datatype block_exit = Ends | Breaks | Leaves

text \<open>
  The two nested \<open>for\<close> statements: the outer one locks, runs the inner one once and unlocks; the inner
  one runs the block once and takes its \<open>break\<close>.  What leaves the block for good leaves both.
\<close>

definition MulleObjCLockDo :: "('s \<Rightarrow> 's) \<Rightarrow> ('s \<Rightarrow> 's) \<Rightarrow> ('s \<Rightarrow> block_exit \<times> 's) \<Rightarrow> 's \<Rightarrow> block_exit \<times> 's" where
  "MulleObjCLockDo lock unlock block s =
     (let (e, s) = block (lock s) in
      case e of Leaves \<Rightarrow> (Leaves, s) | _ \<Rightarrow> (Ends, unlock s))"

definition MulleObjCLockingDo where
  "MulleObjCLockingDo lock unlock block s = MulleObjCLockDo lock unlock block s"

definition NSLockDo where
  "NSLockDo lock unlock block s = MulleObjCLockDo lock unlock block s"

definition NSLockingDo where
  "NSLockingDo lock unlock block s = MulleObjCLockDo lock unlock block s"

text \<open>The depth of a recursive lock under nested blocks.\<close>

definition depth_laws :: "'s recursive_api \<Rightarrow> ref \<Rightarrow> bool" where
  "depth_laws A p \<longleftrightarrow> (\<forall>s. recursive_depth A p (recursive_lock A p s) = recursive_depth A p s + 1)
     \<and> (\<forall>s. recursive_depth A p (recursive_unlock A p s) = recursive_depth A p s - 1)"

text \<open>Nested blocks, the innermost being \<open>block\<close>.\<close>

primrec nested_blocks :: "nat \<Rightarrow> ('s \<Rightarrow> 's) \<Rightarrow> ('s \<Rightarrow> 's) \<Rightarrow> ('s \<Rightarrow> block_exit \<times> 's) \<Rightarrow> 's \<Rightarrow> block_exit \<times> 's" where
  "nested_blocks 0 lock unlock block s = block s"
| "nested_blocks (Suc n) lock unlock block s = NSLockingDo lock unlock (nested_blocks n lock unlock block) s"

text \<open>
  However deep blocks under the same recursive lock are nested, and whether the innermost block ends
  or breaks, the lock has its depth back afterwards; when the block is left by a return instead, the lock
  stays locked once for every block that was left.
\<close>
theorem nested_blocks_balanced:
  assumes "depth_laws A (lock_of self)"
    and "\<And>s. recursive_depth A (lock_of self) (snd (block s)) = recursive_depth A (lock_of self) s"
  shows "(let r = nested_blocks n (MulleObjCRecursiveLockLock A lock_of self)
                    (MulleObjCRecursiveLockUnlock A lock_of self) block s
          in MulleObjCRecursiveLockGetLockingDepth A lock_of self (snd r) =
               MulleObjCRecursiveLockGetLockingDepth A lock_of self s + (if fst r = Leaves then of_nat n else 0))"
proof -
  let ?l = "MulleObjCRecursiveLockLock A lock_of self" and ?u = "MulleObjCRecursiveLockUnlock A lock_of self"
  let ?d = "recursive_depth A (lock_of self)"
  have l: "?d (?l s) = ?d s + 1" and u: "?d (?u s) = ?d s - 1" for s
    using assms(1) by (simp_all add: depth_laws_def MulleObjCRecursiveLockLock_def
        MulleObjCRecursiveLockUnlock_def MulleObjCRecursiveLockGetMutex_def)
  have "?d (snd (nested_blocks n ?l ?u block s))
      = ?d s + (if fst (nested_blocks n ?l ?u block s) = Leaves then of_nat n else 0)"
  proof (induction n arbitrary: s)
    case (Suc n)
    show ?case
      using Suc.IH [of "?l s"] l u
      by (cases "nested_blocks n ?l ?u block (?l s)"; cases "fst (nested_blocks n ?l ?u block (?l s))")
         (simp_all add: NSLockingDo_def MulleObjCLockDo_def)
  qed (simp add: assms(2))
  then show ?thesis
    by (simp add: MulleObjCRecursiveLockGetLockingDepth_def MulleObjCRecursiveLockGetMutex_def Let_def)
qed

definition counter :: "NSUInteger recursive_api" where
  "counter = \<lparr>recursive_init = (\<lambda>_ _. 0), recursive_done = (\<lambda>_ s. s), recursive_lock = (\<lambda>_ s. s + 1),
     recursive_unlock = (\<lambda>_ s. s - 1), recursive_depth = (\<lambda>_ s. s)\<rparr>"

theorem nested_blocks_balanced_witness:
  "MulleObjCRecursiveLockGetLockingDepth counter id 8
     (snd (nested_blocks 3 (MulleObjCRecursiveLockLock counter id 8) (MulleObjCRecursiveLockUnlock counter id 8)
             (\<lambda>s. (Leaves, s)) 1)) = 4"
  using nested_blocks_balanced [where A = counter and lock_of = id and self = 8 and block = "\<lambda>s. (Leaves, s)" and n = 3 and s = 1]
  by (simp add: counter_def depth_laws_def eval_nat_numeral NSLockingDo_def MulleObjCLockDo_def
      MulleObjCRecursiveLockGetLockingDepth_def MulleObjCRecursiveLockGetMutex_def Let_def)

end
