(* ===== verification/Storage.thy ===== *)
theory Storage
  imports Prelude
begin

text \<open>
  Values in a block of bytes, as an invocation holds its arguments: reading and writing at an offset, and the contract
  between who lays the values out (a method signature) and who reads and writes them (an invocation).
\<close>

section \<open>Bytes\<close>

type_synonym byte = "8 word"

text \<open>Reading and writing \<open>size\<close> bytes at an offset, the two \<open>memcpy\<close> of the accessors.\<close>

definition bytes_at :: "byte list \<Rightarrow> nat \<Rightarrow> nat \<Rightarrow> byte list" where
  "bytes_at st off sz = take sz (drop off st)"

definition write_at :: "byte list \<Rightarrow> nat \<Rightarrow> byte list \<Rightarrow> byte list" where
  "write_at st off bs = take off st @ bs @ drop (off + length bs) st"

text \<open>A pointer sized value in memory, lowest byte first.\<close>

definition ptr_bytes :: "NSUInteger \<Rightarrow> nat \<Rightarrow> byte" where
  "ptr_bytes w k = ucast (drop_bit (8 * k) w)"

definition ptr_of :: "byte list \<Rightarrow> NSUInteger" where
  "ptr_of bs = foldr (\<lambda>b w. push_bit 8 w OR ucast b) bs 0"

lemma length_bytes_at: "off + sz \<le> length st \<Longrightarrow> length (bytes_at st off sz) = sz"
  by (simp add: bytes_at_def)

lemma length_write_at [simp]: "off + length bs \<le> length st \<Longrightarrow> length (write_at st off bs) = length st"
  by (simp add: write_at_def)

lemma bytes_at_write_same: "off + length bs \<le> length st \<Longrightarrow> bytes_at (write_at st off bs) off (length bs) = bs"
  by (simp add: bytes_at_def write_at_def)

lemma bytes_at_write_other:
  assumes "off + length bs \<le> length st" and "off' + n \<le> off \<or> off + length bs \<le> off'"
  shows "bytes_at (write_at st off bs) off' n = bytes_at st off' n"
proof (rule nth_equalityI)
  fix i assume i: "i < length (bytes_at (write_at st off bs) off' n)"
  then show "bytes_at (write_at st off bs) off' n ! i = bytes_at st off' n ! i"
    using assms by (auto simp: bytes_at_def write_at_def nth_append)
qed (use assms in \<open>simp add: bytes_at_def\<close>)

lemma bit_ptr_of: "bit (ptr_of bs) n \<longleftrightarrow> n < 64 \<and> n div 8 < length bs \<and> bit (bs ! (n div 8)) (n mod 8)"
proof (induction bs arbitrary: n)
  case (Cons b bs)
  have *: "bit (ptr_of (b # bs)) n \<longleftrightarrow> n < 64 \<and> (8 \<le> n \<and> bit (ptr_of bs) (n - 8) \<or> bit b n)"
    by (auto simp: ptr_of_def bit_simps)
  show ?case
  proof (cases "n < 8")
    case False
    then have "\<not> bit b n"
      using bit_imp_le_length [of b n] by auto
    moreover have "n div 8 = Suc ((n - 8) div 8)" "(n - 8) mod 8 = n mod 8"
      using False by (simp_all add: le_div_geq le_mod_geq)
    ultimately show ?thesis
      using False * Cons.IH [of "n - 8"] by auto
  qed (use * in auto)
qed (simp add: ptr_of_def)

lemma ptr_of_ptr_bytes: "ptr_of (map (ptr_bytes w) [0..<8]) = w"
proof (rule bit_word_eqI)
  fix n assume "n < LENGTH(64)"
  then have n: "n < 64" "n div 8 < 8"
    by auto
  have "bit (ptr_bytes w (n div 8)) (n mod 8) \<longleftrightarrow> bit w (8 * (n div 8) + n mod 8)"
    by (simp add: ptr_bytes_def bit_simps)
  then show "bit (ptr_of (map (ptr_bytes w) [0..<8])) n = bit w n"
    using n by (simp add: bit_ptr_of)
qed

section \<open>Values side by side\<close>

text \<open>
  A layout places a number of values; the values of a valid one do not overlap.  So what is written to one value is read
  back from it, and the others keep what they hold.
\<close>

locale slot_layout =
  fixes valid :: "'l \<Rightarrow> bool"
    and slots :: "'l \<Rightarrow> nat"
    and offset extent :: "'l \<Rightarrow> nat \<Rightarrow> nat"
  assumes apart: "valid l \<Longrightarrow> i < slots l \<Longrightarrow> j < slots l \<Longrightarrow> i \<noteq> j \<Longrightarrow>
    offset l i + extent l i \<le> offset l j \<or> offset l j + extent l j \<le> offset l i"
begin

lemma read_written:
  "length bs = extent l i \<Longrightarrow> offset l i + extent l i \<le> length st \<Longrightarrow>
    bytes_at (write_at st (offset l i) bs) (offset l i) (extent l i) = bs"
  using bytes_at_write_same [of "offset l i" bs st] by simp

lemma read_other:
  "valid l \<Longrightarrow> i < slots l \<Longrightarrow> j < slots l \<Longrightarrow> i \<noteq> j \<Longrightarrow> length bs = extent l i \<Longrightarrow>
    offset l i + extent l i \<le> length st \<Longrightarrow>
    bytes_at (write_at st (offset l i) bs) (offset l j) (extent l j) = bytes_at st (offset l j) (extent l j)"
  using bytes_at_write_other [of "offset l i" bs st "offset l j" "extent l j"] apart [of l i j] by auto

end

end
