(* ===== verification/MethodSignature.thy ===== *)
theory MethodSignature
  imports Storage
begin

text \<open>
  Method signatures (\<open>src/class/NSMethodSignature.m\<close>, \<open>src/class/NSMethodSignature.h\<close>).

  A signature is the encoded type string of a method together with one \<open>arginfo\<close> for the return
  value, \<open>self\<close>, \<open>_cmd\<close> and every argument, in this order.  The parser of type encodings and the
  layout of the method descriptor bits belong to the runtime mulle-objc-runtime: they are the
  parameters in the record \<open>sig_api\<close>.  Sizes are natural numbers, narrowed where the code stores
  them in a narrower field.
\<close>

section \<open>Data\<close>

record arginfo =
  type_offset :: nat
  invocation_offset :: nat
  natural_size :: nat
  has_retainable_type :: bool

record sig_api =
  count_typeinfos :: "string \<Rightarrow> nat"
  fill_arginfos :: "string \<Rightarrow> nat \<Rightarrow> arginfo list"
  metaabireturntype :: "string \<Rightarrow> uint32"
  metaabiparamtype :: "string \<Rightarrow> uint32"
  set_metaabi_types :: "NSUInteger \<Rightarrow> uint32 \<Rightarrow> uint32 \<Rightarrow> NSUInteger"
  metaabi_calltype :: "uint32 \<Rightarrow> nat"
  variadic_mask :: uint32
  sizeof_union :: "nat \<Rightarrow> nat"
  sizeof_arginfo :: nat

record signature =
  sbits :: uint32
  scount :: "16 word"
  extra :: "16 word"
  types :: string
  invocationSize :: uint32
  infos :: "arginfo list"

datatype exn = InvalidIndex NSUInteger | InternalInconsistency

text \<open>\<open>alignof( double)\<close> on the modelled platform.\<close>

definition alignof_double :: nat where
  "alignof_double = 8"

section \<open>Construction\<close>

text \<open>The sizes of the overflow infos and of the type string behind the instance.\<close>

definition overflow_size :: "sig_api \<Rightarrow> nat \<Rightarrow> nat" where
  "overflow_size A n = (if n > 3 then (n - 3) * sizeof_arginfo A else 0)"

definition invocation_size :: "sig_api \<Rightarrow> uint32 \<Rightarrow> arginfo list \<Rightarrow> 16 word \<Rightarrow> uint32" where
  "invocation_size A bits ai n =
     (if bits AND variadic_mask A \<noteq> 0 then 0
      else (let info = ai ! (unat n - 1)
            in of_nat (sizeof_union A (invocation_offset info + natural_size info)
                         + natural_size (ai ! 0) + alignof_double)))"

definition NSMethodSignatureCreate :: "sig_api \<Rightarrow> string option \<Rightarrow> NSUInteger \<Rightarrow> signature option" where
  "NSMethodSignatureCreate A ts bits =
     (case ts of
        None \<Rightarrow> None
      | Some s \<Rightarrow>
          (let n = count_typeinfos A s in
           if n < 3 then None
           else
             (let cnt = (of_nat n :: 16 word); ai = fill_arginfos A s (unat cnt) in
              Some \<lparr>sbits = ucast bits, scount = cnt,
                    extra = of_nat (overflow_size A n + length s + 1), types = s,
                    invocationSize = invocation_size A (ucast bits) ai cnt, infos = ai\<rparr>)))"

definition signatureWithObjCTypes :: "sig_api \<Rightarrow> string option \<Rightarrow> signature option" where
  "signatureWithObjCTypes A ts =
     (case ts of
        None \<Rightarrow> None
      | Some s \<Rightarrow> NSMethodSignatureCreate A ts
                    (set_metaabi_types A 0 (metaabireturntype A s) (metaabiparamtype A s)))"

definition signatureWithObjCTypes_descriptorBits ::
    "sig_api \<Rightarrow> string option \<Rightarrow> NSUInteger \<Rightarrow> signature option" where
  "signatureWithObjCTypes_descriptorBits A ts bits = NSMethodSignatureCreate A ts bits"

section \<open>Equality and hash\<close>

text \<open>djb2 over the bytes of the type string.\<close>

definition signature_hash :: "signature \<Rightarrow> NSUInteger" where
  "signature_hash sig = fold (\<lambda>c h. (push_bit 5 h + h) + of_nat (of_char c)) (types sig) 5381"

text \<open>An object is its address and, when it is a signature, its contents; \<open>nil\<close> is no signature.\<close>

definition signature_isEqual :: "oid \<times> signature \<Rightarrow> oid \<times> signature option \<Rightarrow> bool" where
  "signature_isEqual self other =
     (if fst self = fst other then True
      else (case snd other of None \<Rightarrow> False | Some sig \<Rightarrow> types (snd self) = types sig))"

section \<open>Accessors\<close>

definition isVariadic :: "sig_api \<Rightarrow> signature \<Rightarrow> bool" where
  "isVariadic A sig \<longleftrightarrow> sbits sig AND variadic_mask A \<noteq> 0"

definition descriptorBits :: "signature \<Rightarrow> NSUInteger" where
  "descriptorBits sig = ucast (sbits sig)"

definition objCTypes :: "signature \<Rightarrow> string" where
  "objCTypes sig = types sig"

text \<open>\<open>_count - 1\<close> is computed as an \<open>int\<close> and sign extended.\<close>

definition numberOfArguments :: "signature \<Rightarrow> NSUInteger" where
  "numberOfArguments sig = ucast (scount sig) - 1"

definition mulleSignatureTypeInfoAtIndex :: "signature \<Rightarrow> NSUInteger \<Rightarrow> exn + arginfo" where
  "mulleSignatureTypeInfoAtIndex sig i =
     (if i \<ge> ucast (scount sig) then Inl (InvalidIndex i) else Inr (infos sig ! unat i))"

definition getArgumentTypeAtIndex :: "signature \<Rightarrow> NSUInteger \<Rightarrow> exn + string" where
  "getArgumentTypeAtIndex sig i =
     (let j = i + 1
      in if j \<ge> ucast (scount sig) then Inl (InvalidIndex j)
         else Inr (drop (type_offset (infos sig ! unat j)) (types sig)))"

definition methodReturnType :: "signature \<Rightarrow> string" where
  "methodReturnType sig = drop (type_offset (infos sig ! 0)) (types sig)"

definition methodReturnLength :: "signature \<Rightarrow> nat" where
  "methodReturnLength sig = natural_size (infos sig ! 0)"

definition frameLength :: "signature \<Rightarrow> nat" where
  "frameLength sig =
     (let info = infos sig ! (unat (scount sig) - 1) in invocation_offset info + natural_size info)"

definition mulleMetaABIFrameLength :: "sig_api \<Rightarrow> signature \<Rightarrow> nat" where
  "mulleMetaABIFrameLength A sig =
     (let rval_size = natural_size (infos sig ! 0);
          info = infos sig ! (unat (scount sig) - 1);
          arg_size = invocation_offset info + natural_size info
      in sizeof_union A (if rval_size > arg_size then rval_size else arg_size))"

definition mulleInvocationSize :: "signature \<Rightarrow> NSUInteger" where
  "mulleInvocationSize sig = ucast (invocationSize sig)"

section \<open>Well-formed signatures\<close>

text \<open>
  What the code relies on from \<open>mulle_objc_signature_fill_arginfos\<close>: one info per counted type,
  the arguments laid out one behind the other from \<open>self\<close> on, the return value behind them, and
  \<open>mulle_metaabi_sizeof_union\<close> rounding up.  The sizes must stay in the fields that hold them,
  which the code asserts for the string and the count.
\<close>

definition args_end :: "arginfo list \<Rightarrow> nat" where
  "args_end ai = invocation_offset (last ai) + natural_size (last ai)"

definition layout_ok :: "sig_api \<Rightarrow> arginfo list \<Rightarrow> bool" where
  "layout_ok A ai \<longleftrightarrow>
     (\<forall>i. 1 \<le> i \<and> Suc i < length ai \<longrightarrow>
        invocation_offset (ai ! i) + natural_size (ai ! i) \<le> invocation_offset (ai ! Suc i)) \<and>
     invocation_offset (ai ! 0) \<le> sizeof_union A (args_end ai)"

definition sig_api_laws :: "sig_api \<Rightarrow> bool" where
  "sig_api_laws A \<longleftrightarrow>
     (\<forall>n. n \<le> sizeof_union A n) \<and>
     (\<forall>s n. count_typeinfos A s = n \<longrightarrow> 3 \<le> n \<longrightarrow> n < 2 ^ 16 \<longrightarrow>
        length (fill_arginfos A s n) = n \<and> layout_ok A (fill_arginfos A s n))"

text \<open>The sizes fit the fields of the instance.\<close>

definition sizes_fit :: "sig_api \<Rightarrow> string \<Rightarrow> bool" where
  "sizes_fit A s \<longleftrightarrow>
     (let n = count_typeinfos A s; ai = fill_arginfos A s n
      in n < 2 ^ 16 \<and> overflow_size A n + length s + 1 < 2 ^ 16 \<and>
         sizeof_union A (args_end ai) + natural_size (ai ! 0) + alignof_double < 2 ^ 32)"

text \<open>The invariant of every signature that the constructors return.\<close>

definition signature_ok :: "sig_api \<Rightarrow> signature \<Rightarrow> bool" where
  "signature_ok A sig \<longleftrightarrow>
     3 \<le> length (infos sig) \<and> unat (scount sig) = length (infos sig) \<and> layout_ok A (infos sig) \<and>
     unat (extra sig) = overflow_size A (length (infos sig)) + length (types sig) + 1 \<and>
     unat (invocationSize sig) =
       (if isVariadic A sig then 0
        else sizeof_union A (args_end (infos sig)) + natural_size (infos sig ! 0) + alignof_double)"

lemma create_ok:
  assumes "sig_api_laws A" and "sizes_fit A s"
    and "NSMethodSignatureCreate A (Some s) bits = Some sig"
  shows "signature_ok A sig"
proof -
  define n ai where "n = count_typeinfos A s" and "ai = fill_arginfos A s n"
  have n: "3 \<le> n" "n < 2 ^ 16"
    using assms(2,3) by (auto simp: NSMethodSignatureCreate_def sizes_fit_def n_def Let_def split: if_splits)
  have u: "unat (of_nat n :: 16 word) = n"
    by (rule unat_of_nat_small) (use n in simp)
  have len: "length ai = n" "layout_ok A ai"
    using assms(1) n by (simp_all add: sig_api_laws_def ai_def n_def)
  have last: "ai ! (n - 1) = last ai"
    using len(1) n(1) by (cases "ai = []") (simp_all add: last_conv_nth)
  have e: "unat (of_nat (overflow_size A n + length s + 1) :: 16 word) = overflow_size A n + length s + 1"
    by (rule unat_of_nat_small) (use assms(2) in \<open>simp add: sizes_fit_def n_def Let_def\<close>)
  have f: "unat (of_nat (sizeof_union A (args_end ai) + natural_size (ai ! 0) + alignof_double) :: uint32)
      = sizeof_union A (args_end ai) + natural_size (ai ! 0) + alignof_double"
    by (rule unat_of_nat_small) (use assms(2) in \<open>simp add: sizes_fit_def n_def ai_def Let_def\<close>)
  have sig: "sig = \<lparr>sbits = ucast bits, scount = of_nat n, extra = of_nat (overflow_size A n + length s + 1),
      types = s, invocationSize = invocation_size A (ucast bits) ai (of_nat n), infos = ai\<rparr>"
    using assms(3) n(1) by (simp add: NSMethodSignatureCreate_def n_def [symmetric] ai_def u Let_def)
  show ?thesis
    using n(1) u len last e f
    by (simp add: signature_ok_def sig isVariadic_def invocation_size_def Let_def args_end_def
        del: of_nat_add of_nat_Suc)
qed

lemma layout_step_le:
  assumes "layout_ok A ai" and "1 \<le> i" and "i \<le> j" and "j < length ai"
  shows "invocation_offset (ai ! i) + natural_size (ai ! i) \<le> invocation_offset (ai ! j) + natural_size (ai ! j)"
  using assms(3,4)
proof (induction j rule: dec_induct)
  case (step j)
  then have "invocation_offset (ai ! j) + natural_size (ai ! j) \<le> invocation_offset (ai ! Suc j)"
    using assms(1,2) by (simp add: layout_ok_def)
  with step show ?case by simp
qed simp

lemma layout_within:
  assumes "layout_ok A ai" and "\<And>n. n \<le> sizeof_union A n" and "i < length ai"
  shows "invocation_offset (ai ! i) + natural_size (ai ! i) \<le> sizeof_union A (args_end ai) + natural_size (ai ! 0)"
proof (cases "i = 0")
  case True
  then show ?thesis using assms(1) by (simp add: layout_ok_def)
next
  case False
  then have "ai \<noteq> []" using assms(3) by auto
  then have "invocation_offset (ai ! i) + natural_size (ai ! i) \<le> args_end ai"
    using layout_step_le [OF assms(1), of i "length ai - 1"] False assms(3)
    by (simp add: args_end_def last_conv_nth)
  also have "\<dots> \<le> sizeof_union A (args_end ai)" by (rule assms(2))
  finally show ?thesis by simp
qed


lemma arguments_disjoint:
  assumes "layout_ok A ai" and "1 \<le> i" "i < length ai" and "1 \<le> j" "j < length ai" and "i \<noteq> j"
  shows "invocation_offset (ai ! i) + natural_size (ai ! i) \<le> invocation_offset (ai ! j) \<or>
    invocation_offset (ai ! j) + natural_size (ai ! j) \<le> invocation_offset (ai ! i)"
proof -
  have lt: "invocation_offset (ai ! k) + natural_size (ai ! k) \<le> invocation_offset (ai ! l)"
    if kl: "1 \<le> k" "k < l" "l < length ai" for k l
  proof -
    obtain m where m: "l = Suc m" "k \<le> m"
      using kl by (cases l) auto
    then have "invocation_offset (ai ! m) + natural_size (ai ! m) \<le> invocation_offset (ai ! l)"
      using assms(1) kl unfolding layout_ok_def by simp
    with layout_step_le [OF assms(1) kl(1) m(2)] m(1) kl(3) show ?thesis by simp
  qed
  show ?thesis
    using lt [of i j] lt [of j i] assms(2-6) by (cases "i < j") auto
qed

text \<open>The arguments of a signature, \<open>self\<close> and \<open>_cmd\<close> included, are laid out side by side.\<close>

interpretation arguments: slot_layout "signature_ok A" "\<lambda>sig. length (infos sig) - 1"
  "\<lambda>sig i. invocation_offset (infos sig ! Suc i)" "\<lambda>sig i. natural_size (infos sig ! Suc i)"
proof unfold_locales
  fix sig i j
  assume "signature_ok A sig" "i < length (infos sig) - 1" "j < length (infos sig) - 1" "i \<noteq> j"
  then show "invocation_offset (infos sig ! Suc i) + natural_size (infos sig ! Suc i) \<le> invocation_offset (infos sig ! Suc j)
      \<or> invocation_offset (infos sig ! Suc j) + natural_size (infos sig ! Suc j) \<le> invocation_offset (infos sig ! Suc i)"
    by (intro arguments_disjoint [of A]) (auto simp: signature_ok_def)
qed

section \<open>A concrete signature parser\<close>

text \<open>Every type is one character, every value takes 8 bytes, the return value comes last.\<close>

definition demo_info :: "string \<Rightarrow> nat \<Rightarrow> nat \<Rightarrow> arginfo" where
  "demo_info s n i = \<lparr>type_offset = i, invocation_offset = (if i = 0 then 8 * (n - 1) else 8 * (i - 1)),
     natural_size = 8, has_retainable_type = (s ! i \<in> {CHR ''@'', CHR ''*''})\<rparr>"

definition demo_sig_api :: sig_api where
  "demo_sig_api = \<lparr>count_typeinfos = length, fill_arginfos = (\<lambda>s n. map (demo_info s n) [0..<n]),
     metaabireturntype = (\<lambda>s. 0), metaabiparamtype = (\<lambda>s. 0),
     set_metaabi_types = (\<lambda>b r p. b OR ucast (push_bit 22 r OR push_bit 24 p)),
     metaabi_calltype = (\<lambda>b. unat (drop_bit 22 b AND 15)), variadic_mask = 4,
     sizeof_union = (\<lambda>n. (n + 7) div 8 * 8), sizeof_arginfo = 16\<rparr>"

lemma demo_sig_api_simps [simp]:
  "count_typeinfos demo_sig_api s = length s" "fill_arginfos demo_sig_api s n = map (demo_info s n) [0..<n]"
  "variadic_mask demo_sig_api = 4" "sizeof_union demo_sig_api n = (n + 7) div 8 * 8"
  "sizeof_arginfo demo_sig_api = 16" "metaabi_calltype demo_sig_api b = unat (drop_bit 22 b AND 15)"
  by (simp_all add: demo_sig_api_def)

lemma demo_sig_api_laws: "sig_api_laws demo_sig_api"
proof -
  have "n \<le> (n + 7) div 8 * 8" for n :: nat
    by arith
  moreover have "last (map (demo_info s n) [0..<n]) = demo_info s n (n - 1)" if "3 \<le> n" for s n
    using that by (simp add: last_map)
  ultimately show ?thesis
    by (auto simp: sig_api_laws_def layout_ok_def args_end_def demo_info_def)
qed

section \<open>Properties\<close>

text \<open>
  Equal signatures hash equal, and \<open>-isEqual:\<close> is reflexive and symmetric: for two signature
  objects it is the equality of their type strings.
\<close>

theorem equal_signatures_hash_equal:
  assumes "a = b \<Longrightarrow> sig = sig'"
  shows "(signature_isEqual (a, sig) (b, Some sig') \<longleftrightarrow> types sig = types sig')
    \<and> signature_isEqual (a, sig) (b, Some sig') = signature_isEqual (b, sig') (a, Some sig)
    \<and> (\<not> signature_isEqual (a, sig) (b, Some sig') \<or> signature_hash sig = signature_hash sig')"
  using assms by (auto simp: signature_isEqual_def signature_hash_def)

theorem equal_signatures_hash_equal_witness:
  "signature_isEqual (1, the (NSMethodSignatureCreate demo_sig_api (Some ''v@:'') 0))
     (2, NSMethodSignatureCreate demo_sig_api (Some ''v@:'') 4)"
  using equal_signatures_hash_equal [of 1 2 "the (NSMethodSignatureCreate demo_sig_api (Some ''v@:'') 0)"
      "the (NSMethodSignatureCreate demo_sig_api (Some ''v@:'') 4)"]
  by (simp add: NSMethodSignatureCreate_def Let_def)

text \<open>
  \<open>-getArgumentTypeAtIndex:\<close> raises exactly for the indices that are not arguments, with one
  exception: the index \<open>NSUIntegerMax\<close> wraps around and yields the type of the return value.
\<close>

theorem argument_type_bounds:
  assumes "signature_ok A sig"
  shows "getArgumentTypeAtIndex sig i =
    (if i < numberOfArguments sig then Inr (drop (type_offset (infos sig ! Suc (unat i))) (types sig))
     else if i = - 1 then Inr (methodReturnType sig)
     else Inl (InvalidIndex (i + 1)))"
proof -
  let ?n = "ucast (scount sig) :: NSUInteger"
  have n: "3 \<le> unat ?n"
    using assms by (simp add: signature_ok_def unat_ucast_up)
  have le: "(1 :: NSUInteger) \<le> ?n"
    using n by (simp add: word_le_nat_alt)
  have m: "unat (?n - 1) = unat ?n - 1"
    by (simp add: unat_sub [OF le])
  show ?thesis
  proof (cases "i = - 1")
    case True
    have "\<not> (- 1 :: NSUInteger) < ?n - 1"
      by (simp add: word_less_alt linorder_not_less uint_word_of_int_eq flip: word_le_def)
    then show ?thesis
      using True n
      by (simp add: getArgumentTypeAtIndex_def numberOfArguments_def methodReturnType_def word_le_nat_alt)
  next
    case False
    then have s: "unat (i + 1) = Suc (unat i)"
      by (metis add.commute unatSuc add_eq_0_iff)
    have "i + 1 < ?n \<longleftrightarrow> i < ?n - 1"
      using n by (auto simp: word_less_nat_alt s m)
    then show ?thesis
      using False s by (simp add: getArgumentTypeAtIndex_def numberOfArguments_def Let_def linorder_not_less [symmetric])
  qed
qed

theorem argument_type_bounds_witness:
  "getArgumentTypeAtIndex (the (NSMethodSignatureCreate demo_sig_api (Some ''v@:'') 0)) (- 1) = Inr ''v@:''"
proof -
  have "NSMethodSignatureCreate demo_sig_api (Some ''v@:'') 0 =
      Some (the (NSMethodSignatureCreate demo_sig_api (Some ''v@:'') 0))"
    by (simp add: NSMethodSignatureCreate_def Let_def)
  then have "signature_ok demo_sig_api (the (NSMethodSignatureCreate demo_sig_api (Some ''v@:'') 0))"
    by (rule create_ok [OF demo_sig_api_laws, rotated])
      (simp add: sizes_fit_def overflow_size_def args_end_def demo_info_def alignof_double_def Let_def)
  from argument_type_bounds [OF this, of "- 1"] show ?thesis
    by (simp add: NSMethodSignatureCreate_def numberOfArguments_def methodReturnType_def demo_info_def Let_def)
qed

end
