(* ===== verification/Invocation.thy ===== *)
theory Invocation
  imports MethodSignature
begin

text \<open>
  Invocations (\<open>src/class/NSInvocation.m\<close>): the storage of the arguments and the return value,
  creation and reuse, and the two ways to perform the call.

  The list \<open>istorage\<close> holds the bytes from \<open>_storage\<close> up to \<open>_sentinel\<close>; an address in it is its
  offset.  A caller's buffer \<open>value_p\<close> is the function that gives its bytes.  Exceptions are values.
\<close>

section \<open>Data\<close>

record invocation =
  istorage :: "byte list"
  methodSignature :: "signature option"
  implementation :: nat
  argumentsRetained :: bool
  returnValueRetained :: bool

section \<open>Access to the arguments\<close>

definition is_valid_frame_range :: "invocation \<Rightarrow> nat \<Rightarrow> nat \<Rightarrow> bool" where
  "is_valid_frame_range self adr sz \<longleftrightarrow> adr + sz \<le> length (istorage self)"

definition pointerAndSizeWithInfo :: "invocation \<Rightarrow> NSUInteger \<Rightarrow> arginfo \<Rightarrow> exn + nat \<times> nat" where
  "pointerAndSizeWithInfo self i info =
     (if is_valid_frame_range self (invocation_offset info) (natural_size info)
      then Inr (invocation_offset info, natural_size info) else Inl (InvalidIndex i))"

definition pointerAndSizeOfArgumentValue :: "invocation \<Rightarrow> NSUInteger \<Rightarrow> exn + nat \<times> nat" where
  "pointerAndSizeOfArgumentValue self i =
     (case methodSignature self of
        None \<Rightarrow> Inl InternalInconsistency
      | Some sig \<Rightarrow>
          (case mulleSignatureTypeInfoAtIndex sig i of
             Inl e \<Rightarrow> Inl e
           | Inr info \<Rightarrow> pointerAndSizeWithInfo self i info))"

definition value_at :: "invocation \<Rightarrow> exn + nat \<times> nat \<Rightarrow> exn + byte list" where
  "value_at self p = (case p of Inl e \<Rightarrow> Inl e | Inr (adr, sz) \<Rightarrow> Inr (bytes_at (istorage self) adr sz))"

definition store_at :: "invocation \<Rightarrow> exn + nat \<times> nat \<Rightarrow> (nat \<Rightarrow> byte) \<Rightarrow> exn + invocation" where
  "store_at self p v =
     (case p of
        Inl e \<Rightarrow> Inl e
      | Inr (adr, sz) \<Rightarrow> Inr (self\<lparr>istorage := write_at (istorage self) adr (map v [0..<sz])\<rparr>))"

definition getReturnValue :: "invocation \<Rightarrow> exn + byte list" where
  "getReturnValue self = value_at self (pointerAndSizeOfArgumentValue self 0)"

definition setReturnValue :: "invocation \<Rightarrow> (nat \<Rightarrow> byte) \<Rightarrow> exn + invocation" where
  "setReturnValue self v = store_at self (pointerAndSizeOfArgumentValue self 0) v"

definition getReturnValueWithInfo :: "invocation \<Rightarrow> arginfo \<Rightarrow> exn + byte list" where
  "getReturnValueWithInfo self info = value_at self (pointerAndSizeWithInfo self 0 info)"

definition setReturnValueWithInfo :: "invocation \<Rightarrow> (nat \<Rightarrow> byte) \<Rightarrow> arginfo \<Rightarrow> exn + invocation" where
  "setReturnValueWithInfo self v info = store_at self (pointerAndSizeWithInfo self 0 info) v"

definition getArgument :: "invocation \<Rightarrow> NSUInteger \<Rightarrow> exn + byte list" where
  "getArgument self i = value_at self (pointerAndSizeOfArgumentValue self (i + 1))"

definition setArgument :: "invocation \<Rightarrow> (nat \<Rightarrow> byte) \<Rightarrow> NSUInteger \<Rightarrow> exn + invocation" where
  "setArgument self v i = store_at self (pointerAndSizeOfArgumentValue self (i + 1)) v"

definition getArgumentWithInfo :: "invocation \<Rightarrow> NSUInteger \<Rightarrow> arginfo \<Rightarrow> exn + byte list" where
  "getArgumentWithInfo self i info = value_at self (pointerAndSizeWithInfo self (i + 1) info)"

definition setArgumentWithInfo :: "invocation \<Rightarrow> (nat \<Rightarrow> byte) \<Rightarrow> NSUInteger \<Rightarrow> arginfo \<Rightarrow> exn + invocation" where
  "setArgumentWithInfo self v i info = store_at self (pointerAndSizeWithInfo self (i + 1) info) v"

definition setTarget :: "invocation \<Rightarrow> NSUInteger \<Rightarrow> exn + invocation" where
  "setTarget self target = setArgument self (ptr_bytes target) 0"

definition getTarget :: "invocation \<Rightarrow> exn + NSUInteger" where
  "getTarget self = (case getArgument self 0 of Inl e \<Rightarrow> Inl e | Inr bs \<Rightarrow> Inr (ptr_of bs))"

text \<open>A selector is a 32 bit number.\<close>

definition setSelector :: "invocation \<Rightarrow> uint32 \<Rightarrow> exn + invocation" where
  "setSelector self sel = setArgument self (ptr_bytes (ucast sel)) 1"

definition getSelector :: "invocation \<Rightarrow> exn + uint32" where
  "getSelector self = (case getArgument self 1 of Inl e \<Rightarrow> Inl e | Inr bs \<Rightarrow> Inr (ucast (ptr_of bs)))"

lemma pointerAndSize_Inr:
  "pointerAndSizeOfArgumentValue self i = Inr (adr, sz) \<longleftrightarrow>
     (\<exists>sig. methodSignature self = Some sig \<and> i < ucast (scount sig) \<and>
        adr = invocation_offset (infos sig ! unat i) \<and> sz = natural_size (infos sig ! unat i) \<and>
        adr + sz \<le> length (istorage self))"
  by (auto simp: pointerAndSizeOfArgumentValue_def pointerAndSizeWithInfo_def is_valid_frame_range_def
      mulleSignatureTypeInfoAtIndex_def linorder_not_less split: option.splits)

lemma store_at_Inr:
  "store_at self p v = Inr self' \<longleftrightarrow>
     (\<exists>adr sz. p = Inr (adr, sz) \<and> self' = self\<lparr>istorage := write_at (istorage self) adr (map v [0..<sz])\<rparr>)"
  by (auto simp: store_at_def split: sum.splits)

lemma pointerAndSize_storage:
  "length st = length (istorage self) \<Longrightarrow>
     pointerAndSizeOfArgumentValue (self\<lparr>istorage := st\<rparr>) i = pointerAndSizeOfArgumentValue self i"
  by (simp add: pointerAndSizeOfArgumentValue_def pointerAndSizeWithInfo_def is_valid_frame_range_def
      split: option.splits sum.splits)


section \<open>Creation and reuse\<close>

text \<open>
  The bytes behind an instance hold the storage.  Released invocations of the standard size wait
  in a FIFO of bounded capacity, which belongs to the library mulle-container; \<open>fwrite\<close> answers
  \<open>None\<close> when it is full.  \<open>room\<close> is the number of extra bytes an instance was allocated with.
\<close>

definition NSInvocationStandardSize :: nat where
  "NSInvocationStandardSize = 8 * 16"

record 'f fifo_ops =
  fwrite :: "'f \<Rightarrow> oid \<Rightarrow> 'f option"
  fread :: "'f \<Rightarrow> (oid \<times> 'f) option"
  waiting :: "'f \<Rightarrow> oid list"

definition fifo_laws :: "'f fifo_ops \<Rightarrow> bool" where
  "fifo_laws F \<longleftrightarrow>
     (\<forall>f o' f'. fwrite F f o' = Some f' \<longrightarrow> waiting F f' = waiting F f @ [o']) \<and>
     (\<forall>f. fread F f = None \<longrightarrow> waiting F f = []) \<and>
     (\<forall>f o' f'. fread F f = Some (o', f') \<longrightarrow> waiting F f = o' # waiting F f')"

text \<open>
  \<open>plain\<close> tells whether the class of the instance is \<open>NSInvocation\<close> itself; \<open>objects\<close> holds the
  invocations in use.  The set \<open>freed\<close> is ghost state.
\<close>

record 'f inv_state =
  reuse :: 'f
  room :: "oid \<Rightarrow> nat"
  plain :: "oid \<Rightarrow> bool"
  in_use :: "oid \<Rightarrow> invocation option"
  freed :: "oid set"

definition pushStandardInvocation :: "'f fifo_ops \<Rightarrow> oid \<Rightarrow> 'f inv_state \<Rightarrow> 'f inv_state option" where
  "pushStandardInvocation F a s = map_option (\<lambda>f. s\<lparr>reuse := f\<rparr>) (fwrite F (reuse s) a)"

definition popStandardInvocation :: "'f fifo_ops \<Rightarrow> 'f inv_state \<Rightarrow> (oid \<times> 'f inv_state) option" where
  "popStandardInvocation F s = map_option (\<lambda>(a, f). (a, s\<lparr>reuse := f\<rparr>)) (fread F (reuse s))"

text \<open>The storage is zero: a fresh instance is allocated so, a reused one is wiped.\<close>

definition NSInvocationSetStorage :: "signature \<Rightarrow> nat \<Rightarrow> invocation" where
  "NSInvocationSetStorage sig sz = \<lparr>istorage = replicate sz 0, methodSignature = Some sig,
     implementation = 0, argumentsRetained = False, returnValueRetained = False\<rparr>"

text \<open>\<open>fresh\<close> is the address that \<open>NSAllocateObject\<close> returns, \<open>cls\<close> whether the receiver is \<open>NSInvocation\<close>.\<close>

definition allocate :: "oid \<Rightarrow> bool \<Rightarrow> nat \<Rightarrow> 'f inv_state \<Rightarrow> 'f inv_state" where
  "allocate fresh cls sz s = s\<lparr>room := (room s)(fresh := sz), plain := (plain s)(fresh := cls)\<rparr>"

definition invocationWithMethodSignature ::
    "'f fifo_ops \<Rightarrow> bool \<Rightarrow> signature option \<Rightarrow> oid \<Rightarrow> 'f inv_state \<Rightarrow> oid option \<times> 'f inv_state" where
  "invocationWithMethodSignature F cls sig fresh s =
     (case sig of
        None \<Rightarrow> (None, s)
      | Some sg \<Rightarrow>
          (let need = unat (mulleInvocationSize sg) in
           if need = 0 then (None, s)
           else
             (let std = (need \<le> NSInvocationStandardSize \<and> cls);
                  sz = (if std then NSInvocationStandardSize else need);
                  (a, s') = (case (if std then popStandardInvocation F s else None) of
                               Some (a, s') \<Rightarrow> (a, s') | None \<Rightarrow> (fresh, allocate fresh cls sz s))
              in (Some a, s'\<lparr>in_use := (in_use s')(a \<mapsto> NSInvocationSetStorage sg sz)\<rparr>))))"

definition isStandardInvocation :: "'f inv_state \<Rightarrow> oid \<Rightarrow> invocation \<Rightarrow> bool" where
  "isStandardInvocation s a self \<longleftrightarrow>
     (if \<not> plain s a then False else length (istorage self) = NSInvocationStandardSize)"

text \<open>The end of \<open>-dealloc\<close>, after the arguments and the signature were released.\<close>

definition invocation_dealloc :: "'f fifo_ops \<Rightarrow> oid \<Rightarrow> 'f inv_state \<Rightarrow> 'f inv_state" where
  "invocation_dealloc F a s =
     (case in_use s a of
        None \<Rightarrow> s
      | Some self \<Rightarrow>
          (let s' = s\<lparr>in_use := (in_use s)(a := None)\<rparr> in
           case (if isStandardInvocation s a self then pushStandardInvocation F a s' else None) of
             Some s'' \<Rightarrow> s''
           | None \<Rightarrow> s'\<lparr>freed := insert a (freed s')\<rparr>))"

text \<open>
  \<open>NSInvocationCreateWithMetaABIFrameAndLength\<close>: the size that the caller's parameter block needs;
  the sum is computed in 64 bits.
\<close>

definition frame_invocation_size :: "signature \<Rightarrow> nat \<Rightarrow> nat option" where
  "frame_invocation_size sig n =
     (if n = 0 \<or> numberOfArguments sig < 3 then None
      else (let info = infos sig ! 3;
                needed = (invocation_offset info + n + alignof_double) mod 2 ^ 64;
                sz = unat (mulleInvocationSize sig)
            in Some (if sz < needed then needed else sz)))"

section \<open>Performing the call\<close>

text \<open>
  A method gets its parameter as a value or as the address of a parameter block; it may write to
  the block, and it returns a pointer sized value.  \<open>sent\<close> is what the receiver's class
  dispatches to.  \<open>Wild\<close> is an access behind the array of infos.
\<close>

datatype param = Value NSUInteger | Address nat

type_synonym behaviour = "NSUInteger \<Rightarrow> uint32 \<Rightarrow> param \<Rightarrow> byte list \<Rightarrow> NSUInteger \<times> byte list"

datatype 'a effect = Ret 'a | Throw exn | Wild

fun bind_effect :: "'a effect \<Rightarrow> ('a \<Rightarrow> 'b effect) \<Rightarrow> 'b effect" where
  "bind_effect (Ret x) f = f x"
| "bind_effect (Throw e) f = Throw e"
| "bind_effect Wild f = Wild"

definition lift_exn :: "exn + 'a \<Rightarrow> 'a effect" where
  "lift_exn r = (case r of Inl e \<Rightarrow> Throw e | Inr x \<Rightarrow> Ret x)"

definition fourth_info :: "signature \<Rightarrow> arginfo effect" where
  "fourth_info sig = (if 3 < length (infos sig) then Ret (infos sig ! 3) else Wild)"

definition call_method :: "behaviour \<Rightarrow> NSUInteger \<Rightarrow> uint32 \<Rightarrow> param \<Rightarrow> invocation \<Rightarrow> NSUInteger \<times> invocation" where
  "call_method m target sel p self =
     (case m target sel p (istorage self) of (rval, st) \<Rightarrow> (rval, self\<lparr>istorage := st\<rparr>))"

definition block_value :: "invocation \<Rightarrow> nat \<Rightarrow> nat \<Rightarrow> byte" where
  "block_value self p k = istorage self ! (p + k)"

definition store_rval :: "NSUInteger \<times> invocation \<Rightarrow> invocation effect" where
  "store_rval r = lift_exn (setReturnValue (snd r) (ptr_bytes (fst r)))"

text \<open>A struct result is copied from the parameter block, whose bytes must be in the storage.\<close>

definition store_block :: "signature \<Rightarrow> nat \<Rightarrow> NSUInteger \<times> invocation \<Rightarrow> invocation effect" where
  "store_block sig p r =
     (if p + methodReturnLength sig \<le> length (istorage (snd r))
      then lift_exn (setReturnValue (snd r) (block_value (snd r) p)) else Wild)"

definition pointer_param :: "signature \<Rightarrow> invocation \<Rightarrow> param effect" where
  "pointer_param sig self =
     bind_effect (fourth_info sig)
       (\<lambda>info. Ret (Value (ptr_of (bytes_at (istorage self) (invocation_offset info) 8))))"

definition block_offset :: "signature \<Rightarrow> nat effect" where
  "block_offset sig = bind_effect (fourth_info sig) (\<lambda>info. Ret (invocation_offset info))"

text \<open>The MetaABI call types, as the header \<open>NSMethodSignature.h\<close> numbers them.\<close>

definition invoke_message ::
    "behaviour \<Rightarrow> signature \<Rightarrow> nat \<Rightarrow> uint32 \<Rightarrow> NSUInteger \<Rightarrow> invocation \<Rightarrow> invocation effect" where
  "invoke_message m sig callType sel target self =
     (if callType = 0 then bind_effect (pointer_param sig self) (\<lambda>p. store_rval (call_method m target sel p self))
      else if callType = 1 then bind_effect (pointer_param sig self) (\<lambda>p. Ret (snd (call_method m target sel p self)))
      else if callType = 4 then store_rval (call_method m target sel (Value target) self)
      else if callType = 5 then Ret (snd (call_method m target sel (Value target) self))
      else if callType = 8 then bind_effect (block_offset sig) (\<lambda>p. store_rval (call_method m target sel (Address p) self))
      else if callType = 9 then bind_effect (block_offset sig) (\<lambda>p. Ret (snd (call_method m target sel (Address p) self)))
      else if callType = 2 then bind_effect (block_offset sig) (\<lambda>p. store_block sig p (call_method m target sel (Address p) self))
      else if callType = 6 then store_block sig 0 (call_method m target sel (Address 0) self)
      else if callType = 10 then bind_effect (block_offset sig) (\<lambda>p. store_block sig p (call_method m target sel (Address p) self))
      else Ret self)"

definition call_param :: "signature \<Rightarrow> nat \<Rightarrow> NSUInteger \<Rightarrow> invocation \<Rightarrow> param effect" where
  "call_param sig callType target self =
     (if callType = 0 \<or> callType = 1 then pointer_param sig self
      else if callType = 4 \<or> callType = 5 then Ret (Value target)
      else bind_effect (block_offset sig) (\<lambda>p. Ret (Address p)))"

definition call_imp ::
    "behaviour \<Rightarrow> signature \<Rightarrow> nat \<Rightarrow> uint32 \<Rightarrow> NSUInteger \<Rightarrow> invocation \<Rightarrow> invocation effect" where
  "call_imp imp sig callType sel target self =
     bind_effect (call_param sig callType target self)
       (\<lambda>p. let r = call_method imp target sel p self
             in if callType = 0 \<or> callType = 4 \<or> callType = 8 then store_rval r
                else if callType = 2 \<or> callType = 6 \<or> callType = 10
                then (case p of Address a \<Rightarrow> store_block sig a r | Value _ \<Rightarrow> Wild)
                else Ret (snd r))"

text \<open>\<open>imps\<close> gives the method behind a function pointer, \<open>dispatch\<close> the one the class has for the selector.\<close>

definition invokeWithTarget ::
    "sig_api \<Rightarrow> (nat \<Rightarrow> behaviour) \<Rightarrow> behaviour \<Rightarrow> NSUInteger \<Rightarrow> invocation \<Rightarrow> invocation effect" where
  "invokeWithTarget A imps dispatch target self =
     (if target = 0 then Ret self
      else bind_effect (lift_exn (getSelector self))
        (\<lambda>sel. if sel = 0 then Throw InternalInconsistency
               else (case methodSignature self of
                       None \<Rightarrow> Throw InternalInconsistency
                     | Some sig \<Rightarrow>
                         if implementation self \<noteq> 0
                         then call_imp (imps (implementation self)) sig (metaabi_calltype A (sbits sig)) sel target self
                         else invoke_message dispatch sig (metaabi_calltype A (sbits sig)) sel target self)))"

definition invoke :: "sig_api \<Rightarrow> (nat \<Rightarrow> behaviour) \<Rightarrow> behaviour \<Rightarrow> invocation \<Rightarrow> invocation effect" where
  "invoke A imps dispatch self =
     bind_effect (lift_exn (getTarget self)) (\<lambda>target. invokeWithTarget A imps dispatch target self)"

end
