(* ===== verification/InvocationProps.thy ===== *)
theory InvocationProps
  imports Invocation
begin

text \<open>
  The properties of invocations: arguments are independent of one another and lie in the memory of
  the instance, the reuse FIFO hands every instance out once, and the two ways to perform the call
  agree but for one call type.
\<close>

section \<open>Arguments\<close>

lemma unat_number_of_arguments: "signature_ok A sig \<Longrightarrow> unat (numberOfArguments sig) = length (infos sig) - 1"
proof -
  assume ok: "signature_ok A sig"
  then have "(1 :: NSUInteger) \<le> ucast (scount sig)"
    by (simp add: word_le_nat_alt signature_ok_def unat_ucast_up)
  then show ?thesis
    using ok by (simp add: numberOfArguments_def unat_sub signature_ok_def unat_ucast_up)
qed

lemma argument_index:
  assumes "signature_ok A sig" and "i < numberOfArguments sig"
  shows "unat (i + 1) = Suc (unat i)" "Suc (unat i) < length (infos sig)" "i + 1 < ucast (scount sig)"
proof -
  have "unat i < length (infos sig) - 1"
    using assms unat_number_of_arguments [OF assms(1)] by (simp add: word_less_nat_alt)
  then show s: "Suc (unat i) < length (infos sig)" by simp
  have "length (infos sig) < 2 ^ 16"
  proof -
    have "unat (scount sig) < 2 ^ LENGTH(16)" by (rule unsigned_less)
    then show ?thesis using assms(1) by (simp add: signature_ok_def)
  qed
  then have "unat i + 1 < 2 ^ 64" using s by simp
  then show u: "unat (i + 1) = Suc (unat i)"
    by (simp add: unat_word_ariths)
  show "i + 1 < ucast (scount sig)"
    using s assms(1) by (simp add: word_less_nat_alt u signature_ok_def unat_ucast_up)
qed

lemma argument_place:
  assumes "signature_ok A sig" and "methodSignature self = Some sig" and "i < numberOfArguments sig"
  shows "pointerAndSizeOfArgumentValue self (i + 1) =
    (let info = infos sig ! Suc (unat i)
     in if invocation_offset info + natural_size info \<le> length (istorage self)
        then Inr (invocation_offset info, natural_size info) else Inl (InvalidIndex (i + 1)))"
  using argument_index [OF assms(1,3)] assms(2)
  by (simp add: pointerAndSizeOfArgumentValue_def pointerAndSizeWithInfo_def is_valid_frame_range_def
      mulleSignatureTypeInfoAtIndex_def linorder_not_less [symmetric] Let_def)

lemma setArgument_effect:
  assumes "signature_ok A sig" and "methodSignature self = Some sig"
    and "i < numberOfArguments sig" and "setArgument self v i = Inr self'"
  shows "getArgument self' i = Inr (map v [0..<natural_size (infos sig ! Suc (unat i))])
    \<and> (\<forall>j. j \<ge> numberOfArguments sig \<or> j = i \<or> getArgument self' j = getArgument self j)"
proof -
  define info where "info = infos sig ! Suc (unat i)"
  let ?bs = "map v [0..<natural_size info]"
  from assms(4) argument_place [OF assms(1-3)]
  have fits: "invocation_offset info + natural_size info \<le> length (istorage self)"
    and self': "self' = self\<lparr>istorage := write_at (istorage self) (invocation_offset info) ?bs\<rparr>"
    by (auto simp: setArgument_def store_at_def info_def Let_def split: if_splits)
  have len: "length (istorage self') = length (istorage self)"
    using fits by (simp add: self')
  have sig': "methodSignature self' = Some sig"
    using assms(2) by (simp add: self')
  have slot: "unat k < length (infos sig) - 1" if "k < numberOfArguments sig" for k
    using argument_index(2) [OF assms(1) that] by simp
  have "getArgument self' i = Inr ?bs"
    using argument_place [OF assms(1) sig' assms(3)] fits arguments.read_written [of ?bs sig "unat i" "istorage self"]
    by (simp add: getArgument_def value_at_def info_def [symmetric] len Let_def) (simp add: self')
  moreover have "getArgument self' j = getArgument self j" if j: "j < numberOfArguments sig" "unat i \<noteq> unat j" for j
    using argument_place [OF assms(1) sig' j(1)] argument_place [OF assms(1,2) j(1)] fits j(2)
      arguments.read_other [OF assms(1) slot [OF assms(3)] slot [OF j(1)], of ?bs "istorage self"]
    by (simp add: getArgument_def value_at_def len info_def [symmetric] Let_def) (simp add: self')
  ultimately show ?thesis
    unfolding info_def by (metis linorder_not_le unsigned_word_eqI)
qed

text \<open>
  An argument that was set is read back unchanged, and no other argument changes.
\<close>

theorem arguments_independent:
  assumes "signature_ok A sig" and "methodSignature self = Some sig"
    and "i < numberOfArguments sig" and "setArgument self v i = Inr self'"
  shows "getArgument self' i = Inr (map v [0..<natural_size (infos sig ! Suc (unat i))])
    \<and> (\<forall>j. j \<ge> numberOfArguments sig \<or> j = i \<or> getArgument self' j = getArgument self j)"
  using assms by (rule setArgument_effect)

text \<open>A concrete signature and an invocation for it.\<close>

definition demo_sig :: signature where
  "demo_sig = the (NSMethodSignatureCreate demo_sig_api (Some ''v@:ii'') 0)"

lemma demo_sig_eq:
  "demo_sig = \<lparr>sbits = 0, scount = 5, extra = 38, types = ''v@:ii'', invocationSize = 48,
     infos = map (demo_info ''v@:ii'' 5) [0, 1, 2, 3, 4]\<rparr>"
proof -
  have "[0..<5] = [0, 1, 2, 3, 4 :: nat]"
    by (simp add: upt_rec)
  then show ?thesis
    by (simp add: demo_sig_def NSMethodSignatureCreate_def Let_def invocation_size_def overflow_size_def
        demo_info_def alignof_double_def)
qed

lemma demo_sig_ok: "signature_ok demo_sig_api demo_sig"
proof (rule create_ok [OF demo_sig_api_laws])
  show "sizes_fit demo_sig_api ''v@:ii''"
    by (simp add: sizes_fit_def overflow_size_def args_end_def demo_info_def alignof_double_def Let_def)
  show "NSMethodSignatureCreate demo_sig_api (Some ''v@:ii'') 0 = Some demo_sig"
    by (simp add: demo_sig_def NSMethodSignatureCreate_def Let_def)
qed

theorem arguments_independent_witness:
  "\<exists>self'. setArgument (NSInvocationSetStorage demo_sig 48) (ptr_bytes 258) 2 = Inr self' \<and>
     getArgument self' 2 = Inr [2, 1, 0, 0, 0, 0, 0, 0]"
proof -
  let ?inv = "NSInvocationSetStorage demo_sig 48"
  have i: "(2 :: NSUInteger) < numberOfArguments demo_sig"
    by (simp add: demo_sig_eq numberOfArguments_def)
  have s: "methodSignature ?inv = Some demo_sig"
    by (simp add: NSInvocationSetStorage_def)
  obtain self' where "setArgument ?inv (ptr_bytes 258) 2 = Inr self'"
    using argument_place [OF demo_sig_ok s i]
    by (simp add: setArgument_def store_at_def demo_sig_eq demo_info_def NSInvocationSetStorage_def)
  moreover have "map (ptr_bytes 258) [0..<8] = [2, 1, 0, 0, 0, 0, 0, 0]"
    by (simp add: upt_rec ptr_bytes_def drop_bit_eq_div)
  ultimately show ?thesis
    using arguments_independent [OF demo_sig_ok s i] by (simp add: demo_sig_eq demo_info_def)
qed


section \<open>The storage in memory\<close>

text \<open>
  \<open>_storage\<close> is the address of the extra bytes, rounded up to \<open>alignof( double)\<close>.
\<close>

definition storage_address :: "nat \<Rightarrow> nat" where
  "storage_address extraBytes = (extraBytes + (alignof_double - 1)) div alignof_double * alignof_double"

lemma storage_address_bounds: "extraBytes \<le> storage_address extraBytes" "storage_address extraBytes < extraBytes + alignof_double"
  by (simp_all add: storage_address_def alignof_double_def)

text \<open>
  The size that a signature computes for its invocations is enough: for every value of a
  signature that is not variadic, the return value included, the bytes that the accessors read and
  write lie in the extra bytes of the instance, wherever these start, and no access is refused.
\<close>

theorem arguments_in_memory:
  assumes "sig_api_laws A" and "sizes_fit A s"
    and "NSMethodSignatureCreate A (Some s) bits = Some sig" and "\<not> isVariadic A sig"
    and "i < length (infos sig)" and "unat (mulleInvocationSize sig) \<le> r"
  shows "extraBytes \<le> storage_address extraBytes + invocation_offset (infos sig ! i)
    \<and> storage_address extraBytes + invocation_offset (infos sig ! i) + natural_size (infos sig ! i) \<le> extraBytes + r
    \<and> pointerAndSizeOfArgumentValue (NSInvocationSetStorage sig r) (of_nat i)
        = Inr (invocation_offset (infos sig ! i), natural_size (infos sig ! i))"
proof -
  have ok: "signature_ok A sig"
    by (rule create_ok [OF assms(1-3)])
  have union: "n \<le> sizeof_union A n" for n
    using assms(1) by (simp add: sig_api_laws_def)
  have "unat (mulleInvocationSize sig) =
      sizeof_union A (args_end (infos sig)) + natural_size (infos sig ! 0) + alignof_double"
    using ok assms(4) by (simp add: signature_ok_def mulleInvocationSize_def unat_ucast_up)
  then have end_le: "invocation_offset (infos sig ! i) + natural_size (infos sig ! i) + alignof_double \<le> r"
    using layout_within [of A "infos sig" i] ok union assms(5,6) by (simp add: signature_ok_def)
  have n: "length (infos sig) < 2 ^ 16"
  proof -
    have "unat (scount sig) < 2 ^ LENGTH(16)" by (rule unsigned_less)
    then show ?thesis using ok by (simp add: signature_ok_def)
  qed
  then have "unat (of_nat i :: NSUInteger) = i"
    using assms(5) by (intro unat_of_nat_small) simp
  then have "(of_nat i :: NSUInteger) < ucast (scount sig)" "unat (of_nat i :: NSUInteger) = i"
    using ok assms(5) by (simp_all add: word_less_nat_alt signature_ok_def unat_ucast_up)
  then show ?thesis
    using end_le storage_address_bounds [of extraBytes]
    by (simp add: pointerAndSizeOfArgumentValue_def NSInvocationSetStorage_def mulleSignatureTypeInfoAtIndex_def
        pointerAndSizeWithInfo_def is_valid_frame_range_def linorder_not_less [symmetric])
qed

theorem arguments_in_memory_witness:
  "storage_address 1003 + invocation_offset (infos demo_sig ! 4) + natural_size (infos demo_sig ! 4) \<le> 1003 + 48"
proof -
  have "sizes_fit demo_sig_api ''v@:ii''"
    by (simp add: sizes_fit_def overflow_size_def args_end_def demo_info_def alignof_double_def Let_def)
  moreover have "NSMethodSignatureCreate demo_sig_api (Some ''v@:ii'') 0 = Some demo_sig"
    by (simp add: demo_sig_def NSMethodSignatureCreate_def Let_def)
  ultimately show ?thesis
    using arguments_in_memory [OF demo_sig_api_laws, of "''v@:ii''" 0 demo_sig 4 48 1003]
    by (simp add: isVariadic_def demo_sig_eq mulleInvocationSize_def)
qed

section \<open>Reuse\<close>

text \<open>
  No invocation is in use, waiting for reuse and freed at the same time, nor twice in the FIFO;
  those that wait are plain and have the standard room, those in use fit into their room, and the storage of each is
  large enough for the signature that it was made for.
\<close>

definition reuse_inv :: "'f fifo_ops \<Rightarrow> 'f inv_state \<Rightarrow> bool" where
  "reuse_inv F s \<longleftrightarrow>
     distinct (waiting F (reuse s)) \<and>
     set (waiting F (reuse s)) \<inter> dom (in_use s) = {} \<and>
     (set (waiting F (reuse s)) \<union> dom (in_use s)) \<inter> freed s = {} \<and>
     (\<forall>a \<in> set (waiting F (reuse s)). plain s a \<and> room s a = NSInvocationStandardSize) \<and>
     (\<forall>a self. in_use s a = Some self \<longrightarrow> length (istorage self) = room s a) \<and>
     (\<forall>a self. in_use s a = Some self \<longrightarrow>
        (\<exists>sg. methodSignature self = Some sg \<and> 0 < unat (mulleInvocationSize sg)
            \<and> unat (mulleInvocationSize sg) \<le> length (istorage self)))"

datatype reuse_call = Create bool "signature option" oid | Dealloc oid

fun reuse_step :: "'f fifo_ops \<Rightarrow> reuse_call \<Rightarrow> 'f inv_state \<Rightarrow> 'f inv_state option" where
  "reuse_step F (Create cls sig fresh) s = Some (snd (invocationWithMethodSignature F cls sig fresh s))"
| "reuse_step F (Dealloc a) s = Some (invocation_dealloc F a s)"

fun reuse_legal :: "'f fifo_ops \<Rightarrow> reuse_call \<Rightarrow> 'f inv_state \<Rightarrow> bool" where
  "reuse_legal F (Create cls sig fresh) s \<longleftrightarrow>
     fresh \<notin> set (waiting F (reuse s)) \<and> fresh \<notin> dom (in_use s) \<and> fresh \<notin> freed s"
| "reuse_legal F (Dealloc a) s \<longleftrightarrow> in_use s a \<noteq> None"

lemma create_reuse_inv:
  assumes "fifo_laws F" and "reuse_inv F s" and "reuse_legal F (Create cls sig fresh) s"
  shows "reuse_inv F (snd (invocationWithMethodSignature F cls sig fresh s))"
proof (cases sig)
  case (Some sg)
  define need std sz where "need = unat (mulleInvocationSize sg)"
    and "std = (need \<le> NSInvocationStandardSize \<and> cls)"
    and "sz = (if std then NSInvocationStandardSize else need)"
  have len: "length (istorage (NSInvocationSetStorage sg n)) = n" for n
    by (simp add: NSInvocationSetStorage_def)
  have sig_of: "methodSignature (NSInvocationSetStorage sg n) = Some sg" for n
    by (simp add: NSInvocationSetStorage_def)
  have fits: "need \<le> sz"
    by (simp add: sz_def std_def)
  show ?thesis
  proof (cases "need = 0")
    case False
    then have enough: "0 < unat (mulleInvocationSize sg)" "unat (mulleInvocationSize sg) \<le> sz"
      using fits by (simp_all add: need_def)
    have r: "snd (invocationWithMethodSignature F cls sig fresh s) =
      (case (case (if std then popStandardInvocation F s else None) of
               Some (a, s') \<Rightarrow> (a, s') | None \<Rightarrow> (fresh, allocate fresh cls sz s))
       of (a, s') \<Rightarrow> s'\<lparr>in_use := (in_use s')(a \<mapsto> NSInvocationSetStorage sg sz)\<rparr>)"
      using Some False
      by (auto simp: invocationWithMethodSignature_def Let_def need_def std_def sz_def split: prod.splits option.splits)
    show ?thesis
    proof (cases "std \<and> fread F (reuse s) \<noteq> None")
      case True
      then obtain a f where f: "std" "fread F (reuse s) = Some (a, f)" by auto
      then have w: "waiting F (reuse s) = a # waiting F f"
        using assms(1) by (simp add: fifo_laws_def)
      have "snd (invocationWithMethodSignature F cls sig fresh s) =
          s\<lparr>reuse := f, in_use := (in_use s)(a \<mapsto> NSInvocationSetStorage sg sz)\<rparr>"
        using f by (simp add: r popStandardInvocation_def)
      then show ?thesis
        using assms(2) f(1) enough by (auto simp: reuse_inv_def w len sig_of sz_def)
    next
      case no_reuse: False
      then have "(if std then popStandardInvocation F s else None) = None"
        by (cases "fread F (reuse s)") (auto simp: popStandardInvocation_def)
      then have "snd (invocationWithMethodSignature F cls sig fresh s) =
          s\<lparr>room := (room s)(fresh := sz), plain := (plain s)(fresh := cls),
             in_use := (in_use s)(fresh \<mapsto> NSInvocationSetStorage sg sz)\<rparr>"
        by (simp add: r allocate_def)
      then show ?thesis
        using assms(2,3) enough by (auto simp: reuse_inv_def len sig_of)
    qed
  qed (use Some assms(2) in \<open>simp add: invocationWithMethodSignature_def need_def Let_def\<close>)
qed (use assms(2) in \<open>simp add: invocationWithMethodSignature_def\<close>)

lemma dealloc_reuse_inv:
  assumes "fifo_laws F" and "reuse_inv F s" and "reuse_legal F (Dealloc a) s"
  shows "reuse_inv F (invocation_dealloc F a s)"
proof -
  obtain self where self: "in_use s a = Some self" using assms(3) by auto
  define s' where "s' = s\<lparr>in_use := (in_use s)(a := None)\<rparr>"
  have fr: "a \<notin> set (waiting F (reuse s))" "a \<notin> freed s" "length (istorage self) = room s a"
    using assms(2) self by (auto simp: reuse_inv_def)
  show ?thesis
  proof (cases "isStandardInvocation s a self \<and> fwrite F (reuse s) a \<noteq> None")
    case True
    then obtain f where f: "isStandardInvocation s a self" "fwrite F (reuse s) a = Some f" by auto
    then have w: "waiting F f = waiting F (reuse s) @ [a]"
      using assms(1) by (simp add: fifo_laws_def)
    have "invocation_dealloc F a s = s'\<lparr>reuse := f\<rparr>"
      using f self by (simp add: invocation_dealloc_def pushStandardInvocation_def s'_def Let_def)
    then show ?thesis
      using assms(2) f(1) fr by (auto simp: reuse_inv_def s'_def w isStandardInvocation_def split: if_splits)
  next
    case False
    then have "(if isStandardInvocation s a self then pushStandardInvocation F a s' else None) = None"
      by (auto simp: pushStandardInvocation_def s'_def)
    then have "invocation_dealloc F a s = s'\<lparr>freed := insert a (freed s)\<rparr>"
      using self by (simp add: invocation_dealloc_def s'_def [symmetric] Let_def) (simp add: s'_def)
    then show ?thesis
      using assms(2) fr by (auto simp: reuse_inv_def s'_def)
  qed
qed

text \<open>A FIFO of eight entries, the capacity that \<open>+initialize\<close> asks for.\<close>

definition list_fifo :: "oid list fifo_ops" where
  "list_fifo = \<lparr>fwrite = (\<lambda>f a. if length f < 8 then Some (f @ [a]) else None),
     fread = (\<lambda>f. case f of [] \<Rightarrow> None | a # f' \<Rightarrow> Some (a, f')), waiting = (\<lambda>f. f)\<rparr>"

lemma list_fifo_laws: "fifo_laws list_fifo"
  by (auto simp: fifo_laws_def list_fifo_def split: list.splits if_splits)

definition reuse_ok :: "'f fifo_ops \<times> 'f inv_state \<Rightarrow> bool" where
  "reuse_ok p \<longleftrightarrow> fifo_laws (fst p) \<and> reuse_inv (fst p) (snd p)"

interpretation reuse: live_invariant
  "\<lambda>x p. map_option (Pair (fst p)) (reuse_step (fst p) x (snd p))" "\<lambda>x p. reuse_legal (fst p) x (snd p)" reuse_ok
proof unfold_locales
  fix p p' :: "'f fifo_ops \<times> 'f inv_state" and x
  assume ok: "reuse_ok p" and legal: "reuse_legal (fst p) x (snd p)"
  have "reuse_inv (fst p) s'" if "reuse_step (fst p) x (snd p) = Some s'" for s'
    using that ok legal create_reuse_inv [of "fst p" "snd p"] dealloc_reuse_inv [of "fst p" "snd p"]
    by (cases x) (auto simp: reuse_ok_def)
  then show "map_option (Pair (fst p)) (reuse_step (fst p) x (snd p)) = Some p' \<Longrightarrow> reuse_ok p'"
    using ok by (auto simp: reuse_ok_def)
  show "\<exists>s'. map_option (Pair (fst p)) (reuse_step (fst p) x (snd p)) = Some s'"
    by (cases x) auto
qed


text \<open>
  C28. Creating and deallocating invocations in any order keeps their memory apart: no instance is
  handed out while it is in use, none is freed while it waits for reuse or is in use, and the
  storage of each has the bytes its instance was allocated with, which are enough for the signature of
  the invocation, also when it is reused for another signature.
\<close>

theorem reuse_run_ok:
  assumes "fifo_laws F" and "reuse_inv F s"
    and "legal_run (\<lambda>x p. map_option (Pair (fst p)) (reuse_step (fst p) x (snd p)))
           (\<lambda>x p. reuse_legal (fst p) x (snd p)) calls (F, s)"
  shows "\<exists>s'. run (\<lambda>x p. map_option (Pair (fst p)) (reuse_step (fst p) x (snd p))) calls (F, s) = Some s'
    \<and> reuse_inv (fst s') (snd s')"
proof -
  have "reuse_ok (F, s)" using assms(1,2) by (simp add: reuse_ok_def)
  from reuse.run_returns [OF this assms(3)] show ?thesis
    unfolding reuse_ok_def by blast
qed

theorem reuse_run_ok_witness:
  "\<exists>s'. run (\<lambda>x p. map_option (Pair (fst p)) (reuse_step (fst p) x (snd p)))
      [Create True (Some demo_sig) 1, Dealloc 1, Create True (Some demo_sig) 2]
      (list_fifo, \<lparr>reuse = [], room = \<lambda>_. 0, plain = \<lambda>_. False, in_use = \<lambda>_. None, freed = {}\<rparr>) = Some s'
    \<and> reuse_inv (fst s') (snd s')"
proof (rule reuse_run_ok [OF list_fifo_laws])
  let ?s = "\<lparr>reuse = [], room = \<lambda>_. 0, plain = \<lambda>_. False, in_use = \<lambda>_. None, freed = {}\<rparr> :: oid list inv_state"
  show "reuse_inv list_fifo ?s"
    by (simp add: reuse_inv_def list_fifo_def)
  show "legal_run (\<lambda>x p. map_option (Pair (fst p)) (reuse_step (fst p) x (snd p)))
      (\<lambda>x p. reuse_legal (fst p) x (snd p))
      [Create True (Some demo_sig) 1, Dealloc 1, Create True (Some demo_sig) 2] (list_fifo, ?s)"
    by (simp add: list_fifo_def invocationWithMethodSignature_def demo_sig_eq mulleInvocationSize_def
        NSInvocationStandardSize_def popStandardInvocation_def allocate_def invocation_dealloc_def
        isStandardInvocation_def pushStandardInvocation_def NSInvocationSetStorage_def Let_def)
qed

section \<open>The two ways to call\<close>

lemma bind_effect_assoc: "bind_effect (bind_effect e f) g = bind_effect e (\<lambda>x. bind_effect (f x) g)"
  by (cases e) simp_all

text \<open>
  Calling through an implementation pointer and sending the message have the same effect on
  the invocation, if the pointer is what the message would find: the same parameter, the same
  stored return value, the same exceptions.  This holds for all call types but the method without
  arguments that returns a struct.
\<close>

theorem invoke_paths_agree:
  assumes "callType \<in> {0, 1, 2, 4, 5, 8, 9, 10}"
  shows "call_imp m sig callType sel target self = invoke_message m sig callType sel target self"
  using assms
  by (elim insertE emptyE)
    (simp_all add: call_imp_def invoke_message_def call_param_def bind_effect_assoc Let_def)

theorem invoke_paths_agree_witness:
  "call_imp (\<lambda>target sel p st. (5, st)) demo_sig 8 7 9 (NSInvocationSetStorage demo_sig 48)
     = invoke_message (\<lambda>target sel p st. (5, st)) demo_sig 8 7 9 (NSInvocationSetStorage demo_sig 48)"
  by (rule invoke_paths_agree) simp

text \<open>
  For a method without arguments that returns a struct, calling through the implementation
  pointer reads the info of an argument that does not exist, behind the end of the array, whatever
  the method does; sending the message does not.
\<close>

theorem call_imp_reads_behind_infos:
  assumes "length (infos sig) = 3"
    and "methodReturnLength sig \<le> length (snd (m target sel (Address 0) (istorage self)))"
  shows "call_imp m sig 6 sel target self = Wild \<and> invoke_message m sig 6 sel target self \<noteq> Wild"
proof -
  have "lift_exn r \<noteq> Wild" for r :: "exn + invocation"
    by (simp add: lift_exn_def split: sum.splits)
  then show ?thesis
    using assms by (cases "m target sel (Address 0) (istorage self)")
      (simp add: call_imp_def call_param_def block_offset_def fourth_info_def invoke_message_def
        store_block_def call_method_def)
qed

theorem call_imp_reads_behind_infos_witness:
  "call_imp (\<lambda>target sel p st. (0, st)) (demo_sig\<lparr>infos := take 3 (infos demo_sig)\<rparr>) 6 7 9
     (NSInvocationSetStorage demo_sig 48) = Wild"
  using call_imp_reads_behind_infos [of "demo_sig\<lparr>infos := take 3 (infos demo_sig)\<rparr>"
      "\<lambda>target sel p st. (0, st)" 9 7 "NSInvocationSetStorage demo_sig 48"]
  by (simp add: demo_sig_eq methodReturnLength_def demo_info_def NSInvocationSetStorage_def)

end
