(* ===== verification/InvocationRetain.thy ===== *)
theory InvocationRetain
  imports InvocationProps
begin

text \<open>
  What an invocation owns (\<open>src/class/NSInvocation.m\<close>): \<open>retainArguments\<close>,
  \<open>mulleRetainReturnValue\<close> and their counterparts, and the walk over the members of struct
  arguments.

  The type characters and the parser of type encodings belong to the runtime: \<open>kind_of\<close> and
  \<open>type_parse\<close> in the record \<open>retain_api\<close>.  Retaining, copying, releasing, duplicating and freeing
  are recorded in a log; the address that a copy or a duplicate gets depends on the log so far.
\<close>

section \<open>Data\<close>

datatype kind = AryB | AryE | StructB | StructE | UnionB | UnionE | ClassT | AssignId | RetainId | CopyId | CharPtr | Other

datatype event =
    Retained NSUInteger
  | Copied NSUInteger NSUInteger
  | Released NSUInteger
  | Duplicated NSUInteger NSUInteger
  | Freed NSUInteger

record typeinfo =
  tsize :: nat
  talign :: nat
  tretainable :: bool
  n_members :: nat
  member_type :: string

record retain_api =
  kind_of :: "char \<Rightarrow> kind"
  type_parse :: "string \<Rightarrow> (char \<times> typeinfo) list"
  copy_of :: "event list \<Rightarrow> NSUInteger \<Rightarrow> NSUInteger"
  dup_of :: "event list \<Rightarrow> NSUInteger \<Rightarrow> NSUInteger"

record rstate =
  rinv :: invocation
  log :: "event list"

datatype operation = OpRetain | OpRelease

definition happens :: "event \<Rightarrow> rstate \<Rightarrow> rstate" where
  "happens e s = s\<lparr>log := log s @ [e]\<rparr>"

section \<open>The members of an aggregate\<close>

text \<open>
  The state of \<open>struct perform_context\<close> while the parser calls back: \<open>skip\<close>, \<open>offset\<close> and the
  invocation.  \<open>start\<close> is the offset of the argument in the storage.
\<close>

record pcontext =
  skip :: nat
  coffset :: nat
  cstep :: rstate

definition align_to :: "nat \<Rightarrow> nat \<Rightarrow> nat" where
  "align_to n a = (n + (a - 1)) div a * a"

definition member_value :: "rstate \<Rightarrow> nat \<Rightarrow> NSUInteger" where
  "member_value s p = ptr_of (bytes_at (istorage (rinv s)) p 8)"

definition set_member :: "nat \<Rightarrow> NSUInteger \<Rightarrow> rstate \<Rightarrow> rstate" where
  "set_member p w s =
     s\<lparr>rinv := (rinv s)\<lparr>istorage := write_at (istorage (rinv s)) p (map (ptr_bytes w) [0..<8])\<rparr>\<rparr>"

definition perform_context_operation :: "retain_api \<Rightarrow> operation \<Rightarrow> kind \<Rightarrow> nat \<Rightarrow> rstate \<Rightarrow> rstate" where
  "perform_context_operation R op k p s =
     (let w = member_value s p in
      case k of
        RetainId \<Rightarrow> happens (if op = OpRetain then Retained w else Released w) s
      | CopyId \<Rightarrow>
          (if op = OpRetain
           then (let c = copy_of R (log s) w in set_member p c (happens (Copied w c) s))
           else happens (Released w) s)
      | CharPtr \<Rightarrow>
          (if op = OpRetain
           then (let c = dup_of R (log s) w in set_member p c (happens (Duplicated w c) s))
           else happens (Freed w) s)
      | _ \<Rightarrow> s)"

text \<open>The tail of the callback, for a type that is not skipped.\<close>

definition visit_member :: "retain_api \<Rightarrow> operation \<Rightarrow> nat \<Rightarrow> kind \<Rightarrow> typeinfo \<Rightarrow> pcontext \<Rightarrow> pcontext" where
  "visit_member R op start k info c =
     (if skip c = 0
      then (let off = align_to (coffset c) (talign info);
                s = (if tretainable info then perform_context_operation R op k (start + off) (cstep c) else cstep c)
            in c\<lparr>coffset := off + tsize info, cstep := s\<rparr>)
      else c)"

text \<open>
  The callback on the list of events that the parser issues.  For an array the members are parsed
  again, once for each, with a context of their own; the first argument bounds the nesting of
  arrays.  \<open>Inl\<close> is the exception for a union that holds objects, \<open>None\<close> an exhausted bound.
\<close>

fun members :: "nat \<Rightarrow> retain_api \<Rightarrow> operation \<Rightarrow> nat \<Rightarrow> (char \<times> typeinfo) list \<Rightarrow> pcontext \<Rightarrow> (exn + pcontext) option"
  and repeat_members :: "nat \<Rightarrow> retain_api \<Rightarrow> operation \<Rightarrow> nat \<Rightarrow> (char \<times> typeinfo) list \<Rightarrow> nat \<Rightarrow> pcontext \<Rightarrow> (exn + pcontext) option"
where
  "members fuel R op start [] c = Some (Inr c)"
| "members fuel R op start ((ch, info) # evs) c =
     (case kind_of R ch of
        StructB \<Rightarrow> members fuel R op start evs c
      | StructE \<Rightarrow> members fuel R op start evs c
      | UnionB \<Rightarrow>
          (if tretainable info then Some (Inl InternalInconsistency)
           else members fuel R op start evs (visit_member R op start UnionB info (c\<lparr>skip := skip c + 1\<rparr>)))
      | UnionE \<Rightarrow>
          members fuel R op start evs (visit_member R op start UnionE info (c\<lparr>skip := skip c - 1\<rparr>))
      | AryB \<Rightarrow>
          members fuel R op start evs (visit_member R op start AryB info (c\<lparr>skip := skip c + 1\<rparr>))
      | AryE \<Rightarrow>
          (if skip c - 1 = 0 \<and> tretainable info
           then (case fuel of
                   0 \<Rightarrow> None
                 | Suc fuel' \<Rightarrow>
                     (case repeat_members fuel' R op start (type_parse R (member_type info)) (n_members info)
                             (c\<lparr>skip := 0\<rparr>) of
                        None \<Rightarrow> None
                      | Some (Inl e) \<Rightarrow> Some (Inl e)
                      | Some (Inr c') \<Rightarrow>
                          members fuel R op start evs
                            (c\<lparr>skip := 0, coffset := align_to (coffset c) (talign info) + tsize info,
                               cstep := cstep c'\<rparr>)))
           else members fuel R op start evs (c\<lparr>skip := skip c - 1\<rparr>))
      | k \<Rightarrow> members fuel R op start evs (visit_member R op start k info c))"
| "repeat_members fuel R op start evs 0 c = Some (Inr c)"
| "repeat_members fuel R op start evs (Suc n) c =
     (case members fuel R op start evs c of
        None \<Rightarrow> None
      | Some (Inl e) \<Rightarrow> Some (Inl e)
      | Some (Inr c') \<Rightarrow> repeat_members fuel R op start evs n c')"

text \<open>\<open>_performArgumentMemberOperation:\<close>; \<open>i\<close> is the index of the info, 0 the return value.\<close>

definition performMemberOperation ::
    "nat \<Rightarrow> retain_api \<Rightarrow> operation \<Rightarrow> signature \<Rightarrow> arginfo \<Rightarrow> NSUInteger \<Rightarrow> rstate \<Rightarrow> (exn + rstate) option" where
  "performMemberOperation fuel R op sig info i s =
     (case pointerAndSizeOfArgumentValue (rinv s) i of
        Inl e \<Rightarrow> Some (Inl e)
      | Inr (adr, sz) \<Rightarrow>
          map_option (map_sum id cstep)
            (members fuel R op adr (type_parse R (drop (type_offset info) (types sig)))
               \<lparr>skip = 0, coffset = 0, cstep = s\<rparr>))"


section \<open>Retaining and releasing the arguments\<close>

definition kind_at :: "retain_api \<Rightarrow> signature \<Rightarrow> arginfo \<Rightarrow> kind" where
  "kind_at R sig info = kind_of R (types sig ! type_offset info)"

definition set_inv :: "rstate \<Rightarrow> exn + invocation \<Rightarrow> exn + rstate" where
  "set_inv s r = map_sum id (\<lambda>self. s\<lparr>rinv := self\<rparr>) r"


definition release_argument ::
    "nat \<Rightarrow> retain_api \<Rightarrow> signature \<Rightarrow> NSUInteger \<Rightarrow> rstate \<Rightarrow> (exn + rstate) option" where
  "release_argument fuel R sig i s =
     (case mulleSignatureTypeInfoAtIndex sig (i + 1) of
        Inl e \<Rightarrow> Some (Inl e)
      | Inr info \<Rightarrow>
          (let k = kind_at R sig info in
           if k \<in> {AryB, StructB, UnionB}
           then (if has_retainable_type info
                 then performMemberOperation fuel R OpRelease sig info (i + 1) s else Some (Inr s))
           else if k \<in> {RetainId, CopyId, CharPtr}
           then Some (case getArgument (rinv s) i of
                   Inl e \<Rightarrow> Inl e
                 | Inr bs \<Rightarrow> Inr (happens (if k = CharPtr then Freed (ptr_of bs) else Released (ptr_of bs)) s))
           else Some (Inr s)))"

fun for_arguments ::
    "(NSUInteger \<Rightarrow> rstate \<Rightarrow> (exn + rstate) option) \<Rightarrow> NSUInteger list \<Rightarrow> rstate \<Rightarrow> (exn + rstate) option" where
  "for_arguments body [] s = Some (Inr s)"
| "for_arguments body (i # ks) s =
     (case body i s of
        None \<Rightarrow> None
      | Some (Inl e) \<Rightarrow> Some (Inl e)
      | Some (Inr s') \<Rightarrow> for_arguments body ks s')"

definition argument_indices :: "signature \<Rightarrow> NSUInteger list" where
  "argument_indices sig = map of_nat [0..<unat (numberOfArguments sig)]"


definition releaseArguments :: "nat \<Rightarrow> retain_api \<Rightarrow> signature \<Rightarrow> rstate \<Rightarrow> (exn + rstate) option" where
  "releaseArguments fuel R sig s = for_arguments (release_argument fuel R sig) (argument_indices sig) s"

text \<open>The same for the return value.\<close>

definition retainReturnValue :: "nat \<Rightarrow> retain_api \<Rightarrow> signature \<Rightarrow> rstate \<Rightarrow> (exn + rstate) option" where
  "retainReturnValue fuel R sig s0 =
     (if returnValueRetained (rinv s0) then Some (Inr s0)
      else
        (let s = s0\<lparr>rinv := (rinv s0)\<lparr>returnValueRetained := True\<rparr>\<rparr> in
         case mulleSignatureTypeInfoAtIndex sig 0 of
           Inl e \<Rightarrow> Some (Inl e)
         | Inr info \<Rightarrow>
             (let k = kind_at R sig info in
              if k \<in> {AryB, StructB, UnionB}
              then (if has_retainable_type info
                    then performMemberOperation fuel R OpRetain sig info 0 s else Some (Inr s))
              else if k \<in> {RetainId, CopyId, CharPtr}
              then Some (case getReturnValueWithInfo (rinv s) info of
                      Inl e \<Rightarrow> Inl e
                    | Inr bs \<Rightarrow>
                        (let w = ptr_of bs in
                         if k = RetainId then Inr (happens (Retained w) s)
                         else if k = CopyId
                         then (let c = copy_of R (log s) w; s' = happens (Copied w c) s
                               in set_inv s' (setReturnValueWithInfo (rinv s') (ptr_bytes c) info))
                         else (let c = dup_of R (log s) w; s' = happens (Duplicated w c) s
                               in set_inv s' (setReturnValue (rinv s') (ptr_bytes c)))))
              else Some (Inr s))))"

definition releaseReturnValue :: "nat \<Rightarrow> retain_api \<Rightarrow> signature \<Rightarrow> rstate \<Rightarrow> (exn + rstate) option" where
  "releaseReturnValue fuel R sig s =
     (case mulleSignatureTypeInfoAtIndex sig 0 of
        Inl e \<Rightarrow> Some (Inl e)
      | Inr info \<Rightarrow>
          (let k = kind_at R sig info in
           if k \<in> {AryB, StructB, UnionB}
           then (if has_retainable_type info
                 then performMemberOperation fuel R OpRelease sig info 0 s else Some (Inr s))
           else if k \<in> {RetainId, CopyId, CharPtr}
           then Some (case getReturnValue (rinv s) of
                   Inl e \<Rightarrow> Inl e
                 | Inr bs \<Rightarrow> Inr (happens (if k = CharPtr then Freed (ptr_of bs) else Released (ptr_of bs)) s))
           else Some (Inr s)))"

text \<open>The part of \<open>-dealloc\<close> that gives up what the invocation owns.\<close>

definition release_owned :: "nat \<Rightarrow> retain_api \<Rightarrow> signature \<Rightarrow> rstate \<Rightarrow> (exn + rstate) option" where
  "release_owned fuel R sig s =
     (case (if argumentsRetained (rinv s) then releaseArguments fuel R sig s else Some (Inr s)) of
        None \<Rightarrow> None
      | Some (Inl e) \<Rightarrow> Some (Inl e)
      | Some (Inr s') \<Rightarrow> if returnValueRetained (rinv s') then releaseReturnValue fuel R sig s' else Some (Inr s'))"

section \<open>Ownership\<close>

datatype owned = Object NSUInteger | String NSUInteger

fun acquired :: "event \<Rightarrow> owned list" where
  "acquired (Retained o1) = [Object o1]"
| "acquired (Copied o1 o2) = [Object o2]"
| "acquired (Duplicated p1 p2) = [String p2]"
| "acquired _ = []"

fun given_up :: "event \<Rightarrow> owned list" where
  "given_up (Released o1) = [Object o1]"
| "given_up (Freed p1) = [String p1]"
| "given_up _ = []"

definition acquisitions :: "event list \<Rightarrow> owned list" where
  "acquisitions es = concat (map acquired es)"

definition releases :: "event list \<Rightarrow> owned list" where
  "releases es = concat (map given_up es)"

lemma ledger_simps [simp]:
  "acquisitions [] = []" "releases [] = []"
  "acquisitions (es @ es') = acquisitions es @ acquisitions es'" "releases (es @ es') = releases es @ releases es'"
  "acquisitions (e # es) = acquired e @ acquisitions es" "releases (e # es) = given_up e @ releases es"
  by (simp_all add: acquisitions_def releases_def)

text \<open>
  The arguments without aggregates that hold objects: an argument is owned when its type is an
  object pointer that is retained or copied, or a string, and then it is a pointer in size.
\<close>

definition owned_kind :: "kind \<Rightarrow> bool" where
  "owned_kind k \<longleftrightarrow> k \<in> {RetainId, CopyId, CharPtr}"

definition plain_arguments :: "retain_api \<Rightarrow> signature \<Rightarrow> invocation \<Rightarrow> bool" where
  "plain_arguments R sig self \<longleftrightarrow>
     (\<forall>i. 1 \<le> i \<and> i < length (infos sig) \<longrightarrow>
        (let info = infos sig ! i; k = kind_at R sig info
         in (k \<in> {AryB, StructB, UnionB} \<longrightarrow> \<not> has_retainable_type info) \<and>
            (owned_kind k \<longrightarrow> natural_size info = 8 \<and> invocation_offset info + 8 \<le> length (istorage self))))"



definition arg_value :: "rstate \<Rightarrow> NSUInteger \<Rightarrow> NSUInteger" where
  "arg_value s i = (case getArgument (rinv s) i of Inl e \<Rightarrow> 0 | Inr bs \<Rightarrow> ptr_of bs)"


text \<open>What both loops rely on.\<close>

definition arguments_ready :: "sig_api \<Rightarrow> retain_api \<Rightarrow> signature \<Rightarrow> rstate \<Rightarrow> bool" where
  "arguments_ready A R sig s \<longleftrightarrow>
     signature_ok A sig \<and> methodSignature (rinv s) = Some sig \<and> plain_arguments R sig (rinv s)"





lemma ready_happens [simp]: "arguments_ready A R sig (happens e s) = arguments_ready A R sig s"
  "rinv (happens e s) = rinv s" "log (happens e s) = log s @ [e]" "arg_value (happens e s) i = arg_value s i"
  by (simp_all add: arguments_ready_def happens_def arg_value_def)








section \<open>Properties\<close>



text \<open>
  A concrete runtime: the type characters of the examples, copies get fresh addresses.  The
  signature has an object to copy and a string as arguments.
\<close>

definition demo_retain_api :: "(string \<Rightarrow> (char \<times> typeinfo) list) \<Rightarrow> retain_api" where
  "demo_retain_api parse = \<lparr>kind_of = (\<lambda>c. if c = CHR ''@'' then RetainId else if c = CHR ''~'' then CopyId
       else if c = CHR ''*'' then CharPtr else if c = CHR ''{'' then StructB else if c = CHR ''}'' then StructE
       else if c = CHR ''['' then AryB else if c = CHR '']'' then AryE else Other),
     type_parse = parse, copy_of = (\<lambda>es w. 1000 + of_nat (length es)), dup_of = (\<lambda>es w. 2000 + of_nat (length es))\<rparr>"

definition demo_copy_sig :: signature where
  "demo_copy_sig = the (NSMethodSignatureCreate demo_sig_api (Some ''v@:~*'') 0)"




section \<open>The offsets of the members\<close>

text \<open>
  Types as the C compiler lays them out: every member at the next multiple of its alignment, the
  size of a struct rounded up to its alignment.  \<open>places\<close> are the offsets of the object pointers.
\<close>

datatype ctype = Scalar char nat nat bool | Struct "ctype list" | Array nat ctype

fun c_align :: "ctype \<Rightarrow> nat" where
  "c_align (Scalar ch n a r) = a"
| "c_align (Struct ts) = fold max (map c_align ts) 1"
| "c_align (Array n t) = c_align t"

fun c_size :: "ctype \<Rightarrow> nat" where
  "c_size (Scalar ch n a r) = n"
| "c_size (Struct ts) =
     padded (fold (\<lambda>(n, a) off. padded off a + n) (map (\<lambda>t. (c_size t, c_align t)) ts) 0)
       (fold max (map c_align ts) 1)"
| "c_size (Array n t) = n * c_size t"

fun member_offsets :: "(nat \<times> nat) list \<Rightarrow> nat \<Rightarrow> nat list" where
  "member_offsets [] off = []"
| "member_offsets ((n, a) # ms) off = padded off a # member_offsets ms (padded off a + n)"

fun places :: "ctype \<Rightarrow> nat list" where
  "places (Scalar ch n a r) = (if r then [0] else [])"
| "places (Struct ts) =
     concat (map (\<lambda>(off, ps). map (\<lambda>p. off + p) ps)
       (zip (member_offsets (map (\<lambda>t. (c_size t, c_align t)) ts) 0) (map places ts)))"
| "places (Array n t) = concat (map (\<lambda>k. map (\<lambda>p. k * c_size t + p) (places t)) [0..<n])"

fun retainable :: "ctype \<Rightarrow> bool" where
  "retainable (Scalar ch n a r) = r"
| "retainable (Struct ts) = (\<exists>r \<in> set (map retainable ts). r)"
| "retainable (Array n t) = retainable t"

definition info_of :: "ctype \<Rightarrow> typeinfo" where
  "info_of t = \<lparr>tsize = c_size t, talign = c_align t, tretainable = retainable t,
     n_members = (case t of Array n _ \<Rightarrow> n | _ \<Rightarrow> 0), member_type = []\<rparr>"

text \<open>The events that the parser issues for a type, as the callback of the code expects them.\<close>

fun parse_events :: "ctype \<Rightarrow> (char \<times> typeinfo) list" where
  "parse_events (Scalar ch n a r) = [(ch, info_of (Scalar ch n a r))]"
| "parse_events (Struct ts) =
     (CHR ''{'', info_of (Struct ts)) # concat (map parse_events ts) @ [(CHR ''}'', info_of (Struct ts))]"
| "parse_events (Array n t) =
     (CHR ''['', info_of (Array n t)) # parse_events t @ [(CHR '']'', info_of (Array n t))]"

definition walk_ids :: "ctype \<Rightarrow> rstate \<Rightarrow> (exn + rstate) option" where
  "walk_ids t s = map_option (map_sum id cstep)
     (members 1 (demo_retain_api (\<lambda>_. [])) OpRetain 0 (parse_events t) \<lparr>skip = 0, coffset = 0, cstep = s\<rparr>)"


lemma demo_kinds:
  "kind_of (demo_retain_api parse) CHR ''{'' = StructB" "kind_of (demo_retain_api parse) CHR ''}'' = StructE"
  "kind_of (demo_retain_api parse) CHR ''['' = AryB" "kind_of (demo_retain_api parse) CHR '']'' = AryE"
  "kind_of (demo_retain_api parse) CHR ''@'' = RetainId" "kind_of (demo_retain_api parse) CHR ''c'' = Other"
  by (simp_all add: demo_retain_api_def)

text \<open>The members of a struct without aggregates.\<close>

fun scalar :: "retain_api \<Rightarrow> ctype \<Rightarrow> bool" where
  "scalar R (Scalar ch n a r) = (0 < a \<and> kind_of R ch \<in> {ClassT, AssignId, RetainId, CopyId, CharPtr, Other})"
| "scalar R _ = False"

definition event_at :: "retain_api \<Rightarrow> operation \<Rightarrow> nat \<Rightarrow> (char \<times> typeinfo) \<times> nat \<Rightarrow> rstate \<Rightarrow> rstate" where
  "event_at R op start e s =
     (case e of ((ch, info), off) \<Rightarrow>
        if tretainable info then perform_context_operation R op (kind_of R ch) (start + off) s else s)"

lemma align_to_padded: "0 < a \<Longrightarrow> align_to n a = padded n a"
  by (simp add: align_to_def padded_eq)

lemma members_flat:
  assumes "\<forall>t \<in> set ts. scalar R t" and "skip c = 0"
  shows "\<exists>c'. members fuel R op start (concat (map parse_events ts) @ [(ch, info)]) c =
      members fuel R op start [(ch, info)] c' \<and> skip c' = 0 \<and>
      cstep c' = fold (event_at R op start)
        (zip (concat (map parse_events ts)) (member_offsets (map (\<lambda>t. (c_size t, c_align t)) ts) (coffset c))) (cstep c)"
  using assms
proof (induction ts arbitrary: c)
  case Nil
  then show ?case by (intro exI [of _ c]) simp
next
  case (Cons t ts)
  then obtain tc n a r where t: "t = Scalar tc n a r" "0 < a" "kind_of R tc \<in> {ClassT, AssignId, RetainId, CopyId, CharPtr, Other}"
    by (cases t) auto
  define c1 where "c1 = visit_member R op start (kind_of R tc) (info_of t) c"
  have "members fuel R op start (concat (map parse_events (t # ts)) @ [(ch, info)]) c =
      members fuel R op start (concat (map parse_events ts) @ [(ch, info)]) c1"
    using t(3) by (auto simp: t(1) c1_def)
  moreover have c1: "skip c1 = 0" "coffset c1 = align_to (coffset c) a + n"
    "cstep c1 = event_at R op start ((tc, info_of t), align_to (coffset c) a) (cstep c)"
    using Cons.prems(2) by (simp_all add: c1_def visit_member_def info_of_def t(1) event_at_def Let_def)
  ultimately show ?case
    using Cons.IH [OF _ c1(1)] Cons.prems(1) t(2) by (auto simp: t(1) align_to_padded)
qed

text \<open>
  For a struct whose members are no aggregates the walk performs its operation on every object
  pointer, in order, at the offsets at which the C compiler places the members.
\<close>

theorem flat_struct_offsets:
  assumes "\<forall>t \<in> set ts. scalar R t" and "kind_of R CHR ''{'' = StructB" and "kind_of R CHR ''}'' = StructE"
  shows "\<exists>c'. members fuel R op start (parse_events (Struct ts)) \<lparr>skip = 0, coffset = 0, cstep = s\<rparr> = Some (Inr c')
    \<and> cstep c' = fold (event_at R op start)
        (zip (concat (map parse_events ts)) (member_offsets (map (\<lambda>t. (c_size t, c_align t)) ts) 0)) s"
  using members_flat [OF assms(1), of "\<lparr>skip = 0, coffset = 0, cstep = s\<rparr>" fuel op start "CHR ''}''" "info_of (Struct ts)"]
    assms(2,3) by auto

theorem flat_struct_offsets_witness:
  "\<exists>c'. members 0 (demo_retain_api (\<lambda>_. [])) OpRetain 0
      (parse_events (Struct [Scalar CHR ''c'' 1 1 False, Scalar CHR ''@'' 8 8 True]))
      \<lparr>skip = 0, coffset = 0, cstep = \<lparr>rinv = NSInvocationSetStorage demo_copy_sig 48, log = []\<rparr>\<rparr> = Some (Inr c')
    \<and> log (cstep c') = [Retained (member_value \<lparr>rinv = NSInvocationSetStorage demo_copy_sig 48, log = []\<rparr> 8)]"
  using flat_struct_offsets [of "[Scalar CHR ''c'' 1 1 False, Scalar CHR ''@'' 8 8 True]"
      "demo_retain_api (\<lambda>_. [])" 0 OpRetain 0 "\<lparr>rinv = NSInvocationSetStorage demo_copy_sig 48, log = []\<rparr>"]
  by (simp add: demo_kinds event_at_def info_of_def padded_def perform_context_operation_def happens_def Let_def)

text \<open>A storage whose pointer at offset \<open>8 * k\<close> is \<open>k + 1\<close>.\<close>

definition counting_storage :: rstate where
  "counting_storage = \<lparr>rinv = (NSInvocationSetStorage demo_copy_sig 24)
     \<lparr>istorage := [1, 0, 0, 0, 0, 0, 0, 0, 2, 0, 0, 0, 0, 0, 0, 0, 3, 0, 0, 0, 0, 0, 0, 0]\<rparr>, log = []\<rparr>"

lemma counting_values:
  "member_value counting_storage 0 = 1" "member_value counting_storage 8 = 2" "member_value counting_storage 16 = 3"
  by (simp_all add: counting_storage_def member_value_def bytes_at_def ptr_of_def)

text \<open>
  Inside a nested struct, and behind an array without objects, the walk is at the wrong
  offset, and so retains a word that is not the object.  In \<open>struct \<lbrace> char; struct \<lbrace> char; id; \<rbrace> \<rbrace>\<close>
  the object lies at 16 and the walk takes the word at 8; in \<open>struct \<lbrace> char[ 8]; id; \<rbrace>\<close> it lies at 8
  and the walk takes the word at 0.
\<close>

theorem nested_members_misplaced:
  "places (Struct [Scalar CHR ''c'' 1 1 False, Struct [Scalar CHR ''c'' 1 1 False, Scalar CHR ''@'' 8 8 True]]) = [16]
   \<and> map_option (map_sum id log)
       (walk_ids (Struct [Scalar CHR ''c'' 1 1 False, Struct [Scalar CHR ''c'' 1 1 False, Scalar CHR ''@'' 8 8 True]])
          counting_storage) = Some (Inr [Retained 2])
   \<and> places (Struct [Array 8 (Scalar CHR ''c'' 1 1 False), Scalar CHR ''@'' 8 8 True]) = [8]
   \<and> map_option (map_sum id log)
       (walk_ids (Struct [Array 8 (Scalar CHR ''c'' 1 1 False), Scalar CHR ''@'' 8 8 True]) counting_storage)
       = Some (Inr [Retained 1])"
  by (simp add: walk_ids_def demo_kinds info_of_def visit_member_def align_to_def padded_def perform_context_operation_def
      happens_def counting_values counting_storage_def [THEN arg_cong [of _ _ log]] upt_rec Let_def)

end
