(* ===== verification/Atomics.thy ===== *)
theory Atomics
  imports Prelude
begin

text \<open>
  The atomic integers of \<open>src/MulleObjCIntegralType.h\<close>: \<open>NSUIntegerAtomic\<close> and \<open>NSIntegerAtomic\<close>
  with their compare and swap loops.

  Any number of threads run operations on one cell.  The steps of a thread are the atomic read and
  the compare and swap of the pass it is in; every other step is local.  The ghost field \<open>order\<close>
  lists the finished operations in the order in which they took effect, with what they returned;
  \<open>initial\<close> is the value the cell started with.
\<close>

section \<open>Operations\<close>

text \<open>
  A pass of a loop reads the cell and then either returns what it has read or tries to swap a new
  value in.  (A swap with the same value is avoided.)  Each operation is the function from the value
  read to what the pass does next.  \<open>NSIntegerAtomicUpdate\<close> is \<open>NSUIntegerAtomicUpdate\<close> on the signed
  reading of the same 64 bits.
\<close>

datatype pass = Return_old | Cas NSUInteger

definition NSUIntegerAtomicGet :: "NSUInteger \<Rightarrow> pass" where
  "NSUIntegerAtomicGet old = Return_old"

definition NSUIntegerAtomicUpdate :: "NSUInteger \<Rightarrow> NSUInteger \<Rightarrow> pass" where
  "NSUIntegerAtomicUpdate val old = (if old = val then Return_old else Cas val)"

definition NSUIntegerAtomicMaskedOr :: "NSUInteger \<Rightarrow> NSUInteger \<Rightarrow> NSUInteger \<Rightarrow> pass" where
  "NSUIntegerAtomicMaskedOr msk bits old =
     (let val = (old AND msk) OR bits in if old = val then Return_old else Cas val)"

definition NSUIntegerAtomicOr :: "NSUInteger \<Rightarrow> NSUInteger \<Rightarrow> pass" where
  "NSUIntegerAtomicOr bits old =
     (let val = old OR bits in if old = val then Return_old else Cas val)"

definition NSIntegerAtomicGet :: "NSUInteger \<Rightarrow> pass" where
  "NSIntegerAtomicGet old = Return_old"

definition NSIntegerAtomicUpdate :: "int \<Rightarrow> NSUInteger \<Rightarrow> pass" where
  "NSIntegerAtomicUpdate val old = (if sint old = val then Return_old else Cas (word_of_int val))"

text \<open>The setters are updates whose result nobody looks at.\<close>

definition NSUIntegerAtomicSet :: "NSUInteger \<Rightarrow> NSUInteger \<Rightarrow> pass" where
  "NSUIntegerAtomicSet val old = NSUIntegerAtomicUpdate val old"

definition NSIntegerAtomicSet :: "int \<Rightarrow> NSUInteger \<Rightarrow> pass" where
  "NSIntegerAtomicSet val old = NSIntegerAtomicUpdate val old"

datatype aop =
    AtomicGet
  | AtomicUpdate NSUInteger
  | AtomicMaskedOr NSUInteger NSUInteger
  | AtomicOr NSUInteger
  | SignedGet
  | SignedUpdate int

fun pass_of :: "aop \<Rightarrow> NSUInteger \<Rightarrow> pass" where
  "pass_of AtomicGet = NSUIntegerAtomicGet"
| "pass_of (AtomicUpdate val) = NSUIntegerAtomicUpdate val"
| "pass_of (AtomicMaskedOr msk bits) = NSUIntegerAtomicMaskedOr msk bits"
| "pass_of (AtomicOr bits) = NSUIntegerAtomicOr bits"
| "pass_of SignedGet = NSIntegerAtomicGet"
| "pass_of (SignedUpdate val) = NSIntegerAtomicUpdate val"

text \<open>What the operation means when it is alone: the value it leaves behind.\<close>

fun effect :: "aop \<Rightarrow> NSUInteger \<Rightarrow> NSUInteger" where
  "effect AtomicGet old = old"
| "effect (AtomicUpdate val) old = val"
| "effect (AtomicMaskedOr msk bits) old = (old AND msk) OR bits"
| "effect (AtomicOr bits) old = old OR bits"
| "effect SignedGet old = old"
| "effect (SignedUpdate val) old = word_of_int val"

lemma pass_of_effect:
  "pass_of f old = Return_old \<Longrightarrow> effect f old = old"
  "pass_of f old = Cas val \<Longrightarrow> effect f old = val"
  by (cases f; auto simp: NSUIntegerAtomicUpdate_def NSUIntegerAtomicMaskedOr_def NSUIntegerAtomicOr_def
        NSUIntegerAtomicGet_def NSIntegerAtomicGet_def NSIntegerAtomicUpdate_def Let_def split: if_splits)+

section \<open>Threads\<close>

datatype point = Idle | Reading aop | Swapping aop NSUInteger NSUInteger | Finished aop NSUInteger

record atomics =
  cell :: NSUInteger
  points :: "nat \<Rightarrow> point"
  order :: "(nat \<times> aop \<times> NSUInteger) list"
  initial :: NSUInteger

abbreviation move :: "nat \<Rightarrow> point \<Rightarrow> atomics \<Rightarrow> atomics" where
  "move t p s \<equiv> s\<lparr>points := (points s)(t := p)\<rparr>"

text \<open>
  A pass: read; return at once when nothing would change (a plain get always does); else try to
  swap, and start over when another thread was faster.
\<close>

inductive atomic_step :: "atomics \<Rightarrow> atomics \<Rightarrow> bool" where
  call: "points s t = Idle \<Longrightarrow> atomic_step s (move t (Reading f) s)"
| read_same: "points s t = Reading f \<Longrightarrow> pass_of f (cell s) = Return_old \<Longrightarrow>
     atomic_step s (move t (Finished f (cell s)) (s\<lparr>order := order s @ [(t, f, cell s)]\<rparr>))"
| read_other: "points s t = Reading f \<Longrightarrow> pass_of f (cell s) = Cas val \<Longrightarrow>
     atomic_step s (move t (Swapping f (cell s) val) s)"
| swap: "points s t = Swapping f old val \<Longrightarrow> cell s = old \<Longrightarrow>
     atomic_step s (move t (Finished f old) (s\<lparr>cell := val, order := order s @ [(t, f, old)]\<rparr>))"
| retry: "points s t = Swapping f old val \<Longrightarrow> cell s \<noteq> old \<Longrightarrow> atomic_step s (move t (Reading f) s)"
| return_to: "points s t = Finished f old \<Longrightarrow> atomic_step s (move t Idle s)"

inductive_cases atomic_stepE: "atomic_step s s'"

definition unused :: "NSUInteger \<Rightarrow> atomics" where
  "unused v = \<lparr>cell = v, points = (\<lambda>_. Idle), order = [], initial = v\<rparr>"

abbreviation atomic_reachable :: "NSUInteger \<Rightarrow> atomics \<Rightarrow> bool" where
  "atomic_reachable v \<equiv> reached ((=) (unused v)) atomic_step"

section \<open>The sequential meaning\<close>

text \<open>One thread alone: every operation takes effect at once and returns the value before.\<close>

fun sequential :: "NSUInteger \<Rightarrow> (nat \<times> aop \<times> NSUInteger) list \<Rightarrow> NSUInteger option" where
  "sequential v [] = Some v"
| "sequential v ((t, f, old) # es) = (if old = v then sequential (effect f v) es else None)"

lemma sequential_snoc:
  "sequential v (es @ [(t, f, old)]) =
     (case sequential v es of None \<Rightarrow> None | Some w \<Rightarrow> if old = w then Some (effect f w) else None)"
  by (induction es arbitrary: v) (auto split: option.splits if_splits)

definition linear :: "atomics \<Rightarrow> bool" where
  "linear s \<longleftrightarrow> sequential (initial s) (order s) = Some (cell s)"

definition threads_ok :: "atomics \<Rightarrow> bool" where
  "threads_ok s \<longleftrightarrow>
     (\<forall>t f old. points s t = Finished f old \<longrightarrow> (t, f, old) \<in> set (order s)) \<and>
     (\<forall>t f old val. points s t = Swapping f old val \<longrightarrow> val = effect f old)"

lemma atomic_step_linear:
  "atomic_step s s' \<Longrightarrow> threads_ok s \<Longrightarrow> linear s \<Longrightarrow> linear s' \<and> initial s' = initial s"
  by (elim atomic_stepE) (auto simp: linear_def sequential_snoc threads_ok_def pass_of_effect)

lemma atomic_step_threads: "atomic_step s s' \<Longrightarrow> threads_ok s \<Longrightarrow> threads_ok s'"
  by (elim atomic_stepE) (auto simp: threads_ok_def pass_of_effect)

interpretation atomic: stable_invariant "(=) (unused v)" atomic_step "\<lambda>s. linear s \<and> threads_ok s \<and> initial s = v"
proof unfold_locales
  show "linear s \<and> threads_ok s \<and> initial s = v" if "unused v = s" for s
    using that by (auto simp: unused_def linear_def threads_ok_def)
  show "linear s' \<and> threads_ok s' \<and> initial s' = v" if "linear s \<and> threads_ok s \<and> initial s = v" "atomic_step s s'" for s s'
    using that atomic_step_linear atomic_step_threads by metis
qed

section \<open>Progress\<close>

text \<open>
  The value a thread has read is the value the sequential run had at that time.  When its swap
  fails, at least one operation of another thread took effect in between: \<open>seen\<close> is the number of
  operations that had taken effect when the thread read.
\<close>

fun run_from :: "nat \<Rightarrow> atomics \<Rightarrow> atomics list \<Rightarrow> bool" where
  "run_from t s [] = True"
| "run_from t s (s' # ss) = (atomic_step s s' \<and> points s' t = points s t \<and> run_from t s' ss)"

lemma atomic_step_order: "atomic_step s s' \<Longrightarrow> order s' = order s \<and> cell s' = cell s \<or> (\<exists>e. order s' = order s @ [e])"
  by (elim atomic_stepE) auto

lemma run_from_order:
  "run_from t s ss \<Longrightarrow> cell (last (s # ss)) = cell s \<or> length (order s) < length (order (last (s # ss)))"
proof (induction ss arbitrary: s)
  case (Cons s' ss)
  then have st: "atomic_step s s'" "run_from t s' ss" by simp_all
  have mono: "length (order s') \<le> length (order (last (s' # ss)))"
    using st(2)
  proof (induction ss arbitrary: s')
    case (Cons s1 ss)
    then have "length (order s') \<le> length (order s1)"
      using atomic_step_order [of s' s1] by auto
    with Cons.IH [of s1] Cons.prems show ?case by auto
  qed simp
  from atomic_step_order [OF st(1)] Cons.IH [OF st(2)] mono show ?case
    by (cases "ss = []") (auto simp: last_ConsR)
qed simp

section \<open>Properties\<close>

text \<open>
  C23. The atomic operations are linearizable: in every state that the threads can reach, the value
  of the cell is the result of performing the finished operations one after the other in the order
  in which they took effect, and each has returned the value that it replaced.
\<close>

theorem atomics_linearizable:
  assumes "atomic_reachable v s"
  shows "sequential v (order s) = Some (cell s)
    \<and> (\<forall>t f old. points s t = Finished f old \<longrightarrow> (t, f, old) \<in> set (order s))"
  using atomic.reached_invariant [OF assms] by (auto simp: linear_def threads_ok_def)

lemma demo_atomics:
  "atomic_reachable 4 \<lparr>cell = 7, points = (\<lambda>_. Idle)(1 := Finished (AtomicOr 3) 4), order = [(1, AtomicOr 3, 4)], initial = 4\<rparr>"
proof -
  have r0: "atomic_reachable 4 \<lparr>cell = 4, points = (\<lambda>_. Idle), order = [], initial = 4\<rparr>"
    by (rule reached.at_start) (simp add: unused_def)
  have r1: "atomic_reachable 4 \<lparr>cell = 4, points = (\<lambda>_. Idle)(1 := Reading (AtomicOr 3)), order = [], initial = 4\<rparr>"
    by (rule reached_to [OF r0], rule atomic_step.call [of _ 1 "AtomicOr 3"]) simp_all
  have r2: "atomic_reachable 4 \<lparr>cell = 4, points = (\<lambda>_. Idle)(1 := Swapping (AtomicOr 3) 4 7), order = [], initial = 4\<rparr>"
    by (rule reached_to [OF r1], rule atomic_step.read_other [of _ 1 "AtomicOr 3" 7]) (simp_all add: NSUIntegerAtomicOr_def)
  show ?thesis
    by (rule reached_to [OF r2], rule atomic_step.swap [of _ 1 "AtomicOr 3" 4 7]) (simp_all add: NSUIntegerAtomicOr_def)
qed

theorem atomics_linearizable_witness: "sequential 4 [(1, AtomicOr 3, 4)] = Some 7"
  using atomics_linearizable [OF demo_atomics] by simp

text \<open>
  The loops are lock free: when a thread has to start a pass over, because its swap found
  another value than it had read, an operation of another thread has taken effect in the meantime.
\<close>

theorem retry_means_progress:
  assumes "atomic_step s s1" and "points s t = Reading f" and "points s1 t = Swapping f old val"
    and "run_from t s1 ss" and "cell (last (s1 # ss)) \<noteq> old"
  shows "length (order s1) < length (order (last (s1 # ss)))"
proof -
  have "cell s1 = old"
    using assms(1-3) by (elim atomic_stepE) (auto split: if_splits)
  then show ?thesis
    using run_from_order [OF assms(4)] assms(5) by simp
qed

theorem retry_means_progress_witness:
  "length (order (\<lparr>cell = 4, points = (\<lambda>_. Idle)(1 := Swapping (AtomicOr 3) 4 7, 2 := Reading (AtomicUpdate 9)),
      order = [], initial = 4\<rparr>)) < Suc 0"
proof -
  let ?s = "\<lparr>cell = 4, points = (\<lambda>_. Idle)(1 := Reading (AtomicOr 3), 2 := Reading (AtomicUpdate 9)), order = [], initial = 4\<rparr>"
  let ?s1 = "\<lparr>cell = 4, points = (\<lambda>_. Idle)(1 := Swapping (AtomicOr 3) 4 7, 2 := Reading (AtomicUpdate 9)), order = [], initial = 4\<rparr>"
  let ?s2 = "move 2 (Swapping (AtomicUpdate 9) 4 9) ?s1"
  let ?s3 = "move 2 (Finished (AtomicUpdate 9) 4) (?s2\<lparr>cell := 9, order := [(2, AtomicUpdate 9, 4)]\<rparr>)"
  have 1: "atomic_step ?s ?s1"
    using atomic_step.read_other [of ?s 1 "AtomicOr 3" 7]
    by (simp add: NSUIntegerAtomicOr_def fun_upd_twist)
  have 2: "atomic_step ?s1 ?s2"
    using atomic_step.read_other [of ?s1 2 "AtomicUpdate 9" 9] by (simp add: NSUIntegerAtomicUpdate_def)
  have 3: "atomic_step ?s2 ?s3"
    using atomic_step.swap [of ?s2 2 "AtomicUpdate 9" 4 9] by simp
  show ?thesis
    using retry_means_progress [OF 1, of 1 "AtomicOr 3" 4 7 "[?s2, ?s3]"] 2 3 by simp
qed

end
