(* ===== verification/AtomicId.thy ===== *)
theory AtomicId
  imports Prelude
begin

text \<open>
  Instance variables that hold an object and are written by several threads
  (\<open>src/mulle-objc-atomicid.h\<close>, \<open>src/mulle-objc-atomicid.m\<close>, \<open>src/function/MulleObjCIvar.h\<close> and the
  lazy getter of \<open>src/function/MulleObjCIvar.m\<close>), and arrays of objects (\<open>src/mulle-objc-type.h\<close>).

  The functions of the header only choose the call and guard against the null pointer; what a call
  does is the step relation \<open>id_step\<close>.  \<open>taken\<close> and \<open>given\<close> count for each object the references that
  the calls acquired (by retaining or copying) and gave back (by releasing or autoreleasing).
\<close>

section \<open>The calls\<close>

datatype ivar_type = C_ASSIGN_ID | C_COPY_ID | C_RETAIN_ID

datatype id_call = Get | Update ivar_type ref | GetLazy ivar_type ivar_type | Release

definition mulle_atomic_id_get :: "ref \<Rightarrow> ref" where
  "mulle_atomic_id_get pointer = (let val = pointer in val)"

definition mulle_atomic_id_set :: "ivar_type \<Rightarrow> ref \<Rightarrow> id_call" where
  "mulle_atomic_id_set ivarType val = Update ivarType val"

text \<open>\<open>None\<close> stands for a call that does nothing and returns nil: there is no instance variable.\<close>

definition MulleObjCAtomicIdGetLazy :: "ref \<Rightarrow> id_call option" where
  "MulleObjCAtomicIdGetLazy ivar = (if ivar = 0 then None else Some (GetLazy C_RETAIN_ID C_ASSIGN_ID))"

definition MulleObjCAtomicIdGetLazyRetain :: "ref \<Rightarrow> id_call option" where
  "MulleObjCAtomicIdGetLazyRetain ivar = MulleObjCAtomicIdGetLazy ivar"

definition MulleObjCAtomicIdGetLazyCopy :: "ref \<Rightarrow> id_call option" where
  "MulleObjCAtomicIdGetLazyCopy ivar = (if ivar = 0 then None else Some (GetLazy C_COPY_ID C_ASSIGN_ID))"

definition MulleObjCAtomicIdGetLazyAssign :: "ref \<Rightarrow> id_call option" where
  "MulleObjCAtomicIdGetLazyAssign ivar = (if ivar = 0 then None else Some (GetLazy C_ASSIGN_ID C_ASSIGN_ID))"

definition MulleObjCAtomicIdGet :: "ref \<Rightarrow> id_call option" where
  "MulleObjCAtomicIdGet ivar = (if ivar = 0 then None else Some Get)"

definition MulleObjCAtomicIdSet :: "ref \<Rightarrow> ref \<Rightarrow> id_call option" where
  "MulleObjCAtomicIdSet ivar val = (if ivar \<noteq> 0 then Some (Update C_RETAIN_ID val) else None)"

definition MulleObjCAtomicIdSetRetain :: "ref \<Rightarrow> ref \<Rightarrow> id_call option" where
  "MulleObjCAtomicIdSetRetain ivar val = (if ivar \<noteq> 0 then Some (Update C_RETAIN_ID val) else None)"

definition MulleObjCAtomicIdSetCopy :: "ref \<Rightarrow> ref \<Rightarrow> id_call option" where
  "MulleObjCAtomicIdSetCopy ivar val = (if ivar \<noteq> 0 then Some (Update C_COPY_ID val) else None)"

definition MulleObjCAtomicIdSetAssign :: "ref \<Rightarrow> ref \<Rightarrow> id_call option" where
  "MulleObjCAtomicIdSetAssign ivar val = (if ivar \<noteq> 0 then Some (Update C_ASSIGN_ID val) else None)"

definition MulleObjCAtomicIdRelease :: "ref \<Rightarrow> id_call option" where
  "MulleObjCAtomicIdRelease ivar = (if ivar \<noteq> 0 then Some Release else None)"

section \<open>What the calls do\<close>

text \<open>
  \<open>Update_read\<close> and \<open>Update_swap\<close> are the two atomic accesses of a pass of \<open>_mulle_atomic_id_update\<close>, with
  the new object and the object that was read; \<open>Lazy\<close> and \<open>Release\<close> likewise.  \<open>Finished\<close> has what is
  returned.
\<close>

datatype id_point =
    Free
  | Update_read ref
  | Update_swap ref ref
  | Update_autorelease ref
  | Release_read
  | Release_swap ref
  | Release_send ref
  | Lazy_read
  | Lazy_swap ref
  | Lazy_release ref
  | Finished ref

record id_cell =
  pointer :: ref
  points :: "nat \<Rightarrow> id_point"
  taken :: "ref \<Rightarrow> nat"
  given :: "ref \<Rightarrow> nat"
  dropped :: "ref \<Rightarrow> nat"

abbreviation to :: "nat \<Rightarrow> id_point \<Rightarrow> id_cell \<Rightarrow> id_cell" where
  "to t p s \<equiv> s\<lparr>points := (points s)(t := p)\<rparr>"

definition tick :: "ivar_type \<Rightarrow> ref \<Rightarrow> (ref \<Rightarrow> nat) \<Rightarrow> ref \<Rightarrow> nat" where
  "tick k x f = (if k = C_ASSIGN_ID \<or> x = 0 then f else f(x := Suc (f x)))"

text \<open>
  The object that an update stores: the object itself or its copy, which may be another object.  A
  lazy loader of the getters of the header returns an autoreleased object.  All calls on an instance
  variable are of its type \<open>k\<close>.
\<close>

inductive id_step :: "nat \<Rightarrow> ivar_type \<Rightarrow> id_cell \<Rightarrow> id_cell \<Rightarrow> bool" for n k where
  get: "t < n \<Longrightarrow> points s t = Free \<Longrightarrow> id_step n k s (to t (Finished (mulle_atomic_id_get (pointer s))) s)"
| update: "t < n \<Longrightarrow> points s t = Free \<Longrightarrow> stored = val \<or> k = C_COPY_ID \<Longrightarrow>
     id_step n k s (to t (Update_read stored) (s\<lparr>taken := tick k stored (taken s)\<rparr>))"
| update_same: "t < n \<Longrightarrow> points s t = Update_read val \<Longrightarrow> pointer s = val \<Longrightarrow>
     id_step n k s (to t (Finished val) (s\<lparr>dropped := tick k val (dropped s)\<rparr>))"
| update_read: "t < n \<Longrightarrow> points s t = Update_read val \<Longrightarrow> pointer s \<noteq> val \<Longrightarrow>
     id_step n k s (to t (Update_swap val (pointer s)) s)"
| update_swap: "t < n \<Longrightarrow> points s t = Update_swap val old \<Longrightarrow> pointer s = old \<Longrightarrow>
     id_step n k s (to t (Update_autorelease old) (s\<lparr>pointer := val\<rparr>))"
| update_retry: "t < n \<Longrightarrow> points s t = Update_swap val old \<Longrightarrow> pointer s \<noteq> old \<Longrightarrow>
     id_step n k s (to t (Update_read val) s)"
| update_autorelease: "t < n \<Longrightarrow> points s t = Update_autorelease old \<Longrightarrow>
     id_step n k s (to t (Finished old) (s\<lparr>given := tick k old (given s)\<rparr>))"
| release: "t < n \<Longrightarrow> points s t = Free \<Longrightarrow> k \<noteq> C_ASSIGN_ID \<Longrightarrow> id_step n k s (to t Release_read s)"
| release_none: "t < n \<Longrightarrow> points s t = Release_read \<Longrightarrow> pointer s = 0 \<Longrightarrow> id_step n k s (to t (Finished 0) s)"
| release_read: "t < n \<Longrightarrow> points s t = Release_read \<Longrightarrow> pointer s \<noteq> 0 \<Longrightarrow>
     id_step n k s (to t (Release_swap (pointer s)) s)"
| release_swap: "t < n \<Longrightarrow> points s t = Release_swap val \<Longrightarrow> pointer s = val \<Longrightarrow>
     id_step n k s (to t (Release_send val) (s\<lparr>pointer := 0\<rparr>))"
| release_retry: "t < n \<Longrightarrow> points s t = Release_swap val \<Longrightarrow> pointer s \<noteq> val \<Longrightarrow>
     id_step n k s (to t Release_read s)"
| release_send: "t < n \<Longrightarrow> points s t = Release_send val \<Longrightarrow>
     id_step n k s (to t (Finished 0) (s\<lparr>given := tick k val (given s)\<rparr>))"
| lazy: "t < n \<Longrightarrow> points s t = Free \<Longrightarrow> id_step n k s (to t Lazy_read s)"
| lazy_found: "t < n \<Longrightarrow> points s t = Lazy_read \<Longrightarrow> pointer s \<noteq> 0 \<Longrightarrow>
     id_step n k s (to t (Finished (pointer s)) s)"
| lazy_nil: "t < n \<Longrightarrow> points s t = Lazy_read \<Longrightarrow> pointer s = 0 \<Longrightarrow> id_step n k s (to t (Finished 0) s)"
| lazy_load: "t < n \<Longrightarrow> points s t = Lazy_read \<Longrightarrow> pointer s = 0 \<Longrightarrow> loaded \<noteq> 0 \<Longrightarrow>
     stored = loaded \<or> k = C_COPY_ID \<and> stored \<noteq> 0 \<Longrightarrow>
     id_step n k s (to t (Lazy_swap stored) (s\<lparr>taken := tick k stored (taken s)\<rparr>))"
| lazy_swap: "t < n \<Longrightarrow> points s t = Lazy_swap val \<Longrightarrow> pointer s = 0 \<Longrightarrow>
     id_step n k s (to t (Finished val) (s\<lparr>pointer := val\<rparr>))"
| lazy_taken: "t < n \<Longrightarrow> points s t = Lazy_swap val \<Longrightarrow> pointer s \<noteq> 0 \<Longrightarrow>
     id_step n k s (to t (Lazy_release val) s)"
| lazy_release: "t < n \<Longrightarrow> points s t = Lazy_release val \<Longrightarrow>
     id_step n k s (to t Lazy_read (s\<lparr>given := tick k val (given s)\<rparr>))"
| return_to: "t < n \<Longrightarrow> points s t = Finished r \<Longrightarrow> id_step n k s (to t Free s)"

inductive_cases id_stepE: "id_step n k s s'"

definition unset :: id_cell where
  "unset = \<lparr>pointer = 0, points = (\<lambda>_. Free), taken = (\<lambda>_. 0), given = (\<lambda>_. 0), dropped = (\<lambda>_. 0)\<rparr>"

abbreviation id_reachable :: "nat \<Rightarrow> ivar_type \<Rightarrow> id_cell \<Rightarrow> bool" where
  "id_reachable n k \<equiv> reached ((=) unset) (id_step n k)"

section \<open>References\<close>

text \<open>The reference that a thread has acquired and not yet stored, or taken out and not yet given back.\<close>

fun holds :: "id_point \<Rightarrow> ref option" where
  "holds (Update_read val) = Some val"
| "holds (Update_swap val old) = Some val"
| "holds (Update_autorelease old) = Some old"
| "holds (Release_send val) = Some val"
| "holds (Lazy_swap val) = Some val"
| "holds (Lazy_release val) = Some val"
| "holds _ = None"

abbreviation held_by :: "ref \<Rightarrow> id_point \<Rightarrow> nat" where
  "held_by x p \<equiv> (if holds p = Some x then 1 else 0)"

definition held :: "nat \<Rightarrow> id_cell \<Rightarrow> ref \<Rightarrow> nat" where
  "held n s x = (\<Sum>t<n. held_by x (points s t))"

definition balanced :: "nat \<Rightarrow> id_cell \<Rightarrow> ref \<Rightarrow> bool" where
  "balanced n s x \<longleftrightarrow> taken s x = given s x + dropped s x + (if pointer s = x then 1 else 0) + held n s x"

lemma held_to: "t < n \<Longrightarrow> held n (to t p s) x + held_by x (points s t) = held n s x + held_by x p"
proof -
  assume t: "t < n"
  have "held n (to t p s) x = held_by x p + (\<Sum>u\<in>{..<n} - {t}. held_by x (points s u))"
    using t by (simp add: held_def sum.remove [of "{..<n}" t])
  moreover have "held n s x = held_by x (points s t) + (\<Sum>u\<in>{..<n} - {t}. held_by x (points s u))"
    using t by (simp add: held_def sum.remove [of "{..<n}" t])
  ultimately show ?thesis by simp
qed

text \<open>\<open>held\<close> looks at the threads only.\<close>

lemma held_frame [simp]:
  "held n (s\<lparr>pointer := a\<rparr>) x = held n s x" "held n (s\<lparr>taken := f\<rparr>) x = held n s x"
  "held n (s\<lparr>given := f\<rparr>) x = held n s x" "held n (s\<lparr>dropped := f\<rparr>) x = held n s x"
  by (simp_all add: held_def)

lemma balanced_to:
  assumes "t < n" and "balanced n s x"
    and "taken s' x + given s x + dropped s x + (if pointer s = x then 1 else 0) + held_by x (points s t)
       = taken s x + given s' x + dropped s' x + (if pointer s' = x then 1 else 0) + held_by x p"
    and "held n s' x = held n s x" and "points s' = points s"
  shows "balanced n (s'\<lparr>points := (points s)(t := p)\<rparr>) x"
  using assms held_to [OF assms(1), where p = p and s = s' and x = x] by (simp add: balanced_def)

lemma id_step_balanced:
  assumes "id_step n k s s'" and "k \<noteq> C_ASSIGN_ID" and "x \<noteq> 0" and "balanced n s x"
  shows "balanced n s' x"
  using assms(1)
  by cases (auto intro!: balanced_to [OF _ assms(4)] simp: tick_def assms(2,3) assms(3) [symmetric])

interpretation id_cell: stable_invariant "(=) unset" "id_step n k" "\<lambda>s. k \<noteq> C_ASSIGN_ID \<and> x \<noteq> 0 \<longrightarrow> balanced n s x"
proof unfold_locales
  show "k \<noteq> C_ASSIGN_ID \<and> x \<noteq> 0 \<longrightarrow> balanced n s x" if "unset = s" for s
    unfolding that [symmetric] by (simp add: balanced_def held_def unset_def)
qed (use id_step_balanced in blast)

section \<open>Properties\<close>

text \<open>
  C20. No update, release or lazy load of any thread, however their accesses interleave, loses or
  duplicates a reference, apart from updates that find their own value in place: when all calls have
  returned, the references taken of an object are those given back, plus one if the instance variable
  holds the object, plus one for every call that stored nothing because the object was there already.
\<close>
theorem references_accounted:
  assumes "id_reachable n k s" and "k \<noteq> C_ASSIGN_ID" and "x \<noteq> 0" and "\<forall>t<n. points s t = Free"
  shows "taken s x = given s x + dropped s x + (if pointer s = x then 1 else 0)"
proof -
  have "held n s x = 0"
    using assms(4) by (simp add: held_def)
  then show ?thesis
    using id_cell.reached_invariant [OF assms(1), of x] assms(2,3) by (simp add: balanced_def)
qed

text \<open>One thread that uses the object 5: where it is, the variable, and what was taken and dropped.\<close>

definition solo :: "id_point \<Rightarrow> ref \<Rightarrow> nat \<Rightarrow> nat \<Rightarrow> id_cell" where
  "solo p v a d = \<lparr>pointer = v, points = (\<lambda>t. if t = 0 then p else Free), taken = (\<lambda>x. if x = 5 then a else 0),
     given = (\<lambda>_. 0), dropped = (\<lambda>x. if x = 5 then d else 0)\<rparr>"

lemma solo_stored: "id_reachable 1 C_RETAIN_ID (solo Free 5 1 0)"
proof -
  have r0: "id_reachable 1 C_RETAIN_ID (solo Free 0 0 0)"
    by (rule reached.at_start) (simp add: unset_def solo_def cong: if_cong)
  have r1: "id_reachable 1 C_RETAIN_ID (solo (Update_read 5) 0 1 0)"
    by (rule reached_to [OF r0 id_step.update [of 0 _ _ 5 5]]) (simp_all add: solo_def tick_def fun_eq_iff)
  have r2: "id_reachable 1 C_RETAIN_ID (solo (Update_swap 5 0) 0 1 0)"
    by (rule reached_to [OF r1 id_step.update_read [of 0 _ _ 5]]) (simp_all add: solo_def fun_eq_iff)
  have r3: "id_reachable 1 C_RETAIN_ID (solo (Update_autorelease 0) 5 1 0)"
    by (rule reached_to [OF r2 id_step.update_swap [of 0 _ _ 5 0]]) (simp_all add: solo_def fun_eq_iff)
  have r4: "id_reachable 1 C_RETAIN_ID (solo (Finished 0) 5 1 0)"
    by (rule reached_to [OF r3 id_step.update_autorelease [of 0 _ _ 0]]) (simp_all add: solo_def tick_def fun_eq_iff)
  show ?thesis
    by (rule reached_to [OF r4 id_step.return_to [of 0 _ _ 0]]) (simp_all add: solo_def fun_eq_iff)
qed

theorem references_accounted_witness: "taken (solo Free 5 1 0) 5 = Suc 0"
  using references_accounted [OF solo_stored, of 5] by (simp add: solo_def)

text \<open>
  An update with the object that is stored already leaks: \<open>_mulle_atomic_id_update\<close> retains the
  object, finds it in place and returns without giving the second reference back.  One thread that sets
  the same object twice and has returned has taken two references of it and given none back, while the
  variable holds only one.
\<close>
theorem same_value_leaks:
  "\<exists>s. id_reachable 1 C_RETAIN_ID s \<and> points s 0 = Free \<and> pointer s = 5 \<and> taken s 5 = 2 \<and> given s 5 = 0"
proof -
  have r1: "id_reachable 1 C_RETAIN_ID (solo (Update_read 5) 5 2 0)"
    by (rule reached_to [OF solo_stored id_step.update [of 0 _ _ 5 5]]) (simp_all add: solo_def tick_def fun_eq_iff)
  have r2: "id_reachable 1 C_RETAIN_ID (solo (Finished 5) 5 2 1)"
    by (rule reached_to [OF r1 id_step.update_same [of 0 _ _ 5]]) (simp_all add: solo_def tick_def fun_eq_iff)
  have "id_reachable 1 C_RETAIN_ID (solo Free 5 2 1)"
    by (rule reached_to [OF r2 id_step.return_to [of 0 _ _ 5]]) (simp_all add: solo_def fun_eq_iff)
  then show ?thesis
    by (intro exI conjI) (assumption | simp add: solo_def)+
qed

section \<open>Arrays of objects\<close>

text \<open>
  A memory of object pointers, one per address; both functions return the destination.  \<open>memcpy\<close> is
  undefined, \<open>None\<close>, when source and destination overlap.
\<close>

definition mulle_id_move :: "nat \<Rightarrow> nat \<Rightarrow> nat \<Rightarrow> (nat \<Rightarrow> ref) \<Rightarrow> nat \<times> (nat \<Rightarrow> ref)" where
  "mulle_id_move dst src n mem = (dst, \<lambda>a. if dst \<le> a \<and> a < dst + n then mem (src + (a - dst)) else mem a)"

definition mulle_id_copy :: "nat \<Rightarrow> nat \<Rightarrow> nat \<Rightarrow> (nat \<Rightarrow> ref) \<Rightarrow> (nat \<times> (nat \<Rightarrow> ref)) option" where
  "mulle_id_copy dst src n mem =
     (if dst < src + n \<and> src < dst + n then None
      else Some (dst, \<lambda>a. if dst \<le> a \<and> a < dst + n then mem (src + (a - dst)) else mem a))"

definition mulle_id_clear :: "nat \<Rightarrow> nat \<Rightarrow> (nat \<Rightarrow> ref) \<Rightarrow> nat \<times> (nat \<Rightarrow> ref)" where
  "mulle_id_clear dst n mem = (dst, \<lambda>a. if dst \<le> a \<and> a < dst + n then 0 else mem a)"

lemma copied_array:
  "i < n \<Longrightarrow> snd (mulle_id_move dst src n mem) (dst + i) = mem (src + i)"
  "mulle_id_copy dst src n mem = Some r \<Longrightarrow> r = mulle_id_move dst src n mem"
  by (auto simp: mulle_id_move_def mulle_id_copy_def split: if_splits)

end
