(* ===== verification/Handoff.thy ===== *)
theory Handoff
  imports Prelude
begin

text \<open>
  Handing an object from one thread to another through an atomic pointer, and the guards and the clear
  modes of property walks (\<open>src/function/MulleObjCProperty.h\<close>, \<open>src/function/MulleObjCProperty.m\<close>).

  A thread that recycles an object first gives up its access (\<open>-mulleRelinquishAccess\<close>) and then swaps
  the object into the pointer; a thread that acquires swaps it out and gains access
  (\<open>-mulleGainAccess\<close>).  \<open>owner\<close> tells which thread has access to an object.  Any number of threads
  take part; the atomic accesses and the two messages are the steps.
\<close>

section \<open>The pointer\<close>

text \<open>\<open>__mulle_atomic_pointer_cas\<close>: what was in the cell, and what is in it afterwards.\<close>

definition cas :: "ref \<Rightarrow> ref \<Rightarrow> ref \<Rightarrow> ref \<times> ref" where
  "cas cell val expect = (cell, if cell = expect then val else cell)"

text \<open>
  One pass of the loop of \<open>_MulleObjCAcquirePointerAtomically\<close>: what it returns, if it does, or the
  value it tries next, and the cell.
\<close>

datatype acquiring = Returned ref | Again ref

definition AcquirePointer_begin :: "ref \<Rightarrow> acquiring" where
  "AcquirePointer_begin cell = (let val = cell in if val = 0 then Returned 0 else Again val)"

definition AcquirePointer_pass :: "ref \<Rightarrow> ref \<Rightarrow> acquiring \<times> ref" where
  "AcquirePointer_pass val cell =
     (let (actual, cell') = cas cell 0 val
      in (if actual = 0 \<or> actual = val then Returned actual else Again actual, cell'))"

definition RecyclePointer :: "ref \<Rightarrow> ref \<Rightarrow> bool \<times> ref" where
  "RecyclePointer val cell = (let (actual, cell') = cas cell val 0 in (actual = 0, cell'))"

section \<open>Threads\<close>

datatype hand_point =
    Out
  | Acquire_begin
  | Acquire_swap ref
  | Acquire_gain ref
  | Acquire_done ref
  | Recycle_relinquish ref
  | Recycle_swap ref
  | Recycle_gain ref
  | Recycle_done bool

record handoff =
  available :: ref
  points :: "nat \<Rightarrow> hand_point"
  owner :: "ref \<Rightarrow> nat option"

abbreviation at :: "nat \<Rightarrow> hand_point \<Rightarrow> handoff \<Rightarrow> handoff" where
  "at t p s \<equiv> s\<lparr>points := (points s)(t := p)\<rparr>"

definition after_acquire :: "acquiring \<Rightarrow> hand_point" where
  "after_acquire r = (case r of Returned v \<Rightarrow> Acquire_gain v | Again v \<Rightarrow> Acquire_swap v)"

text \<open>
  \<open>_MulleObjCAcquireObjectAtomically\<close>, whose message to nil does nothing, and
  \<open>_MulleObjCRecycleObjectAtomically\<close>.  A thread recycles only objects that it has access to.
\<close>

definition gain :: "nat \<Rightarrow> ref \<Rightarrow> (ref \<Rightarrow> nat option) \<Rightarrow> ref \<Rightarrow> nat option" where
  "gain t obj own = (if obj = 0 then own else own(obj := Some t))"

inductive handoff_step :: "handoff \<Rightarrow> handoff \<Rightarrow> bool" where
  acquire: "points s t = Out \<Longrightarrow> handoff_step s (at t Acquire_begin s)"
| acquire_begin: "points s t = Acquire_begin \<Longrightarrow>
     handoff_step s (at t (after_acquire (AcquirePointer_begin (available s))) s)"
| acquire_pass: "points s t = Acquire_swap val \<Longrightarrow> AcquirePointer_pass val (available s) = (r, cell) \<Longrightarrow>
     handoff_step s (at t (after_acquire r) (s\<lparr>available := cell\<rparr>))"
| acquire_gain: "points s t = Acquire_gain obj \<Longrightarrow>
     handoff_step s (at t (Acquire_done obj) (s\<lparr>owner := gain t obj (owner s)\<rparr>))"
| acquire_done: "points s t = Acquire_done obj \<Longrightarrow> handoff_step s (at t Out s)"
| recycle: "points s t = Out \<Longrightarrow> obj = 0 \<or> owner s obj = Some t \<Longrightarrow>
     handoff_step s (at t (if obj = 0 then Recycle_done True else Recycle_relinquish obj) s)"
| recycle_relinquish: "points s t = Recycle_relinquish obj \<Longrightarrow>
     handoff_step s (at t (Recycle_swap obj) (s\<lparr>owner := (owner s)(obj := None)\<rparr>))"
| recycle_swap: "points s t = Recycle_swap obj \<Longrightarrow> RecyclePointer obj (available s) = (ok, cell) \<Longrightarrow>
     handoff_step s (at t (if ok then Recycle_done True else Recycle_gain obj) (s\<lparr>available := cell\<rparr>))"
| recycle_gain: "points s t = Recycle_gain obj \<Longrightarrow>
     handoff_step s (at t (Recycle_done False) (s\<lparr>owner := gain t obj (owner s)\<rparr>))"
| recycle_done: "points s t = Recycle_done ok \<Longrightarrow> handoff_step s (at t Out s)"

inductive_cases handoff_stepE: "handoff_step s s'"

definition nothing_handed :: "(ref \<Rightarrow> nat) \<Rightarrow> handoff" where
  "nothing_handed own = \<lparr>available = 0, points = (\<lambda>_. Out), owner = (\<lambda>x. Some (own x))\<rparr>"

abbreviation handoff_reachable :: "(ref \<Rightarrow> nat) \<Rightarrow> handoff \<Rightarrow> bool" where
  "handoff_reachable own \<equiv> reached ((=) (nothing_handed own)) handoff_step"

section \<open>Where an object is\<close>

datatype place = In_pointer | Owned nat | In_transit nat

text \<open>The object that a thread carries between its message and its swap.\<close>

fun carries :: "hand_point \<Rightarrow> ref option" where
  "carries (Acquire_gain obj) = Some obj"
| "carries (Recycle_swap obj) = Some obj"
| "carries (Recycle_gain obj) = Some obj"
| "carries _ = None"

fun is_at :: "handoff \<Rightarrow> ref \<Rightarrow> place \<Rightarrow> bool" where
  "is_at s x In_pointer \<longleftrightarrow> available s = x"
| "is_at s x (Owned t) \<longleftrightarrow> owner s x = Some t"
| "is_at s x (In_transit t) \<longleftrightarrow> carries (points s t) = Some x"

text \<open>Every object is in one place, and a thread about to relinquish an object has access to it.\<close>

definition hands_ok :: "handoff \<Rightarrow> bool" where
  "hands_ok s \<longleftrightarrow>
     (\<forall>x. x \<noteq> 0 \<longrightarrow> (\<exists>!p. is_at s x p)) \<and>
     (\<forall>t x. points s t = Recycle_relinquish x \<longrightarrow> x \<noteq> 0 \<and> owner s x = Some t) \<and>
     (\<forall>t x. points s t = Acquire_swap x \<or> points s t = Recycle_swap x \<or> points s t = Recycle_gain x \<longrightarrow> x \<noteq> 0)"

text \<open>A step moves at most one object, from one place to another.\<close>

lemma moved_place:
  assumes "\<exists>!p. is_at s x p" and "is_at s x a"
    and "\<And>p. is_at s' x p \<longleftrightarrow> (p = b \<or> is_at s x p \<and> p \<noteq> a)"
  shows "\<exists>!p. is_at s' x p"
  using assms by metis

lemma same_place:
  assumes "\<exists>!p. is_at s x p" and "\<And>p. is_at s' x p \<longleftrightarrow> is_at s x p"
  shows "\<exists>!p. is_at s' x p"
  using assms by simp

lemmas hand_simps = AcquirePointer_begin_def AcquirePointer_pass_def RecyclePointer_def cas_def
  after_acquire_def gain_def Let_def

text \<open>What a step does to the place of an object.\<close>

definition moves :: "handoff \<Rightarrow> handoff \<Rightarrow> ref \<Rightarrow> place \<Rightarrow> place \<Rightarrow> bool" where
  "moves s s' x a b \<longleftrightarrow> is_at s x a \<and> (\<forall>p. is_at s' x p \<longleftrightarrow> (p = b \<or> is_at s x p \<and> p \<noteq> a))"

lemma all_place: "(\<forall>p. P p) \<longleftrightarrow> P In_pointer \<and> (\<forall>t. P (Owned t)) \<and> (\<forall>t. P (In_transit t))"
  by (metis place.exhaust)

lemma moves_keeps:
  assumes "\<exists>!p. is_at s x p" and "moves s s' x a b"
  shows "\<exists>!p. is_at s' x p"
  by (rule moved_place [where a = a and b = b, OF assms(1)]) (use assms(2) in \<open>auto simp: moves_def\<close>)

lemma only_place: "hands_ok s \<Longrightarrow> x \<noteq> 0 \<Longrightarrow> is_at s x p \<Longrightarrow> is_at s x q \<longleftrightarrow> q = p"
  unfolding hands_ok_def by blast

lemma pointer_only:
  assumes "hands_ok s" and "x \<noteq> 0" and "available s = x"
  shows "owner s x = None" and "carries (points s t) \<noteq> Some x"
  using only_place [of s x In_pointer "Owned u" for u] only_place [of s x In_pointer "In_transit t"] assms
  by (force intro: option.exhaust [of "owner s x"])+

lemma owned_only:
  assumes "hands_ok s" and "x \<noteq> 0" and "owner s x = Some t"
  shows "available s \<noteq> x" and "carries (points s u) \<noteq> Some x"
  using only_place [of s x "Owned t" In_pointer] only_place [of s x "Owned t" "In_transit u"] assms by auto

lemma transit_only:
  assumes "hands_ok s" and "x \<noteq> 0" and "carries (points s t) = Some x"
  shows "available s \<noteq> x" and "owner s x = None" and "carries (points s u) = Some x \<longleftrightarrow> u = t"
proof -
  have "is_at s x q \<longleftrightarrow> q = In_transit t" for q
    using only_place [of s x "In_transit t"] assms by simp
  from this [of In_pointer] this [of "Owned v" for v] this [of "In_transit u"]
  show "available s \<noteq> x" and "owner s x = None" and "carries (points s u) = Some x \<longleftrightarrow> u = t"
    by (auto intro: option.exhaust [of "owner s x"])
qed

lemma step_places:
  assumes "handoff_step s s'" and "hands_ok s" and "x \<noteq> 0"
  shows "(\<forall>p. is_at s' x p \<longleftrightarrow> is_at s x p) \<or> (\<exists>a b. moves s s' x a b)"
  using assms(1)
proof cases
  case (acquire_pass t val r cell)
  show ?thesis
  proof (cases "available s = val \<and> x = val")
    case True
    then have "moves s s' x In_pointer (In_transit t)"
      using acquire_pass assms(3) pointer_only [OF assms(2,3)]
      by (auto simp: moves_def all_place hand_simps split: if_splits)
    then show ?thesis by blast
  next
    case False
    then have "\<forall>p. is_at s' x p \<longleftrightarrow> is_at s x p"
      using acquire_pass assms(3) by (auto simp: all_place hand_simps split: if_splits)
    then show ?thesis ..
  qed
next
  case (acquire_gain t obj)
  show ?thesis
  proof (cases "x = obj")
    case True
    then have "moves s s' x (In_transit t) (Owned t)"
      using acquire_gain assms(3) transit_only [OF assms(2,3), of t]
      by (auto simp: moves_def all_place hand_simps)
    then show ?thesis by blast
  next
    case False
    then have "\<forall>p. is_at s' x p \<longleftrightarrow> is_at s x p"
      using acquire_gain by (auto simp: all_place hand_simps)
    then show ?thesis ..
  qed
next
  case (recycle_relinquish t obj)
  show ?thesis
  proof (cases "x = obj")
    case True
    have "owner s obj = Some t"
      using recycle_relinquish assms(2) by (simp add: hands_ok_def)
    then have "moves s s' x (Owned t) (In_transit t)"
      using True recycle_relinquish owned_only [OF assms(2,3), of t]
      by (auto simp: moves_def all_place)
    then show ?thesis by blast
  next
    case False
    then have "\<forall>p. is_at s' x p \<longleftrightarrow> is_at s x p"
      using recycle_relinquish by (auto simp: all_place)
    then show ?thesis ..
  qed
next
  case (recycle_swap t obj ok cell)
  show ?thesis
  proof (cases "available s = 0 \<and> x = obj")
    case True
    then have "moves s s' x (In_transit t) In_pointer"
      using recycle_swap assms(3) transit_only [OF assms(2,3), of t]
      by (auto simp: moves_def all_place hand_simps)
    then show ?thesis by blast
  next
    case False
    then have "\<forall>p. is_at s' x p \<longleftrightarrow> is_at s x p"
      using recycle_swap assms(3) by (auto simp: all_place hand_simps)
    then show ?thesis ..
  qed
next
  case (recycle_gain t obj)
  show ?thesis
  proof (cases "x = obj")
    case True
    then have "moves s s' x (In_transit t) (Owned t)"
      using recycle_gain assms(3) transit_only [OF assms(2,3), of t]
      by (auto simp: moves_def all_place hand_simps)
    then show ?thesis by blast
  next
    case False
    then have "\<forall>p. is_at s' x p \<longleftrightarrow> is_at s x p"
      using recycle_gain by (auto simp: all_place hand_simps)
    then show ?thesis ..
  qed
qed (use assms(3) in \<open>auto simp: all_place hand_simps\<close>)

definition swaps_objects :: "handoff \<Rightarrow> bool" where
  "swaps_objects s \<longleftrightarrow>
     (\<forall>t x. points s t = Acquire_swap x \<or> points s t = Recycle_swap x \<or> points s t = Recycle_gain x \<longrightarrow> x \<noteq> 0)"

definition relinquishes_own :: "handoff \<Rightarrow> bool" where
  "relinquishes_own s \<longleftrightarrow> (\<forall>t x. points s t = Recycle_relinquish x \<longrightarrow> x \<noteq> 0 \<and> owner s x = Some t)"

lemma hands_ok_alt:
  "hands_ok s \<longleftrightarrow> (\<forall>x. x \<noteq> 0 \<longrightarrow> (\<exists>!p. is_at s x p)) \<and> relinquishes_own s \<and> swaps_objects s"
  by (simp add: hands_ok_def swaps_objects_def relinquishes_own_def)

lemma step_swaps:
  assumes "handoff_step s s'" and "swaps_objects s" and "relinquishes_own s"
  shows "swaps_objects s'"
  using assms unfolding swaps_objects_def relinquishes_own_def
  by (elim handoff_stepE) (auto simp: hand_simps split: if_splits)

lemma step_relinquishes:
  assumes "handoff_step s s'" and "hands_ok s"
  shows "relinquishes_own s'"
proof -
  have own: "relinquishes_own s"
    using assms(2) by (simp add: hands_ok_alt)
  have apart: "points s u \<noteq> Acquire_gain x" "points s u \<noteq> Recycle_gain x" if "points s t = Recycle_relinquish x" for t u x
    using own owned_only(2) [OF assms(2), of x t u] that by (auto simp: relinquishes_own_def)
  have single: "t = u" if "points s t = Recycle_relinquish x" and "points s u = Recycle_relinquish x" for t u x
    using own that unfolding relinquishes_own_def by (metis option.inject)
  show ?thesis
    using assms(1) own apart single unfolding relinquishes_own_def
    by (elim handoff_stepE) (auto simp: hand_simps split: if_splits)
qed

lemma step_hands:
  assumes "handoff_step s s'" and "hands_ok s"
  shows "hands_ok s'"
proof -
  have "\<exists>!p. is_at s' x p" if "x \<noteq> 0" for x
  proof -
    have one: "\<exists>!p. is_at s x p"
      using assms(2) that by (simp add: hands_ok_def)
    from step_places [OF assms that] show ?thesis
    proof
      assume "\<forall>p. is_at s' x p \<longleftrightarrow> is_at s x p"
      then show ?thesis using one by simp
    next
      assume "\<exists>a b. moves s s' x a b"
      then show ?thesis using moves_keeps [OF one] by blast
    qed
  qed
  then show ?thesis
    using step_swaps step_relinquishes assms by (simp add: hands_ok_alt)
qed

lemma nothing_handed_ok: "hands_ok (nothing_handed own)"
proof -
  have "\<exists>!p. is_at (nothing_handed own) x p" if "x \<noteq> 0" for x
  proof (rule ex1I [of _ "Owned (own x)"])
    fix p
    assume "is_at (nothing_handed own) x p"
    then show "p = Owned (own x)" using that by (cases p) (auto simp: nothing_handed_def)
  qed (simp add: nothing_handed_def)
  then show ?thesis by (simp add: hands_ok_def nothing_handed_def)
qed

interpretation hands: stable_invariant "(=) (nothing_handed own)" handoff_step hands_ok
  by unfold_locales (use nothing_handed_ok step_hands in auto)

section \<open>Properties\<close>

text \<open>
  C19. An object is never handed to two threads and never lost: in every state that any number of
  acquiring and recycling threads can reach, every object either lies in the pointer, or one thread has
  access to it, or one thread carries it between its message and its swap - exactly one of these, and
  for exactly one thread.
\<close>
theorem handed_to_one:
  assumes "handoff_reachable own s" and "x \<noteq> 0"
  shows "\<exists>!p. is_at s x p"
  using hands.reached_invariant [OF assms(1)] assms(2) by (simp add: hands_ok_def)

text \<open>Thread 1 recycles the object 5 and carries it to the pointer.\<close>

definition carried :: handoff where
  "carried = \<lparr>available = 0, points = (\<lambda>_. Out)(1 := Recycle_swap 5), owner = (\<lambda>_. Some 1)(5 := None)\<rparr>"

lemma demo_handoff: "handoff_reachable (\<lambda>_. 1) carried"
proof -
  have r0: "handoff_reachable (\<lambda>_. 1) \<lparr>available = 0, points = (\<lambda>_. Out), owner = (\<lambda>_. Some 1)\<rparr>"
    by (rule reached.at_start) (simp add: nothing_handed_def)
  have r1: "handoff_reachable (\<lambda>_. 1) \<lparr>available = 0, points = (\<lambda>_. Out)(1 := Recycle_relinquish 5), owner = (\<lambda>_. Some 1)\<rparr>"
    by (rule reached_to [OF r0], rule handoff_step.recycle [of _ 1 5]) simp_all
  show ?thesis
    by (rule reached_to [OF r1], rule handoff_step.recycle_relinquish [of _ 1 5]) (simp_all add: carried_def)
qed

theorem handed_to_one_witness: "\<exists>!p. is_at carried 5 p"
  by (rule handed_to_one [OF demo_handoff]) simp

text \<open>
  Acquiring ends as soon as the other threads leave the pointer alone: from the beginning, and from
  wherever its loop is, a thread that runs alone comes back with the object in the pointer after at most
  two more passes, and leaves the pointer empty.
\<close>
theorem acquire_alone_returns:
  "(case AcquirePointer_begin cell of
      Returned v \<Rightarrow> v = cell
    | Again v \<Rightarrow> AcquirePointer_pass v cell = (Returned cell, 0))
   \<and> (case AcquirePointer_pass stale cell of
        (Returned v, cell') \<Rightarrow> v = cell \<and> cell' = 0
      | (Again v, cell') \<Rightarrow> cell' = cell \<and> AcquirePointer_pass v cell = (Returned cell, 0))"
  by (simp add: hand_simps)

section \<open>Walks over properties\<close>

datatype MulleObjCPropertyClearMode =
    MulleObjCPropertyClearNonReadOnly
  | MulleObjCPropertyClearAll
  | MulleObjCPropertyClearOnlyReadOnly

text \<open>The walks of the runtime are parameters; no class, no object or no callback is walked by none.\<close>

definition MulleObjCClassWalkProperties :: "(ref \<Rightarrow> 'f \<Rightarrow> int) \<Rightarrow> ref \<Rightarrow> 'f option \<Rightarrow> int" where
  "MulleObjCClassWalkProperties walk cls f =
     (case f of None \<Rightarrow> 0 | Some f \<Rightarrow> if cls = 0 then 0 else walk cls f)"

definition MulleObjCInstanceWalkProperties :: "(ref \<Rightarrow> 'f \<Rightarrow> int) \<Rightarrow> ref \<Rightarrow> 'f option \<Rightarrow> int" where
  "MulleObjCInstanceWalkProperties walk obj f =
     (case f of None \<Rightarrow> 0 | Some f \<Rightarrow> if obj = 0 then 0 else walk obj f)"

record property_bits =
  forward :: bool
  setterclear :: bool
  cstring :: bool
  autoreleaseclear :: bool
  readonly :: bool

record property =
  bits :: property_bits
  setter :: nat
  ivarid :: nat

text \<open>What clearing a property does to the object; the offset is that of the ivar that is found.\<close>

datatype clearing = Untouched | Sent_setter nat | Freed_cstring nat | Cleared_object nat

definition InstanceClearProperty :: "(nat \<Rightarrow> nat) \<Rightarrow> property \<Rightarrow> clearing" where
  "InstanceClearProperty offset_of p =
     (if forward (bits p) then Untouched
      else if setterclear (bits p) then Sent_setter (setter p)
      else if cstring (bits p)
      then (if ivarid p \<noteq> 0 then Freed_cstring (offset_of (ivarid p)) else Untouched)
      else if autoreleaseclear (bits p)
      then (if ivarid p \<noteq> 0 then Cleared_object (offset_of (ivarid p)) else Untouched)
      else Untouched)"

definition InstanceClearPropertyNoReadOnly :: "(nat \<Rightarrow> nat) \<Rightarrow> property \<Rightarrow> clearing" where
  "InstanceClearPropertyNoReadOnly offset_of p =
     (if readonly (bits p) then Untouched else InstanceClearProperty offset_of p)"

definition InstanceClearPropertyOnlyReadOnly :: "(nat \<Rightarrow> nat) \<Rightarrow> property \<Rightarrow> clearing" where
  "InstanceClearPropertyOnlyReadOnly offset_of p =
     (if \<not> readonly (bits p) then Untouched else InstanceClearProperty offset_of p)"

definition InstanceClearProperties ::
    "(nat \<Rightarrow> nat) \<Rightarrow> MulleObjCPropertyClearMode \<Rightarrow> property list \<Rightarrow> clearing list" where
  "InstanceClearProperties offset_of mode ps =
     map (case mode of
            MulleObjCPropertyClearNonReadOnly \<Rightarrow> InstanceClearPropertyNoReadOnly offset_of
          | MulleObjCPropertyClearAll \<Rightarrow> InstanceClearProperty offset_of
          | MulleObjCPropertyClearOnlyReadOnly \<Rightarrow> InstanceClearPropertyOnlyReadOnly offset_of) ps"

text \<open>
  Clearing what is not readonly (\<open>-finalize\<close>) and then what is (\<open>-dealloc\<close>) clears each property as
  clearing all would, and none of them twice.
\<close>

lemma clear_in_two_phases:
  "map2 (\<lambda>a b. if a = Untouched then b else a)
      (InstanceClearProperties f MulleObjCPropertyClearNonReadOnly ps)
      (InstanceClearProperties f MulleObjCPropertyClearOnlyReadOnly ps)
    = InstanceClearProperties f MulleObjCPropertyClearAll ps"
  "i < length ps \<Longrightarrow>
     InstanceClearProperties f MulleObjCPropertyClearNonReadOnly ps ! i = Untouched
     \<or> InstanceClearProperties f MulleObjCPropertyClearOnlyReadOnly ps ! i = Untouched"
  by (induction ps)
     (auto simp: InstanceClearProperties_def InstanceClearPropertyNoReadOnly_def
        InstanceClearPropertyOnlyReadOnly_def nth_Cons')

end
