(* ===== verification/Calls.thy ===== *)
theory Calls
  imports Ranges
begin

text \<open>
  Sending messages from C, \<open>src/function/MulleObjCFunctions.h\<close>: the accessor shortcuts, the calls of
  an implementation with one to five arguments, the calls for key value coding with numbers, the
  \<open>performSelector\<close> family and the calls to many objects.

  In the MetaABI of the runtime a method takes one pointer.  A single argument that fits travels in
  the pointer itself, everything else in a block of memory that the pointer names; the return value
  comes back in the pointer the method returns or, when it does not fit there, in that same block.
  References are 64 bit words here, because integers travel in them.  \<open>mulle_objc_object_call\<close> and
  \<open>mulle_objc_implementation_invoke\<close> of the runtime are the parameters \<open>send\<close> and \<open>invoke\<close>; they may
  change the state of the program.  The floating point types are type parameters, \<open>'f\<close>, \<open>'d\<close> and
  \<open>'l\<close> for \<open>float\<close>, \<open>double\<close> and \<open>long double\<close>.
\<close>

section \<open>The calling convention\<close>

type_synonym SEL = uint32

text \<open>\<open>sizeof( long)\<close> and \<open>sizeof( long long)\<close> on the modelled platform.\<close>

definition sizeof_long :: nat where
  "sizeof_long = 8"

definition sizeof_long_long :: nat where
  "sizeof_long_long = 8"

datatype ('f, 'd, 'l) field =
    F_id ref
  | F_long "64 word"
  | F_float 'f
  | F_double 'd
  | F_long_double 'l
  | F_range NSRange

text \<open>A block starts out empty where the code leaves its memory uninitialised.\<close>

datatype ('f, 'd, 'l) arg = InPointer ref | InBlock "('f, 'd, 'l) field list"

text \<open>What comes back: the returned pointer, the block and the state of the program.\<close>

type_synonym ('f, 'd, 'l, 's) returned = "ref \<times> ('f, 'd, 'l) field list \<times> 's"

type_synonym ('f, 'd, 'l, 's) sender =
  "ref \<Rightarrow> SEL \<Rightarrow> ('f, 'd, 'l) arg \<Rightarrow> 's \<Rightarrow> ('f, 'd, 'l, 's) returned"

fun pointer_of :: "('f, 'd, 'l, 's) returned \<Rightarrow> ref" where
  "pointer_of (r, b, s) = r"

fun block_of :: "('f, 'd, 'l, 's) returned \<Rightarrow> ('f, 'd, 'l) field list" where
  "block_of (r, b, s) = b"

fun state_of :: "('f, 'd, 'l, 's) returned \<Rightarrow> 's" where
  "state_of (r, b, s) = s"

text \<open>
  Reading the returned value from the block: \<open>None\<close> when the method has left no value of that type
  there.
\<close>

fun read_long :: "('f, 'd, 'l) field list \<Rightarrow> 64 word option" where
  "read_long (F_long v # b) = Some v"
| "read_long b = None"

fun read_float :: "('f, 'd, 'l) field list \<Rightarrow> 'f option" where
  "read_float (F_float v # b) = Some v"
| "read_float b = None"

fun read_double :: "('f, 'd, 'l) field list \<Rightarrow> 'd option" where
  "read_double (F_double v # b) = Some v"
| "read_double b = None"

fun read_long_double :: "('f, 'd, 'l) field list \<Rightarrow> 'l option" where
  "read_long_double (F_long_double v # b) = Some v"
| "read_long_double b = None"

fun read_range :: "('f, 'd, 'l) field list \<Rightarrow> NSRange option" where
  "read_range (F_range v # b) = Some v"
| "read_range b = None"

section \<open>Accessor shortcuts\<close>

text \<open>
  \<open>BOOL\<close> is an \<open>int\<close>.  A signed value is sign extended on its way into the pointer, an unsigned one
  zero extended; on the way back the pointer is truncated.  A getter has no argument and passes the
  object itself.
\<close>

definition MulleObjCObjectSetBOOL :: "('f, 'd, 'l, 's) sender \<Rightarrow> ref \<Rightarrow> SEL \<Rightarrow> 32 word \<Rightarrow> 's \<Rightarrow> 's" where
  "MulleObjCObjectSetBOOL send obj sel val s = state_of (send obj sel (InPointer (scast val)) s)"

definition MulleObjCObjectGetBOOL :: "('f, 'd, 'l, 's) sender \<Rightarrow> ref \<Rightarrow> SEL \<Rightarrow> 's \<Rightarrow> 32 word \<times> 's" where
  "MulleObjCObjectGetBOOL send obj sel s =
     (let r = send obj sel (InPointer obj) s in (ucast (pointer_of r), state_of r))"

definition MulleObjCObjectSetChar :: "('f, 'd, 'l, 's) sender \<Rightarrow> ref \<Rightarrow> SEL \<Rightarrow> 8 word \<Rightarrow> 's \<Rightarrow> 's" where
  "MulleObjCObjectSetChar send obj sel val s = state_of (send obj sel (InPointer (scast val)) s)"

definition MulleObjCObjectGetChar :: "('f, 'd, 'l, 's) sender \<Rightarrow> ref \<Rightarrow> SEL \<Rightarrow> 's \<Rightarrow> 8 word \<times> 's" where
  "MulleObjCObjectGetChar send obj sel s =
     (let r = send obj sel (InPointer obj) s in (ucast (pointer_of r), state_of r))"

definition MulleObjCObjectSetUnsignedChar :: "('f, 'd, 'l, 's) sender \<Rightarrow> ref \<Rightarrow> SEL \<Rightarrow> 8 word \<Rightarrow> 's \<Rightarrow> 's" where
  "MulleObjCObjectSetUnsignedChar send obj sel val s = state_of (send obj sel (InPointer (ucast val)) s)"

definition MulleObjCObjectGetUnsignedChar :: "('f, 'd, 'l, 's) sender \<Rightarrow> ref \<Rightarrow> SEL \<Rightarrow> 's \<Rightarrow> 8 word \<times> 's" where
  "MulleObjCObjectGetUnsignedChar send obj sel s =
     (let r = send obj sel (InPointer obj) s in (ucast (pointer_of r), state_of r))"

definition MulleObjCObjectSetShort :: "('f, 'd, 'l, 's) sender \<Rightarrow> ref \<Rightarrow> SEL \<Rightarrow> 16 word \<Rightarrow> 's \<Rightarrow> 's" where
  "MulleObjCObjectSetShort send obj sel val s = state_of (send obj sel (InPointer (scast val)) s)"

definition MulleObjCObjectGetShort :: "('f, 'd, 'l, 's) sender \<Rightarrow> ref \<Rightarrow> SEL \<Rightarrow> 's \<Rightarrow> 16 word \<times> 's" where
  "MulleObjCObjectGetShort send obj sel s =
     (let r = send obj sel (InPointer obj) s in (ucast (pointer_of r), state_of r))"

definition MulleObjCObjectSetUnsignedShort :: "('f, 'd, 'l, 's) sender \<Rightarrow> ref \<Rightarrow> SEL \<Rightarrow> 16 word \<Rightarrow> 's \<Rightarrow> 's" where
  "MulleObjCObjectSetUnsignedShort send obj sel val s = state_of (send obj sel (InPointer (ucast val)) s)"

definition MulleObjCObjectGetUnsignedShort :: "('f, 'd, 'l, 's) sender \<Rightarrow> ref \<Rightarrow> SEL \<Rightarrow> 's \<Rightarrow> 16 word \<times> 's" where
  "MulleObjCObjectGetUnsignedShort send obj sel s =
     (let r = send obj sel (InPointer obj) s in (ucast (pointer_of r), state_of r))"

definition MulleObjCObjectSetInt :: "('f, 'd, 'l, 's) sender \<Rightarrow> ref \<Rightarrow> SEL \<Rightarrow> 32 word \<Rightarrow> 's \<Rightarrow> 's" where
  "MulleObjCObjectSetInt send obj sel val s = state_of (send obj sel (InPointer (scast val)) s)"

definition MulleObjCObjectGetInt :: "('f, 'd, 'l, 's) sender \<Rightarrow> ref \<Rightarrow> SEL \<Rightarrow> 's \<Rightarrow> 32 word \<times> 's" where
  "MulleObjCObjectGetInt send obj sel s =
     (let r = send obj sel (InPointer obj) s in (ucast (pointer_of r), state_of r))"

definition MulleObjCObjectSetUnsignedInt :: "('f, 'd, 'l, 's) sender \<Rightarrow> ref \<Rightarrow> SEL \<Rightarrow> 32 word \<Rightarrow> 's \<Rightarrow> 's" where
  "MulleObjCObjectSetUnsignedInt send obj sel val s = state_of (send obj sel (InPointer (ucast val)) s)"

definition MulleObjCObjectGetUnsignedInt :: "('f, 'd, 'l, 's) sender \<Rightarrow> ref \<Rightarrow> SEL \<Rightarrow> 's \<Rightarrow> 32 word \<times> 's" where
  "MulleObjCObjectGetUnsignedInt send obj sel s =
     (let r = send obj sel (InPointer obj) s in (ucast (pointer_of r), state_of r))"

definition MulleObjCObjectSetLong :: "('f, 'd, 'l, 's) sender \<Rightarrow> ref \<Rightarrow> SEL \<Rightarrow> 64 word \<Rightarrow> 's \<Rightarrow> 's" where
  "MulleObjCObjectSetLong send obj sel val s =
     (if sizeof_long \<le> sizeof_pointer then state_of (send obj sel (InPointer val) s)
      else state_of (send obj sel (InBlock [F_long val]) s))"

definition MulleObjCObjectGetLong :: "('f, 'd, 'l, 's) sender \<Rightarrow> ref \<Rightarrow> SEL \<Rightarrow> 's \<Rightarrow> 64 word option \<times> 's" where
  "MulleObjCObjectGetLong send obj sel s =
     (if sizeof_long \<le> sizeof_pointer
      then let r = send obj sel (InPointer obj) s in (Some (pointer_of r), state_of r)
      else let r = send obj sel (InBlock []) s in (read_long (block_of r), state_of r))"

definition MulleObjCObjectSetUnsignedLong :: "('f, 'd, 'l, 's) sender \<Rightarrow> ref \<Rightarrow> SEL \<Rightarrow> 64 word \<Rightarrow> 's \<Rightarrow> 's" where
  "MulleObjCObjectSetUnsignedLong send obj sel val s =
     (if sizeof_long \<le> sizeof_pointer then state_of (send obj sel (InPointer val) s)
      else state_of (send obj sel (InBlock [F_long val]) s))"

definition MulleObjCObjectGetUnsignedLong :: "('f, 'd, 'l, 's) sender \<Rightarrow> ref \<Rightarrow> SEL \<Rightarrow> 's \<Rightarrow> 64 word option \<times> 's" where
  "MulleObjCObjectGetUnsignedLong send obj sel s =
     (if sizeof_long \<le> sizeof_pointer
      then let r = send obj sel (InPointer obj) s in (Some (pointer_of r), state_of r)
      else let r = send obj sel (InBlock []) s in (read_long (block_of r), state_of r))"

definition MulleObjCObjectSetLongLong :: "('f, 'd, 'l, 's) sender \<Rightarrow> ref \<Rightarrow> SEL \<Rightarrow> 64 word \<Rightarrow> 's \<Rightarrow> 's" where
  "MulleObjCObjectSetLongLong send obj sel val s =
     (if sizeof_long_long \<le> sizeof_pointer then state_of (send obj sel (InPointer val) s)
      else state_of (send obj sel (InBlock [F_long val]) s))"

definition MulleObjCObjectGetLongLong :: "('f, 'd, 'l, 's) sender \<Rightarrow> ref \<Rightarrow> SEL \<Rightarrow> 's \<Rightarrow> 64 word option \<times> 's" where
  "MulleObjCObjectGetLongLong send obj sel s =
     (if sizeof_long_long \<le> sizeof_pointer
      then let r = send obj sel (InPointer obj) s in (Some (pointer_of r), state_of r)
      else let r = send obj sel (InBlock []) s in (read_long (block_of r), state_of r))"

definition MulleObjCObjectSetUnsignedLongLong :: "('f, 'd, 'l, 's) sender \<Rightarrow> ref \<Rightarrow> SEL \<Rightarrow> 64 word \<Rightarrow> 's \<Rightarrow> 's" where
  "MulleObjCObjectSetUnsignedLongLong send obj sel val s =
     (if sizeof_long_long \<le> sizeof_pointer then state_of (send obj sel (InPointer val) s)
      else state_of (send obj sel (InBlock [F_long val]) s))"

definition MulleObjCObjectGetUnsignedLongLong :: "('f, 'd, 'l, 's) sender \<Rightarrow> ref \<Rightarrow> SEL \<Rightarrow> 's \<Rightarrow> 64 word option \<times> 's" where
  "MulleObjCObjectGetUnsignedLongLong send obj sel s =
     (if sizeof_long_long \<le> sizeof_pointer
      then let r = send obj sel (InPointer obj) s in (Some (pointer_of r), state_of r)
      else let r = send obj sel (InBlock []) s in (read_long (block_of r), state_of r))"

definition MulleObjCObjectSetNSInteger :: "('f, 'd, 'l, 's) sender \<Rightarrow> ref \<Rightarrow> SEL \<Rightarrow> 64 word \<Rightarrow> 's \<Rightarrow> 's" where
  "MulleObjCObjectSetNSInteger send obj sel val s = state_of (send obj sel (InPointer (val)) s)"

definition MulleObjCObjectGetNSInteger :: "('f, 'd, 'l, 's) sender \<Rightarrow> ref \<Rightarrow> SEL \<Rightarrow> 's \<Rightarrow> 64 word \<times> 's" where
  "MulleObjCObjectGetNSInteger send obj sel s =
     (let r = send obj sel (InPointer obj) s in (pointer_of r, state_of r))"

definition MulleObjCObjectSetFloat :: "('f, 'd, 'l, 's) sender \<Rightarrow> ref \<Rightarrow> SEL \<Rightarrow> 'f \<Rightarrow> 's \<Rightarrow> 's" where
  "MulleObjCObjectSetFloat send obj sel val s = state_of (send obj sel (InBlock [F_float val]) s)"

definition MulleObjCObjectGetFloat :: "('f, 'd, 'l, 's) sender \<Rightarrow> ref \<Rightarrow> SEL \<Rightarrow> 's \<Rightarrow> 'f option \<times> 's" where
  "MulleObjCObjectGetFloat send obj sel s =
     (let r = send obj sel (InBlock []) s in (read_float (block_of r), state_of r))"

definition MulleObjCObjectSetDouble :: "('f, 'd, 'l, 's) sender \<Rightarrow> ref \<Rightarrow> SEL \<Rightarrow> 'd \<Rightarrow> 's \<Rightarrow> 's" where
  "MulleObjCObjectSetDouble send obj sel val s = state_of (send obj sel (InBlock [F_double val]) s)"

definition MulleObjCObjectGetDouble :: "('f, 'd, 'l, 's) sender \<Rightarrow> ref \<Rightarrow> SEL \<Rightarrow> 's \<Rightarrow> 'd option \<times> 's" where
  "MulleObjCObjectGetDouble send obj sel s =
     (let r = send obj sel (InBlock []) s in (read_double (block_of r), state_of r))"

definition MulleObjCObjectSetLongDouble :: "('f, 'd, 'l, 's) sender \<Rightarrow> ref \<Rightarrow> SEL \<Rightarrow> 'l \<Rightarrow> 's \<Rightarrow> 's" where
  "MulleObjCObjectSetLongDouble send obj sel val s = state_of (send obj sel (InBlock [F_long_double val]) s)"

text \<open>The getter for \<open>long double\<close> is declared to return a \<open>double\<close>: \<open>to_double\<close> is that conversion.\<close>

definition MulleObjCObjectGetLongDouble ::
    "('l \<Rightarrow> 'd) \<Rightarrow> ('f, 'd, 'l, 's) sender \<Rightarrow> ref \<Rightarrow> SEL \<Rightarrow> 's \<Rightarrow> 'd option \<times> 's" where
  "MulleObjCObjectGetLongDouble to_double send obj sel s =
     (let r = send obj sel (InBlock []) s in (map_option to_double (read_long_double (block_of r)), state_of r))"

definition MulleObjCObjectSetRange :: "('f, 'd, 'l, 's) sender \<Rightarrow> ref \<Rightarrow> SEL \<Rightarrow> NSRange \<Rightarrow> 's \<Rightarrow> 's" where
  "MulleObjCObjectSetRange send obj sel val s = state_of (send obj sel (InBlock [F_range val]) s)"

definition MulleObjCObjectGetRange :: "('f, 'd, 'l, 's) sender \<Rightarrow> ref \<Rightarrow> SEL \<Rightarrow> 's \<Rightarrow> NSRange option \<times> 's" where
  "MulleObjCObjectGetRange send obj sel s =
     (let r = send obj sel (InBlock []) s in (read_range (block_of r), state_of r))"

section \<open>Calling an implementation\<close>

text \<open>
  \<open>invoke imp\<close> is the method that the function pointer \<open>imp\<close> names.  All calls return the pointer
  and the state; the block of the arguments is dropped.
\<close>

type_synonym ('f, 'd, 'l, 's) invoker = "ref \<Rightarrow> ('f, 'd, 'l, 's) sender"

fun drop_block :: "('f, 'd, 'l, 's) returned \<Rightarrow> ref \<times> 's" where
  "drop_block (r, b, s) = (r, s)"

definition MulleObjCIMPCall0 :: "('f, 'd, 'l, 's) invoker \<Rightarrow> ref \<Rightarrow> ref \<Rightarrow> SEL \<Rightarrow> 's \<Rightarrow> ref \<times> 's" where
  "MulleObjCIMPCall0 invoke imp obj sel s = drop_block (invoke imp obj sel (InPointer obj) s)"

definition MulleObjCIMPCall :: "('f, 'd, 'l, 's) invoker \<Rightarrow> ref \<Rightarrow> ref \<Rightarrow> SEL \<Rightarrow> ref \<Rightarrow> 's \<Rightarrow> ref \<times> 's" where
  "MulleObjCIMPCall invoke imp obj sel argument s =
     drop_block (invoke imp obj sel (InPointer argument) s)"

definition MulleObjCIMPCall1 :: "('f, 'd, 'l, 's) invoker \<Rightarrow> ref \<Rightarrow> ref \<Rightarrow> SEL \<Rightarrow> ref \<Rightarrow> 's \<Rightarrow> ref \<times> 's" where
  "MulleObjCIMPCall1 invoke imp obj sel argument s = MulleObjCIMPCall invoke imp obj sel argument s"

definition MulleObjCIMPCall2 ::
    "('f, 'd, 'l, 's) invoker \<Rightarrow> ref \<Rightarrow> ref \<Rightarrow> SEL \<Rightarrow> ref \<Rightarrow> ref \<Rightarrow> 's \<Rightarrow> ref \<times> 's" where
  "MulleObjCIMPCall2 invoke imp obj sel a b s =
     drop_block (invoke imp obj sel (InBlock [F_id a, F_id b]) s)"

definition MulleObjCIMPCall3 ::
    "('f, 'd, 'l, 's) invoker \<Rightarrow> ref \<Rightarrow> ref \<Rightarrow> SEL \<Rightarrow> ref \<Rightarrow> ref \<Rightarrow> ref \<Rightarrow> 's \<Rightarrow> ref \<times> 's" where
  "MulleObjCIMPCall3 invoke imp obj sel a b c s =
     drop_block (invoke imp obj sel (InBlock [F_id a, F_id b, F_id c]) s)"

definition MulleObjCIMPCall4 ::
    "('f, 'd, 'l, 's) invoker \<Rightarrow> ref \<Rightarrow> ref \<Rightarrow> SEL \<Rightarrow> ref \<Rightarrow> ref \<Rightarrow> ref \<Rightarrow> ref \<Rightarrow> 's \<Rightarrow> ref \<times> 's" where
  "MulleObjCIMPCall4 invoke imp obj sel a b c d s =
     drop_block (invoke imp obj sel (InBlock [F_id a, F_id b, F_id c, F_id d]) s)"

definition MulleObjCIMPCall5 ::
    "('f, 'd, 'l, 's) invoker \<Rightarrow> ref \<Rightarrow> ref \<Rightarrow> SEL \<Rightarrow> ref \<Rightarrow> ref \<Rightarrow> ref \<Rightarrow> ref \<Rightarrow> ref \<Rightarrow> 's \<Rightarrow> ref \<times> 's" where
  "MulleObjCIMPCall5 invoke imp obj sel a b c d e s =
     drop_block (invoke imp obj sel (InBlock [F_id a, F_id b, F_id c, F_id d, F_id e]) s)"

section \<open>Calls for key value coding\<close>

definition MulleObjCIMPCallWithFloat :: "('f, 'd, 'l, 's) invoker \<Rightarrow> ref \<Rightarrow> ref \<Rightarrow> SEL \<Rightarrow> 'f \<Rightarrow> 's \<Rightarrow> ref \<times> 's" where
  "MulleObjCIMPCallWithFloat invoke imp obj sel argument s =
     drop_block (invoke imp obj sel (InBlock [F_float argument]) s)"

definition MulleObjCIMPCallWithDouble :: "('f, 'd, 'l, 's) invoker \<Rightarrow> ref \<Rightarrow> ref \<Rightarrow> SEL \<Rightarrow> 'd \<Rightarrow> 's \<Rightarrow> ref \<times> 's" where
  "MulleObjCIMPCallWithDouble invoke imp obj sel argument s =
     drop_block (invoke imp obj sel (InBlock [F_double argument]) s)"

definition MulleObjCIMPCallWithLongDouble :: "('f, 'd, 'l, 's) invoker \<Rightarrow> ref \<Rightarrow> ref \<Rightarrow> SEL \<Rightarrow> 'l \<Rightarrow> 's \<Rightarrow> ref \<times> 's" where
  "MulleObjCIMPCallWithLongDouble invoke imp obj sel argument s =
     drop_block (invoke imp obj sel (InBlock [F_long_double argument]) s)"

definition MulleObjCIMPCallWithLong :: "('f, 'd, 'l, 's) invoker \<Rightarrow> ref \<Rightarrow> ref \<Rightarrow> SEL \<Rightarrow> 64 word \<Rightarrow> 's \<Rightarrow> ref \<times> 's" where
  "MulleObjCIMPCallWithLong invoke imp obj sel argument s =
     (if sizeof_long \<le> sizeof_pointer then MulleObjCIMPCall invoke imp obj sel argument s
      else drop_block (invoke imp obj sel (InBlock [F_long argument]) s))"

definition MulleObjCIMPCallWithUnsignedLong :: "('f, 'd, 'l, 's) invoker \<Rightarrow> ref \<Rightarrow> ref \<Rightarrow> SEL \<Rightarrow> 64 word \<Rightarrow> 's \<Rightarrow> ref \<times> 's" where
  "MulleObjCIMPCallWithUnsignedLong invoke imp obj sel argument s =
     (if sizeof_long \<le> sizeof_pointer then MulleObjCIMPCall invoke imp obj sel argument s
      else drop_block (invoke imp obj sel (InBlock [F_long argument]) s))"

definition MulleObjCIMPCallWithLongLong :: "('f, 'd, 'l, 's) invoker \<Rightarrow> ref \<Rightarrow> ref \<Rightarrow> SEL \<Rightarrow> 64 word \<Rightarrow> 's \<Rightarrow> ref \<times> 's" where
  "MulleObjCIMPCallWithLongLong invoke imp obj sel argument s =
     (if sizeof_long_long \<le> sizeof_pointer then MulleObjCIMPCall invoke imp obj sel argument s
      else drop_block (invoke imp obj sel (InBlock [F_long argument]) s))"

definition MulleObjCIMPCallWithUnsignedLongLong :: "('f, 'd, 'l, 's) invoker \<Rightarrow> ref \<Rightarrow> ref \<Rightarrow> SEL \<Rightarrow> 64 word \<Rightarrow> 's \<Rightarrow> ref \<times> 's" where
  "MulleObjCIMPCallWithUnsignedLongLong invoke imp obj sel argument s =
     (if sizeof_long_long \<le> sizeof_pointer then MulleObjCIMPCall invoke imp obj sel argument s
      else drop_block (invoke imp obj sel (InBlock [F_long argument]) s))"

definition MulleObjCIMPCall0ReturningFloat :: "('f, 'd, 'l, 's) invoker \<Rightarrow> ref \<Rightarrow> ref \<Rightarrow> SEL \<Rightarrow> 's \<Rightarrow> 'f option \<times> 's" where
  "MulleObjCIMPCall0ReturningFloat invoke imp obj sel s =
     (let r = invoke imp obj sel (InBlock []) s in (read_float (block_of r), state_of r))"

definition MulleObjCIMPCall0ReturningDouble :: "('f, 'd, 'l, 's) invoker \<Rightarrow> ref \<Rightarrow> ref \<Rightarrow> SEL \<Rightarrow> 's \<Rightarrow> 'd option \<times> 's" where
  "MulleObjCIMPCall0ReturningDouble invoke imp obj sel s =
     (let r = invoke imp obj sel (InBlock []) s in (read_double (block_of r), state_of r))"

definition MulleObjCIMPCall0ReturningLongDouble :: "('f, 'd, 'l, 's) invoker \<Rightarrow> ref \<Rightarrow> ref \<Rightarrow> SEL \<Rightarrow> 's \<Rightarrow> 'l option \<times> 's" where
  "MulleObjCIMPCall0ReturningLongDouble invoke imp obj sel s =
     (let r = invoke imp obj sel (InBlock []) s in (read_long_double (block_of r), state_of r))"

definition MulleObjCIMPCall0ReturningLong :: "('f, 'd, 'l, 's) invoker \<Rightarrow> ref \<Rightarrow> ref \<Rightarrow> SEL \<Rightarrow> 's \<Rightarrow> 64 word option \<times> 's" where
  "MulleObjCIMPCall0ReturningLong invoke imp obj sel s =
     (if sizeof_long \<le> sizeof_pointer
      then let (r, s') = MulleObjCIMPCall0 invoke imp obj sel s in (Some r, s')
      else let r = invoke imp obj sel (InBlock []) s in (read_long (block_of r), state_of r))"

definition MulleObjCIMPCall0ReturningUnsignedLong :: "('f, 'd, 'l, 's) invoker \<Rightarrow> ref \<Rightarrow> ref \<Rightarrow> SEL \<Rightarrow> 's \<Rightarrow> 64 word option \<times> 's" where
  "MulleObjCIMPCall0ReturningUnsignedLong invoke imp obj sel s =
     (if sizeof_long \<le> sizeof_pointer
      then let (r, s') = MulleObjCIMPCall0 invoke imp obj sel s in (Some r, s')
      else let r = invoke imp obj sel (InBlock []) s in (read_long (block_of r), state_of r))"

definition MulleObjCIMPCall0ReturningLongLong :: "('f, 'd, 'l, 's) invoker \<Rightarrow> ref \<Rightarrow> ref \<Rightarrow> SEL \<Rightarrow> 's \<Rightarrow> 64 word option \<times> 's" where
  "MulleObjCIMPCall0ReturningLongLong invoke imp obj sel s =
     (if sizeof_long_long \<le> sizeof_pointer
      then let (r, s') = MulleObjCIMPCall0 invoke imp obj sel s in (Some r, s')
      else let r = invoke imp obj sel (InBlock []) s in (read_long (block_of r), state_of r))"

definition MulleObjCIMPCall0ReturningUnsignedLongLong :: "('f, 'd, 'l, 's) invoker \<Rightarrow> ref \<Rightarrow> ref \<Rightarrow> SEL \<Rightarrow> 's \<Rightarrow> 64 word option \<times> 's" where
  "MulleObjCIMPCall0ReturningUnsignedLongLong invoke imp obj sel s =
     (if sizeof_long_long \<le> sizeof_pointer
      then let (r, s') = MulleObjCIMPCall0 invoke imp obj sel s in (Some r, s')
      else let r = invoke imp obj sel (InBlock []) s in (read_long (block_of r), state_of r))"

section \<open>The performSelector family\<close>

definition MulleObjCObjectPerformSelector0 :: "('f, 'd, 'l, 's) sender \<Rightarrow> ref \<Rightarrow> SEL \<Rightarrow> 's \<Rightarrow> ref \<times> 's" where
  "MulleObjCObjectPerformSelector0 send obj sel s = drop_block (send obj sel (InPointer obj) s)"

definition MulleObjCObjectPerformSelector1 :: "('f, 'd, 'l, 's) sender \<Rightarrow> ref \<Rightarrow> SEL \<Rightarrow> ref \<Rightarrow> 's \<Rightarrow> ref \<times> 's" where
  "MulleObjCObjectPerformSelector1 send obj sel argument s =
     drop_block (send obj sel (InPointer argument) s)"

definition MulleObjCObjectPerformSelector :: "('f, 'd, 'l, 's) sender \<Rightarrow> ref \<Rightarrow> SEL \<Rightarrow> ref \<Rightarrow> 's \<Rightarrow> ref \<times> 's" where
  "MulleObjCObjectPerformSelector send obj sel argument s =
     drop_block (send obj sel (InPointer argument) s)"

definition MulleObjCObjectPerformSelectorDoubleArgument ::
    "('f, 'd, 'l, 's) sender \<Rightarrow> ref \<Rightarrow> SEL \<Rightarrow> 'd \<Rightarrow> 's \<Rightarrow> ref \<times> 's" where
  "MulleObjCObjectPerformSelectorDoubleArgument send obj sel a s =
     drop_block (send obj sel (InBlock [F_double a]) s)"

definition MulleObjCObjectPerformSelectorDoubleArgument2 ::
    "('f, 'd, 'l, 's) sender \<Rightarrow> ref \<Rightarrow> SEL \<Rightarrow> 'd \<Rightarrow> 'd \<Rightarrow> 's \<Rightarrow> ref \<times> 's" where
  "MulleObjCObjectPerformSelectorDoubleArgument2 send obj sel a b s =
     drop_block (send obj sel (InBlock [F_double a, F_double b]) s)"

definition MulleObjCObjectPerformSelectorDoubleArgument3 ::
    "('f, 'd, 'l, 's) sender \<Rightarrow> ref \<Rightarrow> SEL \<Rightarrow> 'd \<Rightarrow> 'd \<Rightarrow> 'd \<Rightarrow> 's \<Rightarrow> ref \<times> 's" where
  "MulleObjCObjectPerformSelectorDoubleArgument3 send obj sel a b c s =
     drop_block (send obj sel (InBlock [F_double a, F_double b, F_double c]) s)"

definition MulleObjCObjectPerformSelectorDoubleArgument4 ::
    "('f, 'd, 'l, 's) sender \<Rightarrow> ref \<Rightarrow> SEL \<Rightarrow> 'd \<Rightarrow> 'd \<Rightarrow> 'd \<Rightarrow> 'd \<Rightarrow> 's \<Rightarrow> ref \<times> 's" where
  "MulleObjCObjectPerformSelectorDoubleArgument4 send obj sel a b c d s =
     drop_block (send obj sel (InBlock [F_double a, F_double b, F_double c, F_double d]) s)"

definition MulleObjCObjectPerformSelector2 ::
    "('f, 'd, 'l, 's) sender \<Rightarrow> ref \<Rightarrow> SEL \<Rightarrow> ref \<Rightarrow> ref \<Rightarrow> 's \<Rightarrow> ref \<times> 's" where
  "MulleObjCObjectPerformSelector2 send obj sel a b s =
     drop_block (send obj sel (InBlock [F_id a, F_id b]) s)"

definition MulleObjCObjectPerformSelector3 ::
    "('f, 'd, 'l, 's) sender \<Rightarrow> ref \<Rightarrow> SEL \<Rightarrow> ref \<Rightarrow> ref \<Rightarrow> ref \<Rightarrow> 's \<Rightarrow> ref \<times> 's" where
  "MulleObjCObjectPerformSelector3 send obj sel a b c s =
     drop_block (send obj sel (InBlock [F_id a, F_id b, F_id c]) s)"

definition MulleObjCObjectPerformSelector4 ::
    "('f, 'd, 'l, 's) sender \<Rightarrow> ref \<Rightarrow> SEL \<Rightarrow> ref \<Rightarrow> ref \<Rightarrow> ref \<Rightarrow> ref \<Rightarrow> 's \<Rightarrow> ref \<times> 's" where
  "MulleObjCObjectPerformSelector4 send obj sel a b c d s =
     drop_block (send obj sel (InBlock [F_id a, F_id b, F_id c, F_id d]) s)"

definition MulleObjCObjectPerformSelector5 ::
    "('f, 'd, 'l, 's) sender \<Rightarrow> ref \<Rightarrow> SEL \<Rightarrow> ref \<Rightarrow> ref \<Rightarrow> ref \<Rightarrow> ref \<Rightarrow> ref \<Rightarrow> 's \<Rightarrow> ref \<times> 's" where
  "MulleObjCObjectPerformSelector5 send obj sel a b c d e s =
     drop_block (send obj sel (InBlock [F_id a, F_id b, F_id c, F_id d, F_id e]) s)"

definition MulleObjCObjectPerformSelector0ReturningBOOL :: "('f, 'd, 'l, 's) sender \<Rightarrow> ref \<Rightarrow> SEL \<Rightarrow> 's \<Rightarrow> 32 word \<times> 's" where
  "MulleObjCObjectPerformSelector0ReturningBOOL send obj sel s =
     (let r = send obj sel (InPointer obj) s in (ucast (pointer_of r), state_of r))"

definition MulleObjCObjectPerformSelectorReturningBOOL ::
    "('f, 'd, 'l, 's) sender \<Rightarrow> ref \<Rightarrow> SEL \<Rightarrow> ref \<Rightarrow> 's \<Rightarrow> 32 word \<times> 's" where
  "MulleObjCObjectPerformSelectorReturningBOOL send obj sel argument s =
     (let r = send obj sel (InPointer argument) s in (ucast (pointer_of r), state_of r))"

section \<open>Calls to many objects\<close>

text \<open>
  The runtime's \<open>mulle_objc_objects_call\<close> takes the count as an \<open>unsigned int\<close>, the functions here
  take an \<open>NSUInteger\<close> and cut it.  It is the parameter \<open>objects_call\<close>, as are the bulk retain and
  release of the runtime.
\<close>

type_synonym ('f, 'd, 'l, 's) many = "ref list \<Rightarrow> uint32 \<Rightarrow> SEL \<Rightarrow> ('f, 'd, 'l) arg \<Rightarrow> 's \<Rightarrow> 's"

definition MulleObjCMakeObjectsPerformSelector0 ::
    "('f, 'd, 'l, 's) many \<Rightarrow> ref list \<Rightarrow> NSUInteger \<Rightarrow> SEL \<Rightarrow> 's \<Rightarrow> 's" where
  "MulleObjCMakeObjectsPerformSelector0 objects_call objects n sel s =
     objects_call objects (ucast n) sel (InPointer 0) s"

definition MulleObjCMakeObjectsPerformSelector ::
    "('f, 'd, 'l, 's) many \<Rightarrow> ref list \<Rightarrow> NSUInteger \<Rightarrow> SEL \<Rightarrow> ref \<Rightarrow> 's \<Rightarrow> 's" where
  "MulleObjCMakeObjectsPerformSelector objects_call objects n sel a s =
     objects_call objects (ucast n) sel (InPointer a) s"

definition MulleObjCMakeObjectsPerformSelector2 ::
    "('f, 'd, 'l, 's) many \<Rightarrow> ref list \<Rightarrow> NSUInteger \<Rightarrow> SEL \<Rightarrow> ref \<Rightarrow> ref \<Rightarrow> 's \<Rightarrow> 's" where
  "MulleObjCMakeObjectsPerformSelector2 objects_call objects n sel argument argument2 s =
     objects_call objects (ucast n) sel (InBlock [F_id argument, F_id argument2]) s"

text \<open>
  \<open>None\<close> for the array is the null pointer: nothing happens then.  (With a count a debug build stops
  at an assertion.)
\<close>

definition MulleObjCMakeObjectsPerformRelease ::
    "(ref list \<Rightarrow> uint32 \<Rightarrow> 's \<Rightarrow> 's) \<Rightarrow> ref list option \<Rightarrow> NSUInteger \<Rightarrow> 's \<Rightarrow> 's" where
  "MulleObjCMakeObjectsPerformRelease objects_release objects n s =
     (case objects of None \<Rightarrow> s | Some os \<Rightarrow> objects_release os (ucast n) s)"

definition MulleObjCMakeObjectsPerformRetain ::
    "(ref list \<Rightarrow> uint32 \<Rightarrow> 's \<Rightarrow> 's) \<Rightarrow> ref list option \<Rightarrow> NSUInteger \<Rightarrow> 's \<Rightarrow> 's" where
  "MulleObjCMakeObjectsPerformRetain objects_retain objects n s =
     (case objects of None \<Rightarrow> s | Some os \<Rightarrow> objects_retain os (ucast n) s)"

section \<open>Collected implementations\<close>

text \<open>\<open>imps\<close> is the pointer array, in the order in which the search collected them.\<close>

record imp_array =
  imps :: "ref list"
  selector :: SEL

definition MulleObjCIMPArrayCall ::
    "('f, 'd, 'l, 's) invoker \<Rightarrow> imp_array \<Rightarrow> ref \<Rightarrow> ref \<Rightarrow> 's \<Rightarrow> 's" where
  "MulleObjCIMPArrayCall invoke a obj argument s =
     foldl (\<lambda>s imp. snd (MulleObjCIMPCall invoke imp obj (selector a) argument s)) s (imps a)"

definition MulleObjCIMPArrayCallReverse ::
    "('f, 'd, 'l, 's) invoker \<Rightarrow> imp_array \<Rightarrow> ref \<Rightarrow> ref \<Rightarrow> 's \<Rightarrow> 's" where
  "MulleObjCIMPArrayCallReverse invoke a obj argument s =
     foldr (\<lambda>imp s. snd (MulleObjCIMPCall invoke imp obj (selector a) argument s)) (imps a) s"

end
