(* ===== verification/CallProps.thy ===== *)
theory CallProps
  imports Calls
begin

text \<open>
  Properties of the calls from C: a value that a setter sends is what the getter of the same type
  hands back, \<open>performSelector\<close> is the call of the implementation, and how many objects a call to
  many objects reaches.
\<close>

section \<open>Conversions\<close>

lemma ucast_scast_same [simp]:
  "LENGTH('a) \<le> LENGTH('b) \<Longrightarrow> ucast (scast (w :: 'a::len word) :: 'b::len word) = w"
  by (rule bit_word_eqI) (simp add: bit_simps)

lemma ucast_ucast_same [simp]:
  "LENGTH('a) \<le> LENGTH('b) \<Longrightarrow> ucast (ucast (w :: 'a::len word) :: 'b::len word) = w"
  by (rule bit_word_eqI) (simp add: bit_simps)

lemma ucast_word_of_int_down [simp]:
  "LENGTH('a) \<le> LENGTH('b) \<Longrightarrow> ucast (word_of_int v :: 'b::len word) = (word_of_int v :: 'a::len word)"
  by (rule bit_word_eqI) (simp add: bit_simps)

lemma sint_word_of_int_same:
  "- (2 ^ (LENGTH('a) - 1)) \<le> v \<Longrightarrow> v < 2 ^ (LENGTH('a) - 1) \<Longrightarrow> sint (word_of_int v :: 'a::len word) = v"
  by (simp add: signed_of_int signed_take_bit_int_eq_self)

lemma uint_word_of_int_same:
  "0 \<le> v \<Longrightarrow> v < 2 ^ LENGTH('a) \<Longrightarrow> uint (word_of_int v :: 'a::len word) = v"
  by (simp add: unsigned_of_int take_bit_int_eq_self)

section \<open>Integer accessors\<close>

text \<open>
  The accessor functions for integers, one per C type, driven by the value as an integer: how many
  bits the type has and whether it is signed.
\<close>

datatype kind =
    KBOOL | KChar | KUnsignedChar | KShort | KUnsignedShort | KInt | KUnsignedInt
  | KLong | KUnsignedLong | KLongLong | KUnsignedLongLong | KNSInteger

fun signed_kind :: "kind \<Rightarrow> bool" where
  "signed_kind k \<longleftrightarrow> k \<notin> {KUnsignedChar, KUnsignedShort, KUnsignedInt, KUnsignedLong, KUnsignedLongLong}"

fun bits_of :: "kind \<Rightarrow> nat" where
  "bits_of k = (if k \<in> {KChar, KUnsignedChar} then 8 else if k \<in> {KShort, KUnsignedShort} then 16
     else if k \<in> {KBOOL, KInt, KUnsignedInt} then 32 else 64)"

definition representable :: "kind \<Rightarrow> int \<Rightarrow> bool" where
  "representable k v \<longleftrightarrow>
     (if signed_kind k then - (2 ^ (bits_of k - 1)) \<le> v \<and> v < 2 ^ (bits_of k - 1)
      else 0 \<le> v \<and> v < 2 ^ bits_of k)"

fun set_integer :: "kind \<Rightarrow> ('f, 'd, 'l, 's) sender \<Rightarrow> ref \<Rightarrow> SEL \<Rightarrow> int \<Rightarrow> 's \<Rightarrow> 's" where
  "set_integer KBOOL send obj sel v = MulleObjCObjectSetBOOL send obj sel (word_of_int v)"
| "set_integer KChar send obj sel v = MulleObjCObjectSetChar send obj sel (word_of_int v)"
| "set_integer KUnsignedChar send obj sel v = MulleObjCObjectSetUnsignedChar send obj sel (word_of_int v)"
| "set_integer KShort send obj sel v = MulleObjCObjectSetShort send obj sel (word_of_int v)"
| "set_integer KUnsignedShort send obj sel v = MulleObjCObjectSetUnsignedShort send obj sel (word_of_int v)"
| "set_integer KInt send obj sel v = MulleObjCObjectSetInt send obj sel (word_of_int v)"
| "set_integer KUnsignedInt send obj sel v = MulleObjCObjectSetUnsignedInt send obj sel (word_of_int v)"
| "set_integer KLong send obj sel v = MulleObjCObjectSetLong send obj sel (word_of_int v)"
| "set_integer KUnsignedLong send obj sel v = MulleObjCObjectSetUnsignedLong send obj sel (word_of_int v)"
| "set_integer KLongLong send obj sel v = MulleObjCObjectSetLongLong send obj sel (word_of_int v)"
| "set_integer KUnsignedLongLong send obj sel v = MulleObjCObjectSetUnsignedLongLong send obj sel (word_of_int v)"
| "set_integer KNSInteger send obj sel v = MulleObjCObjectSetNSInteger send obj sel (word_of_int v)"

fun get_integer :: "kind \<Rightarrow> ('f, 'd, 'l, 's) sender \<Rightarrow> ref \<Rightarrow> SEL \<Rightarrow> 's \<Rightarrow> int option" where
  "get_integer KBOOL send obj sel s = Some (sint (fst (MulleObjCObjectGetBOOL send obj sel s)))"
| "get_integer KChar send obj sel s = Some (sint (fst (MulleObjCObjectGetChar send obj sel s)))"
| "get_integer KUnsignedChar send obj sel s = Some (uint (fst (MulleObjCObjectGetUnsignedChar send obj sel s)))"
| "get_integer KShort send obj sel s = Some (sint (fst (MulleObjCObjectGetShort send obj sel s)))"
| "get_integer KUnsignedShort send obj sel s = Some (uint (fst (MulleObjCObjectGetUnsignedShort send obj sel s)))"
| "get_integer KInt send obj sel s = Some (sint (fst (MulleObjCObjectGetInt send obj sel s)))"
| "get_integer KUnsignedInt send obj sel s = Some (uint (fst (MulleObjCObjectGetUnsignedInt send obj sel s)))"
| "get_integer KLong send obj sel s = map_option sint (fst (MulleObjCObjectGetLong send obj sel s))"
| "get_integer KUnsignedLong send obj sel s = map_option uint (fst (MulleObjCObjectGetUnsignedLong send obj sel s))"
| "get_integer KLongLong send obj sel s = map_option sint (fst (MulleObjCObjectGetLongLong send obj sel s))"
| "get_integer KUnsignedLongLong send obj sel s = map_option uint (fst (MulleObjCObjectGetUnsignedLongLong send obj sel s))"
| "get_integer KNSInteger send obj sel s = Some (sint (fst (MulleObjCObjectGetNSInteger send obj sel s)))"

lemmas accessor_defs =
  MulleObjCObjectSetBOOL_def MulleObjCObjectGetBOOL_def MulleObjCObjectSetChar_def MulleObjCObjectGetChar_def
  MulleObjCObjectSetUnsignedChar_def MulleObjCObjectGetUnsignedChar_def
  MulleObjCObjectSetShort_def MulleObjCObjectGetShort_def
  MulleObjCObjectSetUnsignedShort_def MulleObjCObjectGetUnsignedShort_def
  MulleObjCObjectSetInt_def MulleObjCObjectGetInt_def
  MulleObjCObjectSetUnsignedInt_def MulleObjCObjectGetUnsignedInt_def
  MulleObjCObjectSetLong_def MulleObjCObjectGetLong_def
  MulleObjCObjectSetUnsignedLong_def MulleObjCObjectGetUnsignedLong_def
  MulleObjCObjectSetLongLong_def MulleObjCObjectGetLongLong_def
  MulleObjCObjectSetUnsignedLongLong_def MulleObjCObjectGetUnsignedLongLong_def
  MulleObjCObjectSetNSInteger_def MulleObjCObjectGetNSInteger_def
  sizeof_long_def sizeof_long_long_def sizeof_pointer_def Let_def

text \<open>
  The methods behind the accessors are compiled for the C type: the setter takes the low bits of its
  parameter, as many as the type has, and the getter returns them as a pointer.  What the upper bits
  of the returned pointer are is left open.
\<close>

definition integer_property ::
    "('f, 'd, 'l, 's) sender \<Rightarrow> ref \<Rightarrow> SEL \<Rightarrow> SEL \<Rightarrow> nat \<Rightarrow> bool" where
  "integer_property send obj setter getter n \<longleftrightarrow>
     (\<forall>r s. take_bit n (pointer_of (send obj getter (InPointer obj) (state_of (send obj setter (InPointer r) s))))
        = take_bit n r)"

lemma ucast_cong_take_bit:
  "take_bit LENGTH('a) v = take_bit LENGTH('a) w \<Longrightarrow> (ucast (v :: 64 word) :: 'a::len word) = ucast w"
  by (rule bit_word_eqI) (metis bit_take_bit_iff bit_ucast_iff)

lemma integer_property_ucast:
  "integer_property send obj setter getter LENGTH('a) \<Longrightarrow>
   (ucast (pointer_of (send obj getter (InPointer obj) (state_of (send obj setter (InPointer r) s)))) :: 'a::len word)
     = ucast r"
  unfolding integer_property_def by (rule ucast_cong_take_bit) blast

lemma integer_property_full:
  assumes "integer_property send obj setter getter 64"
  shows "pointer_of (send obj getter (InPointer obj) (state_of (send obj setter (InPointer r) s))) = r"
  using integer_property_ucast [where 'a = 64, of send obj setter getter r s] assms by simp

text \<open>
  C35. The accessor shortcuts for integers round trip: when setter and getter of a property are
  compiled for a C integer type, setting any value of that type and getting it again yields the
  value, for every type from BOOL to long long, negative values included.
\<close>

theorem accessors_roundtrip:
  assumes "integer_property send obj setter getter (bits_of k)" and "representable k v"
  shows "get_integer k send obj getter (set_integer k send obj setter v s) = Some v"
  using assms integer_property_ucast [where 'a = 8, of send obj setter getter _ s]
    integer_property_ucast [where 'a = 16, of send obj setter getter _ s]
    integer_property_ucast [where 'a = 32, of send obj setter getter _ s]
    integer_property_full [of send obj setter getter _ s]
  by (cases k) (simp_all add: accessor_defs representable_def sint_word_of_int_same uint_word_of_int_same)

text \<open>A receiver for the examples: selector 1 stores its parameter, every other selector returns it.\<close>

definition receiver_slot :: "(unit, unit, unit, ref) sender" where
  "receiver_slot obj sel a s =
     (if sel = 1 then (case a of InPointer r \<Rightarrow> (0, [], r) | InBlock b \<Rightarrow> (0, b, s)) else (s, [], s))"

theorem accessors_roundtrip_witness: "get_integer KShort receiver_slot 5 2 (set_integer KShort receiver_slot 5 1 (- 3) 0) = Some (- 3)"
  by (rule accessors_roundtrip) (simp_all add: integer_property_def receiver_slot_def representable_def)

section \<open>performSelector and implementations\<close>

text \<open>
  Sending a message with the \<open>performSelector\<close> functions is calling the implementation that
  the receiver has for the selector: for zero to five object arguments the functions
  \<open>MulleObjCObjectPerformSelector\<close> and \<open>MulleObjCIMPCall\<close> pack the arguments alike, return the same
  pointer and leave the same state.
\<close>

theorem perform_is_imp_call:
  assumes "\<And>obj sel a s. send obj sel a s = invoke (lookup obj sel) obj sel a s"
  shows "MulleObjCObjectPerformSelector0 send obj sel s = MulleObjCIMPCall0 invoke (lookup obj sel) obj sel s
    \<and> MulleObjCObjectPerformSelector1 send obj sel a s = MulleObjCIMPCall1 invoke (lookup obj sel) obj sel a s
    \<and> MulleObjCObjectPerformSelector send obj sel a s = MulleObjCIMPCall invoke (lookup obj sel) obj sel a s
    \<and> MulleObjCObjectPerformSelector2 send obj sel a b s = MulleObjCIMPCall2 invoke (lookup obj sel) obj sel a b s
    \<and> MulleObjCObjectPerformSelector3 send obj sel a b c s = MulleObjCIMPCall3 invoke (lookup obj sel) obj sel a b c s
    \<and> MulleObjCObjectPerformSelector4 send obj sel a b c d s = MulleObjCIMPCall4 invoke (lookup obj sel) obj sel a b c d s
    \<and> MulleObjCObjectPerformSelector5 send obj sel a b c d e s = MulleObjCIMPCall5 invoke (lookup obj sel) obj sel a b c d e s
    \<and> MulleObjCObjectPerformSelectorDoubleArgument send obj sel x s = MulleObjCIMPCallWithDouble invoke (lookup obj sel) obj sel x s"
  using assms
  by (simp add: MulleObjCObjectPerformSelector0_def MulleObjCIMPCall0_def MulleObjCObjectPerformSelector1_def
      MulleObjCIMPCall1_def MulleObjCObjectPerformSelector_def MulleObjCIMPCall_def
      MulleObjCObjectPerformSelector2_def MulleObjCIMPCall2_def MulleObjCObjectPerformSelector3_def
      MulleObjCIMPCall3_def MulleObjCObjectPerformSelector4_def MulleObjCIMPCall4_def
      MulleObjCObjectPerformSelector5_def MulleObjCIMPCall5_def
      MulleObjCObjectPerformSelectorDoubleArgument_def MulleObjCIMPCallWithDouble_def)

theorem perform_is_imp_call_witness:
  "MulleObjCObjectPerformSelector3 receiver_slot 5 2 7 8 9 40 = MulleObjCIMPCall3 (\<lambda>imp. receiver_slot) 0 5 2 7 8 9 40"
  using perform_is_imp_call [of receiver_slot "\<lambda>imp. receiver_slot" "\<lambda>obj sel. 0" 5 2 40 7 8 9] by simp

section \<open>Many objects\<close>

text \<open>
  What \<open>mulle_objc_objects_call\<close> does: the objects get the message one after the other.  A block is
  one piece of memory for all of them, so each sees what its predecessor has left there.
\<close>

fun call_each :: "('f, 'd, 'l, 's) sender \<Rightarrow> SEL \<Rightarrow> ref list \<Rightarrow> ('f, 'd, 'l) arg \<Rightarrow> 's \<Rightarrow> 's" where
  "call_each send sel [] a s = s"
| "call_each send sel (obj # objs) (InPointer r) s =
     call_each send sel objs (InPointer r) (state_of (send obj sel (InPointer r) s))"
| "call_each send sel (obj # objs) (InBlock b) s =
     (let r = send obj sel (InBlock b) s in call_each send sel objs (InBlock (block_of r)) (state_of r))"

definition calls_each :: "('f, 'd, 'l, 's) sender \<Rightarrow> ('f, 'd, 'l, 's) many \<Rightarrow> bool" where
  "calls_each send objects_call \<longleftrightarrow>
     (\<forall>objects n sel a s. objects_call objects n sel a s = call_each send sel (take (unat n) objects) a s)"

lemma snd_drop_block [simp]: "snd (drop_block r) = state_of r"
  by (cases r rule: drop_block.cases) simp

lemma call_each_pointer:
  "call_each send sel objs (InPointer r) s
     = foldl (\<lambda>s obj. snd (MulleObjCObjectPerformSelector send obj sel r s)) s objs"
  by (induction objs arbitrary: s) (simp_all add: MulleObjCObjectPerformSelector_def)

lemma call_each_block:
  assumes "\<And>obj b s. block_of (send obj sel (InBlock b) s) = b"
  shows "call_each send sel objs (InBlock [F_id a, F_id b]) s
     = foldl (\<lambda>s obj. snd (MulleObjCObjectPerformSelector2 send obj sel a b s)) s objs"
  using assms by (induction objs arbitrary: s) (simp_all add: MulleObjCObjectPerformSelector2_def Let_def)

lemma unat_ucast_32: "unat (ucast (n :: NSUInteger) :: uint32) = unat n mod 2 ^ 32"
  by (simp add: unsigned_ucast_eq take_bit_eq_mod)

text \<open>
  Which objects a call to many objects reaches: the message goes to the first objects in
  order, with one or with two arguments as if each was sent on its own, provided that the methods
  leave their block of two arguments alone; but the count is cut to 32 bits, so that from 4294967296
  objects on only the remainder gets the message.
\<close>

theorem make_objects_perform:
  assumes "calls_each send objects_call" and "\<And>obj b s. block_of (send obj sel (InBlock b) s) = b"
  shows "MulleObjCMakeObjectsPerformSelector objects_call objects n sel a s
      = foldl (\<lambda>s obj. snd (MulleObjCObjectPerformSelector send obj sel a s)) s (take (unat n mod 2 ^ 32) objects)
    \<and> MulleObjCMakeObjectsPerformSelector2 objects_call objects n sel a b s
      = foldl (\<lambda>s obj. snd (MulleObjCObjectPerformSelector2 send obj sel a b s)) s (take (unat n mod 2 ^ 32) objects)"
  using assms
  by (simp add: MulleObjCMakeObjectsPerformSelector_def MulleObjCMakeObjectsPerformSelector2_def
      calls_each_def call_each_pointer call_each_block unat_ucast_32)

definition tally :: "(unit, unit, unit, nat) sender" where
  "tally obj sel a s = (obj, (case a of InPointer r \<Rightarrow> [] | InBlock b \<Rightarrow> b), Suc s)"

theorem make_objects_perform_witness:
  "MulleObjCMakeObjectsPerformSelector (\<lambda>objects n sel. call_each tally sel (take (unat n) objects)) [5, 6, 7] 2 1 0 10 = 12
   \<and> MulleObjCMakeObjectsPerformSelector (\<lambda>objects n sel. call_each tally sel (take (unat n) objects)) [5, 6, 7] 4294967298 1 0 10 = 12"
proof -
  let ?m = "\<lambda>objects n sel. call_each tally sel (take (unat n) objects)"
  have law: "calls_each tally ?m" "\<And>obj b s. block_of (tally obj 1 (InBlock b) s) = b"
    by (simp_all add: calls_each_def tally_def)
  have cut: "unat (2 :: NSUInteger) mod 2 ^ 32 = 2" "unat (4294967298 :: NSUInteger) mod 2 ^ 32 = 2"
    by simp_all
  have two: "foldl (\<lambda>s obj. snd (MulleObjCObjectPerformSelector tally obj 1 0 s)) 10 (take 2 [5, 6, 7]) = 12"
    by (simp add: MulleObjCObjectPerformSelector_def tally_def)
  show ?thesis
    using make_objects_perform [OF law, of "[5, 6, 7]" 2 0 10 0]
      make_objects_perform [OF law, of "[5, 6, 7]" 4294967298 0 10 0]
    unfolding cut two by blast
qed

section \<open>Collected implementations\<close>

lemma imp_array_reverse:
  "MulleObjCIMPArrayCallReverse invoke a obj argument s =
     MulleObjCIMPArrayCall invoke (a\<lparr>imps := rev (imps a)\<rparr>) obj argument s"
  by (simp add: MulleObjCIMPArrayCallReverse_def MulleObjCIMPArrayCall_def foldl_conv_foldr)

end
