(* ===== verification/Selectors.thy ===== *)
theory Selectors
  imports Calls
begin

text \<open>
  Selectors, classes and implementations by name (\<open>src/function/MulleObjCFunctions.m\<close> and the inline
  functions of its header).  The universe of the runtime is modelled by what these functions keep in
  it: the descriptors by selector and the table of hash strings.  The hash function of the runtime
  is the parameter \<open>hash\<close>, its method search the parameter \<open>search\<close>.
\<close>

section \<open>Selectors by name\<close>

record descriptor =
  desc_name :: string
  desc_signature :: string
  guessed :: bool

record universe =
  descriptors :: "SEL \<rightharpoonup> descriptor"
  hashstrings :: "SEL \<rightharpoonup> string"

definition count_params :: "string \<Rightarrow> nat" where
  "count_params name = foldl (\<lambda>n c. n + (if c = CHR '':'' then 1 else 0)) 0 name"

definition fake_signatures :: "string list" where
  "fake_signatures = [
     ''@@:'',
     ''@@:@'',
     ''@@:@@'',
     ''@@:@@@'',
     ''@@:@@@@'',
     ''@@:@@@@@'',
     ''@@:@@@@@@'',
     ''@@:@@@@@@@'',
     ''@@:@@@@@@@@'',
     ''@@:@@@@@@@@@'',
     ''@@:@@@@@@@@@@'',
     ''@@:@@@@@@@@@@@'',
     ''@@:@@@@@@@@@@@@'',
     ''@@:@@@@@@@@@@@@@'',
     ''@@:@@@@@@@@@@@@@@'',
     ''@@:@@@@@@@@@@@@@@@'']"

text \<open>The signature of a new descriptor: from the table, or filled into fresh memory.\<close>

definition guess_signature :: "string \<Rightarrow> string" where
  "guess_signature name =
     (let n = count_params name in
      if n < 16 then fake_signatures ! n else (replicate (n + 3) CHR ''@'')[2 := CHR '':''])"

text \<open>The name \<open>None\<close> is the null pointer, 0 the selector \<open>MULLE_OBJC_NO_METHODID\<close>.\<close>

definition MulleObjCCreateSelectorUTF8String ::
    "(string \<Rightarrow> SEL) \<Rightarrow> string option \<Rightarrow> universe \<Rightarrow> SEL \<times> universe" where
  "MulleObjCCreateSelectorUTF8String hash name u =
     (case name of None \<Rightarrow> (0, u)
      | Some name \<Rightarrow>
          (let methodid = hash name in
           case descriptors u methodid of Some desc \<Rightarrow> (methodid, u)
           | None \<Rightarrow>
               (let desc = \<lparr>desc_name = name, desc_signature = guess_signature name, guessed = True\<rparr>
                in (methodid, u\<lparr>descriptors := (descriptors u)(methodid \<mapsto> desc)\<rparr>))))"

definition MulleObjCSelectorGetNameUTF8String :: "SEL \<Rightarrow> universe \<Rightarrow> string option" where
  "MulleObjCSelectorGetNameUTF8String sel u =
     (case descriptors u sel of Some desc \<Rightarrow> Some (desc_name desc) | None \<Rightarrow> hashstrings u sel)"

lemma count_params_length: "count_params name = length (filter (\<lambda>c. c = CHR '':'') name)"
proof -
  have "foldl (\<lambda>n c. n + (if c = CHR '':'' then 1 else 0)) k name = k + length (filter (\<lambda>c. c = CHR '':'') name)" for k :: nat
    by (induction name arbitrary: k) simp_all
  then show ?thesis by (simp add: count_params_def)
qed

lemma fake_signatures_nth: "n < 16 \<Longrightarrow> fake_signatures ! n = ''@@:'' @ replicate n CHR ''@''"
proof -
  have "list_all (\<lambda>n. fake_signatures ! n = ''@@:'' @ replicate n CHR ''@'') [0..<16]"
    by code_simp
  then show "n < 16 \<Longrightarrow> ?thesis"
    by (auto simp: list_all_iff)
qed

lemma guess_signature_eq: "guess_signature name = ''@@:'' @ replicate (count_params name) CHR ''@''"
proof (cases "count_params name < 16")
  case True
  then show ?thesis by (simp add: guess_signature_def fake_signatures_nth)
next
  case False
  have "(replicate (n + 3) x)[2 := y] = [x, x, y] @ replicate n x" for n and x y :: char
    by (simp add: numeral_eq_Suc)
  then show ?thesis using False by (simp add: guess_signature_def Let_def)
qed

section \<open>Classes\<close>

text \<open>
  Of a class these functions read its identifier, whether it is a tagged pointer class and its
  inheritance flags.  Objects have an \<open>isa\<close>; the object reference 0 is \<open>nil\<close>, the class reference 0
  is \<open>Nil\<close>.
\<close>

record class_info =
  classid :: SEL
  tagged_class :: bool
  inheritance :: uint32

record heap =
  isa :: "ref \<Rightarrow> ref"
  classes :: "ref \<Rightarrow> class_info"
  infraclasses :: "SEL \<Rightarrow> ref"

definition MulleObjCObjectGetClass :: "ref \<Rightarrow> heap \<Rightarrow> ref" where
  "MulleObjCObjectGetClass obj h = (if obj \<noteq> 0 then isa h obj else 0)"

definition MulleObjCInstanceGetClass :: "ref \<Rightarrow> heap \<Rightarrow> ref" where
  "MulleObjCInstanceGetClass obj h = MulleObjCObjectGetClass obj h"

definition NSClassFromObject :: "ref \<Rightarrow> heap \<Rightarrow> ref" where
  "NSClassFromObject obj h = MulleObjCObjectGetClass obj h"

definition MulleObjCClassGetClassID :: "ref \<Rightarrow> heap \<Rightarrow> SEL" where
  "MulleObjCClassGetClassID cls h = (if cls = 0 then 0 else classid (classes h cls))"

definition MulleObjCInstanceGetClassID :: "ref \<Rightarrow> heap \<Rightarrow> SEL" where
  "MulleObjCInstanceGetClassID obj h = (if obj = 0 then 0 else classid (classes h (isa h obj)))"

definition MulleObjCClassGetID :: "ref \<Rightarrow> heap \<Rightarrow> SEL" where
  "MulleObjCClassGetID cls h = (if cls \<noteq> 0 then classid (classes h cls) else 0)"

definition MulleObjCLookupClassByClassID :: "SEL \<Rightarrow> heap \<Rightarrow> ref" where
  "MulleObjCLookupClassByClassID cid h = (if cid = 0 then 0 else infraclasses h cid)"

definition MulleObjCLookupClassByNameUTF8String :: "(string \<Rightarrow> SEL) \<Rightarrow> string option \<Rightarrow> heap \<Rightarrow> ref" where
  "MulleObjCLookupClassByNameUTF8String hash name h =
     (case name of None \<Rightarrow> 0 | Some name \<Rightarrow> infraclasses h (hash name))"

datatype set_class_error = Class_is_nil | Class_is_tagged

definition MulleObjCInstanceSetClass :: "ref \<Rightarrow> ref \<Rightarrow> heap \<Rightarrow> set_class_error + heap" where
  "MulleObjCInstanceSetClass obj cls h =
     (if obj = 0 then Inr h
      else if cls = 0 then Inl Class_is_nil
      else if tagged_class (classes h cls) then Inl Class_is_tagged
      else Inr (h\<lparr>isa := (isa h)(obj := cls)\<rparr>))"

section \<open>Searching implementations\<close>

text \<open>
  What a search is asked for: the first method of a selector, the one of the superclass, the one
  that the method of a class and category hides, or exactly that of a class and category.  The
  answer names the implementation with the class and the category it is from.
\<close>

datatype search_args =
    Default SEL
  | Super SEL SEL
  | Overridden SEL SEL SEL
  | Specific SEL SEL SEL

record found_method =
  implementation :: ref
  in_class :: SEL
  in_category :: SEL

type_synonym searcher = "ref \<Rightarrow> search_args \<Rightarrow> uint32 \<Rightarrow> found_method option"

text \<open>The flags of \<open>MULLE_OBJC_CLASS_DONT_INHERIT_...\<close>, whose values belong to the runtime.\<close>

record inherit_flags =
  dont_superclass :: uint32
  dont_protocols :: uint32
  dont_protocol_categories :: uint32
  dont_protocol_meta :: uint32
  dont_class :: uint32
  dont_superclass_inheritance :: uint32

definition imp_or_null :: "found_method option \<Rightarrow> ref" where
  "imp_or_null m = (case m of None \<Rightarrow> 0 | Some m \<Rightarrow> implementation m)"

definition MulleObjCObjectSearchSuperIMP :: "searcher \<Rightarrow> heap \<Rightarrow> ref \<Rightarrow> SEL \<Rightarrow> SEL \<Rightarrow> ref" where
  "MulleObjCObjectSearchSuperIMP search h obj sel cid =
     (if obj = 0 then 0
      else let cls = isa h obj in imp_or_null (search cls (Super sel cid) (inheritance (classes h cls))))"

definition MulleObjCObjectSearchOverriddenIMP :: "searcher \<Rightarrow> heap \<Rightarrow> ref \<Rightarrow> SEL \<Rightarrow> SEL \<Rightarrow> SEL \<Rightarrow> ref" where
  "MulleObjCObjectSearchOverriddenIMP search h obj sel cid catid =
     (if obj = 0 then 0
      else let cls = isa h obj
           in imp_or_null (search cls (Overridden sel cid catid) (inheritance (classes h cls))))"

definition MulleObjCObjectSearchClobberedIMP ::
    "inherit_flags \<Rightarrow> searcher \<Rightarrow> heap \<Rightarrow> ref \<Rightarrow> SEL \<Rightarrow> SEL \<Rightarrow> SEL \<Rightarrow> ref" where
  "MulleObjCObjectSearchClobberedIMP flags search h obj sel cid catid =
     (if obj = 0 then 0
      else let cls = isa h obj;
               inh = inheritance (classes h cls) OR dont_superclass flags OR dont_protocols flags
                       OR dont_protocol_categories flags
           in imp_or_null (search cls (Overridden sel cid catid) inh))"

definition MulleObjCObjectSearchSpecificIMP :: "searcher \<Rightarrow> heap \<Rightarrow> ref \<Rightarrow> SEL \<Rightarrow> SEL \<Rightarrow> SEL \<Rightarrow> ref" where
  "MulleObjCObjectSearchSpecificIMP search h obj sel cid catid =
     (if obj = 0 then 0
      else let cls = isa h obj
           in imp_or_null (search cls (Specific sel cid catid) (inheritance (classes h cls))))"

text \<open>Implemented by the class itself or one of its categories.\<close>

definition MulleObjCClassImplementsSelector :: "inherit_flags \<Rightarrow> searcher \<Rightarrow> ref \<Rightarrow> SEL \<Rightarrow> bool" where
  "MulleObjCClassImplementsSelector flags search cls sel =
     (if cls = 0 \<or> sel = 0 then False
      else search cls (Default sel) (dont_superclass flags OR dont_protocols flags
             OR dont_protocol_categories flags OR dont_protocol_meta flags) \<noteq> None)"

section \<open>The clobber chain\<close>

text \<open>
  The loop of \<open>_mulle_objc_class_search_clobber_chain\<close>.  \<open>found\<close> is \<open>p - array\<close>, \<open>filled\<close> what has
  been stored into the array of \<open>n\<close> elements.  The loop ends when a search fails, which is up to the
  runtime: not returning is \<open>None\<close>.  The result is cut to an \<open>unsigned int\<close>.
\<close>

partial_function (option) clobber_loop ::
    "searcher \<Rightarrow> ref \<Rightarrow> SEL \<Rightarrow> uint32 \<Rightarrow> nat \<Rightarrow> search_args \<Rightarrow> nat \<Rightarrow> ref list \<Rightarrow> (nat \<times> ref list) option"
  where
  "clobber_loop search cls sel inh n args found filled =
     (case search cls args inh of None \<Rightarrow> Some (found, filled)
      | Some m \<Rightarrow>
          clobber_loop search cls sel inh n (Overridden sel (in_class m) (in_category m)) (Suc found)
            (if found < n then filled @ [implementation m] else filled))"

declare clobber_loop.simps [code]

definition clobber_chain ::
    "inherit_flags \<Rightarrow> searcher \<Rightarrow> heap \<Rightarrow> ref \<Rightarrow> SEL \<Rightarrow> uint32 \<Rightarrow> (uint32 \<times> ref list) option" where
  "clobber_chain flags search h cls sel n =
     (let inh = inheritance (classes h cls) OR dont_superclass flags OR dont_protocols flags
                  OR dont_protocol_categories flags
      in map_option (\<lambda>(found, filled). (of_nat found, filled))
           (clobber_loop search cls sel inh (unat n) (Default sel) 0 []))"

definition MulleObjCObjectSearchClobberChain ::
    "inherit_flags \<Rightarrow> searcher \<Rightarrow> heap \<Rightarrow> ref \<Rightarrow> SEL \<Rightarrow> uint32 \<Rightarrow> (uint32 \<times> ref list) option" where
  "MulleObjCObjectSearchClobberChain flags search h obj sel n =
     (if obj = 0 then Some (0, []) else clobber_chain flags search h (isa h obj) sel n)"

text \<open>
  The methods \<open>ms\<close> that a class has for a selector, first the one that is called: each search for
  what a method hides yields the next.
\<close>

fun chained :: "searcher \<Rightarrow> ref \<Rightarrow> SEL \<Rightarrow> uint32 \<Rightarrow> search_args \<Rightarrow> found_method list \<Rightarrow> bool" where
  "chained search cls sel inh args [] \<longleftrightarrow> search cls args inh = None"
| "chained search cls sel inh args (m # ms) \<longleftrightarrow>
     search cls args inh = Some m \<and> chained search cls sel inh (Overridden sel (in_class m) (in_category m)) ms"

lemma clobber_loop_chained:
  "chained search cls sel inh args ms \<Longrightarrow>
   clobber_loop search cls sel inh n args found filled
     = Some (found + length ms, filled @ map implementation (take (n - found) ms))"
proof (induction ms arbitrary: args found filled)
  case Nil
  then show ?case by (subst clobber_loop.simps) simp
next
  case (Cons m ms)
  then show ?case
    by (subst clobber_loop.simps) (auto simp: take_Cons' not_less)
qed

section \<open>Properties\<close>

text \<open>
  A selector that is created from a name the universe does not know gets a descriptor from
  which the name can be read back, with a signature of two hidden arguments and one object for every
  colon, also beyond the sixteen prepared signatures; a selector that is known is left as it is.
\<close>

theorem created_selector:
  assumes "MulleObjCCreateSelectorUTF8String hash (Some name) u = (sel, u')"
  shows "sel = hash name
    \<and> (case descriptors u sel of
         None \<Rightarrow> MulleObjCSelectorGetNameUTF8String sel u' = Some name
           \<and> map_option desc_signature (descriptors u' sel)
               = Some (''@@:'' @ replicate (length (filter (\<lambda>c. c = CHR '':'') name)) CHR ''@'')
       | Some desc \<Rightarrow> u' = u)"
  using assms
  by (auto simp: MulleObjCCreateSelectorUTF8String_def MulleObjCSelectorGetNameUTF8String_def
      guess_signature_eq count_params_length Let_def split: option.splits)

theorem created_selector_witness:
  "MulleObjCSelectorGetNameUTF8String 77
     (snd (MulleObjCCreateSelectorUTF8String (\<lambda>name. 77) (Some ''set:to:'')
        \<lparr>descriptors = Map.empty, hashstrings = Map.empty\<rparr>)) = Some ''set:to:''"
  using created_selector [of "\<lambda>name. 77" "''set:to:''" "\<lparr>descriptors = Map.empty, hashstrings = Map.empty\<rparr>"]
  by (simp add: MulleObjCCreateSelectorUTF8String_def guess_signature_eq count_params_def)

text \<open>
  The search for the clobber chain: whenever the chain of hidden methods is finite the loop
  ends, returns how many there are, even when the array is too short, and stores as many as fit in
  their order.
\<close>

theorem clobber_chain_complete:
  assumes "obj \<noteq> 0"
    and "chained search (isa h obj) sel
      (inheritance (classes h (isa h obj)) OR dont_superclass flags OR dont_protocols flags
         OR dont_protocol_categories flags) (Default sel) ms"
    and "length ms < 2 ^ 32"
  shows "\<exists>k. MulleObjCObjectSearchClobberChain flags search h obj sel n
      = Some (k, map implementation (take (unat n) ms)) \<and> unat k = length ms"
proof (intro exI conjI)
  show "MulleObjCObjectSearchClobberChain flags search h obj sel n
      = Some (of_nat (length ms), map implementation (take (unat n) ms))"
    using assms(1) clobber_loop_chained [OF assms(2), of "unat n" 0 "[]"]
    by (simp add: MulleObjCObjectSearchClobberChain_def clobber_chain_def)
  show "unat (of_nat (length ms) :: uint32) = length ms"
    using assms(3) by (simp add: unat_of_nat_small)
qed

text \<open>A class 9 with a method in the category 3 that hides the one of the class.\<close>

definition demo_search :: searcher where
  "demo_search cls args inh =
     (case args of
        Default sel \<Rightarrow> Some \<lparr>implementation = 100, in_class = 9, in_category = 3\<rparr>
      | Overridden sel cid catid \<Rightarrow>
          (if catid = 3 then Some \<lparr>implementation = 101, in_class = 9, in_category = 0\<rparr> else None)
      | _ \<Rightarrow> None)"

definition demo_heap :: heap where
  "demo_heap = \<lparr>isa = (\<lambda>obj. 9), classes = (\<lambda>cls. \<lparr>classid = 9, tagged_class = False, inheritance = 0\<rparr>),
     infraclasses = (\<lambda>cid. 0)\<rparr>"

theorem clobber_chain_complete_witness:
  "map_option snd (MulleObjCObjectSearchClobberChain \<lparr>dont_superclass = 1, dont_protocols = 2,
     dont_protocol_categories = 4, dont_protocol_meta = 8, dont_class = 16, dont_superclass_inheritance = 32\<rparr>
     demo_search demo_heap 5 7 1) = Some [100]"
proof -
  let ?f = "\<lparr>dont_superclass = 1, dont_protocols = 2, dont_protocol_categories = 4, dont_protocol_meta = 8,
     dont_class = 16, dont_superclass_inheritance = 32\<rparr>"
  let ?ms = "[\<lparr>implementation = 100, in_class = 9, in_category = 3\<rparr>, \<lparr>implementation = 101, in_class = 9, in_category = 0\<rparr>]"
  have "\<exists>k. MulleObjCObjectSearchClobberChain ?f demo_search demo_heap 5 7 1
      = Some (k, map implementation (take (unat (1 :: uint32)) ?ms)) \<and> unat k = length ?ms"
    by (rule clobber_chain_complete) (simp_all add: demo_search_def)
  then show ?thesis by auto
qed

end
