(* ===== verification/ClassCalls.thy ===== *)
theory ClassCalls
  imports Selectors
begin

text \<open>
  The rest of the class functions of \<open>src/function/MulleObjCFunctions.h\<close> and
  \<open>src/function/MulleObjCFunctions.m\<close>: clobber chains of classes, the collecting of all implementations of a
  method along a class, names, properties, extra bytes, and sizes of types.

  With \<open>asserts\<close> a failed assertion ends the process.
\<close>

section \<open>Clobber chains of a class\<close>

text \<open>\<open>metaclass\<close> is the class of the class methods; an infraclass is its own class.\<close>

definition MulleObjCClassSearchInstanceClobberChain ::
    "inherit_flags \<Rightarrow> searcher \<Rightarrow> heap \<Rightarrow> ref \<Rightarrow> SEL \<Rightarrow> uint32 \<Rightarrow> (uint32 \<times> ref list) option" where
  "MulleObjCClassSearchInstanceClobberChain flags search h self sel n = clobber_chain flags search h self sel n"

definition MulleObjCClassSearchClobberChain ::
    "inherit_flags \<Rightarrow> searcher \<Rightarrow> heap \<Rightarrow> (ref \<Rightarrow> ref) \<Rightarrow> ref \<Rightarrow> SEL \<Rightarrow> uint32 \<Rightarrow> (uint32 \<times> ref list) option" where
  "MulleObjCClassSearchClobberChain flags search h metaclass self sel n =
     (let meta = metaclass self in clobber_chain flags search h meta sel n)"

section \<open>Collecting implementations\<close>

record MulleObjCCollectionInfo =
  stopClass :: ref
  info_selector :: SEL
  info_inheritance :: uint32

definition MulleObjCCollectionInfoMake :: "ref \<Rightarrow> SEL \<Rightarrow> uint32 \<Rightarrow> MulleObjCCollectionInfo" where
  "MulleObjCCollectionInfoMake stop sel inh = \<lparr>stopClass = stop, info_selector = sel, info_inheritance = inh\<rparr>"

definition MulleObjCCollectionInfoMakeCategories :: "inherit_flags \<Rightarrow> ref \<Rightarrow> SEL \<Rightarrow> MulleObjCCollectionInfo" where
  "MulleObjCCollectionInfoMakeCategories flags cls sel =
     \<lparr>stopClass = cls, info_selector = sel, info_inheritance = dont_protocols flags OR dont_class flags\<rparr>"

text \<open>
  The search of the runtime hands every method it comes across to the callback, which appends its
  implementation: \<open>methods_along cls sel stop inh\<close> are these methods in their order.  \<open>None\<close> for an \<open>info\<close>
  or an array that is the null pointer.
\<close>

type_synonym walker = "ref \<Rightarrow> SEL \<Rightarrow> SEL \<Rightarrow> uint32 \<Rightarrow> found_method list"

definition MulleObjCClassCollectImplementations ::
    "walker \<Rightarrow> heap \<Rightarrow> ref \<Rightarrow> MulleObjCCollectionInfo option \<Rightarrow> ref list option \<Rightarrow> ref list option" where
  "MulleObjCClassCollectImplementations methods_along h startClass info array =
     (case (info, array) of
        (Some info, Some array) \<Rightarrow>
          if startClass = 0 then Some array
          else let stop = (if stopClass info \<noteq> 0 then classid (classes h (stopClass info)) else 0);
                   inh = (if info_inheritance info = 0 then inheritance (classes h startClass) else info_inheritance info)
               in Some (array @ map implementation (methods_along startClass (info_selector info) stop inh))
      | _ \<Rightarrow> array)"

definition MulleObjCIMPArrayInit :: "walker \<Rightarrow> heap \<Rightarrow> ref \<Rightarrow> ref \<Rightarrow> SEL \<Rightarrow> uint32 \<Rightarrow> imp_array" where
  "MulleObjCIMPArrayInit methods_along h cls stopCls sel flags =
     (let info = MulleObjCCollectionInfoMake stopCls sel flags
      in \<lparr>imps = the (MulleObjCClassCollectImplementations methods_along h cls (Some info) (Some [])), selector = sel\<rparr>)"

definition MulleObjCIMPArrayInitCategoryOnly :: "inherit_flags \<Rightarrow> walker \<Rightarrow> heap \<Rightarrow> ref \<Rightarrow> SEL \<Rightarrow> imp_array" where
  "MulleObjCIMPArrayInitCategoryOnly flags methods_along h cls sel =
     (let categories_only = dont_protocols flags OR dont_class flags OR dont_superclass flags
                              OR dont_superclass_inheritance flags
      in MulleObjCIMPArrayInit methods_along h cls 0 sel categories_only)"

text \<open>The pointer array gives its memory back; its elements are not touched.\<close>

definition MulleObjCIMPArrayDone :: "imp_array \<Rightarrow> imp_array" where
  "MulleObjCIMPArrayDone a = a\<lparr>imps := []\<rparr>"

text \<open>
  The constructors of the categories of a class: collected and called in reverse, each is called once, on
  the object and with the argument, and what is hidden is called before what hides it.
\<close>

lemma collected_calls:
  assumes "cls \<noteq> 0" and "dont_protocols flags OR dont_class flags OR dont_superclass flags
                              OR dont_superclass_inheritance flags \<noteq> 0"
  shows "MulleObjCIMPArrayCallReverse invoke (MulleObjCIMPArrayInitCategoryOnly flags methods_along h cls sel) obj argument s =
     foldl (\<lambda>s m. snd (MulleObjCIMPCall invoke (implementation m) obj sel argument s)) s
       (rev (methods_along cls sel 0 (dont_protocols flags OR dont_class flags OR dont_superclass flags
                              OR dont_superclass_inheritance flags)))"
  using assms
  by (simp add: MulleObjCIMPArrayCallReverse_def MulleObjCIMPArrayInitCategoryOnly_def MulleObjCIMPArrayInit_def
      MulleObjCClassCollectImplementations_def MulleObjCCollectionInfoMake_def Let_def foldl_conv_foldr foldr_map o_def)

section \<open>Affinity and constants\<close>

text \<open>\<open>thread_ids\<close> and \<open>constants\<close> are what the header of an object says of its thread and its retain count.\<close>

definition MulleObjCInstanceSetThreadAffinity :: "(ref \<Rightarrow> ref) \<Rightarrow> ref \<Rightarrow> ref \<Rightarrow> (ref \<Rightarrow> ref) \<Rightarrow> ref \<Rightarrow> ref" where
  "MulleObjCInstanceSetThreadAffinity thread_get_id obj thread thread_ids =
     (if obj \<noteq> 0 then thread_ids(obj := thread_get_id thread) else thread_ids)"

definition MulleObjCInstanceConstantify :: "bool \<Rightarrow> (ref \<Rightarrow> bool) \<Rightarrow> ref \<Rightarrow> ref set \<Rightarrow> ref set outcome" where
  "MulleObjCInstanceConstantify asserts is_instance obj constants =
     (if obj \<noteq> 0 then (if asserts \<and> \<not> is_instance obj then Abort else Done (insert obj constants)) else Done constants)"

section \<open>Names\<close>

text \<open>\<open>class_names\<close>, \<open>protocols\<close> are the names that the runtime knows; the null pointer is \<open>None\<close>.\<close>

definition MulleObjCClassGetNameUTF8String :: "bool \<Rightarrow> (ref \<Rightarrow> bool) \<Rightarrow> (ref \<Rightarrow> string) \<Rightarrow> ref \<Rightarrow> string option outcome" where
  "MulleObjCClassGetNameUTF8String asserts is_class class_names cls =
     (if cls = 0 then Done None
      else if asserts \<and> \<not> is_class cls then Abort else Done (Some (class_names cls)))"

definition MulleObjCClassUTF8String :: "bool \<Rightarrow> (ref \<Rightarrow> bool) \<Rightarrow> (ref \<Rightarrow> string) \<Rightarrow> ref \<Rightarrow> string option outcome" where
  "MulleObjCClassUTF8String asserts is_class class_names cls =
     MulleObjCClassGetNameUTF8String asserts is_class class_names cls"

definition MulleObjCSelectorUTF8String :: "SEL \<Rightarrow> universe \<Rightarrow> string option" where
  "MulleObjCSelectorUTF8String sel u = MulleObjCSelectorGetNameUTF8String sel u"

definition MulleObjCProtocolGetNameUTF8String :: "uint32 \<Rightarrow> (uint32 \<rightharpoonup> string) \<Rightarrow> string option" where
  "MulleObjCProtocolGetNameUTF8String proto protocols = protocols proto"

definition MulleObjCProtocolUTF8String :: "uint32 \<Rightarrow> (uint32 \<rightharpoonup> string) \<Rightarrow> string option" where
  "MulleObjCProtocolUTF8String proto protocols = MulleObjCProtocolGetNameUTF8String proto protocols"

text \<open>\<open>class_message\<close> is what the object answers to \<open>-class\<close>; nil answers Nil.\<close>

definition MulleObjCObjectGetClassNameUTF8String ::
    "bool \<Rightarrow> (ref \<Rightarrow> bool) \<Rightarrow> (ref \<Rightarrow> string) \<Rightarrow> (ref \<Rightarrow> ref) \<Rightarrow> ref \<Rightarrow> string option outcome" where
  "MulleObjCObjectGetClassNameUTF8String asserts is_class class_names class_message obj =
     MulleObjCClassGetNameUTF8String asserts is_class class_names (if obj = 0 then 0 else class_message obj)"

definition MulleObjCInstanceGetClassNameUTF8String ::
    "bool \<Rightarrow> (ref \<Rightarrow> bool) \<Rightarrow> (ref \<Rightarrow> bool) \<Rightarrow> (ref \<Rightarrow> string) \<Rightarrow> (ref \<Rightarrow> ref) \<Rightarrow> ref \<Rightarrow> string option outcome" where
  "MulleObjCInstanceGetClassNameUTF8String asserts is_instance_or_nil is_class class_names class_message obj =
     (if asserts \<and> \<not> is_instance_or_nil obj then Abort
      else MulleObjCObjectGetClassNameUTF8String asserts is_class class_names class_message obj)"

section \<open>Extra bytes and properties\<close>

definition MulleObjCInstanceGetExtraBytes :: "bool \<Rightarrow> (ref \<Rightarrow> bool) \<Rightarrow> (ref \<Rightarrow> ref) \<Rightarrow> ref \<Rightarrow> ref outcome" where
  "MulleObjCInstanceGetExtraBytes asserts is_instance_or_nil get_extra obj =
     (if asserts \<and> \<not> is_instance_or_nil obj then Abort else Done (if obj \<noteq> 0 then get_extra obj else 0))"

definition MulleObjCClassGetLoadAddress :: "(ref \<Rightarrow> ref) \<Rightarrow> ref \<Rightarrow> ref" where
  "MulleObjCClassGetLoadAddress loadclass cls = (if cls = 0 then 0 else loadclass cls)"

definition MulleObjCClassSearchProperty :: "bool \<Rightarrow> (ref \<Rightarrow> bool) \<Rightarrow> (ref \<Rightarrow> SEL \<Rightarrow> ref) \<Rightarrow> ref \<Rightarrow> SEL \<Rightarrow> ref outcome" where
  "MulleObjCClassSearchProperty asserts is_infraclass search_property cls propertyid =
     (if cls = 0 then Done 0
      else if asserts \<and> \<not> is_infraclass cls then Abort else Done (search_property cls propertyid))"

definition MulleObjCInstanceSearchProperty ::
    "bool \<Rightarrow> (ref \<Rightarrow> bool) \<Rightarrow> (ref \<Rightarrow> bool) \<Rightarrow> (ref \<Rightarrow> SEL \<Rightarrow> ref) \<Rightarrow> heap \<Rightarrow> ref \<Rightarrow> SEL \<Rightarrow> ref outcome" where
  "MulleObjCInstanceSearchProperty asserts is_instance_or_nil is_infraclass search_property h obj propertyid =
     (if asserts \<and> \<not> is_instance_or_nil obj then Abort
      else if obj = 0 then Done 0
      else let infra = isa h obj in
        if asserts \<and> \<not> is_infraclass infra then Abort else Done (search_property infra propertyid))"

lemma property_of_instance:
  "obj \<noteq> 0 \<Longrightarrow> isa h obj \<noteq> 0 \<Longrightarrow> MulleObjCInstanceSearchProperty False io ic sp h obj p
     = MulleObjCClassSearchProperty False ic sp (MulleObjCObjectGetClass obj h) p"
  by (simp add: MulleObjCInstanceSearchProperty_def MulleObjCClassSearchProperty_def MulleObjCObjectGetClass_def Let_def)

section \<open>Sizes of types\<close>

record typeinfo =
  bits_size :: uint32
  natural_alignment :: "16 word"

text \<open>
  \<open>supply_typeinfo\<close> is the parser of the runtime: the rest of the type and what it is.  \<open>want_size\<close> and
  \<open>want_alignment\<close> tell which pointers are not null; what is stored through them is \<open>Some\<close>.
\<close>

definition MulleObjCGetSizeAndAlignment ::
    "bool \<Rightarrow> (string \<Rightarrow> string option \<times> typeinfo) \<Rightarrow> string option \<Rightarrow> bool \<Rightarrow> bool
       \<Rightarrow> (string option \<times> NSUInteger option \<times> NSUInteger option) outcome" where
  "MulleObjCGetSizeAndAlignment asserts supply_typeinfo type want_size want_alignment =
     (case type of
        None \<Rightarrow> if asserts then Abort
                else Done (None, if want_size then Some 0 else None, if want_alignment then Some 0 else None)
      | Some t \<Rightarrow>
          if \<not> want_size \<and> \<not> want_alignment then Done (fst (supply_typeinfo t), None, None)
          else let (next, info) = supply_typeinfo t in
            Done (next, if want_size then Some (ucast (drop_bit 3 (bits_size info))) else None,
                  if want_alignment then Some (ucast (natural_alignment info)) else None))"

definition NSGetSizeAndAlignment where
  "NSGetSizeAndAlignment asserts supply_typeinfo type want_size want_alignment =
     MulleObjCGetSizeAndAlignment asserts supply_typeinfo type want_size want_alignment"

end
