(* ===== verification/Describe.thy ===== *)
theory Describe
  imports Prelude "HOL-Library.Sublist" "HOL-Library.List_Lexorder" "HOL-Library.Char_ord"
begin

text \<open>
  Printing memory by its type encoding, \<open>_MulleObjCDescribeMemory\<close> and its callers in
  \<open>src/function/MulleObjCFunctions.m\<close>.

  Addresses are natural numbers; the described memory begins at an address other than 0.  The text
  goes to the end of a buffer, a string.  The function also moves two cursors, one through the
  memory and one through the type.  A type string ends with a zero byte: the cursor \<open>Some []\<close> is at
  that byte and the cursor \<open>None\<close> is behind it.  The addresses and sizes of all reads are recorded.

  The characters of an encoding, the function \<open>mulle_objc_signature_next_type\<close> and the text of one
  scalar value belong to the runtime and to the buffer library; they are the fields of \<open>env\<close>.
\<close>

section \<open>Encodings\<close>

text \<open>The types that are read as one scalar value.\<close>

datatype scalar =
    S_id | S_sel | S_bool | S_lng_dbl | S_dbl | S_flt | S_chr | S_int | S_lng | S_lng_lng | S_sht
  | S_uchr | S_uint | S_ulng | S_ulng_lng | S_usht | S_charptr

datatype token =
    T_scalar scalar
  | T_ptr
  | T_void
  | T_struct_begin | T_struct_end
  | T_union_begin | T_union_end
  | T_array_begin | T_array_end
  | T_unsupported
  | T_other

record env =
  classify :: "char \<Rightarrow> token"
  next_type :: "string \<Rightarrow> string option"
  fmt :: "scalar \<Rightarrow> nat \<Rightarrow> string"
  fmt_pointer :: "nat \<Rightarrow> string"

text \<open>Size, and alignment, of the C type that a scalar is read as.  A BOOL is read as an int.\<close>

fun scalar_size :: "scalar \<Rightarrow> nat" where
  "scalar_size S_id = 8"
| "scalar_size S_sel = 4"
| "scalar_size S_bool = 4"
| "scalar_size S_lng_dbl = 16"
| "scalar_size S_dbl = 8"
| "scalar_size S_flt = 4"
| "scalar_size S_chr = 1"
| "scalar_size S_int = 4"
| "scalar_size S_lng = 8"
| "scalar_size S_lng_lng = 8"
| "scalar_size S_sht = 2"
| "scalar_size S_uchr = 1"
| "scalar_size S_uint = 4"
| "scalar_size S_ulng = 8"
| "scalar_size S_ulng_lng = 8"
| "scalar_size S_usht = 2"
| "scalar_size S_charptr = 8"

definition align_to :: "nat \<Rightarrow> nat \<Rightarrow> nat" where
  "align_to p a = (p + a - 1) div a * a"

text \<open>The macro \<open>get_scalarvalue\<close>: where the value is read and the address behind it.\<close>

definition get_scalarvalue :: "nat \<Rightarrow> nat \<Rightarrow> nat \<Rightarrow> (nat \<times> nat) option" where
  "get_scalarvalue n p sentinel =
     (let a = align_to p n; q = a + n in if q > sentinel then None else Some (a, q))"

text \<open>The C function \<open>atoi\<close> on the type string.\<close>

definition digits_value :: "string \<Rightarrow> int" where
  "digits_value s = foldl (\<lambda>n c. 10 * n + (of_char c - 48)) 0 (takeWhile (\<lambda>c. CHR ''0'' \<le> c \<and> c \<le> CHR ''9'') s)"

definition atoi :: "string \<Rightarrow> int" where
  "atoi s = (let t = dropWhile (\<lambda>c. c = CHR '' '' \<or> (CHR 0x09 \<le> c \<and> c \<le> CHR 0x0D)) s in
     case t of
       [] \<Rightarrow> 0
     | c # cs \<Rightarrow> if c = CHR ''-'' then - digits_value cs else if c = CHR ''+'' then digits_value cs
                else digits_value t)"

section \<open>The description\<close>

text \<open>
  How a call ends: with both cursors, with NULL, by reading behind the end of the type, by using a
  pointer that was never set, or by running out of the fuel of the model.
\<close>

datatype progress = Next nat "string option" | Null | Overrun | Uninitialised | Fuel

type_synonym printed = "string \<times> (nat \<times> nat) list"

definition append_text :: "printed \<Rightarrow> string \<Rightarrow> printed" where
  "append_text out t = (fst out @ t, snd out)"

definition at_token :: "env \<Rightarrow> token \<Rightarrow> string \<Rightarrow> bool" where
  "at_token E t cs = (case cs of [] \<Rightarrow> False | c # _ \<Rightarrow> classify E c = t)"

text \<open>The name of a struct or union is what stands before the equal sign.\<close>

definition split_name :: "string \<Rightarrow> (string \<times> string) option" where
  "split_name cs = (case dropWhile (\<lambda>c. c \<noteq> CHR ''='') cs of
     [] \<Rightarrow> None | _ # rest \<Rightarrow> Some (takeWhile (\<lambda>c. c \<noteq> CHR ''='') cs, rest))"

definition named :: "string \<Rightarrow> string \<Rightarrow> string" where
  "named what name = (if name = [] then [] else ''('' @ what @ '' '' @ name @ '') '')"

definition skip_digits :: "string \<Rightarrow> string" where
  "skip_digits cs = dropWhile (\<lambda>c. CHR ''0'' \<le> c \<and> c \<le> CHR ''9'') cs"

text \<open>
  The function itself, its loop over the members of a struct and its loop over the elements of an
  array are the three jobs of \<open>walk\<close>, from the cursor \<open>p\<close> in a memory that ends at \<open>e\<close>.  Every
  call and every pass of a loop takes one unit of fuel.  The bodies are written over what they
  call; \<open>describe\<close> is \<open>_MulleObjCDescribeMemory\<close>.
\<close>

type_synonym describer = "string \<Rightarrow> nat \<Rightarrow> nat \<Rightarrow> string \<Rightarrow> printed \<Rightarrow> printed \<times> progress"

definition describe_struct ::
    "(string \<Rightarrow> nat \<Rightarrow> nat \<Rightarrow> string option \<Rightarrow> printed \<Rightarrow> printed \<times> progress) \<Rightarrow> env \<Rightarrow> describer" where
  "describe_struct members E sep p e cs out =
     (case split_name cs of
        None \<Rightarrow> (out, Overrun)
      | Some (name, rest) \<Rightarrow>
          (case members '' '' p e (Some rest) (append_text out (named ''struct'' name @ sep @ ''{'')) of
             (out', Next p' cur) \<Rightarrow>
               (case cur of
                  Some (_ # cs') \<Rightarrow>
                    (append_text out' (if at_token E T_struct_end rest then ''}'' else '' }''), Next p' (Some cs'))
                | _ \<Rightarrow> (out', Overrun))
           | (out', r) \<Rightarrow> (out', r)))"

definition describe_union :: "describer \<Rightarrow> env \<Rightarrow> describer" where
  "describe_union describe E sep p e cs out =
     (case split_name cs of
        None \<Rightarrow> (out, Overrun)
      | Some (name, rest) \<Rightarrow>
          (let out1 = append_text out (named ''union'' name @ sep @ ''(''); blank = at_token E T_union_end rest in
           case (if blank then (out1, Next p (Some rest)) else describe '' '' p e rest out1) of
             (out', Next p' cur) \<Rightarrow>
               (case dropWhile (\<lambda>c. classify E c \<noteq> T_union_end) (case cur of Some cs' \<Rightarrow> cs' | None \<Rightarrow> []) of
                  [] \<Rightarrow> (out', Overrun)
                | _ # cs' \<Rightarrow> (append_text out' (if blank then '')'' else '' )''), Next p' (Some cs')))
           | (out', r) \<Rightarrow> (out', r)))"

definition describe_array ::
    "(string \<Rightarrow> nat \<Rightarrow> nat \<Rightarrow> string \<Rightarrow> nat \<Rightarrow> printed \<Rightarrow> printed \<times> progress) \<Rightarrow> env \<Rightarrow> describer" where
  "describe_array elements E sep p e cs out =
     (let n = atoi cs; element = skip_digits cs; out1 = append_text out (sep @ ''['') in
      if n \<le> 0 then (out1, Uninitialised)
      else (case elements '' '' p e element (nat n) out1 of
              (out', Next p' cur) \<Rightarrow>
                (case cur of
                   None \<Rightarrow> (out', Overrun)
                 | Some cs' \<Rightarrow>
                     if at_token E T_array_end cs' then (append_text out' '' ]'', Next p' (Some (tl cs')))
                     else (append_text out' '', ???'', Null))
            | (out', r) \<Rightarrow> (out', r)))"

definition describe_scalar :: "env \<Rightarrow> scalar \<Rightarrow> describer" where
  "describe_scalar E k sep p e cs out =
     (case get_scalarvalue (scalar_size k) p e of
        None \<Rightarrow> (out, Null)
      | Some (a, q) \<Rightarrow> ((fst out @ sep @ fmt E k a, snd out @ [(a, scalar_size k)]), Next q (Some cs)))"

definition describe_pointer :: "env \<Rightarrow> describer" where
  "describe_pointer E sep p e cs out =
     (case get_scalarvalue sizeof_pointer p e of
        None \<Rightarrow> (out, Null)
      | Some (a, q) \<Rightarrow>
          ((fst out @ sep @ fmt_pointer E a, snd out @ [(a, sizeof_pointer)]), Next q (next_type E cs)))"

datatype job = Describe | Members | Elements nat

type_synonym walker = "job \<Rightarrow> string \<Rightarrow> nat \<Rightarrow> nat \<Rightarrow> string option \<Rightarrow> printed \<Rightarrow> printed \<times> progress"

definition describe_body :: "walker \<Rightarrow> env \<Rightarrow> describer" where
  "describe_body walk E sep p e cs out =
     (case cs of
        [] \<Rightarrow> (out, Next p None)
      | c # cs' \<Rightarrow>
          (case classify E c of
             T_scalar k \<Rightarrow> describe_scalar E k sep p e cs' out
           | T_ptr \<Rightarrow> describe_pointer E sep p e cs out
           | T_void \<Rightarrow> (append_text out (sep @ ''<void>''), Next p (Some cs'))
           | T_struct_begin \<Rightarrow> describe_struct (walk Members) E sep p e cs' out
           | T_union_begin \<Rightarrow> describe_union (\<lambda>sep p e cs. walk Describe sep p e (Some cs)) E sep p e cs' out
           | T_array_begin \<Rightarrow> describe_array (\<lambda>sep p e cs n. walk (Elements n) sep p e (Some cs)) E sep p e cs' out
           | T_other \<Rightarrow> (out, Next p (Some cs'))
           | _ \<Rightarrow> (append_text out (sep @ ''???''), Null)))"

definition members_body :: "walker \<Rightarrow> env \<Rightarrow> string \<Rightarrow> nat \<Rightarrow> nat \<Rightarrow> string \<Rightarrow> printed \<Rightarrow> printed \<times> progress" where
  "members_body walk E sep p e cs out =
     (if at_token E T_struct_end cs then (out, Next p (Some cs))
      else (case walk Describe sep p e (Some cs) out of
              (out', Next p' cur) \<Rightarrow> walk Members '', '' p' e cur out'
            | (out', r) \<Rightarrow> (out', r)))"

definition elements_body :: "walker \<Rightarrow> nat \<Rightarrow> string \<Rightarrow> nat \<Rightarrow> nat \<Rightarrow> string \<Rightarrow> printed \<Rightarrow> printed \<times> progress" where
  "elements_body walk n sep p e cs out =
     (case walk Describe sep p e (Some cs) out of
        (out', Next p' cur) \<Rightarrow>
          (if n \<le> 1 then (out', Next p' cur) else walk (Elements (n - 1)) '', '' p' e (Some cs) out')
      | (out', r) \<Rightarrow> (out', r))"

primrec walk :: "nat \<Rightarrow> env \<Rightarrow> walker" where
  "walk 0 E job sep p e cur out = (out, Fuel)"
| "walk (Suc f) E job sep p e cur out =
     (case cur of
        None \<Rightarrow> (out, Overrun)
      | Some cs \<Rightarrow>
          (case job of
             Describe \<Rightarrow> describe_body (walk f E) E sep p e cs out
           | Members \<Rightarrow> members_body (walk f E) E sep p e cs out
           | Elements n \<Rightarrow> elements_body (walk f E) n sep p e cs out))"

definition describe :: "nat \<Rightarrow> env \<Rightarrow> describer" where
  "describe f E sep p e cs out = walk f E Describe sep p e (Some cs) out"

text \<open>
  \<open>MulleObjCDescribeMemory\<close>: on NULL the buffer is cut back to its old length and gets a remark.
  \<open>None\<close> stands for an undefined ending.
\<close>

definition MulleObjCDescribeMemory ::
    "nat \<Rightarrow> env \<Rightarrow> string \<Rightarrow> nat \<Rightarrow> nat \<Rightarrow> string \<Rightarrow> (bool \<times> string) option" where
  "MulleObjCDescribeMemory f E buffer bytes n type =
     (case describe f E [] bytes (bytes + n) type (buffer, []) of
        (out', Next p cur) \<Rightarrow> Some (True, fst out')
      | (out', Null) \<Rightarrow> Some (False, take (length buffer) (fst out') @ ''<broken type>'')
      | _ \<Rightarrow> None)"

section \<open>Instance variables\<close>

record ivar =
  ivar_name :: string
  ivar_signature :: string
  ivar_offset :: nat

text \<open>
  \<open>describe_ivar\<close> compares the address that comes back with the begin of the object.  The result
  says whether the walk goes on.
\<close>

definition describe_ivar :: "nat \<Rightarrow> env \<Rightarrow> nat \<Rightarrow> nat \<Rightarrow> string \<Rightarrow> ivar \<Rightarrow> string \<Rightarrow> (bool \<times> string) option" where
  "describe_ivar f E bytes n sep v buffer =
     (let b = buffer @ sep @ ivar_name v @ '' = ''; p = bytes + ivar_offset v in
      case describe f E [] p (p + (n - ivar_offset v)) (ivar_signature v) (b, []) of
        (out', Next q cur) \<Rightarrow>
          if q = bytes then Some (False, fst out' @ ''<broken type>'') else Some (True, fst out')
      | (out', Null) \<Rightarrow> Some (True, fst out')
      | _ \<Rightarrow> None)"

fun describe_ivars :: "nat \<Rightarrow> env \<Rightarrow> nat \<Rightarrow> nat \<Rightarrow> string \<Rightarrow> ivar list \<Rightarrow> string \<Rightarrow> string option" where
  "describe_ivars f E bytes n sep [] buffer = Some buffer"
| "describe_ivars f E bytes n sep (v # vs) buffer =
     (case describe_ivar f E bytes n sep v buffer of
        None \<Rightarrow> None
      | Some (go, buffer') \<Rightarrow>
          if go then describe_ivars f E bytes n ('','' @ [CHR 0x0A] @ ''   '') vs buffer' else Some buffer')"

text \<open>The instance variables are printed in the order of their names.\<close>

definition MulleObjCDescribeIvars :: "nat \<Rightarrow> env \<Rightarrow> nat \<Rightarrow> nat \<Rightarrow> ivar list \<Rightarrow> string \<Rightarrow> string option" where
  "MulleObjCDescribeIvars f E obj instancesize ivars buffer =
     (let b = buffer @ ''{'' in
      case describe_ivars f E obj instancesize (CHR 0x0A # ''   '') (sort_key ivar_name ivars) b of
        None \<Rightarrow> None
      | Some b' \<Rightarrow> Some (b' @ (if length b' \<noteq> length b then [CHR 0x0A] else []) @ ''}''))"

end
