(* ===== verification/DescribeProps.thy ===== *)
theory DescribeProps
  imports Describe
begin

text \<open>
  Properties of the description of memory: which memory is read, what happens to the buffer, that a
  well-formed type is consumed exactly, and where the members of a struct are looked up.
\<close>

section \<open>Memory and buffer\<close>

text \<open>
  The reads lie one behind the other from the address \<open>p\<close> up to \<open>q\<close>, none overlaps another, and each is at an address
  that its size divides.
\<close>

fun chained :: "nat \<Rightarrow> (nat \<times> nat) list \<Rightarrow> nat \<Rightarrow> bool" where
  "chained p [] q \<longleftrightarrow> p \<le> q"
| "chained p ((a, n) # rs) q \<longleftrightarrow> p \<le> a \<and> n dvd a \<and> chained (a + n) rs q"

lemma chained_le: "chained p rs q \<Longrightarrow> p \<le> q"
  by (induction p rs q rule: chained.induct) simp_all

lemma chained_mono: "chained p rs q \<Longrightarrow> q \<le> e \<Longrightarrow> chained p rs e"
  by (induction p rs q rule: chained.induct) simp_all

lemma chained_append: "chained p rs q \<Longrightarrow> chained q rs' e \<Longrightarrow> chained p (rs @ rs') e"
proof (induction p rs q rule: chained.induct)
  case (1 p q)
  then show ?case by (cases rs') auto
qed simp

lemma chained_inside: "chained p rs q \<Longrightarrow> (a, n) \<in> set rs \<Longrightarrow> p \<le> a \<and> a + n \<le> q \<and> n dvd a"
  by (induction p rs q rule: chained.induct) (auto dest: chained_le)

text \<open>
  What every step keeps: the buffer only grows, and the reads of the step lie between the cursor at its begin and the
  one that it hands back, or the end of the memory.
\<close>

definition cursor_of :: "nat \<Rightarrow> progress \<Rightarrow> nat" where
  "cursor_of e r = (case r of Next p' cur \<Rightarrow> p' | _ \<Rightarrow> e)"

lemma cursor_of_simps [simp]:
  "cursor_of e (Next p' cur) = p'" "cursor_of e Null = e" "cursor_of e Overrun = e"
  "cursor_of e Uninitialised = e" "cursor_of e Fuel = e"
  by (simp_all add: cursor_of_def)

definition kept :: "nat \<Rightarrow> nat \<Rightarrow> printed \<Rightarrow> printed \<times> progress \<Rightarrow> bool" where
  "kept p e out r \<longleftrightarrow> prefix (fst out) (fst (fst r)) \<and> cursor_of e (snd r) \<le> e \<and>
     (\<exists>rs. snd (fst r) = snd out @ rs \<and> chained p rs (cursor_of e (snd r)))"

definition keeps :: "nat \<Rightarrow> walker \<Rightarrow> bool" where
  "keeps e w \<longleftrightarrow> (\<forall>job sep p cur out. p \<le> e \<longrightarrow> kept p e out (w job sep p e cur out))"

lemma keepsD: "keeps e w \<Longrightarrow> p \<le> e \<Longrightarrow> kept p e out (w job sep p e cur out)"
  unfolding keeps_def by blast

lemma kept_trans:
  "kept p e out (out', Next p' cur) \<Longrightarrow> kept p' e out' r \<Longrightarrow> kept p e out r"
  by (auto simp: kept_def intro: prefix_order.trans chained_append)

lemma kept_text: "kept p e (append_text out t) r \<Longrightarrow> kept p e out r"
  by (auto simp: kept_def append_text_def dest: append_prefixD)

lemma kept_refl: "p \<le> e \<Longrightarrow> kept p e out (out, r) \<longleftrightarrow> (case r of Next p' cur \<Rightarrow> p \<le> p' \<and> p' \<le> e | _ \<Rightarrow> True)"
  by (auto simp: kept_def split: progress.splits)

text \<open>Only the text grows, and the cursor stays or the step ends otherwise.\<close>

lemma kept_more:
  assumes "kept p e out (out', r)" and "prefix (fst out') t" and "cursor_of e r \<le> cursor_of e r'" and "cursor_of e r' \<le> e"
  shows "kept p e out ((t, snd out'), r')"
  using assms by (auto simp: kept_def intro: prefix_order.trans chained_mono)

lemma kept_next: "kept p e out (out', Next p' cur) \<Longrightarrow> p \<le> p' \<and> p' \<le> e"
  by (auto simp: kept_def dest: chained_le)

lemma align_to_ge: "0 < a \<Longrightarrow> p \<le> align_to p a"
proof -
  assume a: "0 < a"
  have "p + a - 1 = (p + a - 1) div a * a + (p + a - 1) mod a" by simp
  moreover have "(p + a - 1) mod a < a" using a by simp
  ultimately show ?thesis unfolding align_to_def by linarith
qed

lemma align_to_dvd: "0 < a \<Longrightarrow> a dvd align_to p a"
  by (simp add: align_to_def)

lemma get_scalarvalue_bounds:
  "get_scalarvalue n p e = Some (a, q) \<Longrightarrow> 0 < n \<Longrightarrow> p \<le> a \<and> q = a + n \<and> q \<le> e \<and> n dvd a"
  using align_to_ge [of n p] align_to_dvd [of n p] by (auto simp: get_scalarvalue_def Let_def split: if_splits)

lemma scalar_size_pos: "0 < scalar_size k"
  by (cases k) simp_all

lemma kept_read:
  assumes "get_scalarvalue n p e = Some (a, q)" and "0 < n"
  shows "kept p e out ((fst out @ t, snd out @ [(a, n)]), Next q cur)"
  using get_scalarvalue_bounds [OF assms] by (simp add: kept_def)

lemma describe_scalar_kept: "p \<le> e \<Longrightarrow> kept p e out (describe_scalar E k sep p e cs out)"
  using kept_read [of "scalar_size k" p e] scalar_size_pos [of k]
  by (auto simp: describe_scalar_def kept_refl split: option.splits)

lemma describe_pointer_kept: "p \<le> e \<Longrightarrow> kept p e out (describe_pointer E sep p e cs out)"
  using kept_read [of sizeof_pointer p e]
  by (auto simp: describe_pointer_def kept_refl sizeof_pointer_def split: option.splits)

lemma describe_struct_kept:
  assumes "keeps e w" "p \<le> e"
  shows "kept p e out (describe_struct (w Members) E sep p e cs out)"
proof (cases "split_name cs")
  case None
  then show ?thesis using assms(2) by (simp add: describe_struct_def kept_refl)
next
  case (Some nr)
  obtain name rest where nr: "nr = (name, rest)" by (cases nr) simp
  obtain out' r where r: "w Members '' '' p e (Some rest) (append_text out (named ''struct'' name @ sep @ ''{'')) = (out', r)"
    by (cases "w Members '' '' p e (Some rest) (append_text out (named ''struct'' name @ sep @ ''{''))")
  have k: "kept p e out (out', r)"
    using keepsD [OF assms] r kept_text by metis
  then show ?thesis
    using Some nr r
    by (cases r) (auto simp: describe_struct_def kept_def append_text_def intro: chained_mono split: option.splits list.splits)
qed

lemma describe_union_kept:
  assumes "keeps e w" "p \<le> e"
  shows "kept p e out (describe_union (\<lambda>sep p e cs. w Describe sep p e (Some cs)) E sep p e cs out)"
proof (cases "split_name cs")
  case None
  then show ?thesis using assms(2) by (simp add: describe_union_def kept_refl)
next
  case (Some nr)
  obtain name rest where nr: "nr = (name, rest)" by (cases nr) simp
  let ?out1 = "append_text out (named ''union'' name @ sep @ ''('')"
  obtain out' r where r: "(if at_token E T_union_end rest then (?out1, Next p (Some rest))
      else w Describe '' '' p e (Some rest) ?out1) = (out', r)"
    by (rule prod.exhaust)
  have "kept p e ?out1 (out', r)"
  proof (cases "at_token E T_union_end rest")
    case True
    then show ?thesis using r assms(2) by (auto simp: kept_refl)
  next
    case False
    then show ?thesis using r keepsD [OF assms, of ?out1 Describe "'' ''" "Some rest"] by simp
  qed
  then have k: "kept p e out (out', r)"
    by (rule kept_text)
  then show ?thesis
    using Some nr r
    by (cases r) (simp_all add: describe_union_def Let_def, auto simp: kept_def append_text_def intro: chained_mono split: list.splits)
qed

lemma describe_array_kept:
  assumes "keeps e w" "p \<le> e"
  shows "kept p e out (describe_array (\<lambda>sep p e cs n. w (Elements n) sep p e (Some cs)) E sep p e cs out)"
proof -
  let ?out1 = "append_text out (sep @ ''['')"
  obtain out' r where r: "w (Elements (nat (atoi cs))) '' '' p e (Some (skip_digits cs)) ?out1 = (out', r)"
    by (cases "w (Elements (nat (atoi cs))) '' '' p e (Some (skip_digits cs)) ?out1")
  have k: "kept p e out (out', r)"
    using keepsD [OF assms] r kept_text by metis
  have "kept p e out (?out1, Uninitialised)"
    by (rule kept_text [of _ _ _ "sep @ ''[''"]) (simp add: kept_refl assms(2))
  then show ?thesis
    using r k
    by (cases r) (simp_all add: describe_array_def Let_def, auto simp: kept_def append_text_def intro: chained_mono split: option.splits)
qed

lemma describe_body_kept:
  assumes "keeps e w" "p \<le> e"
  shows "kept p e out (describe_body w E sep p e cs out)"
proof -
  have t: "kept p e out (append_text out x, Next p cur)" "kept p e out (append_text out x, Null)" for x cur
    using assms(2) by (simp_all add: kept_def append_text_def)
  show ?thesis
    using t assms(2) describe_scalar_kept [OF assms(2)] describe_pointer_kept [OF assms(2)]
      describe_struct_kept [OF assms] describe_union_kept [OF assms] describe_array_kept [OF assms]
    by (auto simp: describe_body_def kept_refl split: list.splits token.splits)
qed

lemma members_body_kept:
  assumes "keeps e w" "p \<le> e"
  shows "kept p e out (members_body w E sep p e cs out)"
proof -
  obtain out' r where r: "w Describe sep p e (Some cs) out = (out', r)"
    by (cases "w Describe sep p e (Some cs) out")
  have k: "kept p e out (out', r)"
    using keepsD [OF assms] r by metis
  have "kept p e out (w Members '', '' p' e cur out')" if "r = Next p' cur" for p' cur
  proof (rule kept_trans)
    show "kept p e out (out', Next p' cur)" using k that by simp
    show "kept p' e out' (w Members '', '' p' e cur out')"
      using k that assms by (intro keepsD) (auto simp: kept_def)
  qed
  then show ?thesis
    using r k assms(2) by (auto simp: members_body_def kept_refl split: progress.splits)
qed

lemma elements_body_kept:
  assumes "keeps e w" "p \<le> e"
  shows "kept p e out (elements_body w n sep p e cs out)"
proof -
  obtain out' r where r: "w Describe sep p e (Some cs) out = (out', r)"
    by (cases "w Describe sep p e (Some cs) out")
  have k: "kept p e out (out', r)"
    using keepsD [OF assms] r by metis
  have "kept p e out (w (Elements (n - 1)) '', '' p' e (Some cs) out')" if "r = Next p' cur" for p' cur
  proof (rule kept_trans)
    show "kept p e out (out', Next p' cur)" using k that by simp
    show "kept p' e out' (w (Elements (n - 1)) '', '' p' e (Some cs) out')"
      using k that assms by (intro keepsD) (auto simp: kept_def)
  qed
  then show ?thesis
    using r k by (auto simp: elements_body_def split: progress.splits simp del: One_nat_def)
qed

lemma walk_keeps: "keeps e (walk f E)"
proof (induction f)
  case 0
  then show ?case by (simp add: keeps_def kept_refl)
next
  case (Suc f)
  show ?case
    unfolding keeps_def
    using describe_body_kept [OF Suc] members_body_kept [OF Suc] elements_body_kept [OF Suc]
    by (auto simp: kept_refl split: option.splits job.splits)
qed

lemma describe_kept: "p \<le> e \<Longrightarrow> kept p e out (describe f E sep p e cs out)"
  unfolding describe_def by (rule keepsD [OF walk_keeps])

section \<open>Structs of scalars\<close>

text \<open>
  The C layout of members that are scalars, from the address \<open>p\<close> on: each lies at the first address
  from there that its size divides.
\<close>

fun layout :: "nat \<Rightarrow> scalar list \<Rightarrow> (nat \<times> nat) list" where
  "layout p [] = []"
| "layout p (k # ks) =
     (let a = padded p (scalar_size k) in (a, scalar_size k) # layout (a + scalar_size k) ks)"

fun layout_end :: "nat \<Rightarrow> scalar list \<Rightarrow> nat" where
  "layout_end p [] = p"
| "layout_end p (k # ks) = layout_end (padded p (scalar_size k) + scalar_size k) ks"

lemma padded_scalar [simp]: "padded p (scalar_size k) = align_to p (scalar_size k)"
  using scalar_size_pos [of k] by (simp add: align_to_def padded_eq)

lemma layout_end_ge: "p \<le> layout_end p ks"
proof (induction ks arbitrary: p)
  case (Cons k ks)
  have "p \<le> align_to p (scalar_size k)"
    by (rule align_to_ge [OF scalar_size_pos])
  also have "\<dots> \<le> layout_end (align_to p (scalar_size k) + scalar_size k) ks"
    using Cons [of "align_to p (scalar_size k) + scalar_size k"] by simp
  finally show ?case by simp
qed simp

lemma describe_one:
  assumes "classify E c = T_scalar k" and "align_to p (scalar_size k) + scalar_size k \<le> e"
  shows "\<exists>t. walk (Suc f) E Describe sep p e (Some (c # cs)) out
    = ((fst out @ t, snd out @ [(align_to p (scalar_size k), scalar_size k)]),
       Next (align_to p (scalar_size k) + scalar_size k) (Some cs))"
  using assms by (simp add: describe_body_def describe_scalar_def get_scalarvalue_def Let_def)

lemma walk_members:
  "list_all2 (\<lambda>c k. classify E c = T_scalar k) cs ks \<Longrightarrow> at_token E T_struct_end rest \<Longrightarrow>
   layout_end p ks \<le> e \<Longrightarrow> length ks < f \<Longrightarrow>
   \<exists>t. walk (Suc f) E Members sep p e (Some (cs @ rest)) out
     = ((fst out @ t, snd out @ layout p ks), Next (layout_end p ks) (Some rest))"
proof (induction cs ks arbitrary: f sep p out rule: list_all2_induct)
  case Nil
  then show ?case by (simp add: members_body_def) (rule exI [of _ "[]"], simp)
next
  case (Cons c cs k ks)
  let ?a = "align_to p (scalar_size k)"
  obtain g where f: "f = Suc g" "length ks < g"
    using Cons.prems(3) by (cases f) auto
  have e: "?a + scalar_size k \<le> e"
    using Cons.prems(2) layout_end_ge [of "?a + scalar_size k" ks] by simp
  obtain t where t: "walk f E Describe sep p e (Some (c # cs @ rest)) out
      = ((fst out @ t, snd out @ [(?a, scalar_size k)]), Next (?a + scalar_size k) (Some (cs @ rest)))"
    using describe_one [OF Cons.hyps(1) e] f by blast
  have "\<exists>t'. walk (Suc g) E Members '', '' (?a + scalar_size k) e (Some (cs @ rest))
        (fst out @ t, snd out @ [(?a, scalar_size k)])
      = ((fst (fst out @ t, snd out @ [(?a, scalar_size k)]) @ t',
          snd (fst out @ t, snd out @ [(?a, scalar_size k)]) @ layout (?a + scalar_size k) ks),
         Next (layout_end (?a + scalar_size k) ks) (Some rest))"
    using Cons.prems(1,2) f by (intro Cons.IH) auto
  moreover have "\<not> at_token E T_struct_end ((c # cs) @ rest)"
    using Cons.hyps(1) by (simp add: at_token_def)
  ultimately show ?case
    using t f by (auto simp: members_body_def Let_def)
qed

section \<open>Properties\<close>

text \<open>
  C31. Whatever the type string is, the scalars and pointers that a description fetches from the described memory lie
  inside it: they are read from the first byte on, one behind the other, none twice, each at an address that its size
  divides, and the last one ends where the cursor is that comes back, which is not behind the end either.  What is read
  through fetched values, the text of a C string and the description of an object, and what a malformed type string
  makes the function read behind the end of that string, is not meant.
\<close>

theorem describe_stays_inside:
  "case describe f E sep bytes (bytes + n) cs (buffer, []) of
     (out, r) \<Rightarrow> chained bytes (snd out) (cursor_of (bytes + n) r) \<and> bytes \<le> cursor_of (bytes + n) r
       \<and> cursor_of (bytes + n) r \<le> bytes + n
       \<and> list_all (\<lambda>(a, k). bytes \<le> a \<and> a + k \<le> cursor_of (bytes + n) r \<and> k dvd a) (snd out)"
proof (cases "describe f E sep bytes (bytes + n) cs (buffer, [])")
  case (Pair out r)
  then have "kept bytes (bytes + n) (buffer, []) (out, r)"
    using describe_kept [of bytes "bytes + n" "(buffer, [])" f E sep cs] by simp
  then have "chained bytes (snd out) (cursor_of (bytes + n) r) \<and> cursor_of (bytes + n) r \<le> bytes + n"
    by (simp add: kept_def)
  then show ?thesis
    using Pair by (auto simp: list_all_iff dest: chained_le chained_inside)
qed

text \<open>
  The buffer of \<open>MulleObjCDescribeMemory\<close>: with YES the text was appended to what was there, with
  NO only a remark was, and nothing of an incomplete description is left.
\<close>

theorem describe_memory_buffer:
  assumes "MulleObjCDescribeMemory f E buffer bytes n cs = Some (ok, buffer')"
  shows "prefix buffer buffer' \<and> (ok \<or> buffer' = buffer @ ''<broken type>'')"
proof -
  have "kept bytes (bytes + n) (buffer, []) (describe f E [] bytes (bytes + n) cs (buffer, []))"
    by (rule describe_kept) simp_all
  then show ?thesis
    using assms
    by (auto simp: MulleObjCDescribeMemory_def kept_def prefix_def split: prod.splits progress.splits)
qed

text \<open>A small table of encodings for the examples.\<close>

definition demo_env :: env where
  "demo_env = \<lparr>classify = (\<lambda>c. if c = CHR ''c'' then T_scalar S_chr else if c = CHR ''d'' then T_scalar S_dbl
      else if c = CHR ''{'' then T_struct_begin else if c = CHR ''}'' then T_struct_end
      else if c = CHR ''['' then T_array_begin else if c = CHR '']'' then T_array_end
      else if c = CHR ''v'' then T_void else T_other),
    next_type = (\<lambda>cs. Some (tl cs)), fmt = (\<lambda>k a. ''#''), fmt_pointer = (\<lambda>a. ''^'')\<rparr>"

theorem describe_memory_buffer_witness:
  "MulleObjCDescribeMemory 9 demo_env ''x'' 64 4 ''{a=cd}'' = Some (False, ''x'' @ ''<broken type>'')"
proof -
  have "MulleObjCDescribeMemory 9 demo_env ''x'' 64 4 ''{a=cd}'' = Some (False, ''x<broken type>'')"
    by code_simp
  then show ?thesis
    using describe_memory_buffer [of 9 demo_env "''x''" 64 4 "''{a=cd}''" False "''x<broken type>''"] by auto
qed

text \<open>
  C32. The members of a struct of scalars are looked up where the C compiler has put them: each at
  the next address that its size divides, one behind the other, and the description succeeds whenever
  the memory is large enough.
\<close>

theorem describe_struct_layout:
  assumes "classify E b = T_struct_begin" and "CHR ''='' \<notin> set name"
    and "list_all2 (\<lambda>c k. classify E c = T_scalar k) cs ks" and "classify E z = T_struct_end"
    and "layout_end p ks \<le> e" and "length ks + 2 < f"
  shows "\<exists>t. describe f E sep p e (b # name @ CHR ''='' # cs @ z # rest) out
    = ((fst out @ t, snd out @ layout p ks), Next (layout_end p ks) (Some rest))"
proof -
  obtain g where f: "f = Suc (Suc g)" "length ks < g"
    using assms(6) by (metis add_2_eq_Suc' less_natE add.commute less_add_Suc1 Suc_less_eq not0_implies_Suc not_less0)
  have sp: "split_name (name @ CHR ''='' # cs @ z # rest) = Some (name, cs @ z # rest)"
  proof -
    have name: "\<And>x. x \<in> set name \<Longrightarrow> x \<noteq> CHR ''=''"
      using assms(2) by blast
    show ?thesis
      by (simp add: split_name_def takeWhile_append2 [of _ "\<lambda>c. c \<noteq> CHR ''=''", OF name]
          dropWhile_append2 [of _ "\<lambda>c. c \<noteq> CHR ''=''", OF name])
  qed
  have "at_token E T_struct_end (z # rest)"
    using assms(4) by (simp add: at_token_def)
  then show ?thesis
    using walk_members [OF assms(3) _ assms(5) f(2), of "z # rest" "'' ''"
        "append_text out (named ''struct'' name @ sep @ ''{'')"] sp assms(1) f(1)
    by (auto simp: describe_def describe_body_def describe_struct_def append_text_def split: if_splits)
qed

theorem describe_struct_layout_witness:
  "snd (fst (describe 9 demo_env [] 64 80 ''{a=cd}'' ([], []))) = [(64, 1), (72, 8)]"
proof -
  have "\<exists>t. describe 9 demo_env [] 64 80 (CHR ''{'' # ''a'' @ CHR ''='' # ''cd'' @ CHR ''}'' # []) ([], [])
    = ((fst (([], []) :: printed) @ t, snd (([], []) :: printed) @ layout 64 [S_chr, S_dbl]),
       Next (layout_end 64 [S_chr, S_dbl]) (Some []))"
    by (rule describe_struct_layout [where E = demo_env and ks = "[S_chr, S_dbl]" and cs = "''cd''"
          and z = "CHR ''}''" and b = "CHR ''{''" and name = "''a''" and rest = "[]"])
      (simp_all add: demo_env_def padded_def)
  then show ?thesis
    by (auto simp: padded_def)
qed

text \<open>
  Where the description goes wrong: a struct that is a member is not aligned as a whole, so the
  members of the inner struct are read in front of their place; an array of no elements leaves the
  cursor of the type unset; and a type that cannot be described is not noticed for an instance
  variable, while one without any text at the begin of the object is taken for broken.
\<close>

theorem describe_defects:
  "snd (fst (describe 20 demo_env [] 64 96 ''{a=c{b=cd}}'' ([], []))) = [(64, 1), (65, 1), (72, 8)]
   \<and> snd (describe 20 demo_env [] 64 96 ''[0c]'' ([], [])) = Uninitialised
   \<and> describe_ivar 20 demo_env 64 8 [] \<lparr>ivar_name = ''x'', ivar_signature = ''{a=cd}'', ivar_offset = 0\<rparr> []
       = Some (True, ''x = (struct a) { #'')
   \<and> describe_ivar 20 demo_env 64 8 [] \<lparr>ivar_name = ''x'', ivar_signature = ''v'', ivar_offset = 0\<rparr> []
       = Some (False, ''x = <void><broken type>'')"
  by code_simp

end
