(* ===== verification/ByteOrder.thy ===== *)
theory ByteOrder
  imports Prelude
begin

text \<open>
  Byte orders (\<open>src/function/NSByteOrder.h\<close>).  All functions forward to the swapping functions of the
  library mulle-c11, the fields of \<open>endian\<close>; which one they choose depends on the width of the C
  type, on the modelled platform 16, 32 and 64 bits for \<open>short\<close>, \<open>int\<close> and \<open>long\<close> (\<open>__LP64__\<close>), and
  on nothing else.  \<open>'f\<close>, \<open>'d\<close>, \<open>'l\<close> are the floating point types, \<open>'sf\<close>, \<open>'sd\<close>, \<open>'sl\<close> the
  types of their swapped forms.
\<close>

section \<open>The swapping library\<close>

datatype MulleObjCByteOrder = NS_UnknownByteOrder | NS_LittleEndian | NS_BigEndian

record ('f, 'd, 'l, 'sf, 'sd, 'sl) endian =
  big_endian :: bool
  swap_uint16 :: "16 word \<Rightarrow> 16 word"
  swap_uint32 :: "32 word \<Rightarrow> 32 word"
  swap_uint64 :: "64 word \<Rightarrow> 64 word"
  swap_10bytes :: "8 word list \<Rightarrow> 8 word list"
  big_uint16_to_host :: "16 word \<Rightarrow> 16 word"
  host_uint16_to_big :: "16 word \<Rightarrow> 16 word"
  big_uint32_to_host :: "32 word \<Rightarrow> 32 word"
  host_uint32_to_big :: "32 word \<Rightarrow> 32 word"
  big_uint64_to_host :: "64 word \<Rightarrow> 64 word"
  host_uint64_to_big :: "64 word \<Rightarrow> 64 word"
  little_uint16_to_host :: "16 word \<Rightarrow> 16 word"
  host_uint16_to_little :: "16 word \<Rightarrow> 16 word"
  little_uint32_to_host :: "32 word \<Rightarrow> 32 word"
  host_uint32_to_little :: "32 word \<Rightarrow> 32 word"
  little_uint64_to_host :: "64 word \<Rightarrow> 64 word"
  host_uint64_to_little :: "64 word \<Rightarrow> 64 word"
  host_float_to_swapped :: "'f \<Rightarrow> 'sf"
  swapped_float_to_host :: "'sf \<Rightarrow> 'f"
  swap_float :: "'sf \<Rightarrow> 'sf"
  big_float_to_host :: "'sf \<Rightarrow> 'f"
  host_float_to_big :: "'f \<Rightarrow> 'sf"
  little_float_to_host :: "'sf \<Rightarrow> 'f"
  host_float_to_little :: "'f \<Rightarrow> 'sf"
  host_double_to_swapped :: "'d \<Rightarrow> 'sd"
  swapped_double_to_host :: "'sd \<Rightarrow> 'd"
  swap_double :: "'sd \<Rightarrow> 'sd"
  big_double_to_host :: "'sd \<Rightarrow> 'd"
  host_double_to_big :: "'d \<Rightarrow> 'sd"
  little_double_to_host :: "'sd \<Rightarrow> 'd"
  host_double_to_little :: "'d \<Rightarrow> 'sd"
  host_long_double_to_swapped :: "'l \<Rightarrow> 'sl"
  swapped_long_double_to_host :: "'sl \<Rightarrow> 'l"
  swap_long_double :: "'sl \<Rightarrow> 'sl"
  big_long_double_to_host :: "'sl \<Rightarrow> 'l"
  host_long_double_to_big :: "'l \<Rightarrow> 'sl"
  little_long_double_to_host :: "'sl \<Rightarrow> 'l"
  host_long_double_to_little :: "'l \<Rightarrow> 'sl"

section \<open>Integers\<close>

definition NSHostByteOrder :: "('f, 'd, 'l, 'sf, 'sd, 'sl) endian \<Rightarrow> MulleObjCByteOrder" where
  "NSHostByteOrder A = (if big_endian A then NS_BigEndian else NS_LittleEndian)"

definition MulleObjCSwapUInt16 :: "('f, 'd, 'l, 'sf, 'sd, 'sl) endian \<Rightarrow> 16 word \<Rightarrow> 16 word" where
  "MulleObjCSwapUInt16 A val = swap_uint16 A val"

definition MulleObjCSwapUInt32 :: "('f, 'd, 'l, 'sf, 'sd, 'sl) endian \<Rightarrow> 32 word \<Rightarrow> 32 word" where
  "MulleObjCSwapUInt32 A val = swap_uint32 A val"

definition NSSwapShort :: "('f, 'd, 'l, 'sf, 'sd, 'sl) endian \<Rightarrow> 16 word \<Rightarrow> 16 word" where
  "NSSwapShort A val = swap_uint16 A val"

definition NSSwapInt :: "('f, 'd, 'l, 'sf, 'sd, 'sl) endian \<Rightarrow> 32 word \<Rightarrow> 32 word" where
  "NSSwapInt A val = swap_uint32 A val"

definition NSSwapLong :: "('f, 'd, 'l, 'sf, 'sd, 'sl) endian \<Rightarrow> 64 word \<Rightarrow> 64 word" where
  "NSSwapLong A val = swap_uint64 A val"

definition NSSwapLongLong :: "('f, 'd, 'l, 'sf, 'sd, 'sl) endian \<Rightarrow> 64 word \<Rightarrow> 64 word" where
  "NSSwapLongLong A val = swap_uint64 A val"

definition NSSwap10Bytes :: "('f, 'd, 'l, 'sf, 'sd, 'sl) endian \<Rightarrow> 8 word list \<Rightarrow> 8 word list" where
  "NSSwap10Bytes A val = swap_10bytes A val"

definition NSSwapBigShortToHost :: "('f, 'd, 'l, 'sf, 'sd, 'sl) endian \<Rightarrow> 16 word \<Rightarrow> 16 word" where
  "NSSwapBigShortToHost A val = big_uint16_to_host A val"

definition NSSwapBigIntToHost :: "('f, 'd, 'l, 'sf, 'sd, 'sl) endian \<Rightarrow> 32 word \<Rightarrow> 32 word" where
  "NSSwapBigIntToHost A val = big_uint32_to_host A val"

definition NSSwapBigLongToHost :: "('f, 'd, 'l, 'sf, 'sd, 'sl) endian \<Rightarrow> 64 word \<Rightarrow> 64 word" where
  "NSSwapBigLongToHost A val = big_uint64_to_host A val"

definition NSSwapBigLongLongToHost :: "('f, 'd, 'l, 'sf, 'sd, 'sl) endian \<Rightarrow> 64 word \<Rightarrow> 64 word" where
  "NSSwapBigLongLongToHost A val = big_uint64_to_host A val"

definition NSSwapHostShortToBig :: "('f, 'd, 'l, 'sf, 'sd, 'sl) endian \<Rightarrow> 16 word \<Rightarrow> 16 word" where
  "NSSwapHostShortToBig A val = host_uint16_to_big A val"

definition NSSwapHostIntToBig :: "('f, 'd, 'l, 'sf, 'sd, 'sl) endian \<Rightarrow> 32 word \<Rightarrow> 32 word" where
  "NSSwapHostIntToBig A val = host_uint32_to_big A val"

definition NSSwapHostLongToBig :: "('f, 'd, 'l, 'sf, 'sd, 'sl) endian \<Rightarrow> 64 word \<Rightarrow> 64 word" where
  "NSSwapHostLongToBig A val = host_uint64_to_big A val"

definition NSSwapHostLongLongToBig :: "('f, 'd, 'l, 'sf, 'sd, 'sl) endian \<Rightarrow> 64 word \<Rightarrow> 64 word" where
  "NSSwapHostLongLongToBig A val = host_uint64_to_big A val"

definition NSSwapLittleShortToHost :: "('f, 'd, 'l, 'sf, 'sd, 'sl) endian \<Rightarrow> 16 word \<Rightarrow> 16 word" where
  "NSSwapLittleShortToHost A val = little_uint16_to_host A val"

definition NSSwapLittleIntToHost :: "('f, 'd, 'l, 'sf, 'sd, 'sl) endian \<Rightarrow> 32 word \<Rightarrow> 32 word" where
  "NSSwapLittleIntToHost A val = little_uint32_to_host A val"

definition NSSwapLittleLongToHost :: "('f, 'd, 'l, 'sf, 'sd, 'sl) endian \<Rightarrow> 64 word \<Rightarrow> 64 word" where
  "NSSwapLittleLongToHost A val = little_uint64_to_host A val"

definition NSSwapLittleLongLongToHost :: "('f, 'd, 'l, 'sf, 'sd, 'sl) endian \<Rightarrow> 64 word \<Rightarrow> 64 word" where
  "NSSwapLittleLongLongToHost A val = little_uint64_to_host A val"

definition NSSwapHostShortToLittle :: "('f, 'd, 'l, 'sf, 'sd, 'sl) endian \<Rightarrow> 16 word \<Rightarrow> 16 word" where
  "NSSwapHostShortToLittle A val = host_uint16_to_little A val"

definition NSSwapHostIntToLittle :: "('f, 'd, 'l, 'sf, 'sd, 'sl) endian \<Rightarrow> 32 word \<Rightarrow> 32 word" where
  "NSSwapHostIntToLittle A val = host_uint32_to_little A val"

definition NSSwapHostLongToLittle :: "('f, 'd, 'l, 'sf, 'sd, 'sl) endian \<Rightarrow> 64 word \<Rightarrow> 64 word" where
  "NSSwapHostLongToLittle A val = host_uint64_to_little A val"

definition NSSwapHostLongLongToLittle :: "('f, 'd, 'l, 'sf, 'sd, 'sl) endian \<Rightarrow> 64 word \<Rightarrow> 64 word" where
  "NSSwapHostLongLongToLittle A val = host_uint64_to_little A val"

section \<open>Floating point numbers\<close>

definition NSConvertHostFloatToSwapped :: "('f, 'd, 'l, 'sf, 'sd, 'sl) endian \<Rightarrow> 'f \<Rightarrow> 'sf" where
  "NSConvertHostFloatToSwapped A val = host_float_to_swapped A val"

definition NSConvertSwappedFloatToHost :: "('f, 'd, 'l, 'sf, 'sd, 'sl) endian \<Rightarrow> 'sf \<Rightarrow> 'f" where
  "NSConvertSwappedFloatToHost A val = swapped_float_to_host A val"

definition NSConvertHostDoubleToSwapped :: "('f, 'd, 'l, 'sf, 'sd, 'sl) endian \<Rightarrow> 'd \<Rightarrow> 'sd" where
  "NSConvertHostDoubleToSwapped A val = host_double_to_swapped A val"

definition NSConvertSwappedDoubleToHost :: "('f, 'd, 'l, 'sf, 'sd, 'sl) endian \<Rightarrow> 'sd \<Rightarrow> 'd" where
  "NSConvertSwappedDoubleToHost A val = swapped_double_to_host A val"

definition NSConvertHostLongDoubleToSwapped :: "('f, 'd, 'l, 'sf, 'sd, 'sl) endian \<Rightarrow> 'l \<Rightarrow> 'sl" where
  "NSConvertHostLongDoubleToSwapped A val = host_long_double_to_swapped A val"

definition NSConvertSwappedLongDoubleToHost :: "('f, 'd, 'l, 'sf, 'sd, 'sl) endian \<Rightarrow> 'sl \<Rightarrow> 'l" where
  "NSConvertSwappedLongDoubleToHost A val = swapped_long_double_to_host A val"

definition NSSwapFloat :: "('f, 'd, 'l, 'sf, 'sd, 'sl) endian \<Rightarrow> 'sf \<Rightarrow> 'sf" where
  "NSSwapFloat A val = swap_float A val"

definition NSSwapDouble :: "('f, 'd, 'l, 'sf, 'sd, 'sl) endian \<Rightarrow> 'sd \<Rightarrow> 'sd" where
  "NSSwapDouble A val = swap_double A val"

definition NSSwapLongDouble :: "('f, 'd, 'l, 'sf, 'sd, 'sl) endian \<Rightarrow> 'sl \<Rightarrow> 'sl" where
  "NSSwapLongDouble A val = swap_long_double A val"

definition NSSwapBigFloatToHost :: "('f, 'd, 'l, 'sf, 'sd, 'sl) endian \<Rightarrow> 'sf \<Rightarrow> 'f" where
  "NSSwapBigFloatToHost A val = big_float_to_host A val"

definition NSSwapBigDoubleToHost :: "('f, 'd, 'l, 'sf, 'sd, 'sl) endian \<Rightarrow> 'sd \<Rightarrow> 'd" where
  "NSSwapBigDoubleToHost A val = big_double_to_host A val"

definition NSSwapBigLongDoubleToHost :: "('f, 'd, 'l, 'sf, 'sd, 'sl) endian \<Rightarrow> 'sl \<Rightarrow> 'l" where
  "NSSwapBigLongDoubleToHost A val = big_long_double_to_host A val"

definition NSSwapHostFloatToBig :: "('f, 'd, 'l, 'sf, 'sd, 'sl) endian \<Rightarrow> 'f \<Rightarrow> 'sf" where
  "NSSwapHostFloatToBig A val = host_float_to_big A val"

definition NSSwapHostDoubleToBig :: "('f, 'd, 'l, 'sf, 'sd, 'sl) endian \<Rightarrow> 'd \<Rightarrow> 'sd" where
  "NSSwapHostDoubleToBig A val = host_double_to_big A val"

definition NSSwapHostLongDoubleToBig :: "('f, 'd, 'l, 'sf, 'sd, 'sl) endian \<Rightarrow> 'l \<Rightarrow> 'sl" where
  "NSSwapHostLongDoubleToBig A val = host_long_double_to_big A val"

definition NSSwapLittleFloatToHost :: "('f, 'd, 'l, 'sf, 'sd, 'sl) endian \<Rightarrow> 'sf \<Rightarrow> 'f" where
  "NSSwapLittleFloatToHost A val = little_float_to_host A val"

definition NSSwapLittleDoubleToHost :: "('f, 'd, 'l, 'sf, 'sd, 'sl) endian \<Rightarrow> 'sd \<Rightarrow> 'd" where
  "NSSwapLittleDoubleToHost A val = little_double_to_host A val"

definition NSSwapLittleLongDoubleToHost :: "('f, 'd, 'l, 'sf, 'sd, 'sl) endian \<Rightarrow> 'sl \<Rightarrow> 'l" where
  "NSSwapLittleLongDoubleToHost A val = little_long_double_to_host A val"

definition NSSwapHostFloatToLittle :: "('f, 'd, 'l, 'sf, 'sd, 'sl) endian \<Rightarrow> 'f \<Rightarrow> 'sf" where
  "NSSwapHostFloatToLittle A val = host_float_to_little A val"

definition NSSwapHostDoubleToLittle :: "('f, 'd, 'l, 'sf, 'sd, 'sl) endian \<Rightarrow> 'd \<Rightarrow> 'sd" where
  "NSSwapHostDoubleToLittle A val = host_double_to_little A val"

definition NSSwapHostLongDoubleToLittle :: "('f, 'd, 'l, 'sf, 'sd, 'sl) endian \<Rightarrow> 'l \<Rightarrow> 'sl" where
  "NSSwapHostLongDoubleToLittle A val = host_long_double_to_little A val"

lemmas byte_order_defs =
  NSHostByteOrder_def MulleObjCSwapUInt16_def MulleObjCSwapUInt32_def
  NSSwapShort_def NSSwapInt_def NSSwapLong_def
  NSSwapLongLong_def NSSwap10Bytes_def NSSwapBigShortToHost_def
  NSSwapBigIntToHost_def NSSwapBigLongToHost_def NSSwapBigLongLongToHost_def
  NSSwapHostShortToBig_def NSSwapHostIntToBig_def NSSwapHostLongToBig_def
  NSSwapHostLongLongToBig_def NSSwapLittleShortToHost_def NSSwapLittleIntToHost_def
  NSSwapLittleLongToHost_def NSSwapLittleLongLongToHost_def NSSwapHostShortToLittle_def
  NSSwapHostIntToLittle_def NSSwapHostLongToLittle_def NSSwapHostLongLongToLittle_def
  NSConvertHostFloatToSwapped_def NSConvertSwappedFloatToHost_def NSConvertHostDoubleToSwapped_def
  NSConvertSwappedDoubleToHost_def NSConvertHostLongDoubleToSwapped_def NSConvertSwappedLongDoubleToHost_def
  NSSwapFloat_def NSSwapDouble_def NSSwapLongDouble_def
  NSSwapBigFloatToHost_def NSSwapBigDoubleToHost_def NSSwapBigLongDoubleToHost_def
  NSSwapHostFloatToBig_def NSSwapHostDoubleToBig_def NSSwapHostLongDoubleToBig_def
  NSSwapLittleFloatToHost_def NSSwapLittleDoubleToHost_def NSSwapLittleLongDoubleToHost_def
  NSSwapHostFloatToLittle_def NSSwapHostDoubleToLittle_def NSSwapHostLongDoubleToLittle_def

section \<open>Memory\<close>

text \<open>
  The bytes of a word of \<open>n\<close> bytes, the most significant one first, and how a host keeps the word in
  memory.
\<close>

definition bytes_big :: "nat \<Rightarrow> 'a::len word \<Rightarrow> 8 word list" where
  "bytes_big n v = map (\<lambda>i. ucast (drop_bit (8 * i) v)) (rev [0..<n])"

definition in_memory :: "bool \<Rightarrow> nat \<Rightarrow> 'a::len word \<Rightarrow> 8 word list" where
  "in_memory host_is_big n v = (if host_is_big then bytes_big n v else rev (bytes_big n v))"

text \<open>
  What the documentation of the library says: a swap turns the bytes around, and a conversion swaps
  exactly when the other byte order is not the one of the host.
\<close>

definition swaps :: "nat \<Rightarrow> ('a::len word \<Rightarrow> 'a word) \<Rightarrow> bool" where
  "swaps n f \<longleftrightarrow> (\<forall>v. bytes_big n (f v) = rev (bytes_big n v) \<and> f (f v) = v)"

definition chosen :: "bool \<Rightarrow> ('a \<Rightarrow> 'a) \<Rightarrow> 'a \<Rightarrow> 'a" where
  "chosen same f v = (if same then v else f v)"

definition endian_laws :: "('f, 'd, 'l, 'sf, 'sd, 'sl) endian \<Rightarrow> bool" where
  "endian_laws A \<longleftrightarrow> swaps 2 (swap_uint16 A) \<and> swaps 4 (swap_uint32 A) \<and> swaps 8 (swap_uint64 A) \<and>
     big_uint16_to_host A = chosen (big_endian A) (swap_uint16 A) \<and>
     host_uint16_to_big A = chosen (big_endian A) (swap_uint16 A) \<and>
     little_uint16_to_host A = chosen (\<not> big_endian A) (swap_uint16 A) \<and>
     host_uint16_to_little A = chosen (\<not> big_endian A) (swap_uint16 A) \<and>
     big_uint32_to_host A = chosen (big_endian A) (swap_uint32 A) \<and>
     host_uint32_to_big A = chosen (big_endian A) (swap_uint32 A) \<and>
     little_uint32_to_host A = chosen (\<not> big_endian A) (swap_uint32 A) \<and>
     host_uint32_to_little A = chosen (\<not> big_endian A) (swap_uint32 A) \<and>
     big_uint64_to_host A = chosen (big_endian A) (swap_uint64 A) \<and>
     host_uint64_to_big A = chosen (big_endian A) (swap_uint64 A) \<and>
     little_uint64_to_host A = chosen (\<not> big_endian A) (swap_uint64 A) \<and>
     host_uint64_to_little A = chosen (\<not> big_endian A) (swap_uint64 A)"

lemma swap_in_memory:
  "swaps n f \<Longrightarrow> in_memory b n (chosen (b = c) f v) = (if c then bytes_big n v else rev (bytes_big n v))"
  by (auto simp: swaps_def in_memory_def chosen_def)

lemma chosen_twice: "swaps n f \<Longrightarrow> chosen c f (chosen c f v) = v"
  by (simp add: swaps_def chosen_def)

section \<open>Properties\<close>

text \<open>
  A number that is converted from the order of the host to the big endian order lies in memory
  with its most significant byte first, and with its least significant byte first for the little
  endian order, whatever the byte order of the host is; converting it back gives the number again.
\<close>

theorem conversion_orders_bytes:
  assumes "endian_laws A"
  shows "in_memory (big_endian A) 2 (NSSwapHostShortToBig A v16) = bytes_big 2 v16
    \<and> in_memory (big_endian A) 4 (NSSwapHostIntToBig A v32) = bytes_big 4 v32
    \<and> in_memory (big_endian A) 8 (NSSwapHostLongToBig A v64) = bytes_big 8 v64
    \<and> in_memory (big_endian A) 8 (NSSwapHostLongLongToBig A v64) = bytes_big 8 v64
    \<and> in_memory (big_endian A) 2 (NSSwapHostShortToLittle A v16) = rev (bytes_big 2 v16)
    \<and> in_memory (big_endian A) 4 (NSSwapHostIntToLittle A v32) = rev (bytes_big 4 v32)
    \<and> in_memory (big_endian A) 8 (NSSwapHostLongToLittle A v64) = rev (bytes_big 8 v64)
    \<and> in_memory (big_endian A) 8 (NSSwapHostLongLongToLittle A v64) = rev (bytes_big 8 v64)
    \<and> NSSwapBigShortToHost A (NSSwapHostShortToBig A v16) = v16
    \<and> NSSwapBigIntToHost A (NSSwapHostIntToBig A v32) = v32
    \<and> NSSwapBigLongToHost A (NSSwapHostLongToBig A v64) = v64
    \<and> NSSwapBigLongLongToHost A (NSSwapHostLongLongToBig A v64) = v64
    \<and> NSSwapLittleShortToHost A (NSSwapHostShortToLittle A v16) = v16
    \<and> NSSwapLittleIntToHost A (NSSwapHostIntToLittle A v32) = v32
    \<and> NSSwapLittleLongToHost A (NSSwapHostLongToLittle A v64) = v64
    \<and> NSSwapLittleLongLongToHost A (NSSwapHostLongLongToLittle A v64) = v64"
proof -
  have s: "swaps 2 (swap_uint16 A)" "swaps 4 (swap_uint32 A)" "swaps 8 (swap_uint64 A)"
    using assms by (simp_all add: endian_laws_def)
  show ?thesis
    using assms s [THEN swap_in_memory, of "big_endian A" True] s [THEN swap_in_memory, of "big_endian A" False]
    by (simp add: endian_laws_def byte_order_defs s [THEN chosen_twice])
qed

text \<open>A swap by bits, for the examples: bit \<open>i\<close> comes from the mirrored byte.\<close>

definition mirror :: "nat \<Rightarrow> nat \<Rightarrow> nat" where
  "mirror n i = 8 * (n - 1 - i div 8) + i mod 8"

definition swap_bytes :: "nat \<Rightarrow> 'a::len word \<Rightarrow> 'a word" where
  "swap_bytes n v = horner_sum of_bool 2 (map (\<lambda>i. bit v (mirror n i)) [0..<8 * n])"

lemma bit_swap_bytes:
  "LENGTH('a) = 8 * n \<Longrightarrow> i < 8 * n \<Longrightarrow> bit (swap_bytes n (v :: 'a::len word)) i = bit v (mirror n i)"
  by (simp add: swap_bytes_def bit_horner_sum_bit_iff)

lemma mirror_less: "i < 8 * n \<Longrightarrow> mirror n i < 8 * n"
proof -
  assume "i < 8 * n"
  then have "8 * (n - 1 - i div 8) \<le> 8 * n - 8" "8 \<le> 8 * n" by auto
  moreover have "i mod 8 < 8" by simp
  ultimately show ?thesis unfolding mirror_def by linarith
qed

lemma mirror_mirror: "i < 8 * n \<Longrightarrow> mirror n (mirror n i) = i"
  unfolding mirror_def by (simp add: div_add1_eq)

lemma byte_swap_bytes:
  assumes "LENGTH('a) = 8 * n" and "j < n"
  shows "(ucast (drop_bit (8 * j) (swap_bytes n (v :: 'a::len word))) :: 8 word) = ucast (drop_bit (8 * (n - 1 - j)) v)"
proof (rule bit_word_eqI)
  fix k assume "k < LENGTH(8)"
  then have k: "k < 8" by simp
  then have less: "8 * j + k < 8 * n"
    using assms(2) by presburger
  have "mirror n (8 * j + k) = 8 * (n - 1 - j) + k"
    using k by (simp add: mirror_def)
  then show "bit (ucast (drop_bit (8 * j) (swap_bytes n v)) :: 8 word) k
      = bit (ucast (drop_bit (8 * (n - 1 - j)) v) :: 8 word) k"
    using bit_swap_bytes [OF assms(1) less, of v] k by (simp add: bit_simps)
qed

lemma swaps_swap_bytes:
  assumes "LENGTH('a) = 8 * n"
  shows "swaps n (swap_bytes n :: 'a::len word \<Rightarrow> 'a word)"
  unfolding swaps_def
proof (intro allI conjI)
  fix v :: "'a word"
  show "bytes_big n (swap_bytes n v) = rev (bytes_big n v)"
    unfolding bytes_big_def
    by (rule nth_equalityI) (auto simp: rev_nth rev_map byte_swap_bytes [OF assms])
  show "swap_bytes n (swap_bytes n v) = v"
    by (rule bit_word_eqI) (simp add: assms bit_swap_bytes [OF assms] mirror_less mirror_mirror)
qed

definition intel :: "(unit, unit, unit, unit, unit, unit) endian" where
  "intel = \<lparr>big_endian = False, swap_uint16 = swap_bytes 2, swap_uint32 = swap_bytes 4, swap_uint64 = swap_bytes 8,
     swap_10bytes = rev,
     big_uint16_to_host = swap_bytes 2, host_uint16_to_big = swap_bytes 2, big_uint32_to_host = swap_bytes 4,
     host_uint32_to_big = swap_bytes 4, big_uint64_to_host = swap_bytes 8, host_uint64_to_big = swap_bytes 8,
     little_uint16_to_host = id, host_uint16_to_little = id, little_uint32_to_host = id,
     host_uint32_to_little = id, little_uint64_to_host = id, host_uint64_to_little = id,
     host_float_to_swapped = id, swapped_float_to_host = id, swap_float = id, big_float_to_host = id,
     host_float_to_big = id, little_float_to_host = id, host_float_to_little = id,
     host_double_to_swapped = id, swapped_double_to_host = id, swap_double = id, big_double_to_host = id,
     host_double_to_big = id, little_double_to_host = id, host_double_to_little = id,
     host_long_double_to_swapped = id, swapped_long_double_to_host = id, swap_long_double = id,
     big_long_double_to_host = id, host_long_double_to_big = id, little_long_double_to_host = id,
     host_long_double_to_little = id\<rparr>"

lemma intel_laws: "endian_laws intel"
  by (simp add: endian_laws_def intel_def swaps_swap_bytes chosen_def fun_eq_iff)

theorem conversion_orders_bytes_witness:
  "in_memory (big_endian intel) 4 (NSSwapHostIntToBig intel 0x01020304) = [1, 2, 3, 4]"
  using conversion_orders_bytes [OF intel_laws, of 0 "0x01020304"] by (simp add: bytes_big_def upt_rec)

end
