(* ===== verification/Values.thy ===== *)
theory Values
  imports Ranges
begin

text \<open>
  Values kept in the pointer itself (\<open>src/protocol/MulleObjCTaggedPointer.h\<close>) and hashing of bytes
  (\<open>src/function/MulleObjCHashFunctions.h\<close>).

  The encoding of tagged pointers is that of the runtime: its functions are the fields of
  \<open>tps_api\<close>.  A \<open>float\<close> and a \<open>double\<close> are their bit patterns.
\<close>

record tps_api =
  taggedpointerindex :: "ref \<Rightarrow> uint32"
  valid_signed :: "64 word \<Rightarrow> bool"
  valid_unsigned :: "64 word \<Rightarrow> bool"
  valid_float :: "32 word \<Rightarrow> bool"
  valid_double :: "64 word \<Rightarrow> bool"
  create_signed :: "64 word \<Rightarrow> uint32 \<Rightarrow> ref"
  create_unsigned :: "64 word \<Rightarrow> uint32 \<Rightarrow> ref"
  create_float :: "32 word \<Rightarrow> uint32 \<Rightarrow> ref"
  create_double :: "64 word \<Rightarrow> uint32 \<Rightarrow> ref"
  get_signed :: "ref \<Rightarrow> 64 word"
  get_unsigned :: "ref \<Rightarrow> 64 word"
  get_float :: "ref \<Rightarrow> 32 word"
  get_double :: "ref \<Rightarrow> 64 word"
  get_index :: "ref \<Rightarrow> uint32"

section \<open>Tagged pointers\<close>

text \<open>The result for no class is \<open>-1\<close>, with \<open>errno\<close> set, which is \<open>Inl\<close> of \<open>EINVAL\<close>.\<close>

definition EINVAL :: int where
  "EINVAL = 22"

definition MulleObjCTaggedPointerClassGetIndex :: "tps_api \<Rightarrow> ref \<Rightarrow> int + uint32" where
  "MulleObjCTaggedPointerClassGetIndex A cls = (if cls = 0 then Inl EINVAL else Inr (taggedpointerindex A cls))"

definition MulleObjCTaggedPointerIsIntegerValue :: "tps_api \<Rightarrow> 64 word \<Rightarrow> bool" where
  "MulleObjCTaggedPointerIsIntegerValue A val = valid_signed A val"

definition MulleObjCTaggedPointerIsUnsignedIntegerValue :: "tps_api \<Rightarrow> 64 word \<Rightarrow> bool" where
  "MulleObjCTaggedPointerIsUnsignedIntegerValue A val = valid_unsigned A val"

definition MulleObjCTaggedPointerIsFloatValue :: "tps_api \<Rightarrow> 32 word \<Rightarrow> bool" where
  "MulleObjCTaggedPointerIsFloatValue A val = valid_float A val"

definition MulleObjCTaggedPointerIsDoubleValue :: "tps_api \<Rightarrow> 64 word \<Rightarrow> bool" where
  "MulleObjCTaggedPointerIsDoubleValue A val = valid_double A val"

text \<open>The index is cut to \<open>unsigned int\<close>.\<close>

definition MulleObjCCreateTaggedPointerWithIntegerValueAndIndex :: "tps_api \<Rightarrow> 64 word \<Rightarrow> NSUInteger \<Rightarrow> ref" where
  "MulleObjCCreateTaggedPointerWithIntegerValueAndIndex A val index = create_signed A val (ucast index)"

definition MulleObjCCreateTaggedPointerWithUnsignedIntegerValueAndIndex ::
    "tps_api \<Rightarrow> 64 word \<Rightarrow> NSUInteger \<Rightarrow> ref" where
  "MulleObjCCreateTaggedPointerWithUnsignedIntegerValueAndIndex A val index = create_unsigned A val (ucast index)"

definition MulleObjCCreateTaggedPointerWithFloatValueAndIndex :: "tps_api \<Rightarrow> 32 word \<Rightarrow> NSUInteger \<Rightarrow> ref" where
  "MulleObjCCreateTaggedPointerWithFloatValueAndIndex A val index = create_float A val (ucast index)"

definition MulleObjCCreateTaggedPointerWithDoubleValueAndIndex :: "tps_api \<Rightarrow> 64 word \<Rightarrow> NSUInteger \<Rightarrow> ref" where
  "MulleObjCCreateTaggedPointerWithDoubleValueAndIndex A val index = create_double A val (ucast index)"

definition MulleObjCTaggedPointerGetIntegerValue :: "tps_api \<Rightarrow> ref \<Rightarrow> 64 word" where
  "MulleObjCTaggedPointerGetIntegerValue A pointer = get_signed A pointer"

definition MulleObjCTaggedPointerGetUnsignedIntegerValue :: "tps_api \<Rightarrow> ref \<Rightarrow> 64 word" where
  "MulleObjCTaggedPointerGetUnsignedIntegerValue A pointer = get_unsigned A pointer"

definition MulleObjCTaggedPointerGetFloatValue :: "tps_api \<Rightarrow> ref \<Rightarrow> 32 word" where
  "MulleObjCTaggedPointerGetFloatValue A pointer = get_float A pointer"

definition MulleObjCTaggedPointerGetDoubleValue :: "tps_api \<Rightarrow> ref \<Rightarrow> 64 word" where
  "MulleObjCTaggedPointerGetDoubleValue A pointer = get_double A pointer"

definition MulleObjCTaggedPointerGetIndex :: "tps_api \<Rightarrow> ref \<Rightarrow> NSUInteger" where
  "MulleObjCTaggedPointerGetIndex A pointer = ucast (get_index A pointer)"

text \<open>The documented behaviour of the encoding of signed integers: a valid value with one of eight indices.\<close>

definition tps_laws :: "tps_api \<Rightarrow> bool" where
  "tps_laws A \<longleftrightarrow>
     (\<forall>v i. valid_signed A v \<longrightarrow> i < 8 \<longrightarrow> get_signed A (create_signed A v i) = v \<and> get_index A (create_signed A v i) = i)"

text \<open>
  A valid value and its index come back, but an index that does not fit 32 bits is taken for its low
  half without a word.
\<close>

lemma tagged_integer:
  assumes "tps_laws A" and "MulleObjCTaggedPointerIsIntegerValue A v"
  shows "i < 8 \<Longrightarrow>
      MulleObjCTaggedPointerGetIntegerValue A (MulleObjCCreateTaggedPointerWithIntegerValueAndIndex A v i) = v \<and>
      MulleObjCTaggedPointerGetIndex A (MulleObjCCreateTaggedPointerWithIntegerValueAndIndex A v i) = i"
    and "MulleObjCCreateTaggedPointerWithIntegerValueAndIndex A v (i + 2 ^ 32)
      = MulleObjCCreateTaggedPointerWithIntegerValueAndIndex A v i"
proof -
  show "MulleObjCCreateTaggedPointerWithIntegerValueAndIndex A v (i + 2 ^ 32)
      = MulleObjCCreateTaggedPointerWithIntegerValueAndIndex A v i"
  proof -
    have "unat (ucast (i + 2 ^ 32) :: uint32) = unat (ucast i :: uint32)"
      by (simp add: unsigned_ucast_eq unat_word_ariths take_bit_eq_mod mod_mod_cancel)
    then have "(ucast (i + 2 ^ 32) :: uint32) = ucast i"
      by (rule word_unat_eq_iff [THEN iffD2])
    then show ?thesis
      by (simp add: MulleObjCCreateTaggedPointerWithIntegerValueAndIndex_def)
  qed
next
  assume i: "i < 8"
  then have u: "unat (ucast i :: uint32) = unat i"
    by (simp add: unsigned_ucast_eq take_bit_eq_mod word_less_nat_alt)
  then have "(ucast i :: uint32) < 8" and "(ucast (ucast i :: uint32) :: NSUInteger) = i"
    using i by (simp_all add: word_less_nat_alt word_unat_eq_iff unat_ucast_up del: unsigned_ucast_eq)
  then show "MulleObjCTaggedPointerGetIntegerValue A (MulleObjCCreateTaggedPointerWithIntegerValueAndIndex A v i) = v \<and>
      MulleObjCTaggedPointerGetIndex A (MulleObjCCreateTaggedPointerWithIntegerValueAndIndex A v i) = i"
    using assms
    by (simp add: tps_laws_def MulleObjCTaggedPointerIsIntegerValue_def MulleObjCTaggedPointerGetIntegerValue_def
        MulleObjCTaggedPointerGetIndex_def MulleObjCCreateTaggedPointerWithIntegerValueAndIndex_def)
qed

section \<open>Hashing of bytes\<close>

text \<open>Of a long buffer only the last 64 bytes are hashed.\<close>

definition MulleObjCGetHashBytesRange :: "NSUInteger \<Rightarrow> NSRange" where
  "MulleObjCGetHashBytesRange n =
     (let (offset, n) = (if n > 64 then (n - 64, 64) else (0, n)) in NSRangeMake offset n)"

text \<open>
  \<open>mem\<close> is the memory, \<open>hash\<close> the function \<open>mulle_data_hash\<close> of mulle-data on the bytes of the data, and
  \<open>bytes\<close> the bytes from an address on.
\<close>

definition bytes :: "(ref \<Rightarrow> 8 word) \<Rightarrow> ref \<Rightarrow> NSUInteger \<Rightarrow> 8 word list" where
  "bytes mem buf n = map (\<lambda>i. mem (buf + of_nat i)) [0..<unat n]"

definition MulleObjCBytesHash :: "(8 word list \<Rightarrow> NSUInteger) \<Rightarrow> (ref \<Rightarrow> 8 word) \<Rightarrow> ref \<Rightarrow> NSUInteger \<Rightarrow> NSUInteger" where
  "MulleObjCBytesHash hash mem buf n = (if buf = 0 then - 1 else hash (bytes mem buf n))"

definition MulleObjCBytesHashRange :: "(8 word list \<Rightarrow> NSUInteger) \<Rightarrow> (ref \<Rightarrow> 8 word) \<Rightarrow> ref \<Rightarrow> NSRange \<Rightarrow> NSUInteger" where
  "MulleObjCBytesHashRange hash mem buf rng =
     (if buf = 0 then - 1 else hash (bytes mem (buf + location rng) (len rng)))"

definition MulleObjCBytesPartialHash ::
    "(8 word list \<Rightarrow> NSUInteger) \<Rightarrow> (ref \<Rightarrow> 8 word) \<Rightarrow> ref \<Rightarrow> NSUInteger \<Rightarrow> NSUInteger" where
  "MulleObjCBytesPartialHash hash mem buf n =
     (let rng = MulleObjCGetHashBytesRange n in MulleObjCBytesHashRange hash mem buf rng)"

lemma drop_bytes:
  assumes "k \<le> n"
  shows "drop (unat k) (bytes mem buf n) = bytes mem (buf + k) (n - k)"
proof -
  have "unat (n - k) = unat n - unat k"
    using assms by (simp add: unat_sub)
  then show ?thesis
    by (intro nth_equalityI) (simp_all add: bytes_def less_diff_conv algebra_simps)
qed

text \<open>
  The partial hash of a buffer is the hash of its last 64 bytes, or of all when there are less; no
  byte outside the buffer is read.  So buffers with the same end hash equal, and up to 64 bytes the
  partial hash is the hash.
\<close>
theorem partial_hash_of_tail:
  assumes "buf \<noteq> 0"
  shows "MulleObjCBytesPartialHash hash mem buf n = hash (drop (unat n - 64) (bytes mem buf n))
       \<and> indices (MulleObjCGetHashBytesRange n) = {unat n - 64 ..< unat n}
       \<and> (n > 64 \<or> MulleObjCBytesPartialHash hash mem buf n = MulleObjCBytesHash hash mem buf n)"
proof (cases "n > 64")
  case True
  then have le: "64 \<le> n" and u: "unat (n - 64) = unat n - 64" "64 < unat n"
    by unat_arith+
  have "drop (unat (n - 64)) (bytes mem buf n) = bytes mem (buf + (n - 64)) (n - (n - 64))"
    by (rule drop_bytes) (simp add: word_le_nat_alt u)
  then show ?thesis
    using True assms u
    by (auto simp: MulleObjCBytesPartialHash_def MulleObjCGetHashBytesRange_def MulleObjCBytesHashRange_def
        NSRangeMake_def indices_def)
next
  case False
  then have "unat n \<le> 64"
    by (simp add: word_less_nat_alt not_less)
  then show ?thesis
    using False assms
    by (simp add: MulleObjCBytesPartialHash_def MulleObjCGetHashBytesRange_def MulleObjCBytesHashRange_def
        MulleObjCBytesHash_def NSRangeMake_def indices_def)
qed

theorem partial_hash_of_tail_witness:
  "MulleObjCBytesPartialHash (\<lambda>bs. of_nat (length bs)) (\<lambda>a. ucast a) 16 100 = 64"
  using partial_hash_of_tail [where buf = 16 and n = 100 and hash = "\<lambda>bs. of_nat (length bs)" and mem = ucast]
  by (simp add: bytes_def)

end
