(* ===== verification/Allocation.thy ===== *)
theory Allocation
  imports Prelude
begin

text \<open>
  Allocators and instances (\<open>src/function/MulleObjCAllocation.h\<close>, \<open>src/function/MulleObjCAllocation.m\<close>
  and the zones of \<open>src/struct/NSZone.h\<close> that are left for compatibility).

  Memory, allocators and the headers of objects belong to the libraries mulle-allocator and
  mulle-objc-runtime: their functions are the fields of \<open>memory\<close>, over a state \<open>'s\<close> that the model does
  not look into.  An allocator is a reference, too.  Assertions, which only a debug build has, are
  not modelled.
\<close>

section \<open>What the runtime provides\<close>

text \<open>\<open>embedded\<close> is the build option \<open>MULLE_OBJC_EMBEDDED_ALLOCATOR\<close>.\<close>

record 's memory =
  embedded :: bool
  isa_of :: "'s \<Rightarrow> ref \<Rightarrow> ref"
  header_allocator :: "'s \<Rightarrow> ref \<Rightarrow> ref"
  class_allocator :: "'s \<Rightarrow> ref \<Rightarrow> ref"
  instance_allocator :: "'s \<Rightarrow> ref"
  set_instance_allocator :: "ref \<Rightarrow> 's \<Rightarrow> 's"
  allocator_malloc :: "ref \<Rightarrow> NSUInteger \<Rightarrow> 's \<Rightarrow> ref \<times> 's"
  allocator_realloc :: "ref \<Rightarrow> ref \<Rightarrow> NSUInteger \<Rightarrow> 's \<Rightarrow> ref \<times> 's"
  allocator_calloc :: "ref \<Rightarrow> NSUInteger \<Rightarrow> NSUInteger \<Rightarrow> 's \<Rightarrow> ref \<times> 's"
  allocator_strdup :: "ref \<Rightarrow> string \<Rightarrow> 's \<Rightarrow> ref \<times> 's"
  allocator_free :: "ref \<Rightarrow> ref \<Rightarrow> 's \<Rightarrow> 's"
  alloc_instance_extra :: "ref \<Rightarrow> NSUInteger \<Rightarrow> ref \<Rightarrow> 's \<Rightarrow> ref \<times> 's"
  alloc_instance_extra_nonzeroed :: "ref \<Rightarrow> NSUInteger \<Rightarrow> ref \<Rightarrow> 's \<Rightarrow> ref \<times> 's"
  free_instance :: "ref \<Rightarrow> ref \<Rightarrow> ref \<Rightarrow> 's \<Rightarrow> 's"
  allocationsize :: "'s \<Rightarrow> ref \<Rightarrow> NSUInteger"
  headerextrasize :: "'s \<Rightarrow> ref \<Rightarrow> NSUInteger"
  sizeof_objectheader :: NSUInteger
  get_objectheader :: "ref \<Rightarrow> NSUInteger \<Rightarrow> ref"
  objectheader_init :: "ref \<Rightarrow> ref \<Rightarrow> NSUInteger \<Rightarrow> bool \<Rightarrow> 's \<Rightarrow> 's"
  header_object :: "ref \<Rightarrow> ref"
  clear_memory :: "ref \<Rightarrow> NSUInteger \<Rightarrow> 's \<Rightarrow> 's"
  increment_retaincount :: "ref \<Rightarrow> 's \<Rightarrow> 's"
  decrement_retaincount_waszero :: "ref \<Rightarrow> 's \<Rightarrow> bool \<times> 's"
  get_retaincount :: "'s \<Rightarrow> ref \<Rightarrow> NSUInteger"
  retain_inline :: "ref \<Rightarrow> 's \<Rightarrow> 's"
  release_inline :: "ref \<Rightarrow> 's \<Rightarrow> 's"
  zombieenabled :: "'s \<Rightarrow> bool"
  deallocatezombie :: "'s \<Rightarrow> bool"
  shredzombie :: "'s \<Rightarrow> bool"
  zombify :: "ref \<Rightarrow> bool \<Rightarrow> 's \<Rightarrow> 's"

section \<open>Which allocator\<close>

definition MulleObjCInstanceGetAllocator :: "'s memory \<Rightarrow> ref \<Rightarrow> 's \<Rightarrow> ref" where
  "MulleObjCInstanceGetAllocator M obj s =
     (if obj = 0 then 0
      else if embedded M then header_allocator M s obj
      else let cls = isa_of M s obj in class_allocator M s cls)"

definition MulleObjCClassGetAllocator :: "'s memory \<Rightarrow> ref \<Rightarrow> 's \<Rightarrow> ref" where
  "MulleObjCClassGetAllocator M cls s =
     (if cls = 0 then 0
      else let allocator = instance_allocator M s
           in if embedded M \<and> allocator \<noteq> 0 then allocator else class_allocator M s cls)"

definition MulleObjCThreadSetAllocator :: "'s memory \<Rightarrow> ref \<Rightarrow> 's \<Rightarrow> 's" where
  "MulleObjCThreadSetAllocator M allocator s = set_instance_allocator M allocator s"

definition MulleObjCThreadGetAllocator :: "'s memory \<Rightarrow> 's \<Rightarrow> ref" where
  "MulleObjCThreadGetAllocator M s = instance_allocator M s"

section \<open>Memory for instances\<close>

definition MulleObjCInstanceAllocateNonZeroedMemory :: "'s memory \<Rightarrow> ref \<Rightarrow> NSUInteger \<Rightarrow> 's \<Rightarrow> ref \<times> 's" where
  "MulleObjCInstanceAllocateNonZeroedMemory M self n s =
     allocator_malloc M (MulleObjCInstanceGetAllocator M self s) n s"

definition MulleObjCInstanceReallocateNonZeroedMemory ::
    "'s memory \<Rightarrow> ref \<Rightarrow> ref \<Rightarrow> NSUInteger \<Rightarrow> 's \<Rightarrow> ref \<times> 's" where
  "MulleObjCInstanceReallocateNonZeroedMemory M self p n s =
     allocator_realloc M (MulleObjCInstanceGetAllocator M self s) p n s"

definition MulleObjCInstanceAllocateMemory :: "'s memory \<Rightarrow> ref \<Rightarrow> NSUInteger \<Rightarrow> 's \<Rightarrow> ref \<times> 's" where
  "MulleObjCInstanceAllocateMemory M self n s =
     allocator_calloc M (MulleObjCInstanceGetAllocator M self s) 1 n s"

definition MulleObjCInstanceDuplicateUTF8String :: "'s memory \<Rightarrow> ref \<Rightarrow> string \<Rightarrow> 's \<Rightarrow> ref \<times> 's" where
  "MulleObjCInstanceDuplicateUTF8String M self t s =
     allocator_strdup M (MulleObjCInstanceGetAllocator M self s) t s"

definition MulleObjCInstanceDeallocateMemory :: "'s memory \<Rightarrow> ref \<Rightarrow> ref \<Rightarrow> 's \<Rightarrow> 's" where
  "MulleObjCInstanceDeallocateMemory M self p s =
     (if p \<noteq> 0 then allocator_free M (MulleObjCInstanceGetAllocator M self s) p s else s)"

section \<open>Memory for class methods\<close>

definition MulleObjCClassAllocateNonZeroedMemory :: "'s memory \<Rightarrow> ref \<Rightarrow> NSUInteger \<Rightarrow> 's \<Rightarrow> ref \<times> 's" where
  "MulleObjCClassAllocateNonZeroedMemory M cls n s =
     allocator_malloc M (MulleObjCClassGetAllocator M cls s) n s"

definition MulleObjCClassReallocateNonZeroedMemory ::
    "'s memory \<Rightarrow> ref \<Rightarrow> ref \<Rightarrow> NSUInteger \<Rightarrow> 's \<Rightarrow> ref \<times> 's" where
  "MulleObjCClassReallocateNonZeroedMemory M cls p n s =
     allocator_realloc M (MulleObjCClassGetAllocator M cls s) p n s"

definition MulleObjCClassAllocateMemory :: "'s memory \<Rightarrow> ref \<Rightarrow> NSUInteger \<Rightarrow> 's \<Rightarrow> ref \<times> 's" where
  "MulleObjCClassAllocateMemory M cls n s =
     allocator_calloc M (MulleObjCClassGetAllocator M cls s) 1 n s"

definition MulleObjCClassDuplicateUTF8String :: "'s memory \<Rightarrow> ref \<Rightarrow> string \<Rightarrow> 's \<Rightarrow> ref \<times> 's" where
  "MulleObjCClassDuplicateUTF8String M cls t s =
     allocator_strdup M (MulleObjCClassGetAllocator M cls s) t s"

definition MulleObjCClassDeallocateMemory :: "'s memory \<Rightarrow> ref \<Rightarrow> ref \<Rightarrow> 's \<Rightarrow> 's" where
  "MulleObjCClassDeallocateMemory M cls p s =
     (if p \<noteq> 0 then allocator_free M (MulleObjCClassGetAllocator M cls s) p s else s)"

section \<open>Instances\<close>

definition MulleObjCClassAllocateInstance :: "'s memory \<Rightarrow> ref \<Rightarrow> NSUInteger \<Rightarrow> 's \<Rightarrow> ref \<times> 's" where
  "MulleObjCClassAllocateInstance M infraCls extra s =
     (let allocator = MulleObjCClassGetAllocator M infraCls s
      in alloc_instance_extra M infraCls extra allocator s)"

definition MulleObjCClassAllocateNonZeroedObject :: "'s memory \<Rightarrow> ref \<Rightarrow> NSUInteger \<Rightarrow> 's \<Rightarrow> ref \<times> 's" where
  "MulleObjCClassAllocateNonZeroedObject M infraCls extra s =
     (let allocator = MulleObjCClassGetAllocator M infraCls s
      in alloc_instance_extra_nonzeroed M infraCls extra allocator s)"

definition MulleObjCClassAllocateInstanceWithAllocator ::
    "'s memory \<Rightarrow> ref \<Rightarrow> NSUInteger \<Rightarrow> ref \<Rightarrow> 's \<Rightarrow> ref \<times> 's" where
  "MulleObjCClassAllocateInstanceWithAllocator M infraCls extra allocator s =
     alloc_instance_extra M infraCls extra allocator s"

definition MulleObjCClassAllocateNonZeroedObjectWithAllocator ::
    "'s memory \<Rightarrow> ref \<Rightarrow> NSUInteger \<Rightarrow> ref \<Rightarrow> 's \<Rightarrow> ref \<times> 's" where
  "MulleObjCClassAllocateNonZeroedObjectWithAllocator M infraCls extra allocator s =
     alloc_instance_extra_nonzeroed M infraCls extra allocator s"

text \<open>The zone is ignored.\<close>

definition NSAllocateObject :: "'s memory \<Rightarrow> ref \<Rightarrow> NSUInteger \<Rightarrow> ref \<Rightarrow> 's \<Rightarrow> ref \<times> 's" where
  "NSAllocateObject M infra extra zone s =
     (if infra \<noteq> 0 then MulleObjCClassAllocateInstance M infra extra s else (0, s))"

text \<open>\<open>_MulleObjCInstanceFree\<close>: with zombies enabled the memory is kept unless configured otherwise.\<close>

definition free_object :: "'s memory \<Rightarrow> ref \<Rightarrow> 's \<Rightarrow> 's" where
  "free_object M obj s =
     (let cls = isa_of M s obj;
          s1 = (if zombieenabled M s then zombify M obj (shredzombie M s) s else s)
      in if zombieenabled M s \<and> \<not> deallocatezombie M s1 then s1
         else free_instance M cls obj (MulleObjCInstanceGetAllocator M obj s1) s1)"

definition MulleObjCInstanceFree :: "'s memory \<Rightarrow> ref \<Rightarrow> 's \<Rightarrow> 's" where
  "MulleObjCInstanceFree M self s = (if self \<noteq> 0 then free_object M self s else s)"

definition NSDeallocateObject :: "'s memory \<Rightarrow> ref \<Rightarrow> 's \<Rightarrow> 's" where
  "NSDeallocateObject M obj s = (if obj \<noteq> 0 then free_object M obj s else s)"

definition MulleObjCClassGetInstanceSize :: "'s memory \<Rightarrow> ref \<Rightarrow> 's \<Rightarrow> NSUInteger" where
  "MulleObjCClassGetInstanceSize M infra s = (if infra = 0 then 0 else allocationsize M s infra)"

definition MulleObjCClassConstructInstance ::
    "'s memory \<Rightarrow> ref \<Rightarrow> ref \<Rightarrow> NSUInteger \<Rightarrow> bool \<Rightarrow> 's \<Rightarrow> ref \<times> 's" where
  "MulleObjCClassConstructInstance M infra bytes n isZeroed s =
     (if infra = 0 then (0, s)
      else let header = get_objectheader M bytes (headerextrasize M s infra);
               s1 = objectheader_init M header infra (headerextrasize M s infra) isZeroed s;
               obj = header_object M header
           in (obj, if isZeroed then s1
                    else clear_memory M obj (n - headerextrasize M s1 infra - sizeof_objectheader M) s1))"

section \<open>Reference counts\<close>

definition NSIncrementExtraRefCount :: "'s memory \<Rightarrow> ref \<Rightarrow> 's \<Rightarrow> 's" where
  "NSIncrementExtraRefCount M obj s = increment_retaincount M obj s"

definition NSDecrementExtraRefCountWasZero :: "'s memory \<Rightarrow> ref \<Rightarrow> 's \<Rightarrow> bool \<times> 's" where
  "NSDecrementExtraRefCountWasZero M obj s =
     (if obj \<noteq> 0 then decrement_retaincount_waszero M obj s else (False, s))"

definition NSExtraRefCount :: "'s memory \<Rightarrow> ref \<Rightarrow> 's \<Rightarrow> NSUInteger" where
  "NSExtraRefCount M obj s = get_retaincount M s obj"

definition NSShouldRetainWithZone :: "ref \<Rightarrow> ref \<Rightarrow> bool" where
  "NSShouldRetainWithZone p zone = False"

definition MulleObjCRetainObject :: "'s memory \<Rightarrow> ref \<Rightarrow> 's \<Rightarrow> ref \<times> 's" where
  "MulleObjCRetainObject M obj s = (obj, retain_inline M obj s)"

definition MulleObjCReleaseObject :: "'s memory \<Rightarrow> ref \<Rightarrow> 's \<Rightarrow> 's" where
  "MulleObjCReleaseObject M obj s = release_inline M obj s"

section \<open>Collecting owned objects\<close>

text \<open>
  Both functions walk the given references.  \<open>room\<close> is how much of the array \<open>objects\<close> is left, the
  result is the number of objects found and what has been written to the array.  The variadic one
  has its arguments as a list.
\<close>

fun copy_loop :: "nat \<Rightarrow> NSUInteger \<Rightarrow> ref list \<Rightarrow> ref list \<Rightarrow> NSUInteger \<times> ref list" where
  "copy_loop room n written [] = (n, written)"
| "copy_loop room n written (obj # args) =
     (if obj \<noteq> 0
      then (if 0 < room then copy_loop (room - 1) (n + 1) (written @ [obj]) args
            else copy_loop room (n + 1) written args)
      else copy_loop room n written args)"

definition MulleObjCCopyObjects :: "NSUInteger \<Rightarrow> NSUInteger \<Rightarrow> ref list \<Rightarrow> NSUInteger \<times> ref list" where
  "MulleObjCCopyObjects len n args = copy_loop (unat len) 0 [] (take (unat n) args)"

definition MulleObjCCopyObjectArray :: "NSUInteger \<Rightarrow> ref list \<Rightarrow> NSUInteger \<Rightarrow> NSUInteger \<times> ref list" where
  "MulleObjCCopyObjectArray len array n = copy_loop (unat len) 0 [] (take (unat n) array)"

section \<open>Zones\<close>

text \<open>Zones do not exist any more: every zone is the null pointer.  The default allocator is \<open>malloc\<close>.\<close>

definition mulle_objc_object_zone :: ref where
  "mulle_objc_object_zone = 0"

definition NSDefaultMallocZone :: ref where
  "NSDefaultMallocZone = 0"

definition NSCreateZone :: "NSUInteger \<Rightarrow> NSUInteger \<Rightarrow> bool \<Rightarrow> ref" where
  "NSCreateZone startSize granularity canFree = 0"

definition NSRecycleZone :: "ref \<Rightarrow> 's \<Rightarrow> 's" where
  "NSRecycleZone zone s = s"

definition NSSetZoneName :: "ref \<Rightarrow> ref \<Rightarrow> 's \<Rightarrow> 's" where
  "NSSetZoneName zone name s = s"

definition NSZoneFromPointer :: "ref \<Rightarrow> ref" where
  "NSZoneFromPointer p = 0"

definition NSZoneMalloc :: "'s memory \<Rightarrow> ref \<Rightarrow> ref \<Rightarrow> NSUInteger \<Rightarrow> 's \<Rightarrow> ref \<times> 's" where
  "NSZoneMalloc M default_allocator zone n s = allocator_malloc M default_allocator n s"

definition NSZoneCalloc :: "'s memory \<Rightarrow> ref \<Rightarrow> ref \<Rightarrow> NSUInteger \<Rightarrow> NSUInteger \<Rightarrow> 's \<Rightarrow> ref \<times> 's" where
  "NSZoneCalloc M default_allocator zone numElems byteSize s =
     allocator_calloc M default_allocator numElems byteSize s"

definition NSZoneRealloc :: "'s memory \<Rightarrow> ref \<Rightarrow> ref \<Rightarrow> ref \<Rightarrow> NSUInteger \<Rightarrow> 's \<Rightarrow> ref \<times> 's" where
  "NSZoneRealloc M default_allocator zone p n s = allocator_realloc M default_allocator p n s"

definition NSZoneFree :: "'s memory \<Rightarrow> ref \<Rightarrow> ref \<Rightarrow> ref \<Rightarrow> 's \<Rightarrow> 's" where
  "NSZoneFree M default_allocator zone p s = (if p \<noteq> 0 then allocator_free M default_allocator p s else s)"

end
