(* ===== verification/AllocationProps.thy ===== *)
theory AllocationProps
  imports Allocation
begin

text \<open>
  Properties of allocation: an instance goes back to the allocator it is from, and what the functions
  that collect owned objects find and store.
\<close>

section \<open>Laws of the runtime\<close>

text \<open>
  What is documented of the runtime: a new instance has the class that was asked for and, with
  embedded allocators, its header names the allocator it is from; setting the allocator of a thread
  changes nothing else.
\<close>

definition memory_laws :: "'s memory \<Rightarrow> bool" where
  "memory_laws M \<longleftrightarrow>
     (\<forall>cls extra al s obj s'. alloc_instance_extra M cls extra al s = (obj, s') \<longrightarrow>
        obj \<noteq> 0 \<and> isa_of M s' obj = cls \<and> header_allocator M s' obj = al \<and>
        (\<forall>c. class_allocator M s' c = class_allocator M s c) \<and>
        zombieenabled M s' = zombieenabled M s) \<and>
     (\<forall>al s. isa_of M (set_instance_allocator M al s) = isa_of M s \<and>
        header_allocator M (set_instance_allocator M al s) = header_allocator M s \<and>
        class_allocator M (set_instance_allocator M al s) = class_allocator M s \<and>
        zombieenabled M (set_instance_allocator M al s) = zombieenabled M s \<and>
        instance_allocator M (set_instance_allocator M al s) = al)"

section \<open>Properties\<close>

text \<open>
  An instance is freed with the allocator it was created with, also when the thread has set
  another allocator for instances in between, and in both builds, with embedded allocators and
  without; freeing nil does nothing.
\<close>

theorem instance_returns_to_its_allocator:
  assumes "memory_laws M" and "cls \<noteq> 0" and "\<not> zombieenabled M s"
    and "NSAllocateObject M cls extra zone s = (obj, s1)"
    and "s2 = MulleObjCThreadSetAllocator M other s1"
  shows "NSDeallocateObject M obj s2 = free_instance M cls obj (MulleObjCClassGetAllocator M cls s) s2
    \<and> NSDeallocateObject M 0 s2 = s2"
proof -
  have new: "obj \<noteq> 0" "isa_of M s1 obj = cls" "header_allocator M s1 obj = MulleObjCClassGetAllocator M cls s"
      "class_allocator M s1 c = class_allocator M s c" "\<not> zombieenabled M s1" for c
    using assms(1,3,4) assms(2)
    unfolding NSAllocateObject_def MulleObjCClassAllocateInstance_def memory_laws_def Let_def
    by (simp; blast)+
  have set: "isa_of M s2 = isa_of M s1" "header_allocator M s2 = header_allocator M s1"
      "class_allocator M s2 = class_allocator M s1" "zombieenabled M s2 = zombieenabled M s1"
    using assms(1,5) by (simp_all add: memory_laws_def MulleObjCThreadSetAllocator_def)
  show ?thesis
    using new set assms(2)
    by (simp add: NSDeallocateObject_def free_object_def MulleObjCInstanceGetAllocator_def
        MulleObjCClassGetAllocator_def Let_def)
qed

text \<open>
  A small memory for the example: the next address, the allocator of the thread, the objects with
  class and allocator, and the instances that were freed with their allocator.
\<close>

type_synonym tiny = "ref \<times> ref \<times> (ref \<Rightarrow> ref \<times> ref) \<times> (ref \<times> ref) list"

definition tiny_memory :: "tiny memory" where
  "tiny_memory = \<lparr>embedded = True,
     isa_of = (\<lambda>(n, t, os, fs) obj. fst (os obj)), header_allocator = (\<lambda>(n, t, os, fs) obj. snd (os obj)),
     class_allocator = (\<lambda>s cls. 1), instance_allocator = (\<lambda>(n, t, os, fs). t),
     set_instance_allocator = (\<lambda>al (n, t, os, fs). (n, al, os, fs)),
     allocator_malloc = (\<lambda>al k s. (0, s)), allocator_realloc = (\<lambda>al p k s. (0, s)),
     allocator_calloc = (\<lambda>al m k s. (0, s)), allocator_strdup = (\<lambda>al t s. (0, s)),
     allocator_free = (\<lambda>al p s. s),
     alloc_instance_extra = (\<lambda>cls extra al (n, t, os, fs).
        let obj = if n = 0 then 8 else n in (obj, (obj + 8, t, os(obj := (cls, al)), fs))),
     alloc_instance_extra_nonzeroed = (\<lambda>cls extra al s. (0, s)),
     free_instance = (\<lambda>cls obj al (n, t, os, fs). (n, t, os, fs @ [(obj, al)])),
     allocationsize = (\<lambda>s cls. 16), headerextrasize = (\<lambda>s cls. 0), sizeof_objectheader = 16,
     get_objectheader = (\<lambda>p k. p), objectheader_init = (\<lambda>h cls k z s. s), header_object = (\<lambda>h. h + 16),
     clear_memory = (\<lambda>p k s. s), increment_retaincount = (\<lambda>obj s. s),
     decrement_retaincount_waszero = (\<lambda>obj s. (False, s)), get_retaincount = (\<lambda>s obj. 1),
     retain_inline = (\<lambda>obj s. s), release_inline = (\<lambda>obj s. s),
     zombieenabled = (\<lambda>s. False), deallocatezombie = (\<lambda>s. False), shredzombie = (\<lambda>s. False),
     zombify = (\<lambda>obj b s. s)\<rparr>"

lemma tiny_memory_laws: "memory_laws tiny_memory"
  by (simp add: memory_laws_def tiny_memory_def Let_def split_beta)

theorem instance_returns_to_its_allocator_witness:
  "snd (snd (snd (NSDeallocateObject tiny_memory 8
     (MulleObjCThreadSetAllocator tiny_memory 3 (16, 2, (\<lambda>_. (0, 0))(8 := (5, 2)), []))))) = [(8, 2)]"
proof -
  have a: "NSAllocateObject tiny_memory 5 0 0 (0, 2, \<lambda>_. (0, 0), []) = (8, (16, 2, (\<lambda>_. (0, 0))(8 := (5, 2)), []))"
    by (simp add: NSAllocateObject_def MulleObjCClassAllocateInstance_def MulleObjCClassGetAllocator_def
        tiny_memory_def Let_def)
  have "NSDeallocateObject tiny_memory 8
     (MulleObjCThreadSetAllocator tiny_memory 3 (16, 2, (\<lambda>_. (0, 0))(8 := (5, 2)), []))
     = free_instance tiny_memory 5 8 (MulleObjCClassGetAllocator tiny_memory 5 (0, 2, \<lambda>_. (0, 0), []))
        (MulleObjCThreadSetAllocator tiny_memory 3 (16, 2, (\<lambda>_. (0, 0))(8 := (5, 2)), []))"
    using instance_returns_to_its_allocator [OF tiny_memory_laws _ _ a refl, of 3]
    by (simp add: tiny_memory_def)
  then show ?thesis
    by (simp add: tiny_memory_def NSDeallocateObject_def free_object_def MulleObjCInstanceGetAllocator_def
        MulleObjCThreadSetAllocator_def Let_def)
qed

lemma copy_loop_eq:
  "copy_loop room n written args =
     (n + of_nat (length (filter (\<lambda>obj. obj \<noteq> 0) args)), written @ take room (filter (\<lambda>obj. obj \<noteq> 0) args))"
proof (induction args arbitrary: room n written)
  case (Cons obj args)
  then show ?case
    by (cases room) simp_all
qed simp

text \<open>
  The functions that collect owned objects skip nil, store as many of the objects as the caller
  has room for, in their order, and return how many there are even if not all of them fit; the
  variadic one and the one that takes an array do the same.
\<close>

theorem copied_objects:
  assumes "length args = unat n"
  shows "MulleObjCCopyObjects room n args =
      (of_nat (length (filter (\<lambda>obj. obj \<noteq> 0) args)), take (unat room) (filter (\<lambda>obj. obj \<noteq> 0) args))
    \<and> MulleObjCCopyObjectArray room args n = MulleObjCCopyObjects room n args"
  using assms by (simp add: MulleObjCCopyObjects_def MulleObjCCopyObjectArray_def copy_loop_eq)

theorem copied_objects_witness:
  "MulleObjCCopyObjects 1 3 [7, 0, 9] = (2, [7])"
  using copied_objects [of "[7, 0, 9]" 3 1] by simp

text \<open>What an instance allocates for itself and gives back goes to the same allocator.\<close>

lemma instance_memory_same_allocator:
  "p \<noteq> 0 \<Longrightarrow> MulleObjCInstanceGetAllocator M self s' = MulleObjCInstanceGetAllocator M self s \<Longrightarrow>
   MulleObjCInstanceAllocateMemory M self n s = (p, s') \<Longrightarrow>
   MulleObjCInstanceDeallocateMemory M self p s'
     = allocator_free M (MulleObjCInstanceGetAllocator M self s) p s'"
  by (simp add: MulleObjCInstanceDeallocateMemory_def)

end
