(* ===== verification/Standard.thy ===== *)
theory Standard
  imports AllocationProps
begin

text \<open>
  The standard implementations of the methods that every object has
  (\<open>src/function/MulleObjCStandardImplementation-Private.h\<close> with
  \<open>src/function/MulleObjCStandardImplementation.m\<close>) and the inlined calls of \<open>+alloc\<close>, \<open>-init\<close> and
  \<open>-autorelease\<close>, which consult a bit mask of the class before they send a message.

  What they call elsewhere is the record \<open>standard\<close>, on top of the runtime in theory \<open>Allocation\<close>:
  messages, the autorelease pool of the thread, clearing properties, the mask and the bit numbers of
  the method families.  Raising an exception is the left summand of the result; the code behind it
  does not run.
\<close>

section \<open>What they call\<close>

datatype standard_message = M_alloc | M_init | M_autorelease

datatype inconsistency = Autoreleased_too_often ref | Still_in_autoreleasepool ref

record 's standard =
  mem :: "'s memory"
  debug_build :: bool
  checker_enabled :: "'s \<Rightarrow> bool"
  count_autoreleases :: "'s \<Rightarrow> ref \<Rightarrow> NSUInteger"
  count_retains :: "'s \<Rightarrow> ref \<Rightarrow> NSUInteger"
  pool_autorelease :: "ref \<Rightarrow> 's \<Rightarrow> 's"
  clear_properties :: "ref \<Rightarrow> 's \<Rightarrow> 's"
  message :: "ref \<Rightarrow> standard_message \<Rightarrow> 's \<Rightarrow> inconsistency + ref \<times> 's"
  standardimpmask :: "'s \<Rightarrow> ref \<Rightarrow> NSUInteger"
  methodfamily :: "standard_message \<Rightarrow> nat"

section \<open>Standard implementations\<close>

text \<open>
  \<open>_MulleObjCStandardCheckAutoreleaseRelease\<close>: only a debug build checks, and only when the checker
  for programs with one thread is enabled.
\<close>

definition CheckAutoreleaseRelease :: "'s standard \<Rightarrow> ref \<Rightarrow> 's \<Rightarrow> inconsistency + unit" where
  "CheckAutoreleaseRelease A self s =
     (if debug_build A \<and> checker_enabled A s
      then let autoreleaseCount = count_autoreleases A s self;
               retainCount = count_retains A s self
           in if autoreleaseCount \<ge> retainCount then Inl (Autoreleased_too_often self) else Inr ()
      else Inr ())"

definition StandardAlloc :: "'s standard \<Rightarrow> ref \<Rightarrow> 's \<Rightarrow> ref \<times> 's" where
  "StandardAlloc A self s = MulleObjCClassAllocateInstance (mem A) self 0 s"

definition StandardInit :: "ref \<Rightarrow> 's \<Rightarrow> ref \<times> 's" where
  "StandardInit self s = (self, s)"

definition StandardNew :: "'s standard \<Rightarrow> ref \<Rightarrow> 's \<Rightarrow> inconsistency + ref \<times> 's" where
  "StandardNew A self s =
     (case MulleObjCClassAllocateInstance (mem A) self 0 s of (obj, s') \<Rightarrow> message A obj M_init s')"

definition StandardAutorelease :: "'s standard \<Rightarrow> ref \<Rightarrow> 's \<Rightarrow> inconsistency + ref \<times> 's" where
  "StandardAutorelease A self s =
     (case CheckAutoreleaseRelease A self s of
        Inl e \<Rightarrow> Inl e
      | Inr _ \<Rightarrow> Inr (self, pool_autorelease A self s))"

definition StandardDealloc :: "'s standard \<Rightarrow> ref \<Rightarrow> 's \<Rightarrow> inconsistency + 's" where
  "StandardDealloc A self s =
     (if debug_build A \<and> checker_enabled A s \<and> count_autoreleases A s self \<noteq> 0
      then Inl (Still_in_autoreleasepool self)
      else Inr (free_object (mem A) self s))"

definition StandardFinalize :: "'s standard \<Rightarrow> ref \<Rightarrow> 's \<Rightarrow> 's" where
  "StandardFinalize A self s = clear_properties A self s"

definition StandardRelease :: "'s standard \<Rightarrow> ref \<Rightarrow> 's \<Rightarrow> inconsistency + 's" where
  "StandardRelease A self s =
     (case CheckAutoreleaseRelease A self s of
        Inl e \<Rightarrow> Inl e
      | Inr _ \<Rightarrow> Inr (release_inline (mem A) self s))"

definition StandardRetain :: "'s standard \<Rightarrow> ref \<Rightarrow> 's \<Rightarrow> ref \<times> 's" where
  "StandardRetain A self s = (self, retain_inline (mem A) self s)"

definition StandardRetainCount :: "'s standard \<Rightarrow> ref \<Rightarrow> 's \<Rightarrow> NSUInteger" where
  "StandardRetainCount A self s = get_retaincount (mem A) s self"

definition StandardSelf :: "ref \<Rightarrow> 's \<Rightarrow> ref \<times> 's" where
  "StandardSelf self s = (self, s)"

section \<open>Inlined calls\<close>

definition family_bit :: "'s standard \<Rightarrow> standard_message \<Rightarrow> NSUInteger" where
  "family_bit A m = push_bit (methodfamily A m) 1"

definition GetStandardImplementationMask :: "'s standard \<Rightarrow> ref \<Rightarrow> 's \<Rightarrow> NSUInteger" where
  "GetStandardImplementationMask A cls s = (if cls = 0 then 0 else standardimpmask A s cls)"

definition ClassCallAllocInline :: "'s standard \<Rightarrow> ref \<Rightarrow> NSUInteger \<Rightarrow> 's \<Rightarrow> inconsistency + ref \<times> 's" where
  "ClassCallAllocInline A cls msk s =
     (if msk AND family_bit A M_alloc \<noteq> 0 then Inr (StandardAlloc A cls s)
      else message A cls M_alloc s)"

definition InstanceCallInitInline :: "'s standard \<Rightarrow> ref \<Rightarrow> NSUInteger \<Rightarrow> 's \<Rightarrow> inconsistency + ref \<times> 's" where
  "InstanceCallInitInline A self msk s =
     (if msk AND family_bit A M_init \<noteq> 0
      then (if self = 0 then Inr (0, s) else Inr (StandardInit self s))
      else message A self M_init s)"

definition InstanceCallAutoreleaseInline ::
    "'s standard \<Rightarrow> ref \<Rightarrow> NSUInteger \<Rightarrow> 's \<Rightarrow> inconsistency + ref \<times> 's" where
  "InstanceCallAutoreleaseInline A self msk s =
     (if msk AND family_bit A M_autorelease \<noteq> 0
      then (if self = 0 then Inr (0, s) else StandardAutorelease A self s)
      else message A self M_autorelease s)"

text \<open>
  What the mask promises: messages to nil do nothing, and a message of a family whose bit is set in
  the mask of the receiver's class is answered by the standard implementation.
\<close>

definition mask_laws :: "'s standard \<Rightarrow> ref \<Rightarrow> bool" where
  "mask_laws A cls \<longleftrightarrow>
     (\<forall>m s. message A 0 m s = Inr (0, s)) \<and>
     (\<forall>s. standardimpmask A s cls AND family_bit A M_alloc \<noteq> 0 \<longrightarrow>
        message A cls M_alloc s = Inr (StandardAlloc A cls s)) \<and>
     (\<forall>s obj. isa_of (mem A) s obj = cls \<longrightarrow> obj \<noteq> 0 \<longrightarrow> standardimpmask A s cls AND family_bit A M_init \<noteq> 0 \<longrightarrow>
        message A obj M_init s = Inr (StandardInit obj s)) \<and>
     (\<forall>s obj. isa_of (mem A) s obj = cls \<longrightarrow> obj \<noteq> 0 \<longrightarrow> standardimpmask A s cls AND family_bit A M_autorelease \<noteq> 0 \<longrightarrow>
        message A obj M_autorelease s = StandardAutorelease A obj s)"

text \<open>
  The inlined calls do what the messages do: with the mask of the class, \<open>+alloc\<close> of the class and
  \<open>-init\<close> and \<open>-autorelease\<close> of its instances, nil included, have the same outcome whether they are
  inlined or sent.
\<close>

theorem inlined_calls_are_messages:
  assumes "mask_laws A cls" and "cls \<noteq> 0" and "obj = 0 \<or> isa_of (mem A) s obj = cls"
  shows "ClassCallAllocInline A cls (GetStandardImplementationMask A cls s) s = message A cls M_alloc s
    \<and> InstanceCallInitInline A obj (GetStandardImplementationMask A cls s) s = message A obj M_init s
    \<and> InstanceCallAutoreleaseInline A obj (GetStandardImplementationMask A cls s) s = message A obj M_autorelease s"
  using assms
  by (auto simp: mask_laws_def GetStandardImplementationMask_def ClassCallAllocInline_def
      InstanceCallInitInline_def InstanceCallAutoreleaseInline_def StandardInit_def)

text \<open>A class that implements all three messages in the standard way.\<close>

definition plain :: "tiny standard" where
  "plain = \<lparr>mem = tiny_memory, debug_build = False, checker_enabled = (\<lambda>s. False),
     count_autoreleases = (\<lambda>s obj. 0), count_retains = (\<lambda>s obj. 1), pool_autorelease = (\<lambda>obj s. s),
     clear_properties = (\<lambda>obj s. s),
     message = (\<lambda>obj m s. if obj = 0 then Inr (0, s)
        else case m of M_alloc \<Rightarrow> Inr (MulleObjCClassAllocateInstance tiny_memory obj 0 s) | _ \<Rightarrow> Inr (obj, s)),
     standardimpmask = (\<lambda>s cls. 6),
     methodfamily = (\<lambda>m. case m of M_alloc \<Rightarrow> 1 | M_init \<Rightarrow> 2 | M_autorelease \<Rightarrow> 3)\<rparr>"

theorem inlined_calls_are_messages_witness:
  "ClassCallAllocInline plain 5 (GetStandardImplementationMask plain 5 (8, 2, \<lambda>_. (5, 2), [])) (8, 2, \<lambda>_. (5, 2), [])
     = message plain 5 M_alloc (8, 2, \<lambda>_. (5, 2), [])"
proof -
  have "mask_laws plain 5"
    by (auto simp: mask_laws_def plain_def StandardAlloc_def StandardInit_def family_bit_def)
  moreover have "isa_of (mem plain) (8, 2, \<lambda>_. (5, 2), []) 24 = 5"
    by (simp add: plain_def tiny_memory_def)
  ultimately show ?thesis
    using inlined_calls_are_messages [of plain 5 24 "(8, 2, \<lambda>_. (5, 2), [])"] by simp
qed

text \<open>
  The checker: an autorelease and a release go through exactly when more retains than autoreleases
  are left, and a deallocation when no autorelease is.
\<close>

lemma checked_release:
  assumes "debug_build A" and "checker_enabled A s"
  shows "StandardRelease A self s = Inr s' \<longleftrightarrow>
    count_autoreleases A s self < count_retains A s self \<and> s' = release_inline (mem A) self s"
  using assms by (auto simp: StandardRelease_def CheckAutoreleaseRelease_def Let_def)

end
