(* ===== verification/Objects.thy ===== *)
theory Objects
  imports Prelude
begin

text \<open>
  Objects and their classes: what is an instance, a class or nil (\<open>src/mulle-objc.h\<close>), kinship of classes,
  guards that run a class initializer once (\<open>src/protocol/MulleObjCRootObject.h\<close>), the ways to hand an
  object to another thread (\<open>src/protocol/MulleObjCRuntimeObject.h\<close>), the universe of an object
  (\<open>src/MulleObjCUniverse.h\<close>), the lock of a \<open>MulleObject\<close>
  (\<open>src/class/MulleObject-Private.h\<close>, \<open>src/class/MulleObject.h\<close>) and the forwarding of a
  \<open>MulleDynamicObject\<close> (\<open>src/class/MulleDynamicObject.h\<close>).

  What the runtime answers is a parameter: \<open>isa\<close>, the class of an object, \<open>superclass\<close>, and the kinds of
  classes.  0 is nil, Nil and NULL.
\<close>

section \<open>Kinds of objects\<close>

record class_kinds =
  object_isa :: "ref \<Rightarrow> ref"
  is_metaclass :: "ref \<Rightarrow> bool"
  is_infraclass :: "ref \<Rightarrow> bool"

definition MulleObjCClassMetaClass :: "class_kinds \<Rightarrow> ref \<Rightarrow> bool" where
  "MulleObjCClassMetaClass K cls = is_metaclass K cls"

definition MulleObjCObjectIsClass :: "class_kinds \<Rightarrow> ref \<Rightarrow> bool" where
  "MulleObjCObjectIsClass K obj = (let cls = object_isa K obj in is_metaclass K cls)"

definition MulleObjCObjectIsClassOrNil :: "class_kinds \<Rightarrow> ref \<Rightarrow> bool" where
  "MulleObjCObjectIsClassOrNil K obj = (let cls = object_isa K obj in \<not> is_infraclass K cls)"

definition MulleObjCObjectIsInstance :: "class_kinds \<Rightarrow> ref \<Rightarrow> bool" where
  "MulleObjCObjectIsInstance K obj = (let cls = object_isa K obj in is_infraclass K cls)"

definition MulleObjCObjectIsInstanceOrNil :: "class_kinds \<Rightarrow> ref \<Rightarrow> bool" where
  "MulleObjCObjectIsInstanceOrNil K obj = (let cls = object_isa K obj in \<not> is_metaclass K cls)"

text \<open>nil has no class, no class is of no kind, and every class is an infraclass or a metaclass.\<close>

definition kinds_law :: "class_kinds \<Rightarrow> bool" where
  "kinds_law K \<longleftrightarrow> object_isa K 0 = 0 \<and> \<not> is_metaclass K 0 \<and> \<not> is_infraclass K 0 \<and>
     (\<forall>obj. obj \<noteq> 0 \<longrightarrow> is_metaclass K (object_isa K obj) \<noteq> is_infraclass K (object_isa K obj))"

lemma or_nil:
  assumes "kinds_law K"
  shows "MulleObjCObjectIsClassOrNil K obj \<longleftrightarrow> obj = 0 \<or> MulleObjCObjectIsClass K obj"
    and "MulleObjCObjectIsInstanceOrNil K obj \<longleftrightarrow> obj = 0 \<or> MulleObjCObjectIsInstance K obj"
  using assms by (cases "obj = 0"; simp add: kinds_law_def MulleObjCObjectIsClassOrNil_def
      MulleObjCObjectIsClass_def MulleObjCObjectIsInstanceOrNil_def MulleObjCObjectIsInstance_def)+

section \<open>Kinship\<close>

text \<open>\<open>None\<close> for a walk over the superclasses that does not end.\<close>

partial_function (option) kinship_loop :: "(ref \<Rightarrow> ref) \<Rightarrow> ref \<Rightarrow> ref \<Rightarrow> bool option" where
  "kinship_loop superclass infra otherClass =
     (if infra = otherClass then Some True
      else let infra' = superclass infra in
        if infra' \<noteq> 0 then kinship_loop superclass infra' otherClass else Some False)"

declare kinship_loop.simps [code]

definition MulleObjCClassIsSubclassOfClass :: "(ref \<Rightarrow> ref) \<Rightarrow> ref \<Rightarrow> ref \<Rightarrow> bool option" where
  "MulleObjCClassIsSubclassOfClass superclass self otherClass = kinship_loop superclass self otherClass"

definition NSObjectIsKindOfClass :: "(ref \<Rightarrow> ref) \<Rightarrow> (ref \<Rightarrow> ref) \<Rightarrow> ref \<Rightarrow> ref \<Rightarrow> bool option" where
  "NSObjectIsKindOfClass isa superclass self otherClass = (let cls = isa self in kinship_loop superclass cls otherClass)"

definition MulleObjCInstanceIsMemberOfClass :: "(ref \<Rightarrow> ref) \<Rightarrow> ref \<Rightarrow> ref \<Rightarrow> bool" where
  "MulleObjCInstanceIsMemberOfClass isa self otherClass \<longleftrightarrow> isa self = otherClass"

text \<open>The superclasses form a forest: along them some rank goes down.\<close>

definition class_forest :: "(ref \<Rightarrow> ref) \<Rightarrow> (ref \<Rightarrow> nat) \<Rightarrow> bool" where
  "class_forest superclass rank \<longleftrightarrow> (\<forall>c. superclass c \<noteq> 0 \<longrightarrow> rank (superclass c) < rank c)"

definition inherits :: "(ref \<Rightarrow> ref) \<Rightarrow> (ref \<times> ref) set" where
  "inherits superclass = {(c, superclass c) | c. superclass c \<noteq> 0}"

lemma kinship_ancestors:
  assumes "class_forest superclass rank"
  shows "kinship_loop superclass c d = Some ((c, d) \<in> (inherits superclass)\<^sup>*)"
proof (induction "rank c" arbitrary: c rule: less_induct)
  case less
  have step: "(c, d) \<in> (inherits superclass)\<^sup>* \<longleftrightarrow>
      c = d \<or> superclass c \<noteq> 0 \<and> (superclass c, d) \<in> (inherits superclass)\<^sup>*"
    by (auto simp: inherits_def elim: converse_rtranclE intro: converse_rtrancl_into_rtrancl)
  show ?case
    using less [of "superclass c"] assms
    by (subst kinship_loop.simps) (auto simp: Let_def class_forest_def step)
qed

text \<open>
  Asking for kinship always returns, and it tells the ancestors: a class is a subclass of itself and
  of its superclasses, directly or through others, and of nothing else; an object is of a kind when its
  class is that class or inherits from it.  So kinship is transitive, and being a member implies being of
  the kind.
\<close>
theorem kinship_is_ancestry:
  assumes "class_forest superclass rank"
  shows "MulleObjCClassIsSubclassOfClass superclass c d = Some ((c, d) \<in> (inherits superclass)\<^sup>*)
    \<and> NSObjectIsKindOfClass isa superclass obj d = MulleObjCClassIsSubclassOfClass superclass (isa obj) d
    \<and> (MulleObjCInstanceIsMemberOfClass isa obj d \<longrightarrow> NSObjectIsKindOfClass isa superclass obj d = Some True)"
  using kinship_ancestors [OF assms]
  by (simp add: MulleObjCClassIsSubclassOfClass_def NSObjectIsKindOfClass_def MulleObjCInstanceIsMemberOfClass_def)

definition demo_superclass :: "ref \<Rightarrow> ref" where
  "demo_superclass c = (if c = 3 then 2 else if c = 2 then 1 else 0)"

theorem kinship_is_ancestry_witness:
  "MulleObjCClassIsSubclassOfClass demo_superclass 3 1 = Some True"
proof -
  have "class_forest demo_superclass unat"
    by (simp add: class_forest_def demo_superclass_def)
  moreover have "(3, 1) \<in> (inherits demo_superclass)\<^sup>*"
    by (rule converse_rtrancl_into_rtrancl [of _ 2], simp add: inherits_def demo_superclass_def,
        rule r_into_rtrancl, simp add: inherits_def demo_superclass_def)
  ultimately show ?thesis
    using kinship_is_ancestry [where superclass = demo_superclass and rank = unat and c = 3 and d = 1] by simp
qed

section \<open>Initializing a class once\<close>

text \<open>
  \<open>+initialize\<close> is inherited: it is called for a class and again for each subclass that has none of its
  own.  The guard lets its body run for the class that it was written for only.  With assertions the
  guard may not stand in a category.
\<close>

definition guarded :: "bool \<Rightarrow> uint32 \<Rightarrow> uint32 \<Rightarrow> uint32 \<Rightarrow> ('s \<Rightarrow> 's) \<Rightarrow> 's \<Rightarrow> 's outcome" where
  "guarded asserts this_categoryid self_classid this_classid body s =
     (if asserts \<and> this_categoryid \<noteq> 0 then Abort
      else Done (if self_classid = this_classid then body s else s))"

definition MulleObjCClassInitializeOnceDo where
  "MulleObjCClassInitializeOnceDo asserts this_categoryid self_classid this_classid body s =
     guarded asserts this_categoryid self_classid this_classid body s"

definition MulleObjCClassDeinitializeOnceDo where
  "MulleObjCClassDeinitializeOnceDo asserts this_categoryid self_classid this_classid body s =
     guarded asserts this_categoryid self_classid this_classid body s"

definition MulleObjCClassFinalizeOnceDo where
  "MulleObjCClassFinalizeOnceDo asserts this_categoryid self_classid this_classid body s =
     guarded asserts this_categoryid self_classid this_classid body s"

text \<open>Over any number of classes, each initialized once, the body runs once.\<close>

primrec initialize_all :: "bool \<Rightarrow> uint32 \<Rightarrow> ('s \<Rightarrow> 's) \<Rightarrow> uint32 list \<Rightarrow> 's \<Rightarrow> 's outcome" where
  "initialize_all asserts this_classid body [] s = Done s"
| "initialize_all asserts this_classid body (c # cs) s =
     (case MulleObjCClassInitializeOnceDo asserts 0 c this_classid body s of
        Abort \<Rightarrow> Abort | Done s' \<Rightarrow> initialize_all asserts this_classid body cs s')"

lemma initialized_once:
  "distinct cs \<Longrightarrow> initialize_all asserts this body cs s = Done (if this \<in> set cs then body s else s)"
  by (induction cs arbitrary: s) (auto simp: MulleObjCClassInitializeOnceDo_def guarded_def)

section \<open>Handing objects to other threads\<close>

datatype MulleObjCTAOStrategy =
    MulleObjCTAOCallerRemovesFromCurrentPool
  | MulleObjCTAOCallerRemovesFromAllPools
  | MulleObjCTAOCallerRemovesFromCurrentPoolShallow
  | MulleObjCTAOCallerRemovesFromAllPoolsShallow
  | MulleObjCTAOReceiverPerformsFinalize
  | MulleObjCTAOTransferIvars
  | MulleObjCTAOKnownThreadSafeMethods
  | MulleObjCTAOKnownThreadSafe

text \<open>The messages are sent through the runtime, which does nothing for nil and constant objects.\<close>

definition MulleObjCObjectRetain :: "(ref \<Rightarrow> 's \<Rightarrow> ref \<times> 's) \<Rightarrow> ref \<Rightarrow> 's \<Rightarrow> ref \<times> 's" where
  "MulleObjCObjectRetain call_retain obj s = call_retain obj s"

definition MulleObjCObjectRelease :: "(ref \<Rightarrow> 's \<Rightarrow> 's) \<Rightarrow> ref \<Rightarrow> 's \<Rightarrow> 's" where
  "MulleObjCObjectRelease call_release obj s = call_release obj s"

section \<open>Universes\<close>

definition MulleObjCGetUniverse :: "(uint32 \<Rightarrow> ref) \<Rightarrow> uint32 \<Rightarrow> ref" where
  "MulleObjCGetUniverse lookup this_universeid = lookup this_universeid"

definition MulleObjCObjectGetUniverse :: "(uint32 \<Rightarrow> ref) \<Rightarrow> uint32 \<Rightarrow> (ref \<Rightarrow> ref) \<Rightarrow> ref \<Rightarrow> ref" where
  "MulleObjCObjectGetUniverse lookup this_universeid universe_of self =
     (if self = 0 then lookup this_universeid else universe_of self)"

section \<open>The lock of a MulleObject\<close>

text \<open>\<open>lock\<close> is the instance variable, the operations are those of the recursive lock.\<close>

definition MulleObjectLock :: "(ref \<Rightarrow> 's \<Rightarrow> 's) \<Rightarrow> ref \<Rightarrow> 's \<Rightarrow> 's" where
  "MulleObjectLock RecursiveLockLock lock s = (if lock \<noteq> 0 then RecursiveLockLock lock s else s)"

definition MulleObjectTryLock :: "(ref \<Rightarrow> 's \<Rightarrow> bool \<times> 's) \<Rightarrow> ref \<Rightarrow> 's \<Rightarrow> bool \<times> 's" where
  "MulleObjectTryLock RecursiveLockTryLock lock s = (if lock = 0 then (False, s) else RecursiveLockTryLock lock s)"

definition MulleObjectUnlock :: "(ref \<Rightarrow> 's \<Rightarrow> 's) \<Rightarrow> ref \<Rightarrow> 's \<Rightarrow> 's" where
  "MulleObjectUnlock RecursiveLockUnlock lock s = (if lock \<noteq> 0 then RecursiveLockUnlock lock s else s)"

section \<open>Dynamic objects\<close>

datatype MulleObjCGenericType =
    MulleObjCGenericTypeVoidPointer
  | MulleObjCGenericTypeStrdup
  | MulleObjCGenericTypeAssign
  | MulleObjCGenericTypeRetain
  | MulleObjCGenericTypeCopy
  | MulleObjCGenericTypeValue
  | MulleObjCGenericTypeNumber

text \<open>
  What forwarding calls: the search for a dynamic property, with the class where the methods are to be
  placed (no property is NULL), the making of its methods, whose result is the implementation of the one
  that was needed, and the call.
\<close>

record ('p, 'i, 'a, 'r, 's) forwarding =
  search_property :: "ref \<Rightarrow> uint32 \<Rightarrow> 'p option \<times> ref"
  create_methods_for_property :: "ref \<Rightarrow> 'p \<Rightarrow> uint32 \<Rightarrow> 's \<Rightarrow> ('i \<times> 's) outcome"
  create_accessor_methods :: "ref \<Rightarrow> uint32 \<Rightarrow> 's \<Rightarrow> ('i option \<times> 's) outcome"
  isFullyDynamic :: "ref \<Rightarrow> bool"
  invoke :: "'i \<Rightarrow> ref \<Rightarrow> uint32 \<Rightarrow> 'a \<Rightarrow> 's \<Rightarrow> ('r \<times> 's) outcome"

text \<open>The result is \<open>None\<close> when \<open>*fail\<close> is set.\<close>

definition MulleDynamicObjectForward ::
    "bool \<Rightarrow> ('p, 'i, 'a, 'r, 's) forwarding \<Rightarrow> (ref \<Rightarrow> ref) \<Rightarrow> ref \<Rightarrow> uint32 \<Rightarrow> 'a \<Rightarrow> 's \<Rightarrow> ('r option \<times> 's) outcome" where
  "MulleDynamicObjectForward have_fully_dynamic F isa self cmd args s =
     (let infra = isa self;
          (property, infra) = search_property F infra cmd;
          call = (\<lambda>imp s. case invoke F imp self cmd args s of
                           Abort \<Rightarrow> Abort | Done (r, s) \<Rightarrow> Done (Some r, s))
      in case property of
           Some p \<Rightarrow>
             (case create_methods_for_property F infra p cmd s of
                Abort \<Rightarrow> Abort | Done (imp, s) \<Rightarrow> call imp s)
         | None \<Rightarrow>
             (if have_fully_dynamic \<and> isFullyDynamic F infra
              then (case create_accessor_methods F infra cmd s of
                      Abort \<Rightarrow> Abort
                    | Done (Some imp, s) \<Rightarrow> call imp s
                    | Done (None, s) \<Rightarrow> Done (None, s))
              else Done (None, s)))"

definition MulleObjectForward ::
    "bool \<Rightarrow> ('p, 'i, 'a, 'r, 's) forwarding \<Rightarrow> (ref \<Rightarrow> ref) \<Rightarrow> ref \<Rightarrow> uint32 \<Rightarrow> 'a \<Rightarrow> 's \<Rightarrow> ('r option \<times> 's) outcome" where
  "MulleObjectForward have_fully_dynamic F isa self cmd args s =
     MulleDynamicObjectForward have_fully_dynamic F isa self cmd args s"

definition MulleObjectValueSetter where
  "MulleObjectValueSetter DynamicObjectValueSetter self cmd param objcType s =
     DynamicObjectValueSetter self cmd param objcType s"

definition MulleObjectNumberSetter where
  "MulleObjectNumberSetter DynamicObjectNumberSetter self cmd param objcType s =
     DynamicObjectNumberSetter self cmd param objcType s"

definition MulleObjectValueGetter where
  "MulleObjectValueGetter DynamicObjectValueGetter self cmd param s = DynamicObjectValueGetter self cmd param s"

end
