(* ===== verification/ThreadCalls.thy ===== *)
theory ThreadCalls
  imports Prelude
begin

text \<open>
  The thread object as other code uses it (\<open>src/class/NSThread.h\<close>): its instance variables, what the
  current thread keeps for its user, and the handler for accesses by the wrong thread.

  The memory \<open>thread_at\<close> has the thread objects by reference.  Finding the thread object of the current
  thread, and the map that an object is kept in, belong to the runtime and to mulle-container: they are
  parameters.
\<close>

record nsthread =
  osThread :: ref
  osThreadId :: ref
  runLoop :: ref
  nameUTF8String :: ref
  cancelled :: ref
  thread_invocation :: ref
  userInfo :: ref
  thread_function :: ref
  functionArgument :: ref
  finalizers :: "ref list"
  thread_poolconfiguration :: ref
  thread_map :: "string \<rightharpoonup> ref"
  rval :: "32 word"
  isObjectFunctionArgument :: bool
  isDetached :: bool
  threadDidGainAccess :: bool

type_synonym threads = "ref \<Rightarrow> nsthread"

text \<open>\<open>lookup\<close> finds a universe, \<open>threadobject\<close> the thread object of the running thread in it.\<close>

definition MulleThreadGetCurrentThread :: "(uint32 \<Rightarrow> ref) \<Rightarrow> (ref \<Rightarrow> ref) \<Rightarrow> uint32 \<Rightarrow> ref" where
  "MulleThreadGetCurrentThread lookup threadobject this_universeid =
     (let universe = lookup this_universeid; threadObject = threadobject universe in threadObject)"

text \<open>The functions below work on the current thread, \<open>current\<close>.\<close>

definition MulleThreadGetCurrentThreadUserInfo :: "ref \<Rightarrow> threads \<Rightarrow> ref" where
  "MulleThreadGetCurrentThreadUserInfo current thread_at = userInfo (thread_at current)"

text \<open>
  With \<open>asserts\<close> an object that the thread may not access ends the process.  \<open>map_set\<close> is the insertion of
  mulle-container.
\<close>

definition MulleThreadSetObjectForKeyUTF8String ::
    "bool \<Rightarrow> (ref \<Rightarrow> ref \<Rightarrow> bool) \<Rightarrow> (string \<Rightarrow> ref \<Rightarrow> (string \<rightharpoonup> ref) \<Rightarrow> (string \<rightharpoonup> ref)) \<Rightarrow> ref \<Rightarrow> ref \<Rightarrow> string
       \<Rightarrow> threads \<Rightarrow> threads outcome" where
  "MulleThreadSetObjectForKeyUTF8String asserts isAccessibleByThread map_set current val k thread_at =
     (if asserts \<and> \<not> (val = 0 \<or> isAccessibleByThread val current) then Abort
      else Done (thread_at(current := (thread_at current)\<lparr>thread_map := map_set k val (thread_map (thread_at current))\<rparr>)))"

definition MulleThreadObjectForKeyUTF8String :: "ref \<Rightarrow> string \<Rightarrow> threads \<Rightarrow> ref" where
  "MulleThreadObjectForKeyUTF8String current k thread_at =
     (case thread_map (thread_at current) k of None \<Rightarrow> 0 | Some val \<Rightarrow> val)"

definition MulleThreadObjectGetOSThreadId :: "ref \<Rightarrow> threads \<Rightarrow> ref" where
  "MulleThreadObjectGetOSThreadId threadObject thread_at = osThreadId (thread_at threadObject)"

definition MulleThreadGetCurrentOSThread :: "ref \<Rightarrow> ref" where
  "MulleThreadGetCurrentOSThread thread_self = thread_self"

definition MulleThreadGetCurrentOSThreadId :: "ref \<Rightarrow> ref" where
  "MulleThreadGetCurrentOSThreadId thread_id = thread_id"

text \<open>An object that was set for a key is found there, and nothing else changes.\<close>

lemma thread_object_roundtrip:
  assumes "MulleThreadSetObjectForKeyUTF8String a acc (\<lambda>k v m. m(k \<mapsto> v)) t v k ths = Done ths'"
  shows "MulleThreadObjectForKeyUTF8String t k ths' = v"
    and "k' \<noteq> k \<Longrightarrow> MulleThreadObjectForKeyUTF8String t k' ths' = MulleThreadObjectForKeyUTF8String t k' ths"
    and "t' \<noteq> t \<Longrightarrow> MulleThreadObjectForKeyUTF8String t' k' ths' = MulleThreadObjectForKeyUTF8String t' k' ths"
  using assms by (auto simp: MulleThreadSetObjectForKeyUTF8String_def MulleThreadObjectForKeyUTF8String_def split: if_splits)

section \<open>The wrong thread\<close>

record 'handler thread_failures =
  wrongthread :: 'handler

definition MulleObjCGetTAOFailureHandler :: "'handler thread_failures \<Rightarrow> 'handler" where
  "MulleObjCGetTAOFailureHandler u = wrongthread u"

definition MulleObjCSetTAOFailureHandler :: "'handler \<Rightarrow> 'handler thread_failures \<Rightarrow> 'handler thread_failures" where
  "MulleObjCSetTAOFailureHandler handler u = u\<lparr>wrongthread := handler\<rparr>"

text \<open>
  A test of an object in another thread: what is sent, in order, within an autorelease pool of its own.
  \<open>instance_of\<close> and \<open>new_thread\<close> are what the two creating messages return.
\<close>

datatype tao_message =
    Push_pool
  | Instance ref
  | Thread_with_target ref ref
  | Thread_autorelease ref
  | Thread_start ref
  | Thread_join ref
  | Pop_pool

definition MulleObjCTAOTest :: "(ref \<Rightarrow> ref) \<Rightarrow> (ref \<Rightarrow> ref \<Rightarrow> ref) \<Rightarrow> ref \<Rightarrow> ref \<Rightarrow> tao_message list" where
  "MulleObjCTAOTest instance_of new_thread cls arg =
     (let obj = instance_of cls; thread = new_thread obj arg in
      [Push_pool, Instance cls, Thread_with_target obj arg, Thread_autorelease thread,
       Thread_start thread, Thread_join thread, Pop_pool])"

end
