(* ===== verification/ThreadLife.thy ===== *)
theory ThreadLife
  imports ThreadCalls
begin

text \<open>
  The life of a thread (\<open>src/class/NSThread.m\<close>): starting, running, ending and joining, for any number of
  thread objects.

  Two parties act on a thread object: its caller, who created it, starts it and joins it, and the thread
  of the operating system that runs it.  A step is one access to what several threads share, or one
  message; \<open>starting\<close> and \<open>running\<close> tell what the caller and the thread do next.  The argument is the
  invocation or the object that the thread works on; \<open>kept\<close> tells whether the thread object still has it,
  \<open>given\<close> counts how often its reference was given back.  The reference that \<open>-mulleStart\<close> takes of the
  thread object is counted by \<open>retained\<close>, \<open>owned\<close> is the reference of the caller, and the object is
  \<open>freed\<close> with the last one.

  Starting a thread of the operating system, waiting for its end and the garbage collection for lock
  free structures (\<open>aba\<close>) belong to mulle-thread and mulle-aba: a start succeeds or fails, waiting takes until
  the thread has ended.  The classes that hook into the beginning and the end of multi threading are
  left out, and so is the teardown of the universe.
\<close>

section \<open>One thread object and what all share\<close>

datatype start_point =
    Unstarted
  | Start_count | Start_multi | Start_retain | Start_universe | Start_relinquish | Start_create
  | Start_id | Start_detach
  | Undo_detached | Undo_universe | Undo_release
  | Started
  | Joining | Join_access | Join_argument
  | Joined

datatype run_point =
    Nothing
  | Bounce_id | Bounce_aba | Become_retain | Become_info | Become_gc | Become_count | Become_was
  | Bounce_pools | Bounce_table | Bounce_current | Bounce_release | Bounce_access | Bounce_gained
  | Main
  | Exit_count | Exit_single | Exit_finalize
  | Down_table | Down_current | Down_release | Down_pools
  | Resign_gc | Resign_count | Resign_aba | Resign_universe
  | Ended

datatype access = By_caller | By_thread | By_nobody

record life =
  starting :: start_point
  running :: run_point
  id_known :: bool
  detached :: bool
  gained :: bool
  kept :: bool
  given :: nat
  argument_access :: access
  owned :: bool
  retained :: nat
  freed :: bool
  in_table :: bool
  is_current :: bool
  has_pools :: bool
  in_aba :: bool
  in_gc :: bool

text \<open>\<open>universe_references\<close> counts the references to the universe, the main thread's included.\<close>

record shared =
  universe_references :: int
  thread_count :: int
  was_multi :: bool
  multi :: bool

section \<open>What the messages do\<close>

text \<open>\<open>-mulleGainAccess\<close> and \<open>-mulleRelinquishAccess\<close> for the argument; sent to nil they do nothing.\<close>

definition gain :: "access \<Rightarrow> life \<Rightarrow> life" where
  "gain who x = (if kept x then x\<lparr>argument_access := who\<rparr> else x)"

definition relinquish :: "life \<Rightarrow> life" where
  "relinquish x = (if kept x then x\<lparr>argument_access := By_nobody\<rparr> else x)"

definition give_argument :: "life \<Rightarrow> life" where
  "give_argument x = (if kept x then x\<lparr>given := Suc (given x), kept := False\<rparr> else x)"

definition thread_finalize :: "life \<Rightarrow> life" where
  "thread_finalize x =
     (if detached x then give_argument x else if gained x then relinquish x else x)"

definition thread_dealloc :: "access \<Rightarrow> life \<Rightarrow> life" where
  "thread_dealloc who x = (give_argument (if gained x then gain who x else x))\<lparr>freed := True\<rparr>"

text \<open>A release by the caller and one by the thread; the last one frees the object.\<close>

definition caller_release :: "life \<Rightarrow> life" where
  "caller_release x = (if retained x = 0 then thread_dealloc By_caller (x\<lparr>owned := False\<rparr>) else x\<lparr>owned := False\<rparr>)"

definition thread_release :: "access \<Rightarrow> life \<Rightarrow> life" where
  "thread_release who x =
     (if retained x = 1 \<and> \<not> owned x then thread_dealloc who (x\<lparr>retained := 0\<rparr>) else x\<lparr>retained := retained x - 1\<rparr>)"

section \<open>Steps\<close>

text \<open>
  What the caller does.  \<open>call_start\<close> is \<open>-mulleStart\<close> and, with \<open>d\<close>, \<open>-start\<close>, which marks the
  object as detached first.  On a thread that runs already both raise, \<open>-start\<close> after it has marked the
  object.
\<close>

inductive caller_step :: "life \<Rightarrow> shared \<Rightarrow> life \<Rightarrow> shared \<Rightarrow> bool" where
  call_start: "owned x \<Longrightarrow> starting x = Unstarted \<Longrightarrow> \<not> id_known x \<Longrightarrow>
     caller_step x g (x\<lparr>starting := Start_count, detached := (d \<or> detached x)\<rparr>) g"
| start_raises: "owned x \<Longrightarrow> starting x = Started \<or> starting x = Joined \<Longrightarrow> id_known x \<Longrightarrow>
     caller_step x g (x\<lparr>detached := (d \<or> detached x)\<rparr>) g"
| start_first: "starting x = Start_count \<Longrightarrow> thread_count g = 0 \<Longrightarrow>
     caller_step x g (x\<lparr>starting := Start_multi\<rparr>) g"
| start_more: "starting x = Start_count \<Longrightarrow> thread_count g \<noteq> 0 \<Longrightarrow>
     caller_step x g (x\<lparr>starting := Start_retain\<rparr>) g"
| start_multi: "starting x = Start_multi \<Longrightarrow>
     caller_step x g (x\<lparr>starting := Start_retain\<rparr>) (g\<lparr>multi := True\<rparr>)"
| start_retain: "starting x = Start_retain \<Longrightarrow>
     caller_step x g (x\<lparr>starting := Start_universe, retained := Suc (retained x)\<rparr>) g"
| start_universe: "starting x = Start_universe \<Longrightarrow>
     caller_step x g (x\<lparr>starting := Start_relinquish\<rparr>) (g\<lparr>universe_references := universe_references g + 1\<rparr>)"
| start_relinquish: "starting x = Start_relinquish \<Longrightarrow>
     caller_step x g ((relinquish x)\<lparr>starting := Start_create\<rparr>) g"
| start_create: "starting x = Start_create \<Longrightarrow>
     caller_step x g (x\<lparr>starting := Start_id, running := Bounce_id\<rparr>) g"
| start_fails: "starting x = Start_create \<Longrightarrow> caller_step x g (x\<lparr>starting := Undo_detached\<rparr>) g"
| undo_detached: "starting x = Undo_detached \<Longrightarrow>
     caller_step x g (x\<lparr>starting := Undo_universe, detached := False\<rparr>) g"
| undo_universe: "starting x = Undo_universe \<Longrightarrow>
     caller_step x g (x\<lparr>starting := Undo_release\<rparr>) (g\<lparr>universe_references := universe_references g - 1\<rparr>)"
| undo_release: "starting x = Undo_release \<Longrightarrow>
     caller_step x g (thread_release By_caller (x\<lparr>starting := Unstarted\<rparr>)) g"
| start_id: "starting x = Start_id \<Longrightarrow>
     caller_step x g (x\<lparr>starting := (if detached x then Start_detach else Started), id_known := True\<rparr>) g"
| start_detach: "starting x = Start_detach \<Longrightarrow> caller_step x g (x\<lparr>starting := Started\<rparr>) g"
| call_join: "owned x \<Longrightarrow> starting x = Started \<Longrightarrow> \<not> detached x \<Longrightarrow>
     caller_step x g (x\<lparr>starting := Joining\<rparr>) g"
| join_waited: "starting x = Joining \<Longrightarrow> running x = Ended \<Longrightarrow>
     caller_step x g (x\<lparr>starting := Join_access\<rparr>) g"
| join_access: "starting x = Join_access \<Longrightarrow>
     caller_step x g ((if gained x then gain By_caller x else x)\<lparr>starting := Join_argument\<rparr>) g"
| join_argument: "starting x = Join_argument \<Longrightarrow>
     caller_step x g ((give_argument x)\<lparr>starting := Joined\<rparr>) g"
| call_release: "owned x \<Longrightarrow> starting x = Unstarted \<or> starting x = Started \<or> starting x = Joined \<Longrightarrow>
     caller_step x g (caller_release x) g"

text \<open>
  What the thread does: \<open>bouncyBounce\<close>, \<open>+exit\<close>, and the destructor that the operating system calls at
  the end, \<open>_mulle_objc_threadinfo_destructor\<close>.
\<close>

inductive thread_step :: "life \<Rightarrow> shared \<Rightarrow> life \<Rightarrow> shared \<Rightarrow> bool" where
  bounce_id: "running x = Bounce_id \<Longrightarrow> thread_step x g (x\<lparr>running := Bounce_aba, id_known := True\<rparr>) g"
| bounce_aba: "running x = Bounce_aba \<Longrightarrow> thread_step x g (x\<lparr>running := Become_retain, in_aba := True\<rparr>) g"
| become_retain: "running x = Become_retain \<Longrightarrow>
     thread_step x g (x\<lparr>running := Become_info\<rparr>) (g\<lparr>universe_references := universe_references g + 1\<rparr>)"
| become_info: "running x = Become_info \<Longrightarrow> thread_step x g (x\<lparr>running := Become_gc\<rparr>) g"
| become_gc: "running x = Become_gc \<Longrightarrow> thread_step x g (x\<lparr>running := Become_count, in_gc := True\<rparr>) g"
| become_count: "running x = Become_count \<Longrightarrow>
     thread_step x g (x\<lparr>running := Become_was\<rparr>) (g\<lparr>thread_count := thread_count g + 1\<rparr>)"
| become_was: "running x = Become_was \<Longrightarrow>
     thread_step x g (x\<lparr>running := Bounce_pools\<rparr>) (g\<lparr>was_multi := True\<rparr>)"
| bounce_pools: "running x = Bounce_pools \<Longrightarrow> thread_step x g (x\<lparr>running := Bounce_table, has_pools := True\<rparr>) g"
| bounce_table: "running x = Bounce_table \<Longrightarrow> thread_step x g (x\<lparr>running := Bounce_current, in_table := True\<rparr>) g"
| bounce_current: "running x = Bounce_current \<Longrightarrow>
     thread_step x g (x\<lparr>running := Bounce_release, is_current := True\<rparr>) g"
| bounce_release: "running x = Bounce_release \<Longrightarrow>
     thread_step x g (x\<lparr>running := Bounce_access\<rparr>) (g\<lparr>universe_references := universe_references g - 1\<rparr>)"
| bounce_access: "running x = Bounce_access \<Longrightarrow>
     thread_step x g ((gain By_thread x)\<lparr>running := Bounce_gained\<rparr>) g"
| bounce_gained: "running x = Bounce_gained \<Longrightarrow> thread_step x g (x\<lparr>running := Main, gained := True\<rparr>) g"
| main_returns: "running x = Main \<Longrightarrow> thread_step x g (x\<lparr>running := Exit_count\<rparr>) g"
| exit_last: "running x = Exit_count \<Longrightarrow> thread_count g = 1 \<Longrightarrow> thread_step x g (x\<lparr>running := Exit_single\<rparr>) g"
| exit_more: "running x = Exit_count \<Longrightarrow> thread_count g \<noteq> 1 \<Longrightarrow> thread_step x g (x\<lparr>running := Exit_finalize\<rparr>) g"
| exit_single: "running x = Exit_single \<Longrightarrow>
     thread_step x g (x\<lparr>running := Exit_finalize\<rparr>) (g\<lparr>multi := False\<rparr>)"
| exit_finalize: "running x = Exit_finalize \<Longrightarrow>
     thread_step x g ((thread_finalize x)\<lparr>running := Down_table\<rparr>) g"
| down_table: "running x = Down_table \<Longrightarrow> thread_step x g (x\<lparr>running := Down_current, in_table := False\<rparr>) g"
| down_current: "running x = Down_current \<Longrightarrow>
     thread_step x g (x\<lparr>running := Down_release, is_current := False\<rparr>) g"
| down_release: "running x = Down_release \<Longrightarrow>
     thread_step x g (thread_release By_thread (x\<lparr>running := Down_pools\<rparr>)) g"
| down_pools: "running x = Down_pools \<Longrightarrow> thread_step x g (x\<lparr>running := Resign_gc, has_pools := False\<rparr>) g"
| resign_gc: "running x = Resign_gc \<Longrightarrow> thread_step x g (x\<lparr>running := Resign_count, in_gc := False\<rparr>) g"
| resign_count: "running x = Resign_count \<Longrightarrow>
     thread_step x g (x\<lparr>running := Resign_aba\<rparr>) (g\<lparr>thread_count := thread_count g - 1\<rparr>)"
| resign_aba: "running x = Resign_aba \<Longrightarrow> thread_step x g (x\<lparr>running := Resign_universe, in_aba := False\<rparr>) g"
| resign_universe: "running x = Resign_universe \<Longrightarrow>
     thread_step x g (x\<lparr>running := Ended\<rparr>) (g\<lparr>universe_references := universe_references g - 1\<rparr>)"

inductive_cases caller_stepE: "caller_step x g x' g'"
inductive_cases thread_stepE: "thread_step x g x' g'"

text \<open>All thread objects: \<open>n\<close> of them, of which those in \<open>A\<close> have an argument that is an object.\<close>

record program =
  lives :: "nat \<Rightarrow> life"
  common :: shared

definition fresh :: "bool \<Rightarrow> life" where
  "fresh a = \<lparr>starting = Unstarted, running = Nothing, id_known = False, detached = False, gained = False,
     kept = a, given = 0, argument_access = By_caller, owned = True, retained = 0, freed = False,
     in_table = False, is_current = False, has_pools = False, in_aba = False, in_gc = False\<rparr>"

definition single :: shared where
  "single = \<lparr>universe_references = 1, thread_count = 0, was_multi = False, multi = False\<rparr>"

inductive life_step :: "nat \<Rightarrow> program \<Rightarrow> program \<Rightarrow> bool" for n where
  by_caller: "t < n \<Longrightarrow> caller_step (lives s t) (common s) x g \<Longrightarrow>
     life_step n s \<lparr>lives = (lives s)(t := x), common = g\<rparr>"
| by_thread: "t < n \<Longrightarrow> thread_step (lives s t) (common s) x g \<Longrightarrow>
     life_step n s \<lparr>lives = (lives s)(t := x), common = g\<rparr>"

definition nothing_started :: "(nat \<Rightarrow> bool) \<Rightarrow> program" where
  "nothing_started A = \<lparr>lives = (\<lambda>t. fresh (A t)), common = single\<rparr>"

abbreviation life_reachable :: "nat \<Rightarrow> (nat \<Rightarrow> bool) \<Rightarrow> program \<Rightarrow> bool" where
  "life_reachable n A \<equiv> reached ((=) (nothing_started A)) (life_step n)"

lemma life_begins: "life_reachable n A \<lparr>lives = (\<lambda>t. fresh (A t)), common = single\<rparr>"
  by (rule reached.at_start) (simp add: nothing_started_def)

end
