(* ===== verification/ThreadLifeProps.thy ===== *)
theory ThreadLifeProps
  imports ThreadLife
begin

text \<open>
  Properties of the life of a thread: what is registered while it runs, that everything is given back when
  it has ended, and where the start goes wrong.
\<close>

section \<open>What belongs to one thread object\<close>

text \<open>Positions on the way of the thread, to say what holds from one step up to another.\<close>

fun place :: "run_point \<Rightarrow> nat" where
  "place Nothing = 0"
| "place Bounce_id = 1" | "place Bounce_aba = 2" | "place Become_retain = 3" | "place Become_info = 4"
| "place Become_gc = 5" | "place Become_count = 6" | "place Become_was = 7" | "place Bounce_pools = 8"
| "place Bounce_table = 9" | "place Bounce_current = 10" | "place Bounce_release = 11"
| "place Bounce_access = 12" | "place Bounce_gained = 13" | "place Main = 14" | "place Exit_count = 15"
| "place Exit_single = 16" | "place Exit_finalize = 17" | "place Down_table = 18" | "place Down_current = 19"
| "place Down_release = 20" | "place Down_pools = 21" | "place Resign_gc = 22" | "place Resign_count = 23"
| "place Resign_aba = 24" | "place Resign_universe = 25" | "place Ended = 26"

definition between :: "run_point \<Rightarrow> run_point \<Rightarrow> run_point \<Rightarrow> bool" where
  "between a p b \<longleftrightarrow> place a < place p \<and> place p \<le> place b"

definition is_started :: "start_point \<Rightarrow> bool" where
  "is_started p \<longleftrightarrow> p \<in> {Start_id, Start_detach, Started, Joining, Join_access, Join_argument, Joined}"

definition start_holds :: "start_point \<Rightarrow> bool" where
  "start_holds p \<longleftrightarrow>
     p \<in> {Start_universe, Start_relinquish, Start_create, Undo_detached, Undo_universe, Undo_release}"

definition start_binds :: "start_point \<Rightarrow> bool" where
  "start_binds p \<longleftrightarrow> p \<in> {Start_relinquish, Start_create, Undo_detached, Undo_universe}"

text \<open>References to the universe that are held for the thread, by its caller and by itself.\<close>

definition universe_share :: "life \<Rightarrow> int" where
  "universe_share x = (if start_binds (starting x) then 1 else 0) +
     (if between Nothing (running x) Bounce_release then 1 else 0) +
     (if between Become_retain (running x) Resign_universe then 1 else 0)"

definition count_share :: "life \<Rightarrow> int" where
  "count_share x = (if between Become_count (running x) Resign_count then 1 else 0)"

text \<open>The two parties agree on whether the thread exists and on whether it has ended.\<close>

definition parties_ok :: "life \<Rightarrow> bool" where
  "parties_ok x \<longleftrightarrow> (is_started (starting x) \<longleftrightarrow> running x \<noteq> Nothing) \<and>
     (starting x \<in> {Join_access, Join_argument, Joined} \<longrightarrow> running x = Ended) \<and>
     (owned x \<or> starting x \<in> {Unstarted, Started, Joined})"

definition registers_ok :: "life \<Rightarrow> bool" where
  "registers_ok x \<longleftrightarrow>
     (in_aba x \<longleftrightarrow> between Bounce_aba (running x) Resign_aba) \<and>
     (in_gc x \<longleftrightarrow> between Become_gc (running x) Resign_gc) \<and>
     (has_pools x \<longleftrightarrow> between Bounce_pools (running x) Down_pools) \<and>
     (in_table x \<longleftrightarrow> between Bounce_table (running x) Down_table) \<and>
     (is_current x \<longleftrightarrow> between Bounce_current (running x) Down_current) \<and>
     (gained x \<longleftrightarrow> between Bounce_gained (running x) Ended)"

definition references_ok :: "life \<Rightarrow> bool" where
  "references_ok x \<longleftrightarrow>
     retained x = (if start_holds (starting x) \<or> between Nothing (running x) Down_release then 1 else 0) \<and>
     (freed x \<longleftrightarrow> \<not> owned x \<and> retained x = 0)"

definition argument_ok :: "bool \<Rightarrow> life \<Rightarrow> bool" where
  "argument_ok a x \<longleftrightarrow>
     given x = (if a \<and> \<not> kept x then 1 else 0) \<and> (kept x \<longrightarrow> a) \<and>
     (freed x \<longrightarrow> \<not> kept x) \<and>
     (place (running x) \<le> place Exit_finalize \<and> \<not> freed x \<longrightarrow> (a \<longrightarrow> kept x)) \<and>
     (kept x \<longrightarrow> (argument_access x = By_thread \<longleftrightarrow> between Bounce_access (running x) Exit_finalize)) \<and>
     (starting x = Joined \<longrightarrow> \<not> kept x)"

definition life_ok :: "bool \<Rightarrow> life \<Rightarrow> bool" where
  "life_ok a x \<longleftrightarrow> parties_ok x \<and> registers_ok x \<and> references_ok x \<and> argument_ok a x"

section \<open>Every step keeps it\<close>

lemma is_started_simps [simp]:
  "\<not> is_started Unstarted" "\<not> is_started Start_count" "\<not> is_started Start_multi" "\<not> is_started Start_retain"
  "\<not> is_started Start_universe" "\<not> is_started Start_relinquish" "\<not> is_started Start_create"
  "\<not> is_started Undo_detached" "\<not> is_started Undo_universe" "\<not> is_started Undo_release"
  "is_started Start_id" "is_started Start_detach" "is_started Started" "is_started Joining"
  "is_started Join_access" "is_started Join_argument" "is_started Joined"
  by (simp_all add: is_started_def)

lemma between_Nothing [simp]: "\<not> between a Nothing b"
  by (simp add: between_def)

lemmas act_defs = gain_def relinquish_def give_argument_def thread_finalize_def thread_dealloc_def
  caller_release_def thread_release_def

lemma life_ok_fresh: "life_ok a (fresh a)"
  by (simp add: life_ok_def parties_ok_def registers_ok_def references_ok_def argument_ok_def fresh_def
      start_holds_def)

lemma shares_fresh: "universe_share (fresh a) = 0" "count_share (fresh a) = 0"
  by (simp_all add: universe_share_def count_share_def start_binds_def fresh_def)

lemma caller_parties: "caller_step x g x' g' \<Longrightarrow> parties_ok x \<Longrightarrow> references_ok x \<Longrightarrow> parties_ok x'"
  by (erule caller_stepE) (auto simp: parties_ok_def act_defs)

lemma thread_parties: "thread_step x g x' g' \<Longrightarrow> parties_ok x \<Longrightarrow> parties_ok x'"
  by (erule thread_stepE) (auto simp: parties_ok_def act_defs)

lemma caller_registers: "caller_step x g x' g' \<Longrightarrow> parties_ok x \<Longrightarrow> registers_ok x \<Longrightarrow> registers_ok x'"
  by (erule caller_stepE) (auto simp: parties_ok_def registers_ok_def act_defs between_def)

lemma thread_registers: "thread_step x g x' g' \<Longrightarrow> registers_ok x \<Longrightarrow> registers_ok x'"
  by (erule thread_stepE) (simp_all add: registers_ok_def act_defs between_def)

lemma caller_references: "caller_step x g x' g' \<Longrightarrow> parties_ok x \<Longrightarrow> references_ok x \<Longrightarrow> references_ok x'"
  by (erule caller_stepE) (auto simp: parties_ok_def references_ok_def act_defs between_def start_holds_def)

lemma thread_references: "thread_step x g x' g' \<Longrightarrow> parties_ok x \<Longrightarrow> references_ok x \<Longrightarrow> references_ok x'"
  by (erule thread_stepE) (auto simp: parties_ok_def references_ok_def act_defs between_def start_holds_def)

lemma thread_argument:
  "thread_step x g x' g' \<Longrightarrow> parties_ok x \<Longrightarrow> registers_ok x \<Longrightarrow> references_ok x \<Longrightarrow> argument_ok a x \<Longrightarrow>
   argument_ok a x'"
  by (erule thread_stepE, simp_all add: argument_ok_def between_def references_ok_def act_defs parties_ok_def
        registers_ok_def)

lemma caller_argument:
  "caller_step x g x' g' \<Longrightarrow> parties_ok x \<Longrightarrow> references_ok x \<Longrightarrow> argument_ok a x \<Longrightarrow> argument_ok a x'"
  by (erule caller_stepE, simp_all add: argument_ok_def parties_ok_def references_ok_def act_defs)
    (auto simp: between_def start_holds_def)

lemma caller_step_ok: "caller_step x g x' g' \<Longrightarrow> life_ok a x \<Longrightarrow> life_ok a x'"
  unfolding life_ok_def by (blast intro: caller_parties caller_registers caller_references caller_argument)

lemma thread_step_ok: "thread_step x g x' g' \<Longrightarrow> life_ok a x \<Longrightarrow> life_ok a x'"
  unfolding life_ok_def by (blast intro: thread_parties thread_registers thread_references thread_argument)

text \<open>A step changes what is shared by as much as the share of its thread object.\<close>

definition settles :: "life \<Rightarrow> shared \<Rightarrow> life \<Rightarrow> shared \<Rightarrow> bool" where
  "settles x g x' g' \<longleftrightarrow>
     universe_references g' - universe_share x' = universe_references g - universe_share x \<and>
     thread_count g' - count_share x' = thread_count g - count_share x"

lemma caller_settles: "caller_step x g x' g' \<Longrightarrow> parties_ok x \<Longrightarrow> settles x g x' g'"
  by (erule caller_stepE)
    (auto simp: settles_def universe_share_def count_share_def start_binds_def parties_ok_def act_defs between_def)

lemma thread_settles: "thread_step x g x' g' \<Longrightarrow> settles x g x' g'"
  by (erule thread_stepE) (auto simp: settles_def universe_share_def count_share_def act_defs between_def)

section \<open>All threads\<close>

definition program_ok :: "nat \<Rightarrow> (nat \<Rightarrow> bool) \<Rightarrow> program \<Rightarrow> bool" where
  "program_ok n A s \<longleftrightarrow> (\<forall>t<n. life_ok (A t) (lives s t)) \<and>
     universe_references (common s) = 1 + (\<Sum>t<n. universe_share (lives s t)) \<and>
     thread_count (common s) = (\<Sum>t<n. count_share (lives s t))"

lemma sum_fun_upd:
  fixes n :: nat
  assumes "t < n"
  shows "(\<Sum>u<n. f (if u = t then x else g u)) = (\<Sum>u<n. f (g u)) - f (g t) + (f x :: int)"
proof -
  have "(\<Sum>u<n. f (if u = t then x else g u)) = f x + (\<Sum>u\<in>{..<n} - {t}. f (if u = t then x else g u))"
    using assms by (subst sum.remove [of "{..<n}" t]) simp_all
  also have "(\<Sum>u\<in>{..<n} - {t}. f (if u = t then x else g u)) = (\<Sum>u\<in>{..<n} - {t}. f (g u))"
    by (rule sum.cong) auto
  finally show ?thesis
    using assms by (simp add: sum.remove [of "{..<n}" t])
qed

lemma program_ok_step:
  assumes "program_ok n A s" and "t < n" and "life_ok (A t) x" and "settles (lives s t) (common s) x g"
  shows "program_ok n A \<lparr>lives = (lives s)(t := x), common = g\<rparr>"
  using assms by (simp add: program_ok_def settles_def sum_fun_upd)

lemma life_step_ok:
  assumes "life_step n s s'" and "program_ok n A s"
  shows "program_ok n A s'"
  using assms(1)
proof cases
  case (by_caller t x g)
  then have "life_ok (A t) (lives s t)" using assms(2) by (simp add: program_ok_def)
  then show ?thesis
    using by_caller assms(2) caller_step_ok caller_settles
    by (blast intro: program_ok_step dest: life_ok_def [THEN iffD1])
next
  case (by_thread t x g)
  then have "life_ok (A t) (lives s t)" using assms(2) by (simp add: program_ok_def)
  then show ?thesis
    using by_thread assms(2) thread_step_ok thread_settles by (blast intro: program_ok_step)
qed

lemma nothing_started_ok: "program_ok n A (nothing_started A)"
  by (simp add: nothing_started_def program_ok_def life_ok_fresh shares_fresh single_def)

interpretation life: stable_invariant "(=) (nothing_started A)" "life_step n" "program_ok n A"
  by unfold_locales (use nothing_started_ok life_step_ok in auto)

lemma shares_nonneg: "0 \<le> universe_share x" "0 \<le> count_share x"
  by (simp_all add: universe_share_def count_share_def)

lemma share_le_sum:
  fixes n :: nat
  assumes "t < n" and "\<And>x. 0 \<le> f x"
  shows "f (g t) \<le> (\<Sum>u<n. f (g u) :: int)"
  using assms by (intro member_le_sum [of t "{..<n}" "\<lambda>u. f (g u)"]) simp_all

section \<open>Running a thread\<close>

text \<open>The next step of a thread is determined.\<close>

definition thread_next :: "life \<Rightarrow> shared \<Rightarrow> life \<times> shared" where
  "thread_next x g =
     (case running x of
        Bounce_id \<Rightarrow> (x\<lparr>running := Bounce_aba, id_known := True\<rparr>, g)
      | Bounce_aba \<Rightarrow> (x\<lparr>running := Become_retain, in_aba := True\<rparr>, g)
      | Become_retain \<Rightarrow> (x\<lparr>running := Become_info\<rparr>, g\<lparr>universe_references := universe_references g + 1\<rparr>)
      | Become_info \<Rightarrow> (x\<lparr>running := Become_gc\<rparr>, g)
      | Become_gc \<Rightarrow> (x\<lparr>running := Become_count, in_gc := True\<rparr>, g)
      | Become_count \<Rightarrow> (x\<lparr>running := Become_was\<rparr>, g\<lparr>thread_count := thread_count g + 1\<rparr>)
      | Become_was \<Rightarrow> (x\<lparr>running := Bounce_pools\<rparr>, g\<lparr>was_multi := True\<rparr>)
      | Bounce_pools \<Rightarrow> (x\<lparr>running := Bounce_table, has_pools := True\<rparr>, g)
      | Bounce_table \<Rightarrow> (x\<lparr>running := Bounce_current, in_table := True\<rparr>, g)
      | Bounce_current \<Rightarrow> (x\<lparr>running := Bounce_release, is_current := True\<rparr>, g)
      | Bounce_release \<Rightarrow> (x\<lparr>running := Bounce_access\<rparr>, g\<lparr>universe_references := universe_references g - 1\<rparr>)
      | Bounce_access \<Rightarrow> ((gain By_thread x)\<lparr>running := Bounce_gained\<rparr>, g)
      | Bounce_gained \<Rightarrow> (x\<lparr>running := Main, gained := True\<rparr>, g)
      | Main \<Rightarrow> (x\<lparr>running := Exit_count\<rparr>, g)
      | Exit_count \<Rightarrow> (x\<lparr>running := (if thread_count g = 1 then Exit_single else Exit_finalize)\<rparr>, g)
      | Exit_single \<Rightarrow> (x\<lparr>running := Exit_finalize\<rparr>, g\<lparr>multi := False\<rparr>)
      | Exit_finalize \<Rightarrow> ((thread_finalize x)\<lparr>running := Down_table\<rparr>, g)
      | Down_table \<Rightarrow> (x\<lparr>running := Down_current, in_table := False\<rparr>, g)
      | Down_current \<Rightarrow> (x\<lparr>running := Down_release, is_current := False\<rparr>, g)
      | Down_release \<Rightarrow> (thread_release By_thread (x\<lparr>running := Down_pools\<rparr>), g)
      | Down_pools \<Rightarrow> (x\<lparr>running := Resign_gc, has_pools := False\<rparr>, g)
      | Resign_gc \<Rightarrow> (x\<lparr>running := Resign_count, in_gc := False\<rparr>, g)
      | Resign_count \<Rightarrow> (x\<lparr>running := Resign_aba\<rparr>, g\<lparr>thread_count := thread_count g - 1\<rparr>)
      | Resign_aba \<Rightarrow> (x\<lparr>running := Resign_universe, in_aba := False\<rparr>, g)
      | Resign_universe \<Rightarrow> (x\<lparr>running := Ended\<rparr>, g\<lparr>universe_references := universe_references g - 1\<rparr>)
      | _ \<Rightarrow> (x, g))"

lemma thread_step_next:
  assumes "running x \<noteq> Nothing" and "running x \<noteq> Ended"
  shows "thread_step x g (fst (thread_next x g)) (snd (thread_next x g))"
  using assms by (cases "running x") (auto simp: thread_next_def intro: thread_step.intros)

lemma thread_step_is_next: "thread_step x g x' g' \<Longrightarrow> thread_next x g = (x', g')"
  by (erule thread_stepE) (simp_all add: thread_next_def)

fun thread_runs :: "nat \<Rightarrow> nat \<Rightarrow> program \<Rightarrow> program" where
  "thread_runs t 0 s = s"
| "thread_runs t (Suc k) s =
     (let (x, g) = thread_next (lives s t) (common s)
      in thread_runs t k \<lparr>lives = (lives s)(t := x), common = g\<rparr>)"

lemma thread_runs_reachable:
  assumes "life_reachable n A s" and "t < n" and "running (lives s t) \<noteq> Nothing"
  shows "life_reachable n A (thread_runs t k s)"
  using assms
proof (induction k arbitrary: s)
  case (Suc k)
  obtain x g where xg: "thread_next (lives s t) (common s) = (x, g)"
    by fastforce
  have "life_reachable n A \<lparr>lives = (lives s)(t := x), common = g\<rparr> \<and> running x \<noteq> Nothing"
  proof (cases "running (lives s t) = Ended")
    case True
    then show ?thesis
      using xg Suc.prems by (cases s) (auto simp: thread_next_def)
  next
    case False
    then have step: "thread_step (lives s t) (common s) x g"
      using thread_step_next [of "lives s t" "common s"] xg Suc.prems(3) by simp
    moreover have "running x \<noteq> Nothing"
      using step by cases (simp_all add: act_defs)
    ultimately show ?thesis
      using Suc.prems by (blast intro: reached.next_step life_step.by_thread)
  qed
  then show ?case
    using xg Suc.IH Suc.prems(2) by simp
qed simp

lemma thread_runs_other: "u \<noteq> t \<Longrightarrow> lives (thread_runs t k s) u = lives s u"
  by (induction k arbitrary: s) (simp_all add: split_beta Let_def)

lemma thread_step_advances:
  "thread_step x g x' g' \<Longrightarrow> place (running x) < place (running x') \<and> place (running x') \<le> 26"
  by (erule thread_stepE) (simp_all add: act_defs)

text \<open>A start that works, from the call to the new thread, and one that fails.\<close>

lemma caller_moves:
  "life_reachable n A s \<Longrightarrow> t < n \<Longrightarrow> caller_step (lives s t) (common s) x g \<Longrightarrow>
   s' = \<lparr>lives = (lives s)(t := x), common = g\<rparr> \<Longrightarrow> life_reachable n A s'"
  using reached.next_step life_step.by_caller by metis

definition about_to_create :: "bool \<Rightarrow> life" where
  "about_to_create a = (fresh a)\<lparr>starting := Start_create, retained := 1,
     argument_access := (if a then By_nobody else By_caller)\<rparr>"

definition counted_start :: "shared \<Rightarrow> shared" where
  "counted_start g = g\<lparr>universe_references := universe_references g + 1,
     multi := (thread_count g = 0 \<or> multi g)\<rparr>"

lemma start_reaches_create:
  assumes "life_reachable n A s" and "t < n" and "lives s t = fresh a"
  shows "life_reachable n A \<lparr>lives = (lives s)(t := about_to_create a), common = counted_start (common s)\<rparr>"
proof -
  let ?at = "\<lambda>p r m. \<lparr>lives = (lives s)(t := (fresh a)\<lparr>starting := p, retained := r\<rparr>), common = (common s)\<lparr>multi := m\<rparr>\<rparr>"
  let ?m = "thread_count (common s) = 0 \<or> multi (common s)"
  have r1: "life_reachable n A (?at Start_count 0 (multi (common s)))"
    by (rule caller_moves [OF assms(1,2) caller_step.call_start [where d = False]])
      (simp_all add: assms(3) fresh_def)
  have r2: "life_reachable n A (?at Start_retain 0 ?m)"
  proof (cases "thread_count (common s) = 0")
    case True
    have "life_reachable n A (?at Start_multi 0 (multi (common s)))"
      by (rule caller_moves [OF r1 assms(2) caller_step.start_first]) (simp_all add: True fresh_def)
    then show ?thesis
      by (rule caller_moves [OF _ assms(2) caller_step.start_multi]) (simp_all add: True fresh_def)
  next
    case False
    show ?thesis
      by (rule caller_moves [OF r1 assms(2) caller_step.start_more]) (simp_all add: False fresh_def)
  qed
  have r3: "life_reachable n A (?at Start_universe 1 ?m)"
    by (rule caller_moves [OF r2 assms(2) caller_step.start_retain]) (simp_all add: fresh_def)
  have r4: "life_reachable n A \<lparr>lives = (lives s)(t := (fresh a)\<lparr>starting := Start_relinquish, retained := 1\<rparr>),
      common = counted_start (common s)\<rparr>"
    by (rule caller_moves [OF r3 assms(2) caller_step.start_universe]) (simp_all add: counted_start_def fresh_def)
  show ?thesis
    by (rule caller_moves [OF r4 assms(2) caller_step.start_relinquish])
      (simp_all add: about_to_create_def relinquish_def fresh_def)
qed

lemma start_reaches_thread:
  assumes "life_reachable n A s" and "t < n" and "lives s t = fresh a"
  shows "life_reachable n A \<lparr>lives = (lives s)(t := (about_to_create a)\<lparr>starting := Start_id, running := Bounce_id\<rparr>),
    common = counted_start (common s)\<rparr>"
  by (rule caller_moves [OF start_reaches_create [OF assms] assms(2) caller_step.start_create])
    (simp_all add: about_to_create_def)

section \<open>Properties\<close>

text \<open>
  C12. While a thread runs its \<open>-main\<close> everything it needs is there, whatever the other threads and their
  callers do: it is registered with both garbage collections and in the table of threads, it is its own
  current thread and has its autorelease pools; the thread object is not freed and still has its argument,
  which the thread alone may access; the universe is held by it, besides by the main thread, and the count
  of threads includes it.
\<close>
theorem running_thread_is_set_up:
  assumes "life_reachable n A s" and "t < n" and "x = lives s t" and "running x = Main"
  shows "in_aba x \<and> in_gc x \<and> in_table x \<and> is_current x \<and> has_pools x \<and> \<not> freed x
    \<and> (A t \<longrightarrow> kept x \<and> argument_access x = By_thread)
    \<and> 2 \<le> universe_references (common s) \<and> 1 \<le> thread_count (common s)"
proof -
  have ok: "program_ok n A s"
    by (rule life.reached_invariant [OF assms(1)])
  then have x: "life_ok (A t) x"
    using assms(2,3) by (simp add: program_ok_def)
  have "1 \<le> universe_share x" "1 \<le> count_share x"
    using assms(4) by (simp_all add: universe_share_def count_share_def between_def)
  moreover have "universe_share x \<le> (\<Sum>u<n. universe_share (lives s u))" "count_share x \<le> (\<Sum>u<n. count_share (lives s u))"
    using share_le_sum [OF assms(2), where g = "lives s"] shares_nonneg assms(3) by simp_all
  ultimately show ?thesis
    using x ok assms(4)
    by (auto simp: program_ok_def life_ok_def registers_ok_def references_ok_def argument_ok_def between_def)
qed

definition first_started :: "bool \<Rightarrow> program" where
  "first_started a = \<lparr>lives = (\<lambda>_. fresh a)(0 := (about_to_create a)\<lparr>starting := Start_id, running := Bounce_id\<rparr>),
     common = counted_start single\<rparr>"

lemma first_started: "life_reachable 2 (\<lambda>_. a) (first_started a)"
  using start_reaches_thread [OF life_begins, of 0 2 "\<lambda>_. a" a] by (simp add: first_started_def)

lemma first_runs: "life_reachable 2 (\<lambda>_. a) (thread_runs 0 k (first_started a))"
  by (rule thread_runs_reachable [OF first_started]) (simp_all add: first_started_def)

theorem running_thread_is_set_up_witness:
  "argument_access (lives (thread_runs 0 13 (first_started True)) 0) = By_thread
   \<and> 2 \<le> universe_references (common (thread_runs 0 13 (first_started True)))"
proof -
  have "running (lives (thread_runs 0 13 (first_started True)) 0) = Main"
    by code_simp
  then show ?thesis
    using running_thread_is_set_up [OF first_runs [of True 13], where t = 0] by simp
qed

lemma between_Ended: "between a Ended b \<longleftrightarrow> place a < 26 \<and> b = Ended"
  by (cases b) (simp_all add: between_def)

lemma settled_life:
  assumes "life_ok a x" and "starting x \<in> {Unstarted, Started, Joined}" and "running x \<in> {Nothing, Ended}"
  shows "\<not> in_aba x \<and> \<not> in_gc x \<and> \<not> in_table x \<and> \<not> is_current x \<and> \<not> has_pools x
    \<and> retained x = 0 \<and> (freed x \<longleftrightarrow> \<not> owned x)"
    and "freed x \<or> starting x = Joined \<Longrightarrow> given x = (if a then 1 else 0)"
    and "universe_share x = 0" and "count_share x = 0"
proof -
  have idle: "\<not> between b (running x) c" if "c \<noteq> Ended" for b c
    using assms(3) that between_Ended by auto
  have "\<not> start_holds (starting x)" "\<not> start_binds (starting x)"
    using assms(2) by (auto simp: start_holds_def start_binds_def)
  then show "\<not> in_aba x \<and> \<not> in_gc x \<and> \<not> in_table x \<and> \<not> is_current x \<and> \<not> has_pools x
      \<and> retained x = 0 \<and> (freed x \<longleftrightarrow> \<not> owned x)"
    and "universe_share x = 0" and "count_share x = 0"
    using assms(1)
    by (simp_all add: life_ok_def registers_ok_def references_ok_def universe_share_def count_share_def idle)
  show "given x = (if a then 1 else 0)" if "freed x \<or> starting x = Joined"
    using assms(1) that by (auto simp: life_ok_def argument_ok_def)
qed

text \<open>
  C13. When the callers have returned from their calls and the threads have ended, nothing is left of them: the
  universe is held by the main thread only, the count of threads is zero, no thread is registered anywhere,
  no reference of a start is left, a thread object that is freed has given back its argument exactly once,
  and so has one that was joined.
\<close>
theorem ended_threads_leave_nothing:
  assumes "life_reachable n A s"
    and "\<forall>t<n. starting (lives s t) \<in> {Unstarted, Started, Joined} \<and> running (lives s t) \<in> {Nothing, Ended}"
  shows "universe_references (common s) = 1 \<and> thread_count (common s) = 0
    \<and> (\<forall>x \<in> lives s ` {..<n}. \<not> in_aba x \<and> \<not> in_gc x \<and> \<not> in_table x \<and> \<not> is_current x \<and> \<not> has_pools x
        \<and> retained x = 0 \<and> (freed x \<longleftrightarrow> \<not> owned x))
    \<and> (\<forall>t<n. freed (lives s t) \<or> starting (lives s t) = Joined \<longrightarrow> given (lives s t) = (if A t then 1 else 0))"
proof -
  have ok: "program_ok n A s"
    by (rule life.reached_invariant [OF assms(1)])
  have x: "life_ok (A t) (lives s t)" "starting (lives s t) \<in> {Unstarted, Started, Joined}"
      "running (lives s t) \<in> {Nothing, Ended}" if "t < n" for t
    using ok assms(2) that by (simp_all add: program_ok_def)
  have "universe_references (common s) = 1 \<and> thread_count (common s) = 0"
    using ok by (simp add: program_ok_def settled_life(3,4) [OF x])
  then show ?thesis
    using settled_life(1) [OF x] settled_life(2) [OF x] by simp
qed

theorem ended_threads_leave_nothing_witness:
  "universe_references (common \<lparr>lives = (\<lambda>_. fresh True), common = single\<rparr>) = 1"
  using ended_threads_leave_nothing [OF life_begins, of 3 "\<lambda>_. True"] by (simp add: fresh_def)

text \<open>
  A thread that was started is never stuck, and every step brings it closer to its end, so it ends once
  its \<open>-main\<close> returns; from the start to the end it takes at most 25 steps.
\<close>
theorem started_thread_ends:
  "(running x \<notin> {Nothing, Ended} \<longrightarrow> (\<exists>x' g'. thread_step x g x' g'))
   \<and> (thread_step x g x' g' \<longrightarrow> place (running x) < place (running x') \<and> place (running x') \<le> 26)"
  using thread_step_next [of x g] thread_step_advances [of x g x' g'] by blast

theorem started_thread_ends_witness:
  "\<exists>x' g'. thread_step (lives (first_started True) 0) single x' g'"
  using started_thread_ends [of "lives (first_started True) 0" single] by (simp add: first_started_def)

text \<open>
  Between relinquishing the argument and the end of the call nobody may access it, whatever the other threads and
  their callers do.
\<close>

definition hands_over :: "start_point \<Rightarrow> bool" where
  "hands_over p \<longleftrightarrow> p \<in> {Start_create, Undo_detached, Undo_universe, Undo_release}"

definition argument_free :: "program \<Rightarrow> nat \<Rightarrow> bool" where
  "argument_free s n \<longleftrightarrow>
     (\<forall>t<n. hands_over (starting (lives s t)) \<and> kept (lives s t) \<longrightarrow> argument_access (lives s t) = By_nobody)"

lemma caller_keeps_free:
  assumes "caller_step x g x' g'" and "hands_over (starting x) \<and> kept x \<longrightarrow> argument_access x = By_nobody"
  shows "hands_over (starting x') \<and> kept x' \<longrightarrow> argument_access x' = By_nobody"
  using assms by (cases rule: caller_step.cases) (auto simp: hands_over_def act_defs split: if_splits)

lemma thread_not_handed:
  assumes "thread_step x g x' g'" and "parties_ok x"
  shows "\<not> hands_over (starting x')"
proof -
  have "starting x' = starting x"
    using assms(1) by (cases rule: thread_step.cases) (auto simp: act_defs)
  moreover have "is_started (starting x)"
    using assms by (auto simp: parties_ok_def elim: thread_step.cases)
  ultimately show ?thesis
    by (auto simp: hands_over_def is_started_def)
qed

lemma argument_free_step:
  assumes "program_ok n A s" and "argument_free s n" and "life_step n s s'"
  shows "argument_free s' n"
  using assms(3)
proof cases
  case (by_caller t x g)
  then show ?thesis
    using assms(2) caller_keeps_free [OF by_caller(3)] by (auto simp: argument_free_def)
next
  case (by_thread t x g)
  then have "\<not> hands_over (starting x)"
    using thread_not_handed [OF by_thread(3)] assms(1) by (simp add: program_ok_def life_ok_def)
  then show ?thesis
    using by_thread assms(2) by (auto simp: argument_free_def)
qed

interpretation handing: strengthened_invariant "(=) (nothing_started A)" "life_step n" "program_ok n A"
    "\<lambda>s. argument_free s n"
  by unfold_locales
    (auto intro: argument_free_step, simp add: argument_free_def nothing_started_def fresh_def hands_over_def)

text \<open>
  The way of the caller through a \<open>-mulleStart\<close> for which \<open>mulle_thread_create\<close> fails: from \<open>x\<close> the failure and the
  three steps that undo the start, to \<open>y\<close>, where the exception reaches the caller.  Other threads may change what is
  shared between the steps, but not the thread object, which has no thread.
\<close>

definition failed_start :: "life \<Rightarrow> life \<Rightarrow> bool" where
  "failed_start x y \<longleftrightarrow> starting x = Start_create \<and>
     (\<exists>x1 x2 x3 g g1 g2 g3 h h1 h2 h3. caller_step x g x1 h \<and> starting x1 = Undo_detached \<and>
        caller_step x1 g1 x2 h1 \<and> caller_step x2 g2 x3 h2 \<and> caller_step x3 g3 y h3)"

lemma caller_at_create:
  "starting x = Start_create \<Longrightarrow> caller_step x g x' h \<and> starting x' = Undo_detached \<longleftrightarrow>
     x' = x\<lparr>starting := Undo_detached\<rparr> \<and> h = g"
  by (auto elim!: caller_stepE intro: caller_step.start_fails)

lemma caller_at_undo:
  "starting x = Undo_detached \<Longrightarrow> caller_step x g x' h \<longleftrightarrow> x' = x\<lparr>starting := Undo_universe, detached := False\<rparr> \<and> h = g"
  "starting x = Undo_universe \<Longrightarrow> caller_step x g x' h \<longleftrightarrow>
     x' = x\<lparr>starting := Undo_release\<rparr> \<and> h = g\<lparr>universe_references := universe_references g - 1\<rparr>"
  "starting x = Undo_release \<Longrightarrow> caller_step x g x' h \<longleftrightarrow> x' = thread_release By_caller (x\<lparr>starting := Unstarted\<rparr>) \<and> h = g"
  by (auto elim!: caller_stepE intro: caller_step.undo_detached caller_step.undo_universe caller_step.undo_release)

lemma failed_start_result:
  assumes "starting x = Start_create" and "owned x"
  shows "failed_start x y \<longleftrightarrow> y = x\<lparr>starting := Unstarted, detached := False, retained := retained x - 1\<rparr>"
proof
  let ?y = "x\<lparr>starting := Unstarted, detached := False, retained := retained x - 1\<rparr>"
  show "y = ?y" if failed: "failed_start x y"
  proof -
    obtain x1 x2 x3 g g1 g2 g3 h h1 h2 h3 where "caller_step x g x1 h \<and> starting x1 = Undo_detached"
        and steps: "caller_step x1 g1 x2 h1" "caller_step x2 g2 x3 h2" "caller_step x3 g3 y h3"
      using failed unfolding failed_start_def by blast
    then have x1: "x1 = x\<lparr>starting := Undo_detached\<rparr>"
      using caller_at_create [OF assms(1)] by simp
    then have x2: "x2 = x\<lparr>starting := Undo_universe, detached := False\<rparr>"
      using steps(1) by (simp add: caller_at_undo)
    then have x3: "x3 = x\<lparr>starting := Undo_release, detached := False\<rparr>"
      using steps(2) by (simp add: caller_at_undo)
    show ?thesis
      using steps(3) assms(2) by (simp add: x3 caller_at_undo thread_release_def)
  qed
  show "failed_start x y" if "y = ?y"
    unfolding failed_start_def
    by (rule conjI [OF assms(1)], rule exI [where x = "x\<lparr>starting := Undo_detached\<rparr>"],
        rule exI [where x = "x\<lparr>starting := Undo_universe, detached := False\<rparr>"],
        rule exI [where x = "x\<lparr>starting := Undo_release, detached := False\<rparr>"])
      (use that assms caller_step.start_fails [OF assms(1)] in
        \<open>auto simp: caller_at_create caller_at_undo thread_release_def\<close>)
qed

text \<open>
  C38. When the operating system does not create the thread, \<open>-mulleStart\<close> takes back the reference and the mark
  that it is detached, but not the access that it has relinquished: in whatever state of the program this happens,
  the call can only end with the thread object as before the start, still owned by its caller and not freed, without a
  thread and without a hold on the universe, but with the argument that it still has accessible by nobody.  No step of
  a thread can change that, as there is none, and no next call of the caller gives the access back either.
\<close>
theorem failed_start_strands_argument:
  assumes "life_reachable n A s" and "t < n" and "A t" and "x = lives s t" and "starting x = Start_create"
  shows "failed_start x (x\<lparr>starting := Unstarted, detached := False, retained := 0\<rparr>)
    \<and> (\<forall>y. failed_start x y \<longrightarrow> starting y = Unstarted \<and> running y = Nothing \<and> owned y \<and> \<not> freed y
        \<and> retained y = 0 \<and> universe_share y = 0 \<and> kept y \<and> given y = 0 \<and> argument_access y = By_nobody
        \<and> (\<forall>g y' g'. \<not> thread_step y g y' g' \<and> (caller_step y g y' g' \<longrightarrow> argument_access y' = By_nobody)))"
proof -
  have ok: "program_ok n A s" and free: "argument_free s n"
    using life.reached_invariant [OF assms(1)] handing.reached_further [OF assms(1)] by simp_all
  then have "life_ok (A t) (lives s t)"
    using assms(2) by (simp add: program_ok_def)
  then have x: "life_ok True x"
    using assms(3,4) by simp
  then have own: "owned x \<and> running x = Nothing \<and> retained x = 1 \<and> \<not> freed x \<and> \<not> gained x \<and> kept x \<and> given x = 0"
    using assms(5)
    by (auto simp: life_ok_def parties_ok_def references_ok_def registers_ok_def argument_ok_def start_holds_def)
  moreover have "argument_access x = By_nobody"
    using free own assms(2,4,5) by (auto simp: argument_free_def hands_over_def)
  moreover have "failed_start x y \<longleftrightarrow> y = x\<lparr>starting := Unstarted, detached := False, retained := 0\<rparr>" for y
    using own failed_start_result [OF assms(5)] by simp
  ultimately show ?thesis
    by (auto simp: universe_share_def start_binds_def act_defs elim: thread_step.cases elim!: caller_stepE split: if_splits)
qed

theorem failed_start_strands_argument_witness:
  "failed_start (about_to_create True) (fresh True\<lparr>argument_access := By_nobody\<rparr>)"
proof -
  let ?s = "\<lparr>lives = (\<lambda>_. fresh True)(0 := about_to_create True), common = counted_start single\<rparr>"
  have "life_reachable 1 (\<lambda>_. True) ?s"
    using start_reaches_create [OF life_begins, of 0 1 "\<lambda>_. True" True] by simp
  then show ?thesis
    using failed_start_strands_argument [where n = 1 and A = "\<lambda>_. True" and s = ?s and t = 0 and x = "about_to_create True"]
    by (simp add: about_to_create_def fresh_def)
qed

text \<open>
  \<open>+isMultiThreaded\<close> can answer NO while a thread runs: the last thread that is counted finds itself alone
  and clears the flag after another one was started, but before that one is counted.
\<close>
theorem multi_flag_lost:
  "\<exists>s. life_reachable 2 (\<lambda>_. False) s \<and> running (lives s 1) = Main \<and> thread_count (common s) = 2 \<and> \<not> multi (common s)"
proof -
  let ?s = "thread_runs 0 15 (first_started False)"
  have s: "lives ?s 1 = fresh False" "running (lives ?s 0) = Exit_single" "thread_count (common ?s) = 1"
    by (subst thread_runs_other, simp, simp add: first_started_def) code_simp+
  define s1 where "s1 = \<lparr>lives = (lives ?s)(1 := (about_to_create False)\<lparr>starting := Start_id, running := Bounce_id\<rparr>),
      common = counted_start (common ?s)\<rparr>"
  have r1: "life_reachable 2 (\<lambda>_. False) s1"
    unfolding s1_def by (rule start_reaches_thread [OF first_runs _ s(1)]) simp
  have r2: "life_reachable 2 (\<lambda>_. False) (thread_runs 0 1 s1)"
    by (rule thread_runs_reachable [OF r1]) (simp_all add: s1_def s)
  have r3: "life_reachable 2 (\<lambda>_. False) (thread_runs 1 13 (thread_runs 0 1 s1))"
    by (rule thread_runs_reachable [OF r2]) (simp_all add: s1_def thread_next_def s)
  have "running (lives (thread_runs 1 13 (thread_runs 0 1 s1)) 1) = Main
      \<and> thread_count (common (thread_runs 1 13 (thread_runs 0 1 s1))) = 2
      \<and> \<not> multi (common (thread_runs 1 13 (thread_runs 0 1 s1)))"
    unfolding s1_def by code_simp
  then show ?thesis using r3 by blast
qed

end
