(* ===== verification/ThreadMethods.thy ===== *)
theory ThreadMethods
  imports ThreadLifeProps
begin

text \<open>
  What a thread object does besides living (\<open>src/class/NSThread.m\<close>): cancelling, the run loop, the name,
  the flag of multi threading and the finalizers.

  The functions work on the record \<open>nsthread\<close> of theory \<open>ThreadCalls\<close>.  What they do to other objects is
  given as the list of those \<open>effects\<close>, in order.
\<close>

datatype effect = Retain ref | Autorelease ref | Checkin | Free_string ref | Free_string_later ref

section \<open>Cancelling\<close>

definition thread_cancel :: "nsthread \<Rightarrow> nsthread" where
  "thread_cancel self = self\<lparr>cancelled := 1\<rparr>"

definition thread_isCancelled :: "nsthread \<Rightarrow> bool \<times> effect list" where
  "thread_isCancelled self =
     (let isCancelled = (cancelled self = 1); currentThreadId = osThreadId self
      in (isCancelled, if osThreadId self = currentThreadId then [Checkin] else []))"

text \<open>
  The comparison that is to tell whether the thread asks for itself compares the identifier with
  itself, so that every thread that asks checks in.
\<close>

lemma isCancelled_always_checks_in: "thread_isCancelled self = (cancelled self = 1, [Checkin])"
  by (simp add: thread_isCancelled_def)

section \<open>Run loop and name\<close>

text \<open>Of several threads that set a run loop the first one does; each is told which one it is.\<close>

definition thread_setRunLoop :: "nsthread \<Rightarrow> ref \<Rightarrow> ref \<times> nsthread \<times> effect list" where
  "thread_setRunLoop self loop =
     (let otherRunloop = runLoop self;
          self' = (if otherRunloop = 0 then self\<lparr>runLoop := loop\<rparr> else self)
      in if otherRunloop \<noteq> 0 then (otherRunloop, self', [Retain loop, Autorelease loop])
         else (loop, self', [Retain loop]))"

lemma setRunLoop_first:
  assumes "thread_setRunLoop self loop = (r, self', es)"
  shows "r = runLoop self' \<and> (runLoop self \<noteq> 0 \<longrightarrow> self' = self)
    \<and> (if r = loop \<and> runLoop self = 0 then es = [Retain loop] else es = [Retain loop, Autorelease loop])"
  using assms by (auto simp: thread_setRunLoop_def Let_def split: if_splits)

text \<open>
  Setting the name: \<open>old\<close> was read before, \<open>s\<close> is the copy of the new name or NULL.  When another
  thread was faster the copy is freed and the name of that thread stays.
\<close>

definition thread_setName :: "ref \<Rightarrow> ref \<Rightarrow> nsthread \<Rightarrow> nsthread \<times> effect list" where
  "thread_setName old s self =
     (let actual = nameUTF8String self;
          self' = (if actual = old then self\<lparr>nameUTF8String := s\<rparr> else self)
      in (self', [if actual = old then Free_string_later old else Free_string s]))"

lemma setName_frees_one:
  assumes "thread_setName old s self = (self', [e])"
  shows "e = Free_string_later (nameUTF8String self) \<and> nameUTF8String self' = s
    \<or> e = Free_string s \<and> self' = self"
  using assms by (auto simp: thread_setName_def Let_def split: if_splits)

section \<open>Multi threading\<close>

text \<open>The flag that both threads and callers change is the field \<open>multi\<close> of theory \<open>ThreadLife\<close>.\<close>

definition thread_isMultiThreaded :: "shared \<Rightarrow> bool" where
  "thread_isMultiThreaded g = multi g"

definition thread_mulleIsMultiThreaded :: "shared \<Rightarrow> bool" where
  "thread_mulleIsMultiThreaded g = (1 \<le> thread_count g)"

definition isGoingMultiThreaded :: "shared \<Rightarrow> shared" where
  "isGoingMultiThreaded g = (if \<not> multi g then g\<lparr>multi := True\<rparr> else g)"

definition isProbablyGoingSingleThreaded :: "shared \<Rightarrow> shared" where
  "isProbablyGoingSingleThreaded g = (if multi g then g\<lparr>multi := False\<rparr> else g)"

text \<open>These are the changes that the steps of theory \<open>ThreadLife\<close> make in one go.\<close>

lemma going_multi: "isGoingMultiThreaded g = g\<lparr>multi := True\<rparr>" "isProbablyGoingSingleThreaded g = g\<lparr>multi := False\<rparr>"
  by (cases g; simp add: isGoingMultiThreaded_def isProbablyGoingSingleThreaded_def)+

lemma going_multi_steps:
  "starting x = Start_multi \<Longrightarrow> caller_step x g (x\<lparr>starting := Start_retain\<rparr>) (isGoingMultiThreaded g)"
  "running x = Exit_single \<Longrightarrow> thread_step x g (x\<lparr>running := Exit_finalize\<rparr>) (isProbablyGoingSingleThreaded g)"
  unfolding going_multi by (rule caller_step.start_multi thread_step.exit_single, assumption)+

section \<open>What a thread is made to do\<close>

text \<open>
  \<open>-main\<close>: a function is called with the thread object and its argument, or else the invocation is invoked
  and its integer result taken.  \<open>invoke\<close> is \<open>-invoke\<close> with \<open>-mulleIntReturnValue\<close>.
\<close>

definition thread_main ::
    "(ref \<Rightarrow> ref \<Rightarrow> ref \<Rightarrow> 's \<Rightarrow> 32 word \<times> 's) \<Rightarrow> (ref \<Rightarrow> 's \<Rightarrow> 32 word \<times> 's) \<Rightarrow> ref \<Rightarrow> nsthread \<Rightarrow> 's
       \<Rightarrow> nsthread \<times> 's" where
  "thread_main call invoke self th s =
     (let th = th\<lparr>rval := - 1\<rparr>
      in if thread_function th \<noteq> 0
         then let (r, s') = call (thread_function th) self (functionArgument th) s in (th\<lparr>rval := r\<rparr>, s')
         else let (r, s') = invoke (thread_invocation th) s in (th\<lparr>rval := r\<rparr>, s'))"

definition thread_returnStatus :: "nsthread \<Rightarrow> 32 word" where
  "thread_returnStatus self = rval self"

definition thread_wasAutocreated :: "nsthread \<Rightarrow> bool" where
  "thread_wasAutocreated self \<longleftrightarrow> thread_invocation self = 0"

text \<open>The initializers; \<open>Inl\<close> is the exception for a function that is missing.\<close>

definition thread_initWithInvocation :: "ref \<Rightarrow> nsthread \<Rightarrow> nsthread \<times> effect list" where
  "thread_initWithInvocation invocation self = (self\<lparr>thread_invocation := invocation\<rparr>, [Retain invocation])"

definition thread_initWithFunction :: "ref \<Rightarrow> ref \<Rightarrow> nsthread \<Rightarrow> unit + nsthread \<times> effect list" where
  "thread_initWithFunction f argument self =
     (if f = 0 then Inl () else Inr (self\<lparr>thread_function := f, functionArgument := argument\<rparr>, []))"

definition thread_initWithObjectFunction :: "ref \<Rightarrow> ref \<Rightarrow> nsthread \<Rightarrow> unit + nsthread \<times> effect list" where
  "thread_initWithObjectFunction f obj self =
     (if f = 0 then Inl ()
      else Inr (self\<lparr>thread_function := f, functionArgument := obj, isObjectFunctionArgument := True\<rparr>, [Retain obj]))"

section \<open>Finalizers\<close>

text \<open>
  \<open>pending\<close> are the objects that wait for the end of the thread, \<open>added\<close> all that were ever added,
  \<open>finalized\<close> and \<open>given_back\<close> those that were told to finalize and whose reference was given back.
  \<open>react\<close> tells which finalizers an object adds while it is told to finalize itself.
\<close>

record finalizing =
  pending :: "ref list"
  added :: "ref list"
  finalized :: "ref list"
  given_back :: "ref list"

definition mulleAddFinalizer :: "ref \<Rightarrow> finalizing \<Rightarrow> finalizing" where
  "mulleAddFinalizer obj s = s\<lparr>pending := pending s @ [obj], added := added s @ [obj]\<rparr>"

fun finalize_each :: "(ref \<Rightarrow> ref list \<Rightarrow> ref list) \<Rightarrow> ref list \<Rightarrow> finalizing \<Rightarrow> finalizing" where
  "finalize_each react [] s = s"
| "finalize_each react (obj # tmp) s =
     (let s1 = fold mulleAddFinalizer (react obj (finalized s)) (s\<lparr>finalized := finalized s @ [obj]\<rparr>)
      in finalize_each react tmp (s1\<lparr>given_back := given_back s1 @ [obj]\<rparr>))"

partial_function (option) mulleRunFinalizers ::
    "(ref \<Rightarrow> ref list \<Rightarrow> ref list) \<Rightarrow> finalizing \<Rightarrow> finalizing option" where
  "mulleRunFinalizers react s =
     (if pending s = [] then Some s
      else let tmp = pending s in mulleRunFinalizers react (finalize_each react tmp (s\<lparr>pending := []\<rparr>)))"

declare mulleRunFinalizers.simps [code]

definition ledger_ok :: "ref list \<Rightarrow> finalizing \<Rightarrow> bool" where
  "ledger_ok tmp s \<longleftrightarrow> mset (finalized s) + mset tmp + mset (pending s) = mset (added s) \<and> given_back s = finalized s"

lemma add_finalizers:
  "pending (fold mulleAddFinalizer os s) = pending s @ os" "added (fold mulleAddFinalizer os s) = added s @ os"
  "finalized (fold mulleAddFinalizer os s) = finalized s" "given_back (fold mulleAddFinalizer os s) = given_back s"
  by (induction os arbitrary: s) (simp_all add: mulleAddFinalizer_def)

lemma finalize_each_ledger: "ledger_ok tmp s \<Longrightarrow> ledger_ok [] (finalize_each react tmp s)"
proof (induction tmp arbitrary: s)
  case (Cons obj tmp)
  show ?case
    unfolding finalize_each.simps Let_def
    using Cons.prems by (intro Cons.IH) (simp add: ledger_ok_def add_finalizers union_ac)
qed simp

lemma finalize_each_smaller:
  assumes "\<And>x told. \<forall>y \<in> set (react x told). rank y < rank x" and "\<forall>x \<in> set tmp. rank x < Suc b"
    and "\<forall>x \<in> set (pending s). rank x < b"
  shows "\<forall>x \<in> set (pending (finalize_each react tmp s)). rank x < (b :: nat)"
  using assms(2,3)
proof (induction tmp arbitrary: s)
  case (Cons obj tmp)
  show ?case
    unfolding finalize_each.simps Let_def
  proof (rule Cons.IH)
    show "\<forall>x \<in> set tmp. rank x < Suc b" using Cons.prems by simp
    have "\<forall>y \<in> set (react obj (finalized s)). rank y < b"
      using assms(1) [of obj "finalized s"] Cons.prems(1) by fastforce
    then show "\<forall>x \<in> set (pending ((fold mulleAddFinalizer (react obj (finalized s)) (s\<lparr>finalized := finalized s @ [obj]\<rparr>))
        \<lparr>given_back := given_back (fold mulleAddFinalizer (react obj (finalized s)) (s\<lparr>finalized := finalized s @ [obj]\<rparr>)) @ [obj]\<rparr>)).
        rank x < b"
      using Cons.prems(2) by (auto simp: add_finalizers)
  qed
qed simp

text \<open>
  At the end of a thread its finalizers run, also those that appear while others run: when an object adds
  only objects of smaller rank the loop ends, nothing is left pending, and every object that was added has
  been told to finalize itself and given back its reference as often as it was added.
\<close>
theorem finalizers_run_once:
  assumes "\<And>x told. \<forall>y \<in> set (react x told). rank y < (rank x :: nat)" and "ledger_ok [] s"
  shows "\<exists>s'. mulleRunFinalizers react s = Some s' \<and> pending s' = []
    \<and> mset (finalized s') = mset (added s') \<and> given_back s' = finalized s'"
proof -
  have "\<exists>s'. mulleRunFinalizers react s = Some s' \<and> pending s' = [] \<and> ledger_ok [] s'"
    if "\<forall>x \<in> set (pending s). rank x < b" "ledger_ok [] s" for b s
    using that
  proof (induction b arbitrary: s)
    case 0
    then have "pending s = []" by simp
    then show ?case
      using 0 by (simp add: mulleRunFinalizers.simps)
  next
    case (Suc b)
    show ?case
    proof (cases "pending s = []")
      case False
      have "ledger_ok (pending s) (s\<lparr>pending := []\<rparr>)"
        using Suc.prems(2) by (simp add: ledger_ok_def)
      then have "ledger_ok [] (finalize_each react (pending s) (s\<lparr>pending := []\<rparr>))"
        by (rule finalize_each_ledger)
      moreover have "\<forall>x \<in> set (pending (finalize_each react (pending s) (s\<lparr>pending := []\<rparr>))). rank x < b"
        by (rule finalize_each_smaller [OF assms(1) Suc.prems(1)]) simp
      ultimately show ?thesis
        using Suc.IH False by (subst mulleRunFinalizers.simps) (simp add: Let_def)
    qed (use Suc.prems in \<open>simp add: mulleRunFinalizers.simps\<close>)
  qed
  moreover have "\<forall>x \<in> set (pending s). rank x < Suc (sum_list (map rank (pending s)))"
    by (simp add: less_Suc_eq_le member_le_sum_list)
  ultimately show ?thesis
    using assms(2) unfolding ledger_ok_def by fastforce
qed

theorem finalizers_run_once_witness:
  "\<exists>s'. mulleRunFinalizers (\<lambda>x _. if x = 5 then [4, 4] else []) \<lparr>pending = [5, 3], added = [5, 3], finalized = [], given_back = []\<rparr>
     = Some s' \<and> pending s' = [] \<and> mset (finalized s') = mset (added s') \<and> given_back s' = finalized s'"
  by (rule finalizers_run_once [where rank = unat]) (simp_all add: ledger_ok_def)

end
