(* ===== verification/UniverseInfo.thy ===== *)
theory UniverseInfo
  imports Ranges
begin

text \<open>
  The foundation's part of the universe (\<open>src/mulle-objc-universefoundationinfo-private.h\<close> and
  \<open>src/mulle-objc-universefoundationinfo.m\<close>, \<open>src/mulle-objc-exceptionhandlertable-private.h\<close>): the root
  objects, which live until the universe goes down, the thread objects by operating system thread,
  the switches read from the environment, and the vectors for strings and exceptions.

  A \<open>mulle_set\<close> of objects is a set, a \<open>mulle_map\<close> a map.  The functions work on the record
  \<open>foundationinfo\<close>; a call that the runtime answers by failing is the left summand.
\<close>

section \<open>State\<close>

record ('arg, 'ex) exceptionhandlertable =
  errno_error :: "ref \<Rightarrow> 'arg \<Rightarrow> 'ex"
  internal_inconsistency :: "ref \<Rightarrow> 'arg \<Rightarrow> 'ex"
  invalid_argument :: "ref \<Rightarrow> 'arg \<Rightarrow> 'ex"
  invalid_index :: "NSUInteger \<Rightarrow> 'ex"
  invalid_range :: "NSRange \<Rightarrow> 'ex"

record info_object =
  roots :: "ref set"
  threads :: "ref \<rightharpoonup> ref"
  singlethreadautoreleasecheckerenabled :: bool
  debugenabled :: bool
  zombieenabled :: bool
  deallocatezombie :: bool
  shredzombie :: bool

record info_thread =
  mainthread :: ref
  n_threads :: NSUInteger
  was_multi_threaded :: bool

record info_string =
  objectfromchars :: "string \<Rightarrow> ref"
  charsfromobject :: "ref \<Rightarrow> string"

record info_autoreleasepool =
  config_key :: nat
  pool_class :: ref

definition N_STRINGSUBCLASSES :: nat where
  "N_STRINGSUBCLASSES = 8"

definition N_NUMBERSUBCLASSES :: nat where
  "N_NUMBERSUBCLASSES = 12"

record ('arg, 'ex) foundationinfo =
  object :: info_object
  exception_vectors :: "('arg, 'ex) exceptionhandlertable"
  string_vectors :: info_string
  thread :: info_thread
  symbolizer :: ref
  pool :: info_autoreleasepool
  universe :: ref
  stringsubclasses :: "ref list"
  numbersubclasses :: "ref list"
  teardown_callback :: bool

section \<open>Switches\<close>

definition universe_is_debugenabled :: "('arg, 'ex) foundationinfo \<Rightarrow> bool" where
  "universe_is_debugenabled config = debugenabled (object config)"

definition universe_is_deallocatingzombies :: "('arg, 'ex) foundationinfo \<Rightarrow> bool" where
  "universe_is_deallocatingzombies config = deallocatezombie (object config)"

definition universe_is_zombieenabled :: "('arg, 'ex) foundationinfo \<Rightarrow> bool" where
  "universe_is_zombieenabled config = zombieenabled (object config)"

text \<open>\<open>yes\<close> tells whether an environment variable is set to YES.\<close>

definition universefoundationinfo_init ::
    "(string \<Rightarrow> bool) \<Rightarrow> ref \<Rightarrow> ('arg, 'ex) exceptionhandlertable \<Rightarrow> ('arg, 'ex) foundationinfo \<Rightarrow> ('arg, 'ex) foundationinfo"
  where
  "universefoundationinfo_init yes u exceptiontable info =
     info\<lparr>universe := u,
       exception_vectors := exceptiontable,
       object := (object info)\<lparr>
         roots := {},
         threads := Map.empty,
         singlethreadautoreleasecheckerenabled := yes ''MULLE_OBJC_SINGLE_THREAD_AUTORELEASE_CHECKER_ENABLED'',
         debugenabled := (yes ''MULLE_OBJC_DEBUG_ENABLED'' \<or> yes ''NSDebugEnabled''),
         zombieenabled := (yes ''MULLE_OBJC_ZOMBIE_ENABLED'' \<or> yes ''MULLE_OBJC_TRACE_ZOMBIE''
                           \<or> yes ''NSZombieEnabled''),
         deallocatezombie := (yes ''MULLE_OBJC_DEALLOCATE_ZOMBIE'' \<or> yes ''NSDeallocateZombies''
                              \<or> yes ''MULLE_OBJC_TRACE_LEAK''),
         shredzombie := (\<not> yes ''MULLE_OBJC_PRESERVE_ZOMBIE'')\<rparr>\<rparr>"

section \<open>Root objects\<close>

datatype info_error = Already_root ref

definition info_add_rootobject ::
    "ref \<Rightarrow> ('arg, 'ex) foundationinfo \<Rightarrow> info_error + ('arg, 'ex) foundationinfo" where
  "info_add_rootobject obj info =
     (if obj \<in> roots (object info) then Inl (Already_root obj)
      else Inr (info\<lparr>object := (object info)\<lparr>roots := insert obj (roots (object info))\<rparr>\<rparr>))"

definition info_remove_rootobject :: "ref \<Rightarrow> ('arg, 'ex) foundationinfo \<Rightarrow> ('arg, 'ex) foundationinfo" where
  "info_remove_rootobject obj info =
     info\<lparr>object := (object info)\<lparr>roots := roots (object info) - {obj}\<rparr>\<rparr>"

text \<open>
  The objects that get a \<open>-release\<close>: \<open>order_of\<close> is the order in which the set hands them out.  The set
  itself stays as it is.
\<close>

definition info_release_rootobjects :: "(ref set \<Rightarrow> ref list) \<Rightarrow> ('arg, 'ex) foundationinfo \<Rightarrow> ref list" where
  "info_release_rootobjects order_of info = order_of (roots (object info))"

section \<open>Thread objects\<close>

definition info_set_threadobject :: "ref \<Rightarrow> ref \<Rightarrow> ('arg, 'ex) foundationinfo \<Rightarrow> ('arg, 'ex) foundationinfo" where
  "info_set_threadobject thread_id obj info =
     info\<lparr>object := (object info)\<lparr>threads := (threads (object info))(thread_id \<mapsto> obj)\<rparr>\<rparr>"

definition info_remove_threadobject :: "ref \<Rightarrow> ref \<Rightarrow> ('arg, 'ex) foundationinfo \<Rightarrow> ('arg, 'ex) foundationinfo" where
  "info_remove_threadobject thread_id obj info =
     info\<lparr>object := (object info)\<lparr>threads := (threads (object info))(thread_id := None)\<rparr>\<rparr>"

definition info_lookup_threadobject :: "ref \<Rightarrow> ('arg, 'ex) foundationinfo \<Rightarrow> ref" where
  "info_lookup_threadobject thread_id info =
     (case threads (object info) thread_id of None \<Rightarrow> 0 | Some obj \<Rightarrow> obj)"

definition info_set_mainthreadobject :: "ref \<Rightarrow> ('arg, 'ex) foundationinfo \<Rightarrow> ('arg, 'ex) foundationinfo" where
  "info_set_mainthreadobject obj info = info\<lparr>thread := (thread info)\<lparr>mainthread := obj\<rparr>\<rparr>"

definition info_get_mainthreadobject :: "('arg, 'ex) foundationinfo \<Rightarrow> ref" where
  "info_get_mainthreadobject info = mainthread (thread info)"

section \<open>Locked calls\<close>

text \<open>
  The universe as these functions use it: its lock, what was done to objects in the order of the
  messages, whether it is initialized, and the foundation's information.
\<close>

datatype object_message = Retained ref | Released ref | Autoreleased ref

record ('arg, 'ex) universe =
  locked :: bool
  messages :: "object_message list"
  initialized :: bool
  info :: "('arg, 'ex) foundationinfo"

text \<open>
  A call under the lock; \<open>None\<close> when it never returns because the calling thread holds the lock
  already.
\<close>

definition lockedcall ::
    "(('arg, 'ex) universe \<Rightarrow> info_error + ('arg, 'ex) universe) \<Rightarrow> ('arg, 'ex) universe
       \<Rightarrow> (info_error + ('arg, 'ex) universe) option" where
  "lockedcall f u =
     (if locked u then None
      else Some (case f (u\<lparr>locked := True\<rparr>) of Inl e \<Rightarrow> Inl e | Inr u' \<Rightarrow> Inr (u'\<lparr>locked := False\<rparr>)))"

definition universe_get_universefoundationinfo :: "('arg, 'ex) universe \<Rightarrow> ('arg, 'ex) foundationinfo" where
  "universe_get_universefoundationinfo u = info u"

definition lockedcall0_foundationinfo where
  "lockedcall0_foundationinfo f u = lockedcall (\<lambda>u. Inr (f u)) u"

definition lockedcall1_foundationinfo ::
    "(ref \<Rightarrow> ('arg, 'ex) foundationinfo \<Rightarrow> info_error + ('arg, 'ex) foundationinfo) \<Rightarrow> ref
       \<Rightarrow> ('arg, 'ex) universe \<Rightarrow> (info_error + ('arg, 'ex) universe) option" where
  "lockedcall1_foundationinfo f obj u =
     lockedcall (\<lambda>u. case f obj (info u) of Inl e \<Rightarrow> Inl e | Inr i \<Rightarrow> Inr (u\<lparr>info := i\<rparr>)) u"

definition lockedcall2_foundationinfo ::
    "(ref \<Rightarrow> ref \<Rightarrow> ('arg, 'ex) foundationinfo \<Rightarrow> ('arg, 'ex) foundationinfo) \<Rightarrow> ref \<Rightarrow> ref
       \<Rightarrow> ('arg, 'ex) universe \<Rightarrow> (info_error + ('arg, 'ex) universe) option" where
  "lockedcall2_foundationinfo f thread_id obj u =
     lockedcall (\<lambda>u. Inr (u\<lparr>info := f thread_id obj (info u)\<rparr>)) u"

text \<open>The found object is retained and autoreleased before the lock is given up; nil is not messaged.\<close>

definition lockedgetcall1_foundationinfo ::
    "(ref \<Rightarrow> ('arg, 'ex) foundationinfo \<Rightarrow> ref) \<Rightarrow> ref \<Rightarrow> ('arg, 'ex) universe
       \<Rightarrow> (ref \<times> ('arg, 'ex) universe) option" where
  "lockedgetcall1_foundationinfo f thread_id u =
     (if locked u then None
      else let obj = f thread_id (info u)
           in Some (obj, u\<lparr>messages := messages u @ (if obj = 0 then [] else [Retained obj, Autoreleased obj])\<rparr>))"

definition universe_add_rootobject ::
    "ref \<Rightarrow> ('arg, 'ex) universe \<Rightarrow> (info_error + ('arg, 'ex) universe) option" where
  "universe_add_rootobject obj u = lockedcall1_foundationinfo info_add_rootobject obj u"

definition universe_remove_rootobject ::
    "ref \<Rightarrow> ('arg, 'ex) universe \<Rightarrow> (info_error + ('arg, 'ex) universe) option" where
  "universe_remove_rootobject obj u = lockedcall1_foundationinfo (\<lambda>obj info. Inr (info_remove_rootobject obj info)) obj u"

text \<open>The teardown of the universe calls \<open>info_release_rootobjects\<close> without the lock, when no other thread is left.\<close>

definition universe_release_rootobjects ::
    "(ref set \<Rightarrow> ref list) \<Rightarrow> ('arg, 'ex) universe \<Rightarrow> (info_error + ('arg, 'ex) universe) option" where
  "universe_release_rootobjects order_of u =
     lockedcall0_foundationinfo
       (\<lambda>u. u\<lparr>messages := messages u @ map Released (info_release_rootobjects order_of (info u))\<rparr>) u"

definition universe_set_threadobject ::
    "ref \<Rightarrow> ref \<Rightarrow> ('arg, 'ex) universe \<Rightarrow> (info_error + ('arg, 'ex) universe) option" where
  "universe_set_threadobject thread_id obj u = lockedcall2_foundationinfo info_set_threadobject thread_id obj u"

definition universe_lookup_threadobject ::
    "ref \<Rightarrow> ('arg, 'ex) universe \<Rightarrow> (ref \<times> ('arg, 'ex) universe) option" where
  "universe_lookup_threadobject thread_id u = lockedgetcall1_foundationinfo info_lookup_threadobject thread_id u"

definition universe_remove_threadobject ::
    "ref \<Rightarrow> ref \<Rightarrow> ('arg, 'ex) universe \<Rightarrow> (info_error + ('arg, 'ex) universe) option" where
  "universe_remove_threadobject thread_id obj u =
     lockedcall2_foundationinfo info_remove_threadobject thread_id obj u"

section \<open>Vectors\<close>

text \<open>
  The first test asks the universe whether it is initialized before the second test asks whether there
  is a universe: \<open>None\<close> as universe is the null pointer, and asking it is undefined.
\<close>

definition get_foundationexceptionhandlertable ::
    "('arg, 'ex) universe option \<Rightarrow> ('arg, 'ex) exceptionhandlertable option outcome" where
  "get_foundationexceptionhandlertable u =
     (case u of
        None \<Rightarrow> Abort
      | Some u \<Rightarrow> Done (if \<not> initialized u then None else Some (exception_vectors (info u))))"

definition universe_string :: "string option \<Rightarrow> ('arg, 'ex) universe \<Rightarrow> ref" where
  "universe_string s u = (case s of None \<Rightarrow> 0 | Some s \<Rightarrow> objectfromchars (string_vectors (info u)) s)"

definition universe_characters :: "ref \<Rightarrow> ('arg, 'ex) universe \<Rightarrow> string" where
  "universe_characters obj u = (if obj = 0 then ''*nil*'' else charsfromobject (string_vectors (info u)) obj)"

section \<open>Becoming a root object\<close>

text \<open>
  \<open>-_becomeRootObject\<close> and \<open>-_resignAsRootObject\<close> of \<open>src/protocol/MulleObjCRootObject.m\<close>: a root object
  is retained while it is one.  Constant objects are left alone.
\<close>

definition becomeRootObject ::
    "(ref \<Rightarrow> bool) \<Rightarrow> ref \<Rightarrow> ('arg, 'ex) universe \<Rightarrow> (info_error + ('arg, 'ex) universe) option" where
  "becomeRootObject is_constant self u =
     (if is_constant self then Some (Inr u)
      else universe_add_rootobject self (u\<lparr>messages := messages u @ [Retained self]\<rparr>))"

definition resignAsRootObject ::
    "(ref \<Rightarrow> bool) \<Rightarrow> ref \<Rightarrow> ('arg, 'ex) universe \<Rightarrow> (info_error + ('arg, 'ex) universe) option" where
  "resignAsRootObject is_constant self u =
     (if is_constant self then Some (Inr u)
      else case universe_remove_rootobject self u of
             Some (Inr u') \<Rightarrow> Some (Inr (u'\<lparr>messages := messages u' @ [Autoreleased self]\<rparr>))
           | r \<Rightarrow> r)"

section \<open>Every root object is released once\<close>

definition send_root :: "bool \<Rightarrow> (ref \<Rightarrow> bool) \<Rightarrow> ref \<Rightarrow> ('arg, 'ex) universe
    \<Rightarrow> (info_error + ('arg, 'ex) universe) option" where
  "send_root become = (if become then becomeRootObject else resignAsRootObject)"

text \<open>
  The universe after a history of messages: who becomes and who resigns, with \<open>None\<close> for a history in
  which a call fails or never returns.
\<close>

primrec root_history :: "(ref \<Rightarrow> bool) \<Rightarrow> (bool \<times> ref) list \<Rightarrow> ('arg, 'ex) universe \<Rightarrow> ('arg, 'ex) universe option"
  where
  "root_history c [] u = Some u"
| "root_history c (m # ms) u =
     (case send_root (fst m) c (snd m) u of Some (Inr u') \<Rightarrow> root_history c ms u' | _ \<Rightarrow> None)"

text \<open>A history in which only root objects resign.\<close>

primrec roots_resign :: "(ref \<Rightarrow> bool) \<Rightarrow> (bool \<times> ref) list \<Rightarrow> ('arg, 'ex) universe \<Rightarrow> bool" where
  "roots_resign c [] u = True"
| "roots_resign c (m # ms) u =
     ((fst m \<or> c (snd m) \<or> snd m \<in> roots (object (info u)))
      \<and> (case send_root (fst m) c (snd m) u of Some (Inr u') \<Rightarrow> roots_resign c ms u' | _ \<Rightarrow> True))"

definition retains :: "object_message list \<Rightarrow> ref \<Rightarrow> nat" where
  "retains ms x = count_list ms (Retained x)"

definition releases :: "object_message list \<Rightarrow> ref \<Rightarrow> nat" where
  "releases ms x = count_list ms (Released x) + count_list ms (Autoreleased x)"

definition root_balance :: "('arg, 'ex) universe \<Rightarrow> bool" where
  "root_balance u \<longleftrightarrow>
     \<not> locked u \<and> (\<forall>x. retains (messages u) x
                        = releases (messages u) x + (if x \<in> roots (object (info u)) then 1 else 0))"

lemmas locked_simps = lockedcall_def lockedcall0_foundationinfo_def lockedcall1_foundationinfo_def
  lockedcall2_foundationinfo_def lockedgetcall1_foundationinfo_def
  info_add_rootobject_def info_remove_rootobject_def info_release_rootobjects_def

lemmas root_simps = becomeRootObject_def resignAsRootObject_def universe_add_rootobject_def
  universe_remove_rootobject_def universe_release_rootobjects_def locked_simps retains_def releases_def

lemma become_balances:
  assumes "root_balance u" and "becomeRootObject c x u = Some (Inr u')"
  shows "root_balance u'"
  using assms by (auto simp: root_balance_def root_simps split: if_splits)

lemma resign_balances:
  assumes "root_balance u" and "resignAsRootObject c x u = Some (Inr u')" and "c x \<or> x \<in> roots (object (info u))"
  shows "root_balance u'"
  using assms by (auto simp: root_balance_def root_simps split: if_splits)

lemma send_root_balances:
  assumes "root_balance u" and "send_root b c x u = Some (Inr u')"
    and "b \<or> c x \<or> x \<in> roots (object (info u))"
  shows "root_balance u'"
  using assms by (cases b) (auto simp: send_root_def intro: become_balances resign_balances)

lemma history_balances:
  "root_balance u \<Longrightarrow> roots_resign c ms u \<Longrightarrow> root_history c ms u = Some u' \<Longrightarrow> root_balance u'"
proof (induction ms arbitrary: u)
  case (Cons m ms)
  then obtain v where v: "send_root (fst m) c (snd m) u = Some (Inr v)"
    by (auto split: option.splits sum.splits)
  have "root_balance v"
    using send_root_balances[OF Cons.prems(1) v] Cons.prems(2) by simp
  then show ?case
    using Cons v by simp
qed simp

lemma count_list_distinct: "distinct xs \<Longrightarrow> count_list xs x = (if x \<in> set xs then 1 else 0)"
  by (induction xs) auto

lemma count_list_map_Released:
  "count_list (map Released xs) (Released x) = count_list xs x"
  "count_list (map Released xs) (Retained x) = 0" "count_list (map Released xs) (Autoreleased x) = 0"
  by (induction xs) auto

text \<open>
  C24. When the root objects are released, by the function that takes the lock or without it, as the teardown of the
  universe does with the same releases, every object that was ever made a root
  has been given back exactly the reference that \<open>-_becomeRootObject\<close> took, whatever became a root and
  resigned before, in any order: no object is leaked, none is released twice.  The release returns and
  leaves the lock open.  Only roots may resign, and the set hands out each of its members once.
\<close>
theorem roots_released_once:
  assumes "root_balance u" and "roots_resign c ms u" and "root_history c ms u = Some u'"
    and "distinct (order_of (roots (object (info u'))))"
    and "set (order_of (roots (object (info u')))) = roots (object (info u'))"
  shows "\<exists>u''. universe_release_rootobjects order_of u' = Some (Inr u'') \<and> \<not> locked u''
              \<and> retains (messages u'') = releases (messages u'')
              \<and> messages u'' = messages u' @ map Released (info_release_rootobjects order_of (info u'))"
proof -
  have "root_balance u'"
    using history_balances assms(1-3) by blast
  then show ?thesis
    using assms(4,5)
    by (auto simp: root_balance_def root_simps count_list_map_Released count_list_distinct fun_eq_iff)
qed

definition no_info :: "(nat, nat) foundationinfo" where
  "no_info = \<lparr>object = \<lparr>roots = {}, threads = Map.empty, singlethreadautoreleasecheckerenabled = False,
       debugenabled = False, zombieenabled = False, deallocatezombie = False, shredzombie = False\<rparr>,
     exception_vectors = \<lparr>errno_error = (\<lambda>_ _. 0), internal_inconsistency = (\<lambda>_ _. 1),
       invalid_argument = (\<lambda>_ _. 2), invalid_index = (\<lambda>_. 3), invalid_range = (\<lambda>_. 4)\<rparr>,
     string_vectors = \<lparr>objectfromchars = (\<lambda>_. 0), charsfromobject = (\<lambda>_. [])\<rparr>,
     thread = \<lparr>mainthread = 0, n_threads = 0, was_multi_threaded = False\<rparr>, symbolizer = 0,
     pool = \<lparr>config_key = 0, pool_class = 0\<rparr>, universe = 0, stringsubclasses = [], numbersubclasses = [],
     teardown_callback = False\<rparr>"

definition no_universe :: "(nat, nat) universe" where
  "no_universe = \<lparr>locked = False, messages = [], initialized = True, info = no_info\<rparr>"

text \<open>Two objects become roots, one resigns; the constant object 7 is left alone.\<close>

theorem roots_released_once_witness:
  "\<exists>u''. universe_release_rootobjects (\<lambda>s. if s = {5} then [5] else [])
            (the (root_history (\<lambda>x. x = 7) [(True, 4), (True, 5), (True, 7), (False, 4)] no_universe)) = Some (Inr u'')
         \<and> \<not> locked u'' \<and> retains (messages u'') = releases (messages u'')
         \<and> messages u'' = messages (the (root_history (\<lambda>x. x = 7) [(True, 4), (True, 5), (True, 7), (False, 4)] no_universe))
             @ map Released (info_release_rootobjects (\<lambda>s. if s = {5} then [5] else [])
                 (info (the (root_history (\<lambda>x. x = 7) [(True, 4), (True, 5), (True, 7), (False, 4)] no_universe))))"
  by (rule roots_released_once[where u = no_universe and c = "\<lambda>x. x = 7"
        and ms = "[(True, 4), (True, 5), (True, 7), (False, 4)]"])
     (simp_all add: root_balance_def root_simps send_root_def no_universe_def no_info_def insert_Diff_if)

section \<open>Thread objects by thread\<close>

text \<open>
  A thread object that was registered for an operating system thread is what the lookup for that
  thread finds, retained and autoreleased for the caller, and registering leaves every other thread's
  object alone; after it was removed the lookup finds nil and sends no message.  All of it returns when
  the lock is open, and opens it again.
\<close>
theorem threadobject_roundtrip:
  assumes "\<not> locked u" and "obj \<noteq> 0"
  shows "\<exists>u1 u2. universe_set_threadobject tid obj u = Some (Inr u1)
              \<and> universe_lookup_threadobject tid u1
                = Some (obj, u1\<lparr>messages := messages u @ [Retained obj, Autoreleased obj]\<rparr>)
              \<and> (\<forall>t. t = tid \<or> info_lookup_threadobject t (info u1) = info_lookup_threadobject t (info u))
              \<and> universe_remove_threadobject tid obj u1 = Some (Inr u2)
              \<and> universe_lookup_threadobject tid u2 = Some (0, u2)
              \<and> \<not> locked u1 \<and> \<not> locked u2"
  using assms
  by (auto simp: universe_set_threadobject_def universe_lookup_threadobject_def universe_remove_threadobject_def
        info_set_threadobject_def info_lookup_threadobject_def info_remove_threadobject_def locked_simps)

theorem threadobject_roundtrip_witness:
  "\<exists>u1 u2. universe_set_threadobject 3 9 no_universe = Some (Inr u1)
        \<and> universe_lookup_threadobject 3 u1
          = Some (9, u1\<lparr>messages := messages no_universe @ [Retained 9, Autoreleased 9]\<rparr>)
        \<and> (\<forall>t. t = 3 \<or> info_lookup_threadobject t (info u1) = info_lookup_threadobject t (info no_universe))
        \<and> universe_remove_threadobject 3 9 u1 = Some (Inr u2)
        \<and> universe_lookup_threadobject 3 u2 = Some (0, u2) \<and> \<not> locked u1 \<and> \<not> locked u2"
  by (rule threadobject_roundtrip) (simp_all add: no_universe_def)

end
