(* ===== verification/UniverseConfig.thy ===== *)
theory UniverseConfig
  imports UniverseInfo
begin

text \<open>
  How a universe is set up from a configuration (\<open>src/mulle-objc-universeconfiguration-private.h\<close>,
  \<open>src/mulle-objc-universeconfiguration.m\<close>).

  Callbacks and classes are references, 0 for none.  The part of the universe that is set up is the record
  \<open>configured\<close>; \<open>yes\<close> tells whether an environment variable is set to YES.
  The runtime's tables by method family, which the inlined calls of theory \<open>Standard\<close> rest on, are
  functions of the family.  Left out is what the set up prints.
\<close>

record configuration_defaults =
  universe_allocator :: ref
  config_versionassert :: ref
  config_staticinstanceclass :: "ref list"
  config_utf8staticstrings :: bool
  config_forward :: ref
  config_retain_autorelease :: ref
  config_uncaughtexception :: ref
  config_wrongthread :: ref
  config_threadinfoinitializer :: ref

record ('arg, 'ex) configuration_foundation =
  configurationsize :: nat
  objectallocator :: ref
  exceptiontable :: "('arg, 'ex) exceptionhandlertable"
  config_headerextrasize :: nat

record ('c, 'u) configuration_callbacks =
  setup_callback :: "'c \<Rightarrow> 'u \<Rightarrow> 'u"
  postcreate :: "'u \<Rightarrow> 'u"
  has_teardown :: bool

record ('arg, 'ex, 'c, 'u) universeconfiguration =
  defaults :: configuration_defaults
  foundation :: "('arg, 'ex) configuration_foundation"
  callbacks :: "('c, 'u) configuration_callbacks"

section \<open>The universe that is set up\<close>

datatype methodfamily =
    Family_alloc | Family_copy | Family_init | Family_mutablecopy | Family_new | Family_autorelease
  | Family_dealloc | Family_finalize | Family_release | Family_retain | Family_retaincount | Family_self

fun family_selector :: "methodfamily \<Rightarrow> string" where
  "family_selector Family_alloc = ''alloc''"
| "family_selector Family_copy = ''copy''"
| "family_selector Family_init = ''init''"
| "family_selector Family_mutablecopy = ''mutableCopy''"
| "family_selector Family_new = ''new''"
| "family_selector Family_autorelease = ''autorelease''"
| "family_selector Family_dealloc = ''dealloc''"
| "family_selector Family_finalize = ''finalize''"
| "family_selector Family_release = ''release''"
| "family_selector Family_retain = ''retain''"
| "family_selector Family_retaincount = ''retainCount''"
| "family_selector Family_self = ''self''"

record foundation_record =
  f_data :: ref
  f_retain_autorelease :: ref
  f_staticinstanceclass :: "ref list"
  f_utf8staticstrings :: bool
  f_finalizer :: ref
  f_destructor :: ref
  f_threadinfoinitializer :: ref
  f_versionassert :: ref
  f_rootclassid :: uint32
  f_allocator :: ref
  f_headerextrasize :: nat
  f_standardimps :: "methodfamily \<Rightarrow> ref"
  f_standardselectors :: "methodfamily \<Rightarrow> uint32"
  f_standardmetamask :: "64 word"

record ('arg, 'ex) configured =
  coverage :: bool
  pedantic_exit :: bool
  no_classcluster_coverage :: bool
  stuck_class_coverage :: bool
  banged_allocator :: ref
  inheritance :: nat
  forwardmethod :: ref
  fail_uncaughtexception :: ref
  fail_wrongthread :: ref
  roots_info :: "('arg, 'ex) foundationinfo"
  roots_on_heap :: bool
  installed_foundation :: foundation_record

text \<open>Functions and allocators that the set up refers to.\<close>

record known =
  foundationinfo_finalize :: ref
  foundationinfo_done :: ref
  threadinfo_initializer :: ref
  nop :: ref
  stdlib_allocator :: ref
  default_allocator :: ref
  unique_id :: "string \<Rightarrow> uint32"
  dont_inherit_protocol_categories :: nat
  standard_implementation :: "methodfamily \<Rightarrow> ref"
  family_number :: "methodfamily \<Rightarrow> nat"
  info_size :: nat
  space_size :: nat
  roots_address :: ref

text \<open>The standard implementations by family; there is none for the two that copy.\<close>

definition standardimps :: "known \<Rightarrow> methodfamily \<Rightarrow> ref" where
  "standardimps K m =
     (if m = Family_copy \<or> m = Family_mutablecopy then 0 else standard_implementation K m)"

definition or_else :: "ref \<Rightarrow> ref \<Rightarrow> ref" where
  "or_else a b = (if a \<noteq> 0 then a else b)"

text \<open>
  \<open>space_size\<close> is the size of the space that the universe has for the foundation, \<open>roots_address\<close> where
  the information lies then, in that space or in new memory.
\<close>

definition configure_universe ::
    "known \<Rightarrow> (string \<Rightarrow> bool) \<Rightarrow> ref \<Rightarrow> ('arg, 'ex, 'c, 'u) universeconfiguration \<Rightarrow> ('arg, 'ex) configured
       \<Rightarrow> ('arg, 'ex) configured" where
  "configure_universe K yes uni config u =
     (let c = yes ''MULLE_OBJC_COVERAGE'';
          u = (if c then u\<lparr>coverage := True, pedantic_exit := True,
                            no_classcluster_coverage := (\<not> yes ''MULLE_OBJC_CLASS_CLUSTER_COVERAGE''),
                            stuck_class_coverage := c\<rparr>
               else u);
          u = u\<lparr>banged_allocator := universe_allocator (defaults config),
                 inheritance := dont_inherit_protocol_categories K,
                 forwardmethod := config_forward (defaults config),
                 fail_uncaughtexception := config_uncaughtexception (defaults config)\<rparr>;
          u = (if config_wrongthread (defaults config) \<noteq> 0
               then u\<lparr>fail_wrongthread := config_wrongthread (defaults config)\<rparr> else u);
          neededsize = (if configurationsize (foundation config) = 0 then info_size K
                        else configurationsize (foundation config));
          info = universefoundationinfo_init yes uni (exceptiontable (foundation config)) (roots_info u);
          info = info\<lparr>teardown_callback := has_teardown (callbacks config)\<rparr>;
          allocator = (if objectallocator (foundation config) \<noteq> 0 then objectallocator (foundation config)
                       else if yes ''MULLE_OBJC_FOUNDATION_STDLIB_ALLOCATOR'' then stdlib_allocator K
                       else default_allocator K)
      in u\<lparr>roots_on_heap := (space_size K < neededsize), roots_info := info,
           installed_foundation := \<lparr>f_data = roots_address K,
             f_retain_autorelease = config_retain_autorelease (defaults config),
             f_staticinstanceclass = config_staticinstanceclass (defaults config),
             f_utf8staticstrings = config_utf8staticstrings (defaults config),
             f_finalizer = foundationinfo_finalize K,
             f_destructor = foundationinfo_done K,
             f_threadinfoinitializer = or_else (config_threadinfoinitializer (defaults config)) (threadinfo_initializer K),
             f_versionassert = or_else (config_versionassert (defaults config)) (nop K),
             f_rootclassid = unique_id K ''NSObject'',
             f_allocator = allocator,
             f_headerextrasize = config_headerextrasize (foundation config),
             f_standardimps = standardimps K,
             f_standardselectors = (\<lambda>m. unique_id K (family_selector m)),
             f_standardmetamask = (push_bit (family_number K Family_alloc) 1
                                     OR push_bit (family_number K Family_new) 1)\<rparr>\<rparr>)"

text \<open>Outside of the making of a universe the process ends.\<close>

definition universe_configure ::
    "('u \<Rightarrow> bool) \<Rightarrow> 'u \<Rightarrow> 'c \<Rightarrow> ('c, 'u) configuration_callbacks \<Rightarrow> 'u outcome" where
  "universe_configure is_transitioning u config cb =
     (if \<not> is_transitioning u then Abort else Done (postcreate cb (setup_callback cb config u)))"

text \<open>
  A universe that was set up has no root and no thread object, an allocator for its objects and something
  to initialize its threads with, whatever the configuration leaves open.
\<close>

lemma configured_universe:
  assumes "stdlib_allocator K \<noteq> 0" and "default_allocator K \<noteq> 0" and "threadinfo_initializer K \<noteq> 0" and "nop K \<noteq> 0"
  shows "f_allocator (installed_foundation (configure_universe K yes U config u)) \<noteq> 0"
    and "f_threadinfoinitializer (installed_foundation (configure_universe K yes U config u)) \<noteq> 0"
    and "f_versionassert (installed_foundation (configure_universe K yes U config u)) \<noteq> 0"
    and "roots (object (roots_info (configure_universe K yes U config u))) = {}"
    and "threads (object (roots_info (configure_universe K yes U config u))) = Map.empty"
  using assms by (simp_all add: configure_universe_def or_else_def Let_def universefoundationinfo_init_def)

end
