(* ===== verification/Checks.thy ===== *)
theory Checks
  imports UniverseInfo
begin

text \<open>
  Raising exceptions and the checks that do (\<open>src/protocol/MulleObjCException.h\<close>,
  \<open>src/protocol/MulleObjCException.m\<close>, \<open>src/function/MulleObjCExceptionHandler.h\<close>,
  \<open>src/function/MulleObjCExceptionHandler.m\<close>).

  What is raised is what the vector of the universe makes of its arguments.  A call that raises is the
  left summand, one that ends the process \<open>Abort\<close>.  \<open>get_universe\<close> is the lookup of a universe by its
  identifier in the runtime, \<open>get_max\<close> the function \<open>_mulle_range_get_max\<close> of mulle-data.
\<close>

section \<open>Raising\<close>

type_synonym ('arg, 'ex) universes = "uint32 \<Rightarrow> ('arg, 'ex) universe"

abbreviation vectors_of :: "('arg, 'ex) universes \<Rightarrow> uint32 \<Rightarrow> ('arg, 'ex) exceptionhandlertable" where
  "vectors_of get_universe universeid \<equiv> exception_vectors (info (get_universe universeid))"

definition ThrowInvalidArgumentException :: "('arg, 'ex) universes \<Rightarrow> uint32 \<Rightarrow> ref \<Rightarrow> 'arg \<Rightarrow> 'ex" where
  "ThrowInvalidArgumentException get_universe universeid format args =
     invalid_argument (vectors_of get_universe universeid) format args"

definition ThrowInvalidIndexException :: "('arg, 'ex) universes \<Rightarrow> uint32 \<Rightarrow> NSUInteger \<Rightarrow> 'ex" where
  "ThrowInvalidIndexException get_universe universeid index =
     invalid_index (vectors_of get_universe universeid) index"

definition ThrowInternalInconsistencyException :: "('arg, 'ex) universes \<Rightarrow> uint32 \<Rightarrow> ref \<Rightarrow> 'arg \<Rightarrow> 'ex" where
  "ThrowInternalInconsistencyException get_universe universeid format args =
     internal_inconsistency (vectors_of get_universe universeid) format args"

definition ThrowInvalidRangeException :: "('arg, 'ex) universes \<Rightarrow> uint32 \<Rightarrow> NSRange \<Rightarrow> 'ex" where
  "ThrowInvalidRangeException get_universe universeid rng =
     invalid_range (vectors_of get_universe universeid) rng"

definition ThrowErrnoException :: "('arg, 'ex) universes \<Rightarrow> uint32 \<Rightarrow> ref \<Rightarrow> 'arg \<Rightarrow> 'ex" where
  "ThrowErrnoException get_universe universeid format args =
     errno_error (vectors_of get_universe universeid) format args"

text \<open>
  The functions for C strings end the process when the vector is still the one that aborts:
  \<open>is_abort\<close> compares the vector with that function.
\<close>

definition ThrowInvalidArgumentExceptionUTF8String ::
    "('arg, 'ex) universes \<Rightarrow> ((ref \<Rightarrow> 'arg \<Rightarrow> 'ex) \<Rightarrow> bool) \<Rightarrow> uint32 \<Rightarrow> string \<Rightarrow> 'arg \<Rightarrow> 'ex outcome" where
  "ThrowInvalidArgumentExceptionUTF8String get_universe is_abort universeid format args =
     (let v = vectors_of get_universe universeid in
      if is_abort (invalid_argument v) then Abort
      else Done (invalid_argument v (objectfromchars (string_vectors (info (get_universe universeid))) format) args))"

definition ThrowInternalInconsistencyExceptionUTF8String ::
    "('arg, 'ex) universes \<Rightarrow> ((ref \<Rightarrow> 'arg \<Rightarrow> 'ex) \<Rightarrow> bool) \<Rightarrow> uint32 \<Rightarrow> string \<Rightarrow> 'arg \<Rightarrow> 'ex outcome" where
  "ThrowInternalInconsistencyExceptionUTF8String get_universe is_abort universeid format args =
     (let v = vectors_of get_universe universeid in
      if is_abort (internal_inconsistency v) then Abort
      else Done (internal_inconsistency v (objectfromchars (string_vectors (info (get_universe universeid))) format) args))"

definition ThrowErrnoExceptionUTF8String ::
    "('arg, 'ex) universes \<Rightarrow> ((ref \<Rightarrow> 'arg \<Rightarrow> 'ex) \<Rightarrow> bool) \<Rightarrow> uint32 \<Rightarrow> string \<Rightarrow> 'arg \<Rightarrow> 'ex outcome" where
  "ThrowErrnoExceptionUTF8String get_universe is_abort universeid format args =
     (let v = vectors_of get_universe universeid in
      if is_abort (errno_error v) then Abort
      else Done (errno_error v (objectfromchars (string_vectors (info (get_universe universeid))) format) args))"

text \<open>The macros name the universe that the code is compiled for.\<close>

definition MulleObjCThrowInvalidArgumentException where
  "MulleObjCThrowInvalidArgumentException get_universe this_universeid format args =
     ThrowInvalidArgumentException get_universe this_universeid format args"

definition MulleObjCThrowInvalidIndexException where
  "MulleObjCThrowInvalidIndexException get_universe this_universeid index =
     ThrowInvalidIndexException get_universe this_universeid index"

definition MulleObjCThrowInternalInconsistencyException where
  "MulleObjCThrowInternalInconsistencyException get_universe this_universeid format args =
     ThrowInternalInconsistencyException get_universe this_universeid format args"

definition MulleObjCThrowErrnoException where
  "MulleObjCThrowErrnoException get_universe this_universeid format args =
     ThrowErrnoException get_universe this_universeid format args"

definition MulleObjCThrowInvalidRangeException where
  "MulleObjCThrowInvalidRangeException get_universe this_universeid rng =
     ThrowInvalidRangeException get_universe this_universeid rng"

definition MulleObjCThrowErrnoExceptionUTF8String where
  "MulleObjCThrowErrnoExceptionUTF8String get_universe is_abort this_universeid format args =
     ThrowErrnoExceptionUTF8String get_universe is_abort this_universeid format args"

definition MulleObjCThrowInternalInconsistencyExceptionUTF8String where
  "MulleObjCThrowInternalInconsistencyExceptionUTF8String get_universe is_abort this_universeid format args =
     ThrowInternalInconsistencyExceptionUTF8String get_universe is_abort this_universeid format args"

definition MulleObjCThrowInvalidArgumentExceptionUTF8String where
  "MulleObjCThrowInvalidArgumentExceptionUTF8String get_universe is_abort this_universeid format args =
     ThrowInvalidArgumentExceptionUTF8String get_universe is_abort this_universeid format args"

section \<open>Raising from the library\<close>

text \<open>
  Without a vector, or when the universe makes no string object of the format, the format is printed
  and the process ends.  The universe is \<open>None\<close> for the null pointer.
\<close>

definition raisev_invalidargument :: "('arg, 'ex) universe option \<Rightarrow> string \<Rightarrow> 'arg \<Rightarrow> 'ex outcome" where
  "raisev_invalidargument u format args =
     (case get_foundationexceptionhandlertable u of
        Abort \<Rightarrow> Abort
      | Done vectors \<Rightarrow>
          (let s = (case vectors of None \<Rightarrow> 0 | Some v \<Rightarrow> universe_string (Some format) (the u)) in
           case vectors of
             Some v \<Rightarrow> if s \<noteq> 0 then Done (invalid_argument v s args) else Abort
           | None \<Rightarrow> Abort))"

definition raisev_internalinconsistency :: "('arg, 'ex) universe option \<Rightarrow> string \<Rightarrow> 'arg \<Rightarrow> 'ex outcome" where
  "raisev_internalinconsistency u format args =
     (case get_foundationexceptionhandlertable u of
        Abort \<Rightarrow> Abort
      | Done vectors \<Rightarrow>
          (let s = (case vectors of None \<Rightarrow> 0 | Some v \<Rightarrow> universe_string (Some format) (the u)) in
           case vectors of
             Some v \<Rightarrow> if s \<noteq> 0 then Done (internal_inconsistency v s args) else Abort
           | None \<Rightarrow> Abort))"

definition raisev_errno :: "('arg, 'ex) universe option \<Rightarrow> string \<Rightarrow> 'arg \<Rightarrow> 'ex outcome" where
  "raisev_errno u format args =
     (case get_foundationexceptionhandlertable u of
        Abort \<Rightarrow> Abort
      | Done vectors \<Rightarrow>
          (case vectors of
             Some v \<Rightarrow> let s = universe_string (Some format) (the u) in Done (errno_error v s args)
           | None \<Rightarrow> Abort))"

definition raise_invalidindex :: "('arg, 'ex) universe option \<Rightarrow> NSUInteger \<Rightarrow> 'ex outcome" where
  "raise_invalidindex u index =
     (case get_foundationexceptionhandlertable u of
        Abort \<Rightarrow> Abort
      | Done vectors \<Rightarrow> (case vectors of Some v \<Rightarrow> Done (invalid_index v index) | None \<Rightarrow> Abort))"

section \<open>The handler for exceptions that nobody catches\<close>

record 'handler failures =
  uncaughtexception :: 'handler

definition NSGetUncaughtExceptionHandler :: "'handler failures \<Rightarrow> 'handler" where
  "NSGetUncaughtExceptionHandler u = uncaughtexception u"

definition NSSetUncaughtExceptionHandler :: "'handler \<Rightarrow> 'handler failures \<Rightarrow> 'handler failures" where
  "NSSetUncaughtExceptionHandler handler u = u\<lparr>uncaughtexception := handler\<rparr>"

lemma handler_roundtrip: "NSGetUncaughtExceptionHandler (NSSetUncaughtExceptionHandler h u) = h"
  by (simp add: NSGetUncaughtExceptionHandler_def NSSetUncaughtExceptionHandler_def)

section \<open>Casts\<close>

text \<open>
  \<open>isKindOfClass\<close> and \<open>conformsToProtocol\<close> are what the objects answer; nil answers NO.  With
  \<open>asserts\<close> a failed assertion ends the process, without it the assertion is not there.
\<close>

definition message :: "(ref \<Rightarrow> 'a \<Rightarrow> bool) \<Rightarrow> ref \<Rightarrow> 'a \<Rightarrow> bool" where
  "message answer x a \<longleftrightarrow> x \<noteq> 0 \<and> answer x a"

definition asserted :: "bool \<Rightarrow> bool \<Rightarrow> ref \<Rightarrow> ref outcome" where
  "asserted asserts condition x = (if asserts \<and> \<not> condition then Abort else Done x)"

definition CLASS_CAST :: "bool \<Rightarrow> (ref \<Rightarrow> ref \<Rightarrow> bool) \<Rightarrow> ref \<Rightarrow> ref \<Rightarrow> ref outcome" where
  "CLASS_CAST asserts isKindOfClass cls x = asserted asserts (x = 0 \<or> message isKindOfClass x cls) x"

definition CLASS_CAST_OR_NIL :: "(ref \<Rightarrow> ref \<Rightarrow> bool) \<Rightarrow> ref \<Rightarrow> ref \<Rightarrow> ref" where
  "CLASS_CAST_OR_NIL isKindOfClass cls x = (if message isKindOfClass x cls then x else 0)"

definition CLASS_CAST_NON_NIL :: "bool \<Rightarrow> (ref \<Rightarrow> ref \<Rightarrow> bool) \<Rightarrow> ref \<Rightarrow> ref \<Rightarrow> ref outcome" where
  "CLASS_CAST_NON_NIL asserts isKindOfClass cls x = asserted asserts (message isKindOfClass x cls) x"

definition PROTOCOL_CAST :: "bool \<Rightarrow> (ref \<Rightarrow> uint32 \<Rightarrow> bool) \<Rightarrow> uint32 \<Rightarrow> ref \<Rightarrow> ref outcome" where
  "PROTOCOL_CAST asserts conformsToProtocol protocolName x =
     asserted asserts (x = 0 \<or> message conformsToProtocol x protocolName) x"

definition PROTOCOL_CAST_OR_NIL :: "(ref \<Rightarrow> uint32 \<Rightarrow> bool) \<Rightarrow> uint32 \<Rightarrow> ref \<Rightarrow> ref" where
  "PROTOCOL_CAST_OR_NIL conformsToProtocol protocolName x =
     (if message conformsToProtocol x protocolName then x else 0)"

definition PROTOCOL_CAST_NON_NIL :: "bool \<Rightarrow> (ref \<Rightarrow> uint32 \<Rightarrow> bool) \<Rightarrow> uint32 \<Rightarrow> ref \<Rightarrow> ref outcome" where
  "PROTOCOL_CAST_NON_NIL asserts conformsToProtocol protocolName x =
     asserted asserts (message conformsToProtocol x protocolName) x"

text \<open>
  The macros take the name of the class: \<open>class_named\<close> is what the message \<open>class\<close> to it answers,
  \<open>protocol_id\<close> the identifier of a protocol.
\<close>

definition MULLE_OBJC_CLASS_CAST where
  "MULLE_OBJC_CLASS_CAST asserts isKindOfClass class_named className x =
     CLASS_CAST asserts isKindOfClass (class_named className) x"

definition MULLE_OBJC_CLASS_CAST_OR_NIL where
  "MULLE_OBJC_CLASS_CAST_OR_NIL isKindOfClass class_named className x =
     CLASS_CAST_OR_NIL isKindOfClass (class_named className) x"

definition MULLE_OBJC_CLASS_CAST_NON_NIL where
  "MULLE_OBJC_CLASS_CAST_NON_NIL asserts isKindOfClass class_named className x =
     CLASS_CAST_NON_NIL asserts isKindOfClass (class_named className) x"

definition MULLE_OBJC_PROTOCOL_CAST where
  "MULLE_OBJC_PROTOCOL_CAST asserts conformsToProtocol protocol_id protocolName x =
     PROTOCOL_CAST asserts conformsToProtocol (protocol_id protocolName) x"

definition MULLE_OBJC_PROTOCOL_CAST_OR_NIL where
  "MULLE_OBJC_PROTOCOL_CAST_OR_NIL conformsToProtocol protocol_id protocolName x =
     PROTOCOL_CAST_OR_NIL conformsToProtocol (protocol_id protocolName) x"

definition MULLE_OBJC_PROTOCOL_CAST_NON_NIL where
  "MULLE_OBJC_PROTOCOL_CAST_NON_NIL asserts conformsToProtocol protocol_id protocolName x =
     PROTOCOL_CAST_NON_NIL asserts conformsToProtocol (protocol_id protocolName) x"




section \<open>Methods that somebody must write\<close>

definition SUBCLASS_REQUIRES_IMPLEMENTATION where
  "SUBCLASS_REQUIRES_IMPLEMENTATION get_universe is_abort this_universeid arguments classname function =
     MulleObjCThrowInternalInconsistencyExceptionUTF8String get_universe is_abort this_universeid
       ''your class %s must implement %s'' (arguments [classname, function])"

definition METHOD_REQUIRES_OVERRIDE where
  "METHOD_REQUIRES_OVERRIDE get_universe is_abort this_universeid arguments function infostring =
     MulleObjCThrowInternalInconsistencyExceptionUTF8String get_universe is_abort this_universeid
       (if infostring \<noteq> None then ''someone must override %s %s'' else ''someone must override %s'')
       (arguments [function, infostring])"

section \<open>Ranges\<close>

definition full_range :: "NSRange \<Rightarrow> NSUInteger \<Rightarrow> NSRange" where
  "full_range rng n = (if len rng = - 1 then NSRangeMake (location rng) (n - location rng) else rng)"

definition MulleObjCValidateRangeAgainstLength ::
    "(NSRange \<Rightarrow> NSUInteger) \<Rightarrow> (NSRange \<Rightarrow> 'ex) \<Rightarrow> NSRange \<Rightarrow> NSUInteger \<Rightarrow> 'ex + NSRange" where
  "MulleObjCValidateRangeAgainstLength get_max throw rng n =
     (let rng = full_range rng n; e = get_max rng
      in if e > n \<or> e < location rng then Inl (throw rng) else Inr rng)"

definition MulleObjCAdjustRangeForLength :: "(NSRange \<Rightarrow> NSUInteger) \<Rightarrow> NSRange \<Rightarrow> NSUInteger \<Rightarrow> NSRange" where
  "MulleObjCAdjustRangeForLength get_max rng n =
     (let rng = full_range rng n; e = get_max rng
      in if e > n \<or> e < location rng then NSRange (location rng) 0 else rng)"

text \<open>The range lies within the first \<open>n\<close> indices.\<close>

definition within :: "NSRange \<Rightarrow> NSUInteger \<Rightarrow> bool" where
  "within r n \<longleftrightarrow> unat (location r) + unat (len r) \<le> unat n"

lemma end_check: "(location r + len r > n \<or> location r + len r < location r) \<longleftrightarrow> \<not> within r n"
  for n :: NSUInteger
  unfolding within_def by unat_arith

lemma full_within: "within (NSRange l (n - l)) n \<longleftrightarrow> l \<le> n"
  unfolding within_def by simp unat_arith

text \<open>The two functions test the same range in the same way.\<close>

lemma validate_within:
  "max_law get_max \<Longrightarrow> MulleObjCValidateRangeAgainstLength get_max throw rng n
     = (if within (full_range rng n) n then Inr (full_range rng n) else Inl (throw (full_range rng n)))"
  by (simp add: MulleObjCValidateRangeAgainstLength_def max_law_def Let_def end_check)

lemma adjust_within:
  "max_law get_max \<Longrightarrow> MulleObjCAdjustRangeForLength get_max rng n
     = (if within (full_range rng n) n then full_range rng n else NSRange (location rng) 0)"
  unfolding MulleObjCAdjustRangeForLength_def max_law_def Let_def
  by (simp add: end_check) (simp add: full_range_def NSRangeMake_def)

text \<open>
  Validation lets exactly the ranges pass that lie within the length, as they are, and a full range
  that begins within the length, cut to what is left; everything else raises, also the ranges whose end
  wraps around.  Adjusting gives the same range where validation passes and an empty one where it raises.
\<close>
theorem validated_range:
  assumes "max_law get_max"
  shows "MulleObjCValidateRangeAgainstLength get_max throw rng n =
           (if len rng = - 1
            then if location rng \<le> n then Inr (NSRange (location rng) (n - location rng))
                 else Inl (throw (NSRange (location rng) (n - location rng)))
            else if within rng n then Inr rng else Inl (throw rng))
    \<and> (case MulleObjCValidateRangeAgainstLength get_max throw rng n of
            Inr r \<Rightarrow> within r n \<and> MulleObjCAdjustRangeForLength get_max rng n = r
          | Inl e \<Rightarrow> MulleObjCAdjustRangeForLength get_max rng n = NSRange (location rng) 0)"
  unfolding validate_within [OF assms] adjust_within [OF assms] by (simp add: full_range_def NSRangeMake_def full_within)

theorem validated_range_witness:
  "MulleObjCValidateRangeAgainstLength (\<lambda>r. location r + len r) (\<lambda>r. len r) (NSRange 3 (- 1)) 10 = Inr (NSRange 3 7)"
proof -
  have "max_law (\<lambda>r. location r + len r)"
    by (simp add: max_law_def)
  then show ?thesis
    using validated_range [where get_max = "\<lambda>r. location r + len r" and throw = "\<lambda>r. len r" and rng = "NSRange 3 (- 1)" and n = 10]
    by simp
qed

end
