(* ===== verification/FastIds.thy ===== *)
theory FastIds
  imports Prelude
begin

text \<open>
  The identifiers of the methods and classes that are found without a hash lookup
  (\<open>src/mulle-objc-fastmethodid.h\<close>, \<open>src/mulle-objc-fastclassid.h\<close>): slot, identifier and the name that
  the comment gives.  The identifier of a name is computed by the runtime, the parameter \<open>uniqueid\<close>.
\<close>

definition fastmethodids :: "(nat \<times> uint32 \<times> string) list" where
  "fastmethodids = [
     (6, 0x3d036158, ''length''),
     (7, 0x9b1ddf43, ''count''),
     (8, 0x45ba2776, ''self''),
     (9, 0xec577d1c, ''hash''),
     (10, 0x6de415fe, ''nextObject''),
     (11, 0x0d59b56e, ''timeIntervalSinceReferenceDate''),
     (12, 0xf0d7842e, ''lock''),
     (13, 0x6661f555, ''unlock''),
     (14, 0xb3e0bffa, ''class''),
     (15, 0x33db2a40, ''isKindOfClass:''),
     (16, 0x1cc541d5, ''objectAtIndex:''),
     (17, 0x331e633c, ''characterAtIndex:''),
     (18, 0xf6bec249, ''methodForSelector:''),
     (19, 0xcf4a54f0, ''respondsToSelector:''),
     (20, 0x12976ce9, ''objectForKey:''),
     (21, 0xf0cb86d3, '':''),
     (22, 0xf2316421, ''performSelector:withObject:''),
     (23, 0xa55070f9, ''sharedInstance'')]"

definition fastclassids :: "(nat \<times> uint32 \<times> string) list" where
  "fastclassids = [
     (0, 0x233490fe, ''NSArray''),
     (1, 0x58bb178a, ''NSAutoreleasePool''),
     (2, 0xb8742fcb, ''NSCalendarDate''),
     (3, 0xbb258d72, ''NSCharacterSet''),
     (4, 0x8fce7861, ''NSData''),
     (5, 0xcfcedd21, ''NSDate''),
     (6, 0x4a91670d, ''NSDecimalNumber''),
     (7, 0x8b2abcad, ''NSDictionary''),
     (8, 0xf5e6dbdd, ''NSMutableArray''),
     (9, 0x5d7fdc81, ''NSMutableData''),
     (10, 0x1225d451, ''NSMutableDictiona''),
     (11, 0x1fa72100, ''NSMutableSet''),
     (12, 0x63662493, ''NSMutableString''),
     (13, 0x8ba34f39, ''NSNumber''),
     (14, 0x9f69e3e4, ''NSSet''),
     (15, 0x1994a171, ''NSString'')]"

text \<open>The slot that the runtime has for an identifier.\<close>

definition fast_slot :: "(nat \<times> uint32 \<times> string) list \<Rightarrow> uint32 \<Rightarrow> nat option" where
  "fast_slot table i = map_of (map (\<lambda>(slot, ident, _). (ident, slot)) table) i"

text \<open>What the comments claim: the identifier is that of the name.\<close>

definition table_right :: "(string \<Rightarrow> uint32) \<Rightarrow> (nat \<times> uint32 \<times> string) list \<Rightarrow> bool" where
  "table_right uniqueid table \<longleftrightarrow> (\<forall>(slot, ident, s) \<in> set table. uniqueid s = ident)"

text \<open>No name of the table has the identifier of another name.\<close>

definition tells_apart :: "(string \<Rightarrow> uint32) \<Rightarrow> (nat \<times> uint32 \<times> string) list \<Rightarrow> string \<Rightarrow> bool" where
  "tells_apart uniqueid table name \<longleftrightarrow> list_all (\<lambda>(slot, ident, s). s = name \<or> uniqueid s \<noteq> uniqueid name) table"

lemma fast_ids_distinct:
  "distinct (map (fst \<circ> snd) fastmethodids)" "distinct (map (fst \<circ> snd) fastclassids)"
  by (simp_all add: fastmethodids_def fastclassids_def)

text \<open>
  Every class of the table is found in its slot through the identifier of its name, but the class
  NSMutableDictionary is in none, as its name is cut in the table: the identifier in slot 10 is that of
  "NSMutableDictiona".  This is so for every computation of identifiers that gives the table and does not
  give that name the identifier of another one.
\<close>
theorem fastclass_slots:
  assumes "table_right uniqueid fastclassids" and "tells_apart uniqueid fastclassids ''NSMutableDictionary''"
  shows "list_all (\<lambda>(slot, ident, s). fast_slot fastclassids (uniqueid s) = Some slot) fastclassids
       \<and> fast_slot fastclassids (uniqueid ''NSMutableDictionary'') = None"
proof -
  have r: "list_all (\<lambda>(slot, ident, s). uniqueid s = ident) fastclassids"
    using assms(1) by (simp add: table_right_def list_all_iff)
  have n: "uniqueid ''NSMutableDictionary'' \<noteq> ident" if "(slot, ident, s) \<in> set fastclassids" for slot ident s
  proof -
    have "s \<noteq> ''NSMutableDictionary''"
      using that by (auto simp: fastclassids_def)
    then have "uniqueid s \<noteq> uniqueid ''NSMutableDictionary''"
      using assms(2) that by (auto simp: tells_apart_def list_all_iff)
    then show ?thesis
      using assms(1) that by (auto simp: table_right_def)
  qed
  have "fast_slot fastclassids (uniqueid ''NSMutableDictionary'') = None"
    using n by (force simp: fast_slot_def map_of_eq_None_iff)
  moreover have "list_all (\<lambda>(slot, ident, s). fast_slot fastclassids ident = Some slot) fastclassids"
    by (simp add: fastclassids_def fast_slot_def)
  ultimately show ?thesis
    using r by (auto simp: list_all_iff)
qed

definition demo_uniqueid :: "string \<Rightarrow> uint32" where
  "demo_uniqueid s = (case map_of (map (\<lambda>(_, ident, s). (s, ident)) fastclassids) s of None \<Rightarrow> 0 | Some i \<Rightarrow> i)"

theorem fastclass_slots_witness:
  "fast_slot fastclassids (demo_uniqueid ''NSString'') = Some 15
   \<and> fast_slot fastclassids (demo_uniqueid ''NSMutableDictionary'') = None"
proof -
  have "table_right demo_uniqueid fastclassids"
    by (simp add: table_right_def fastclassids_def demo_uniqueid_def)
  moreover have "tells_apart demo_uniqueid fastclassids ''NSMutableDictionary''"
    by (simp add: tells_apart_def fastclassids_def demo_uniqueid_def)
  ultimately show ?thesis
    using fastclass_slots [of demo_uniqueid] by (auto simp: list_all_iff fastclassids_def)
qed

end
