(* ===== verification/Support.thy ===== *)
theory Support
  imports MethodSignature
begin

text \<open>
  Smaller parts of the library: the types of the argument block (\<open>src/class/NSMethodSignature.h\<close>,
  \<open>src/class/NSMethodSignature-Private.h\<close>), values (\<open>src/class/_MulleObjCConcreteValue-Private.h\<close>),
  printing into an autoreleased string (\<open>src/function/MulleObjCPrinting.h\<close>), debugging
  (\<open>src/function/NSDebug.h\<close>, \<open>src/mulle-objc-breakpoint.c\<close>), stack frames
  (\<open>src/function/MulleObjCStackFrame.h\<close>), singletons and class bits (\<open>src/protocol/MulleObjCSingleton.h\<close>,
  \<open>src/mulle-objc-classbit.h\<close>), the protocols for kinds of classes (\<open>src/protocol/MulleObjCProtocol.h\<close>) and
  dependencies (\<open>src/protocol/MulleObjCRuntimeObjectDeprecated.h\<close>).
\<close>

section \<open>Argument blocks\<close>

datatype MulleObjCMetaABIType =
    MulleObjCMetaABITypeVoidPointer
  | MulleObjCMetaABITypeVoid
  | MulleObjCMetaABITypeParameterBlock

fun abi_type_number :: "MulleObjCMetaABIType \<Rightarrow> nat" where
  "abi_type_number MulleObjCMetaABITypeVoidPointer = 0"
| "abi_type_number MulleObjCMetaABITypeVoid = 1"
| "abi_type_number MulleObjCMetaABITypeParameterBlock = 2"

datatype MulleObjCMetaABICallType =
    MulleObjCMetaABICallVoidPtrVoidPtr
  | MulleObjCMetaABICallVoidPtrVoid
  | MulleObjCMetaABICallVoidPtrBlock
  | MulleObjCMetaABICallVoidVoidPtr
  | MulleObjCMetaABICallVoidVoid
  | MulleObjCMetaABICallVoidBlock
  | MulleObjCMetaABICallBlockVoidPtr
  | MulleObjCMetaABICallBlockVoid
  | MulleObjCMetaABICallBlockBlock

fun call_type_number :: "MulleObjCMetaABICallType \<Rightarrow> nat" where
  "call_type_number MulleObjCMetaABICallVoidPtrVoidPtr = 0"
| "call_type_number MulleObjCMetaABICallVoidPtrVoid = 1"
| "call_type_number MulleObjCMetaABICallVoidPtrBlock = 2"
| "call_type_number MulleObjCMetaABICallVoidVoidPtr = 4"
| "call_type_number MulleObjCMetaABICallVoidVoid = 5"
| "call_type_number MulleObjCMetaABICallVoidBlock = 6"
| "call_type_number MulleObjCMetaABICallBlockVoidPtr = 8"
| "call_type_number MulleObjCMetaABICallBlockVoid = 9"
| "call_type_number MulleObjCMetaABICallBlockBlock = 10"

text \<open>The call types are the pairs of a parameter type and a return type, two bits each.\<close>

lemma call_types_are_pairs:
  "range call_type_number = {4 * abi_type_number p + abi_type_number r | p r. True}"
proof -
  have u: "UNIV = {MulleObjCMetaABICallVoidPtrVoidPtr, MulleObjCMetaABICallVoidPtrVoid, MulleObjCMetaABICallVoidPtrBlock,
      MulleObjCMetaABICallVoidVoidPtr, MulleObjCMetaABICallVoidVoid, MulleObjCMetaABICallVoidBlock,
      MulleObjCMetaABICallBlockVoidPtr, MulleObjCMetaABICallBlockVoid, MulleObjCMetaABICallBlockBlock}"
    using MulleObjCMetaABICallType.exhaust by blast
  have v: "(\<exists>p. P p) \<longleftrightarrow> P MulleObjCMetaABITypeVoidPointer \<or> P MulleObjCMetaABITypeVoid \<or> P MulleObjCMetaABITypeParameterBlock" for P
    by (metis MulleObjCMetaABIType.exhaust)
  show ?thesis
    by (simp add: u v set_eq_iff) auto
qed

text \<open>A signature that the compiler has laid out: the header ahead of the object, then its instance variables.\<close>

record NSConstantMethodSignature =
  c_isa :: nat
  c_bits :: uint32
  c_count :: "16 word"
  c_extra :: "16 word"
  c_types :: string
  c_invocationSize :: uint32
  c_reserved :: uint32
  c_infos :: "arginfo list"

text \<open>The object begins behind the header, whose size is \<open>sizeof_header\<close>.\<close>

definition CONSTANTMETHODSIGNATURE_OBJECT :: "nat \<Rightarrow> nat \<Rightarrow> nat" where
  "CONSTANTMETHODSIGNATURE_OBJECT sizeof_header p = p + sizeof_header"

definition NSMethodSignatureGetInvocationSize :: "signature \<Rightarrow> NSUInteger" where
  "NSMethodSignatureGetInvocationSize self = ucast (invocationSize self)"

section \<open>Values\<close>

text \<open>
  The bytes of a value stand behind the instance variable \<open>_size\<close>, its type behind the bytes;
  \<open>size_field\<close> is the address of the variable and \<open>n\<close> its content.
\<close>

definition ConcreteValueBytes :: "nat \<Rightarrow> nat" where
  "ConcreteValueBytes size_field = size_field + sizeof_pointer"

definition ConcreteValueObjCType :: "nat \<Rightarrow> nat \<Rightarrow> nat" where
  "ConcreteValueObjCType size_field n = ConcreteValueBytes size_field + n"

lemma value_layout:
  "{size_field ..< size_field + sizeof_pointer} \<inter> {ConcreteValueBytes size_field ..< ConcreteValueBytes size_field + n} = {}"
  "{ConcreteValueBytes size_field ..< ConcreteValueBytes size_field + n} \<inter> {ConcreteValueObjCType size_field n ..} = {}"
  by (auto simp: ConcreteValueBytes_def ConcreteValueObjCType_def)

section \<open>Printing\<close>

text \<open>
  The statement runs its block on an empty buffer, also when the block breaks, and then has the string of
  the buffer in \<open>s\<close>, given over to an autoreleased object; before and during the block \<open>s\<close> is NULL, which
  is 0.  \<open>extract\<close> and \<open>autoreleased\<close> are the calls of mulle-buffer and of the pool.
\<close>

definition mulle_buffer_do_autoreleased_string ::
    "('a \<Rightarrow> 'b) \<Rightarrow> ('b \<Rightarrow> ref) \<Rightarrow> (ref \<Rightarrow> 'a \<Rightarrow> ref) \<Rightarrow> 'a \<Rightarrow> (ref \<Rightarrow> 'b \<Rightarrow> 'b) \<Rightarrow> ref" where
  "mulle_buffer_do_autoreleased_string empty_buffer extract autoreleased allocator block =
     (let b = block 0 (empty_buffer allocator) in autoreleased (extract b) allocator)"

section \<open>Debugging\<close>

definition MulleObjCZombifyObject :: "(ref \<Rightarrow> int \<Rightarrow> 's \<Rightarrow> 's) \<Rightarrow> ref \<Rightarrow> int \<Rightarrow> 's \<Rightarrow> 's" where
  "MulleObjCZombifyObject zombify obj shred s = (if obj = 0 then s else zombify obj shred s)"

datatype allocation_event =
    NSObjectAutoreleasedEvent
  | NSObjectExtraRefDecrementedEvent
  | NSObjectExtraRefIncrementedEvent
  | NSObjectInternalRefDecrementedEvent
  | NSObjectInternalRefIncrementedEvent

fun event_number :: "allocation_event \<Rightarrow> int" where
  "event_number NSObjectAutoreleasedEvent = 3"
| "event_number NSObjectExtraRefDecrementedEvent = 5"
| "event_number NSObjectExtraRefIncrementedEvent = 4"
| "event_number NSObjectInternalRefDecrementedEvent = 7"
| "event_number NSObjectInternalRefIncrementedEvent = 8"

definition NSRecordAllocationEvent :: "int \<Rightarrow> ref \<Rightarrow> 's \<Rightarrow> 's" where
  "NSRecordAllocationEvent eventType obj s = s"

text \<open>A function to set a breakpoint on.\<close>

definition break_exception :: "'s \<Rightarrow> 's" where
  "break_exception s = s"

definition NSFrameAddress :: "(NSUInteger \<Rightarrow> ref) \<Rightarrow> NSUInteger \<Rightarrow> ref" where
  "NSFrameAddress FrameAddress frame = FrameAddress frame"

definition NSReturnAddress :: "(NSUInteger \<Rightarrow> ref) \<Rightarrow> NSUInteger \<Rightarrow> ref" where
  "NSReturnAddress ReturnAddress frame = ReturnAddress frame"

definition NSCountFrames :: "NSUInteger \<Rightarrow> NSUInteger" where
  "NSCountFrames CountFrames = CountFrames"

section \<open>Singletons\<close>

text \<open>\<open>bit0\<close> is the first class bit that the runtime leaves to the foundation.\<close>

definition INFRA_IS_CLASSCLUSTER :: "uint32 \<Rightarrow> uint32" where
  "INFRA_IS_CLASSCLUSTER bit0 = push_bit 0 bit0"

definition INFRA_IS_SINGLETON :: "uint32 \<Rightarrow> uint32" where
  "INFRA_IS_SINGLETON bit0 = push_bit 1 bit0"

text \<open>\<open>infraclass_of\<close> is the class of an object, \<open>state_bits\<close> the bits of a class.\<close>

definition MulleObjCInstanceIsSingleton :: "uint32 \<Rightarrow> (ref \<Rightarrow> ref) \<Rightarrow> (ref \<Rightarrow> uint32) \<Rightarrow> ref \<Rightarrow> bool" where
  "MulleObjCInstanceIsSingleton bit0 infraclass_of state_bits obj =
     (if obj = 0 then False
      else let infraCls = infraclass_of obj in state_bits infraCls AND INFRA_IS_SINGLETON bit0 \<noteq> 0)"

section \<open>Protocols for kinds of classes\<close>

datatype objc_protocol =
    MulleObjCRuntimeObject
  | MulleObjCValue
  | MulleObjCContainer
  | MulleObjCInvariant
  | MulleObjCImmutable
  | MulleObjCThreadSafe
  | MulleObjCThreadUnsafe
  | MulleObjCImmutableCopying

definition MulleObjCValueProtocols :: "objc_protocol list" where
  "MulleObjCValueProtocols = [MulleObjCRuntimeObject, MulleObjCValue, MulleObjCInvariant, MulleObjCImmutable,
     MulleObjCThreadSafe, MulleObjCImmutableCopying]"

definition MulleObjCMutableValueProtocols :: "objc_protocol list" where
  "MulleObjCMutableValueProtocols = [MulleObjCRuntimeObject, MulleObjCValue, MulleObjCThreadUnsafe]"

definition MulleObjCContainerProtocols :: "objc_protocol list" where
  "MulleObjCContainerProtocols = [MulleObjCRuntimeObject, MulleObjCContainer, MulleObjCImmutable,
     MulleObjCThreadSafe, MulleObjCImmutableCopying]"

definition MulleObjCMutableContainerProtocols :: "objc_protocol list" where
  "MulleObjCMutableContainerProtocols = [MulleObjCRuntimeObject, MulleObjCContainer, MulleObjCThreadUnsafe]"

definition MulleObjCImmutableProtocols :: "objc_protocol list" where
  "MulleObjCImmutableProtocols = [MulleObjCRuntimeObject, MulleObjCImmutable, MulleObjCThreadSafe, MulleObjCImmutableCopying]"

definition MulleObjCMutableProtocols :: "objc_protocol list" where
  "MulleObjCMutableProtocols = [MulleObjCRuntimeObject, MulleObjCThreadUnsafe]"

text \<open>A kind is immutable exactly if it is declared to be thread safe, and never unsafe as well.\<close>

lemma immutable_is_threadsafe:
  "ps \<in> {MulleObjCValueProtocols, MulleObjCMutableValueProtocols, MulleObjCContainerProtocols,
         MulleObjCMutableContainerProtocols, MulleObjCImmutableProtocols, MulleObjCMutableProtocols} \<Longrightarrow>
   (MulleObjCImmutable \<in> set ps \<longleftrightarrow> MulleObjCThreadSafe \<in> set ps) \<and>
   (MulleObjCThreadSafe \<in> set ps \<longleftrightarrow> MulleObjCThreadUnsafe \<notin> set ps)"
  by (auto simp: MulleObjCValueProtocols_def MulleObjCMutableValueProtocols_def MulleObjCContainerProtocols_def
      MulleObjCMutableContainerProtocols_def MulleObjCImmutableProtocols_def MulleObjCMutableProtocols_def)

section \<open>Dependencies\<close>

text \<open>A dependency names a class and a category; \<open>uniqueid\<close> is the identifier of a name, 0 that of none.\<close>

record objc_dependency =
  classid :: uint32
  categoryid :: uint32

definition MAKE_CLASSID :: "(string \<Rightarrow> uint32) \<Rightarrow> string \<Rightarrow> uint32" where
  "MAKE_CLASSID uniqueid classname = uniqueid classname"

definition MAKE_CATEGORYID :: "(string \<Rightarrow> uint32) \<Rightarrow> string \<Rightarrow> uint32" where
  "MAKE_CATEGORYID uniqueid categoryname = uniqueid categoryname"

definition CLASS_DEPENDENCY :: "(string \<Rightarrow> uint32) \<Rightarrow> string \<Rightarrow> objc_dependency" where
  "CLASS_DEPENDENCY uniqueid classname = \<lparr>classid = MAKE_CLASSID uniqueid classname, categoryid = 0\<rparr>"

definition CATEGORY_DEPENDENCY :: "(string \<Rightarrow> uint32) \<Rightarrow> string \<Rightarrow> string \<Rightarrow> objc_dependency" where
  "CATEGORY_DEPENDENCY uniqueid classname categoryname =
     \<lparr>classid = MAKE_CLASSID uniqueid classname, categoryid = MAKE_CATEGORYID uniqueid categoryname\<rparr>"

definition LIBRARY_DEPENDENCY :: "(string \<Rightarrow> uint32) \<Rightarrow> string \<Rightarrow> objc_dependency" where
  "LIBRARY_DEPENDENCY uniqueid libname =
     \<lparr>classid = MAKE_CLASSID uniqueid ''MulleObjCDeps'', categoryid = MAKE_CATEGORYID uniqueid libname\<rparr>"

definition NO_DEPENDENCY :: objc_dependency where
  "NO_DEPENDENCY = \<lparr>classid = 0, categoryid = 0\<rparr>"

end
