(* ===== verification/Singletons.thy ===== *)
theory Singletons
  imports Support
begin

text \<open>
  Objects of which a class has one: singletons (\<open>src/protocol/MulleObjCSingleton.m\<close>) and the placeholders of
  class clusters (\<open>src/protocol/MulleObjCClassCluster.m\<close>).

  Several threads can ask for the object of a class that has none yet.  Each looks, makes an object and
  tries to install it with a compare and swap; the one that succeeds makes it constant, so that it is never
  freed.  The class, its bits, its messages and the compare and swap belong to the runtime.
\<close>

section \<open>Marking and making\<close>

text \<open>
  A class is marked when it declares the protocol itself; \<open>bit0\<close> is the first bit that the runtime leaves
  to the foundation.
\<close>

definition MulleObjCSingletonMarkClassAsSingleton :: "uint32 \<Rightarrow> bool \<Rightarrow> uint32 \<Rightarrow> uint32" where
  "MulleObjCSingletonMarkClassAsSingleton bit0 has_protocol bits =
     (if has_protocol then bits OR INFRA_IS_SINGLETON bit0 else bits)"

definition MulleObjCClassMarkAsClassCluster :: "uint32 \<Rightarrow> bool \<Rightarrow> uint32 \<Rightarrow> uint32" where
  "MulleObjCClassMarkAsClassCluster bit0 has_protocol bits =
     (if has_protocol then bits OR INFRA_IS_CLASSCLUSTER bit0 else bits)"

text \<open>
  A new singleton: \<open>allocate\<close> makes the instance, \<open>special\<close> is \<open>__initSingleton\<close> and \<open>plain\<close> is \<open>init\<close>,
  when the class implements them.  \<open>Inl\<close> is the exception for a class that is not marked.
\<close>

definition MulleObjCSingletonNew ::
    "uint32 \<Rightarrow> uint32 \<Rightarrow> ('s \<Rightarrow> ref \<times> 's) \<Rightarrow> (ref \<Rightarrow> 's \<Rightarrow> ref \<times> 's) option \<Rightarrow> (ref \<Rightarrow> 's \<Rightarrow> ref \<times> 's) option
       \<Rightarrow> 's \<Rightarrow> (unit + ref \<times> 's) outcome" where
  "MulleObjCSingletonNew bit0 bits allocate special plain s =
     (if bits AND INFRA_IS_SINGLETON bit0 = 0 then Done (Inl ())
      else let (singleton, s) = allocate s;
               (singleton, s) =
                 (case special of Some imp \<Rightarrow> imp singleton s
                  | None \<Rightarrow> (case plain of Some imp \<Rightarrow> imp singleton s | None \<Rightarrow> (singleton, s)))
           in if singleton = 0 then Abort else Done (Inr (singleton, s)))"

section \<open>Asking for the object of a class\<close>

datatype ask_point =
    Idle
  | Look
  | Make
  | Install ref
  | Constantify ref
  | Give_back ref
  | Answer ref

record class_cell =
  installed :: ref
  asks :: "nat \<Rightarrow> ask_point"
  made :: "ref set"
  undone :: "ref set"
  constants :: "ref set"

abbreviation go :: "nat \<Rightarrow> ask_point \<Rightarrow> class_cell \<Rightarrow> class_cell" where
  "go t p s \<equiv> s\<lparr>asks := (asks s)(t := p)\<rparr>"

text \<open>
  With \<open>release\<close> the object that could not be installed is released: so it is in
  \<open>MulleObjCSingletonCreate\<close>, but not in \<open>+alloc\<close> of a class cluster.
\<close>

inductive ask_step :: "bool \<Rightarrow> class_cell \<Rightarrow> class_cell \<Rightarrow> bool" for release where
  ask: "asks s t = Idle \<Longrightarrow> ask_step release s (go t Look s)"
| found: "asks s t = Look \<Longrightarrow> installed s \<noteq> 0 \<Longrightarrow> ask_step release s (go t (Answer (installed s)) s)"
| none_yet: "asks s t = Look \<Longrightarrow> installed s = 0 \<Longrightarrow> ask_step release s (go t Make s)"
| make: "asks s t = Make \<Longrightarrow> x \<noteq> 0 \<Longrightarrow> x \<notin> made s \<Longrightarrow>
     ask_step release s (go t (Install x) (s\<lparr>made := insert x (made s)\<rparr>))"
| install: "asks s t = Install x \<Longrightarrow> installed s = 0 \<Longrightarrow>
     ask_step release s (go t (Constantify x) (s\<lparr>installed := x\<rparr>))"
| too_late: "asks s t = Install x \<Longrightarrow> installed s \<noteq> 0 \<Longrightarrow>
     ask_step release s (go t (if release then Give_back x else Look) s)"
| give_back: "asks s t = Give_back x \<Longrightarrow> ask_step release s (go t Look (s\<lparr>undone := insert x (undone s)\<rparr>))"
| constantify: "asks s t = Constantify x \<Longrightarrow>
     ask_step release s (go t (Answer x) (s\<lparr>constants := insert x (constants s)\<rparr>))"
| answer: "asks s t = Answer x \<Longrightarrow> ask_step release s (go t Idle s)"

inductive_cases ask_stepE: "ask_step release s s'"

definition nothing_made :: class_cell where
  "nothing_made = \<lparr>installed = 0, asks = (\<lambda>_. Idle), made = {}, undone = {}, constants = {}\<rparr>"

abbreviation ask_reachable :: "bool \<Rightarrow> class_cell \<Rightarrow> bool" where
  "ask_reachable release \<equiv> reached ((=) nothing_made) (ask_step release)"

section \<open>What always holds\<close>

text \<open>The object that a thread has made and is about to install or to give back.\<close>

fun carries_new :: "ask_point \<Rightarrow> ref option" where
  "carries_new (Install x) = Some x"
| "carries_new (Give_back x) = Some x"
| "carries_new _ = None"

fun names_installed :: "ask_point \<Rightarrow> ref option" where
  "names_installed (Constantify x) = Some x"
| "names_installed (Answer x) = Some x"
| "names_installed _ = None"

definition store_ok :: "class_cell \<Rightarrow> bool" where
  "store_ok s \<longleftrightarrow> 0 \<notin> made s \<and> undone s \<subseteq> made s \<and> constants s \<subseteq> {installed s} - {0} \<and>
     (installed s = 0 \<or> installed s \<in> made s) \<and> installed s \<notin> undone s"

definition fits :: "class_cell \<Rightarrow> ask_point \<Rightarrow> bool" where
  "fits s p \<longleftrightarrow> (\<forall>x. names_installed p = Some x \<longrightarrow> x = installed s \<and> x \<noteq> 0) \<and>
     (\<forall>x. carries_new p = Some x \<longrightarrow> x \<in> made s \<and> x \<notin> undone s \<and> x \<noteq> installed s)"

definition one_carrier :: "(nat \<Rightarrow> ask_point) \<Rightarrow> bool" where
  "one_carrier ps \<longleftrightarrow> (\<forall>t u x. carries_new (ps t) = Some x \<and> carries_new (ps u) = Some x \<longrightarrow> t = u)"

definition cell_ok :: "class_cell \<Rightarrow> bool" where
  "cell_ok s \<longleftrightarrow> store_ok s \<and> (\<forall>t. fits s (asks s t)) \<and> one_carrier (asks s)"

lemma one_carrier_upd:
  assumes "one_carrier ps" and "\<And>x u. carries_new p = Some x \<Longrightarrow> u \<noteq> t \<Longrightarrow> carries_new (ps u) \<noteq> Some x"
  shows "one_carrier (ps(t := p))"
  using assms unfolding one_carrier_def by (metis fun_upd_apply)

lemma carrier:
  assumes "cell_ok s" and "carries_new (asks s t) = Some x"
  shows "x \<in> made s" "x \<notin> undone s" "x \<noteq> installed s" "x \<noteq> 0"
    and "u \<noteq> t \<Longrightarrow> carries_new (asks s u) \<noteq> Some x"
  using assms unfolding cell_ok_def fits_def store_ok_def one_carrier_def by blast+

text \<open>A step that changes what is stored, seen from the thread that makes it.\<close>

lemma cell_ok_step:
  assumes "cell_ok s" and "store_ok s1" and "asks s1 = asks s" and "fits s1 p"
    and "\<And>u. u \<noteq> t \<Longrightarrow> fits s (asks s u) \<Longrightarrow> fits s1 (asks s u)"
    and "\<And>x u. carries_new p = Some x \<Longrightarrow> u \<noteq> t \<Longrightarrow> carries_new (asks s u) \<noteq> Some x"
  shows "cell_ok (go t p s1)"
proof -
  have "store_ok (go t p s1)" "\<And>q. fits (go t p s1) q \<longleftrightarrow> fits s1 q"
    using assms(2) by (simp_all add: store_ok_def fits_def)
  then show ?thesis
    using assms one_carrier_upd [of "asks s" p t] by (simp add: cell_ok_def)
qed

lemma ask_step_ok:
  assumes "ask_step release s s'" and ok: "cell_ok s"
  shows "cell_ok s'"
proof -
  have st: "store_ok s" and fit: "fits s (asks s t)" for t
    using ok by (simp_all add: cell_ok_def)
  from assms(1) show ?thesis
  proof cases
    case (make t x)
    have new: "carries_new (asks s u) \<noteq> Some x" for u
      using carrier(1) [OF ok, of u x] make by auto
    show ?thesis
      unfolding make(1)
    proof (rule cell_ok_step [OF ok])
      show "store_ok (s\<lparr>made := insert x (made s)\<rparr>)" "fits (s\<lparr>made := insert x (made s)\<rparr>) (Install x)"
        using st make by (auto simp: store_ok_def fits_def)
    qed (use new in \<open>auto simp: fits_def\<close>)
  next
    case (install t x)
    have x: "carries_new (asks s t) = Some x" using install by simp
    note x' = carrier [OF ok x]
    show ?thesis
      unfolding install(1)
    proof (rule cell_ok_step [OF ok])
      show "store_ok (s\<lparr>installed := x\<rparr>)" "fits (s\<lparr>installed := x\<rparr>) (Constantify x)"
        using st x' install by (auto simp: store_ok_def fits_def)
      show "fits (s\<lparr>installed := x\<rparr>) (asks s u)" if "u \<noteq> t" "fits s (asks s u)" for u
        using that(2) x'(5) [OF that(1)] install(3) by (auto simp: fits_def)
    qed simp_all
  next
    case (give_back t x)
    have x: "carries_new (asks s t) = Some x" using give_back by simp
    note x' = carrier [OF ok x]
    show ?thesis
      unfolding give_back(1)
    proof (rule cell_ok_step [OF ok])
      show "store_ok (s\<lparr>undone := insert x (undone s)\<rparr>)" "fits (s\<lparr>undone := insert x (undone s)\<rparr>) Look"
        using st x' by (auto simp: store_ok_def fits_def)
      show "fits (s\<lparr>undone := insert x (undone s)\<rparr>) (asks s u)" if "u \<noteq> t" "fits s (asks s u)" for u
        using that(2) x'(5) [OF that(1)] by (auto simp: fits_def)
    qed simp_all
  next
    case (constantify t x)
    have x: "x = installed s" "installed s \<noteq> 0" using fit [of t] constantify by (auto simp: fits_def)
    show ?thesis
      unfolding constantify(1) x(1) using st x(2)
      by (intro cell_ok_step [OF ok]) (auto simp: fits_def store_ok_def)
  next
    case (too_late t x)
    have x: "carries_new (asks s t) = Some x" using too_late by simp
    show ?thesis
      unfolding too_late(1) using st carrier [OF ok x]
      by (intro cell_ok_step [OF ok]) (auto simp: fits_def split: if_splits)
  qed (use st in \<open>auto intro!: cell_ok_step [OF ok] simp: fits_def\<close>)
qed

lemma nothing_made_ok: "cell_ok nothing_made"
  by (simp add: cell_ok_def store_ok_def fits_def one_carrier_def nothing_made_def)

interpretation asking: stable_invariant "(=) nothing_made" "ask_step release" cell_ok
  by unfold_locales (use nothing_made_ok ask_step_ok in auto)

section \<open>Nothing is lost\<close>

text \<open>Every object that was made is installed, was released, or is on its way with a thread.\<close>

definition all_accounted :: "class_cell \<Rightarrow> bool" where
  "all_accounted s \<longleftrightarrow>
     (\<forall>x \<in> made s. x = installed s \<or> x \<in> undone s \<or> (\<exists>t. carries_new (asks s t) = Some x)) \<and>
     (installed s = 0 \<or> installed s \<in> constants s \<or> (\<exists>t. asks s t = Constantify (installed s)))"

lemma accountedI:
  assumes "all_accounted s"
    and "\<And>x. x \<in> made s1 \<Longrightarrow> x \<notin> made s \<Longrightarrow> carries_new p = Some x"
    and "\<And>x. x \<in> made s1 \<Longrightarrow> x = installed s \<or> x \<in> undone s \<or> carries_new (asks s t) = Some x \<Longrightarrow>
          x = installed s1 \<or> x \<in> undone s1 \<or> carries_new p = Some x"
    and "installed s1 = 0 \<or> installed s1 \<in> constants s1 \<or> p = Constantify (installed s1)
       \<or> (installed s1 = installed s \<and> constants s \<subseteq> constants s1 \<and> asks s t \<noteq> Constantify (installed s))"
    and "asks s1 = asks s"
  shows "all_accounted (go t p s1)"
proof -
  have "x = installed s1 \<or> x \<in> undone s1 \<or> (\<exists>u. carries_new (((asks s)(t := p)) u) = Some x)" if "x \<in> made s1" for x
  proof (cases "x \<in> made s")
    case True
    then consider "x = installed s \<or> x \<in> undone s" | u where "carries_new (asks s u) = Some x"
      using assms(1) by (auto simp: all_accounted_def)
    then show ?thesis
      using assms(3) [OF that] by cases (auto intro: exI [of _ t], metis fun_upd_apply)
  qed (use assms(2) that in \<open>auto intro: exI [of _ t]\<close>)
  moreover have "installed s1 = 0 \<or> installed s1 \<in> constants s1 \<or> (\<exists>u. ((asks s)(t := p)) u = Constantify (installed s1))"
    using assms(1,4) unfolding all_accounted_def by (metis fun_upd_apply subsetD)
  ultimately show ?thesis
    using assms(5) by (simp add: all_accounted_def)
qed

lemma ask_step_accounted:
  assumes "ask_step True s s'" and "cell_ok s" and acc: "all_accounted s"
  shows "all_accounted s'"
  using assms(1)
proof cases
  case (constantify t x)
  have "fits s (Constantify x)"
    using assms(2) constantify(2) unfolding cell_ok_def by metis
  then have "x = installed s"
    by (simp add: fits_def)
  then show ?thesis
    unfolding constantify(1) by (intro accountedI [OF acc]) (auto simp: constantify)
next
  case (install t x)
  have "x \<noteq> 0" by (rule carrier(4) [OF assms(2), of t]) (simp add: install)
  then show ?thesis
    unfolding install(1) using assms(2) install
    by (intro accountedI [OF acc]) (auto simp: cell_ok_def store_ok_def)
next
  case (make t x)
  then show ?thesis
    unfolding make(1) by (intro accountedI [OF acc]) auto
next
  case (give_back t x)
  then show ?thesis
    unfolding give_back(1) by (intro accountedI [OF acc]) auto
qed (auto intro!: accountedI [OF acc])

interpretation releasing: strengthened_invariant "(=) nothing_made" "ask_step True" cell_ok all_accounted
proof unfold_locales
  show "all_accounted s" if "nothing_made = s" for s
    unfolding that [symmetric] by (simp add: all_accounted_def nothing_made_def)
qed (use ask_step_accounted in blast)

section \<open>Properties\<close>

text \<open>
  C21. A class has one singleton and one placeholder: all threads that are given the object of a class are given
  the same one, which is the one that the class keeps, was made for it and is not freed; this is so however
  many threads ask at once.
\<close>
theorem one_object_per_class:
  assumes "ask_reachable release s" and "asks s t = Answer x" and "asks s u = Answer y"
  shows "x = y \<and> x = installed s \<and> x \<in> made s \<and> x \<notin> undone s"
proof -
  have ok: "cell_ok s" by (rule asking.reached_invariant [OF assms(1)])
  have "fits s (Answer x)" "fits s (Answer y)"
    using ok assms(2,3) unfolding cell_ok_def by metis+
  then show ?thesis
    using ok by (auto simp: cell_ok_def fits_def store_ok_def)
qed

text \<open>
  When all threads have returned, every object that was made for a singleton was either released or is the
  singleton, which is constant then.
\<close>
theorem late_singletons_released:
  assumes "ask_reachable True s" and "\<forall>t. asks s t = Idle"
  shows "made s = undone s \<union> ({installed s} - {0}) \<and> installed s \<notin> undone s \<and> constants s = {installed s} - {0}"
proof -
  have "store_ok s" "all_accounted s"
    using asking.reached_invariant [OF assms(1)] releasing.reached_further [OF assms(1)] by (simp_all add: cell_ok_def)
  then show ?thesis
    using assms(2) unfolding store_ok_def all_accounted_def by auto
qed

text \<open>Two threads that ask at once, in a class cluster: first the one, then the other is too late.\<close>

definition two_ask :: "ref \<Rightarrow> ask_point \<Rightarrow> ask_point \<Rightarrow> ref set \<Rightarrow> ref set \<Rightarrow> ref set \<Rightarrow> class_cell" where
  "two_ask i p q m d c = \<lparr>installed = i, asks = (\<lambda>t. if t = 0 then p else if t = 1 then q else Idle),
     made = m, undone = d, constants = c\<rparr>"

lemma two_installing: "ask_reachable r (two_ask 5 (Answer 5) (Install 7) {5, 7} {} {5})"
proof -
  have r0: "ask_reachable r (two_ask 0 Idle Idle {} {} {})"
    by (rule reached.at_start) (simp add: nothing_made_def two_ask_def cong: if_cong)
  have r1: "ask_reachable r (two_ask 0 Look Idle {} {} {})"
    by (rule reached_to [OF r0 ask_step.ask [where t = 0]]) (auto simp: two_ask_def)
  have r2: "ask_reachable r (two_ask 0 Make Idle {} {} {})"
    by (rule reached_to [OF r1 ask_step.none_yet [where t = 0]]) (auto simp: two_ask_def)
  have r3: "ask_reachable r (two_ask 0 Make Look {} {} {})"
    by (rule reached_to [OF r2 ask_step.ask [where t = 1]]) (auto simp: two_ask_def)
  have r4: "ask_reachable r (two_ask 0 Make Make {} {} {})"
    by (rule reached_to [OF r3 ask_step.none_yet [where t = 1]]) (auto simp: two_ask_def)
  have r5: "ask_reachable r (two_ask 0 (Install 5) Make {5} {} {})"
    by (rule reached_to [OF r4 ask_step.make [where t = 0 and x = 5]]) (auto simp: two_ask_def)
  have r6: "ask_reachable r (two_ask 0 (Install 5) (Install 7) {5, 7} {} {})"
    by (rule reached_to [OF r5 ask_step.make [where t = 1 and x = 7]]) (auto simp: two_ask_def)
  have r7: "ask_reachable r (two_ask 5 (Constantify 5) (Install 7) {5, 7} {} {})"
    by (rule reached_to [OF r6 ask_step.install [where t = 0]]) (auto simp: two_ask_def)
  show ?thesis
    by (rule reached_to [OF r7 ask_step.constantify [where t = 0]]) (auto simp: two_ask_def)
qed

lemma two_answered: "ask_reachable False (two_ask 5 (Answer 5) (Answer 5) {5, 7} {} {5})"
proof -
  have r1: "ask_reachable False (two_ask 5 (Answer 5) Look {5, 7} {} {5})"
    by (rule reached_to [OF two_installing ask_step.too_late [where t = 1]]) (auto simp: two_ask_def)
  show ?thesis
    by (rule reached_to [OF r1 ask_step.found [where t = 1]]) (auto simp: two_ask_def)
qed

theorem one_object_per_class_witness: "(5 :: ref) = installed (two_ask 5 (Answer 5) (Answer 5) {5, 7} {} {5})"
  using one_object_per_class [OF two_answered, of 0 5 1 5] by (simp add: two_ask_def)

theorem late_singletons_released_witness: "made nothing_made = undone nothing_made \<union> ({installed nothing_made} - {0})"
  using late_singletons_released [of nothing_made, OF reached.at_start] by (simp add: nothing_made_def)

text \<open>
  The placeholder that is made too late is lost: two threads that ask a class cluster at once can leave
  behind an object that was made, is not the placeholder of the class and was never freed.
\<close>
theorem late_placeholder_leaks:
  "\<exists>s. ask_reachable False s \<and> (\<forall>t. asks s t = Idle) \<and> made s = {5, 7} \<and> installed s = 5 \<and> undone s = {}"
proof -
  have r1: "ask_reachable False (two_ask 5 Idle (Answer 5) {5, 7} {} {5})"
    by (rule reached_to [OF two_answered ask_step.answer [where t = 0]]) (auto simp: two_ask_def)
  have "ask_reachable False (two_ask 5 Idle Idle {5, 7} {} {5})"
    by (rule reached_to [OF r1 ask_step.answer [where t = 1]]) (auto simp: two_ask_def)
  then show ?thesis
    by (intro exI conjI) (assumption | simp add: two_ask_def)+
qed

end
