(* ===== verification/AccessTransfer.thy ===== *)
theory AccessTransfer
  imports PoolThread Objects
begin

text \<open>
  Handing an object that is not thread safe from one thread to another
  (\<open>src/protocol/MulleObjCRootObject.m\<close>): the thread that has access relinquishes it, then the other one
  gains it.  An object that a thread may access lives in one of the autorelease pools of that thread, so
  the pools of theory \<open>AutoreleasePool\<close> take part, one configuration per thread.

  \<open>affinity\<close> is the thread that the header of an object names, \<open>retained\<close> counts the references that were
  ever taken of an object; those that the pools gave back are in the field \<open>sent\<close> of their
  configurations.  \<open>debug\<close> is a debug build, \<open>asserts\<close> one with assertions.  An exception comes with the
  state that it leaves behind.
\<close>

datatype affinity = Threadsafe | No_thread | Thread nat

record 'm program =
  confs :: "nat \<Rightarrow> 'm poolconf"
  retained :: "oid \<Rightarrow> nat"
  affinity :: "oid \<Rightarrow> affinity"

datatype access_error = Still_owned | No_access | Parent_pool_holds

type_synonym 'm access_result = "((access_error \<times> 'm program) + 'm program) outcome"

section \<open>Access\<close>

definition mulleSetThreadSafe :: "nat \<Rightarrow> bool \<Rightarrow> oid \<Rightarrow> 'm program \<Rightarrow> 'm program" where
  "mulleSetThreadSafe current flag self s =
     s\<lparr>affinity := (affinity s)(self := if flag then Threadsafe else Thread current)\<rparr>"

definition mulleIsAccessible :: "nat \<Rightarrow> oid \<Rightarrow> 'm program \<Rightarrow> bool" where
  "mulleIsAccessible current self s =
     (if affinity s self = Threadsafe then True else affinity s self = Thread current)"

definition mulleIsAccessibleByThread :: "nat \<Rightarrow> nat option \<Rightarrow> oid \<Rightarrow> 'm program \<Rightarrow> bool" where
  "mulleIsAccessibleByThread current threadObject self s =
     (if affinity s self = Threadsafe then True
      else affinity s self = Thread (case threadObject of None \<Rightarrow> current | Some t \<Rightarrow> t))"

definition mulleIsAutoreleased :: "'m world \<Rightarrow> nat \<Rightarrow> oid \<Rightarrow> 'm program \<Rightarrow> bool" where
  "mulleIsAutoreleased W current self s \<longleftrightarrow> 0 < mulleCountObject_class W (confs s current) self"

abbreviation in_conf :: "nat \<Rightarrow> ('m poolconf \<Rightarrow> 'm poolconf) \<Rightarrow> 'm program \<Rightarrow> 'm program" where
  "in_conf t f s \<equiv> s\<lparr>confs := (confs s)(t := f (confs s t))\<rparr>"

definition retain_object :: "oid \<Rightarrow> 'm program \<Rightarrow> 'm program" where
  "retain_object self s = s\<lparr>retained := (retained s)(self := Suc (retained s self))\<rparr>"

definition autorelease_object :: "'m world \<Rightarrow> nat \<Rightarrow> oid \<Rightarrow> 'm program \<Rightarrow> 'm program" where
  "autorelease_object W current self s = in_conf current (autoreleaseObject W self) s"

definition GainAccess ::
    "bool \<Rightarrow> bool \<Rightarrow> 'm world \<Rightarrow> MulleObjCTAOStrategy \<Rightarrow> nat \<Rightarrow> oid \<Rightarrow> 'm program \<Rightarrow> 'm access_result" where
  "GainAccess debug asserts W strategy current self s =
     (case strategy of
        MulleObjCTAOKnownThreadSafe \<Rightarrow>
          if asserts \<and> affinity s self \<noteq> Threadsafe then Abort
          else Done (Inr (autorelease_object W current self s))
      | MulleObjCTAOKnownThreadSafeMethods \<Rightarrow> Done (Inr (autorelease_object W current self s))
      | _ \<Rightarrow>
          if affinity s self = Threadsafe then Done (Inr (autorelease_object W current self s))
          else if debug \<and> affinity s self \<noteq> No_thread \<and> affinity s self \<noteq> Thread current
            then Done (Inl (Still_owned, s))
          else if \<not> debug \<and> asserts \<and> \<not> (affinity s self = No_thread \<or> affinity s self = Thread current)
            then Abort
          else Done (Inr (autorelease_object W current self
                 (s\<lparr>affinity := (affinity s)(self := Thread current)\<rparr>))))"

text \<open>The object leaves the pools of the thread that gives it away, as its strategy says.\<close>

definition leave_pools :: "'m world \<Rightarrow> MulleObjCTAOStrategy \<Rightarrow> oid \<Rightarrow> 'm poolconf \<Rightarrow> 'm poolconf" where
  "leave_pools W strategy self c =
     (case strategy of
        MulleObjCTAOCallerRemovesFromAllPoolsShallow \<Rightarrow> mulleReleasePoolObject_class W self c
      | MulleObjCTAOCallerRemovesFromAllPools \<Rightarrow> mulleReleasePoolObject_class W self c
      | MulleObjCTAOCallerRemovesFromCurrentPoolShallow \<Rightarrow> mulleReleasePoolObject_inst W self c
      | MulleObjCTAOCallerRemovesFromCurrentPool \<Rightarrow> mulleReleasePoolObject_inst W self c
      | _ \<Rightarrow> c)"

definition current_pool_only :: "MulleObjCTAOStrategy \<Rightarrow> bool" where
  "current_pool_only strategy \<longleftrightarrow>
     strategy = MulleObjCTAOCallerRemovesFromCurrentPool \<or> strategy = MulleObjCTAOCallerRemovesFromCurrentPoolShallow"

definition RelinquishAccess ::
    "bool \<Rightarrow> bool \<Rightarrow> 'm world \<Rightarrow> MulleObjCTAOStrategy \<Rightarrow> nat \<Rightarrow> oid \<Rightarrow> 'm program \<Rightarrow> 'm access_result" where
  "RelinquishAccess debug asserts W strategy current self s0 =
     (let s = retain_object self s0
      in case strategy of
        MulleObjCTAOKnownThreadSafe \<Rightarrow>
          if asserts \<and> affinity s self \<noteq> Threadsafe then Abort else Done (Inr s)
      | MulleObjCTAOKnownThreadSafeMethods \<Rightarrow> Done (Inr s)
      | _ \<Rightarrow>
          if affinity s self = Threadsafe then Done (Inr s)
          else if debug \<and> affinity s self \<noteq> Thread current
            then (if affinity s self = No_thread then Done (Inr s) else Done (Inl (No_access, s)))
          else if \<not> debug \<and> asserts \<and> \<not> (affinity s self \<noteq> No_thread \<or> affinity s self = Thread current)
            then Abort
          else (let s' = in_conf current (leave_pools W strategy self) s
                in if debug \<and> current_pool_only strategy \<and> mulleContainsObject_class W (confs s' current) self
                   then Done (Inl (Parent_pool_holds, s'))
                   else Done (Inr (s'\<lparr>affinity := (affinity s')(self := No_thread)\<rparr>))))"

section \<open>References\<close>

text \<open>
  The reference count of an object in a program of \<open>n\<close> threads, and the references that are neither due in
  a pool: those of owners, and the one that an object has while it is handed over.
\<close>

definition reference_count :: "nat \<Rightarrow> 'm program \<Rightarrow> oid \<Rightarrow> int" where
  "reference_count n s x = int (retained s x) - (\<Sum>t<n. int (count_list (sent (confs s t)) x))"

definition owners :: "nat \<Rightarrow> 'm program \<Rightarrow> oid \<Rightarrow> int" where
  "owners n s x = reference_count n s x - (\<Sum>t<n. int (count_list (pool_contents (confs s t)) x))"

lemma ledger_count:
  assumes "conf_ok W c" and "x \<noteq> nil"
  shows "count_list (added c) x = count_list (sent c) x + count_list (pool_contents c) x"
proof -
  have "count (not_nil (added c)) x = count (mset (sent c) + not_nil (pool_contents c)) x"
    using assms(1) by (simp add: inv_defs)
  then show ?thesis
    using assms(2) by (simp add: count_not_nil count_mset)
qed

lemma owners_added:
  assumes "\<forall>t<n. conf_ok W (confs s t)" and "x \<noteq> nil"
  shows "owners n s x = int (retained s x) - (\<Sum>t<n. int (count_list (added (confs s t)) x))"
proof -
  have "(\<Sum>t<n. int (count_list (added (confs s t)) x))
      = (\<Sum>t<n. int (count_list (sent (confs s t)) x) + int (count_list (pool_contents (confs s t)) x))"
    using assms(1) by (intro sum.cong) (auto simp: ledger_count [OF _ assms(2)])
  then show ?thesis
    by (simp add: owners_def reference_count_def sum.distrib)
qed

text \<open>When the release of an object runs no user code, an early release adds nothing to the pools.\<close>

lemma release_one_added: "react W (sent c) x = [] \<Longrightarrow> added (release_one W x c) = added c"
  by (simp add: release_one_def send_release_def)

lemma release_in_array_added:
  "\<forall>h. react W h x = [] \<Longrightarrow> added (release_in_array W a [x] k j c) = added c"
  by (induction j arbitrary: c) (simp_all add: Let_def release_one_added punch_def upd_pool_def)

lemma release_in_chain_added:
  "\<forall>h. react W h x = [] \<Longrightarrow> added (release_in_chain W a [x] k c) = added c"
  by (induction k arbitrary: c) (simp_all add: Let_def release_in_array_added)

lemma releaseObjects_added: "\<forall>h. react W h x = [] \<Longrightarrow> added (releaseObjects W a [x] c) = added c"
  by (simp add: releaseObjects_def release_in_chain_added split: option.splits)

lemma fold_releaseObjects_added:
  "\<forall>h. react W h x = [] \<Longrightarrow> added (fold (\<lambda>q. releaseObjects W (paddr q) [x]) qs c) = added c"
  by (induction qs arbitrary: c) (simp_all add: releaseObjects_added)

lemma leave_pools_added: "\<forall>h. react W h x = [] \<Longrightarrow> added (leave_pools W strategy x c) = added c"
  by (simp add: leave_pools_def mulleReleasePoolObject_inst_def mulleReleasePoolObject_class_def
      releaseObjects_added fold_releaseObjects_added split: MulleObjCTAOStrategy.splits list.splits)

lemma leave_pools_ok:
  assumes "map_laws (mops W)" and "x \<noteq> nil" and "conf_ok W c"
  shows "conf_ok W (leave_pools W strategy x c)"
proof -
  have "conf_ok W (mulleReleasePoolObject_inst W x c)" "conf_ok W (mulleReleasePoolObject_class W x c)"
    using assms releaseObjects_inv [OF assms(1), of "[x]"] fold_releaseObjects_inv [OF assms(1), of "[x]"]
    by (auto simp: mulleReleasePoolObject_inst_def mulleReleasePoolObject_class_def split: list.splits)
  then show ?thesis
    using assms(3) by (simp add: leave_pools_def split: MulleObjCTAOStrategy.splits)
qed

section \<open>Handing over\<close>

definition moving :: "MulleObjCTAOStrategy \<Rightarrow> bool" where
  "moving strategy \<longleftrightarrow>
     strategy \<noteq> MulleObjCTAOKnownThreadSafe \<and> strategy \<noteq> MulleObjCTAOKnownThreadSafeMethods"

lemma relinquish_moving:
  assumes "moving strategy" and "affinity s x = Thread a"
  shows "RelinquishAccess debug asserts W strategy a x s =
    (let s' = in_conf a (leave_pools W strategy x) (retain_object x s)
     in if debug \<and> current_pool_only strategy \<and> mulleContainsObject_class W (confs s' a) x
        then Done (Inl (Parent_pool_holds, s'))
        else Done (Inr (s'\<lparr>affinity := (affinity s')(x := No_thread)\<rparr>)))"
  using assms by (cases strategy) (simp_all add: RelinquishAccess_def moving_def retain_object_def Let_def)

lemma gain_moving:
  assumes "moving strategy" and "affinity s x = No_thread"
  shows "GainAccess debug asserts W strategy b x s =
    Done (Inr (autorelease_object W b x (s\<lparr>affinity := (affinity s)(x := Thread b)\<rparr>)))"
  using assms by (cases strategy) (simp_all add: GainAccess_def moving_def)

lemma sum_one_more:
  fixes n :: nat
  assumes "b < n" and "f b = g b + (1 :: int)" and "\<And>t. t \<noteq> b \<Longrightarrow> f t = g t"
  shows "(\<Sum>t<n. f t) = (\<Sum>t<n. g t) + 1"
proof -
  have "(\<Sum>t<n. f t) = f b + (\<Sum>t\<in>{..<n} - {b}. f t)" "(\<Sum>t<n. g t) = g b + (\<Sum>t\<in>{..<n} - {b}. g t)"
    using assms(1) by (simp_all add: sum.remove [of "{..<n}" b])
  moreover have "(\<Sum>t\<in>{..<n} - {b}. f t) = (\<Sum>t\<in>{..<n} - {b}. g t)"
    using assms(3) by (intro sum.cong) auto
  ultimately show ?thesis using assms(2) by simp
qed

lemma autorelease_added:
  assumes "pools c \<noteq> []" and "\<not> is_constant W x"
  shows "added (autoreleaseObject W x c) = added c @ [x]"
  using assms by (auto simp: autoreleaseObject_def addObject_def Let_def split: list.splits)

lemma autoreleaseObject_sent: "sent (autoreleaseObject W x c) = sent c"
  by (auto simp: autoreleaseObject_def addObject_def Let_def split: list.splits)

lemma contains_all:
  assumes "conf_ok W c" and "p \<noteq> nil" and "count_list (pool_contents c) p < 2 ^ 64"
  shows "mulleContainsObject_class W c p \<longleftrightarrow> p \<in> set (pool_contents c)"
proof (cases "object_map c")
  case None
  then show ?thesis using contains_walk [of W c p] by (cases c) simp
next
  case (Some m)
  then show ?thesis
    using map_lookup [OF assms(1) Some assms(2)] of_nat_word_eq_0_iff [where 'a = 64, of "count_list (pool_contents c) p"]
      assms(3) by (simp add: mulleContainsObject_class_def count_list_0_iff)
qed

text \<open>
  Where the object is not any more after its thread has given it away: with the strategies for all pools in no pool of
  that thread, with those for the current pool not in the innermost one, and in a debug build, which raises otherwise,
  in none (the debug map counts up to the width of its counters).  The other strategies leave the pools as they are.
\<close>

definition has_left :: "bool \<Rightarrow> MulleObjCTAOStrategy \<Rightarrow> oid \<Rightarrow> 'm poolconf \<Rightarrow> 'm poolconf \<Rightarrow> bool" where
  "has_left debug strategy x c c' \<longleftrightarrow>
     (if strategy = MulleObjCTAOCallerRemovesFromAllPools \<or> strategy = MulleObjCTAOCallerRemovesFromAllPoolsShallow
      then x \<notin> set (pool_contents c')
      else if current_pool_only strategy
      then (pools c' \<noteq> [] \<longrightarrow> x \<notin> set (contents (storage (hd (pools c')))))
         \<and> (debug \<and> count_list (pool_contents c') x < 2 ^ 64 \<longrightarrow> x \<notin> set (pool_contents c'))
      else c' = c)"

lemma inst_removes:
  assumes "\<forall>h. react W h x = []" and "x \<noteq> nil" and "pools (mulleReleasePoolObject_inst W x c) \<noteq> []"
  shows "x \<notin> set (contents (storage (hd (pools (mulleReleasePoolObject_inst W x c)))))"
proof (cases "pools c")
  case Nil
  then show ?thesis using assms(3) by (simp add: mulleReleasePoolObject_inst_def)
next
  case (Cons q qs)
  let ?d = "releaseObjects W (paddr q) [x] c"
  have "map paddr (pools ?d) = paddr q # map paddr qs"
    using same_addresses_releaseObjects [of W "paddr q" "[x]" c] Cons by simp
  then obtain q' qs' where d: "pools ?d = q' # qs'" "paddr q' = paddr q" by (cases "pools ?d") auto
  then have "chain (paddr q) ?d = storage q'" by (simp add: chain_def find_pool_def)
  moreover have "set (contents (chain (paddr q) ?d)) \<inter> set [x] = {}"
    using assms(1,2) by (intro releaseObjects_removes) (simp_all add: not_revived_def)
  ultimately show ?thesis
    using Cons d by (simp add: mulleReleasePoolObject_inst_def)
qed

lemma leave_pools_has_left:
  assumes quiet: "\<forall>h. react W h x = []" and x: "x \<noteq> nil" and W: "map_laws (mops W)" and ok: "conf_ok W c"
    and moving: "moving strategy"
    and checked: "debug \<and> current_pool_only strategy \<longrightarrow> \<not> mulleContainsObject_class W (leave_pools W strategy x c) x"
  shows "has_left debug strategy x c (leave_pools W strategy x c)"
proof -
  have "structure_ok c" using ok by (simp add: conf_inv_def)
  then have all: "x \<notin> set (pool_contents (mulleReleasePoolObject_class W x c))"
    using fold_releaseObjects_removes [of W "[x]" c] quiet x by (simp add: not_revived_def mulleReleasePoolObject_class_def)
  have ok': "conf_ok W (leave_pools W strategy x c)"
    using W x ok by (rule leave_pools_ok)
  have "x \<notin> set (pool_contents c')"
    if "conf_ok W c'" "\<not> mulleContainsObject_class W c' x" "count_list (pool_contents c') x < 2 ^ 64" for c'
    using that x contains_all [OF that(1) x that(3)] by blast
  then have one: "debug \<and> current_pool_only strategy \<and> count_list (pool_contents (leave_pools W strategy x c)) x < 2 ^ 64
      \<Longrightarrow> x \<notin> set (pool_contents (leave_pools W strategy x c))"
    using ok' checked by blast
  show ?thesis
    using all one inst_removes [OF quiet x, of c] moving
    by (cases strategy) (simp_all add: has_left_def leave_pools_def current_pool_only_def moving_def)
qed

text \<open>
  What relinquishing does, for all strategies, when it raises nothing: one reference more, and nobody has the
  object unless it is thread safe.  What is due in the pools stays what it was.
\<close>

lemma relinquish_effect:
  assumes W: "map_laws (mops W)" and ok: "\<forall>t<n. conf_ok W (confs s t)" and quiet: "\<forall>h. react W h x = []" and x: "x \<noteq> nil"
    and a: "affinity s x = Thread a \<or> affinity s x = Threadsafe"
    and r: "RelinquishAccess debug asserts W strategy a x s = Done (Inr s1)"
  shows "\<forall>t<n. conf_ok W (confs s1 t)"
    and "y \<noteq> nil \<Longrightarrow> owners n s1 y = owners n s y + (if y = x then 1 else 0)"
    and "affinity s1 = (affinity s)(x := if moving strategy \<and> affinity s x \<noteq> Threadsafe then No_thread else affinity s x)"
    and "t \<noteq> a \<Longrightarrow> confs s1 t = confs s t"
    and "(moving strategy \<and> affinity s x \<noteq> Threadsafe) \<and> a < n \<Longrightarrow> has_left debug strategy x (confs s a) (confs s1 a)"
proof -
  let ?r = "in_conf a (leave_pools W strategy x) (retain_object x s)"
  let ?moves = "moving strategy \<and> affinity s x \<noteq> Threadsafe"
  have s1: "s1 = (if ?moves then ?r\<lparr>affinity := (affinity ?r)(x := No_thread)\<rparr> else retain_object x s)"
  proof (cases "?moves")
    case True
    then have "affinity s x = Thread a" using a by simp
    then show ?thesis using r True by (simp add: relinquish_moving Let_def split: if_splits)
  next
    case False
    then show ?thesis
      using r by (cases strategy) (auto simp: RelinquishAccess_def moving_def retain_object_def Let_def split: if_splits)
  qed
  show ok1: "\<forall>t<n. conf_ok W (confs s1 t)"
    using ok leave_pools_ok [OF W x] by (simp add: s1 retain_object_def)
  have added1: "added (confs s1 t) = added (confs s t)" for t
    using leave_pools_added [OF quiet] by (simp add: s1 retain_object_def)
  show "owners n s1 y = owners n s y + (if y = x then 1 else 0)" if "y \<noteq> nil"
    unfolding owners_added [OF ok1 that] owners_added [OF ok that] added1 by (simp add: s1 retain_object_def)
  show "affinity s1 = (affinity s)(x := if ?moves then No_thread else affinity s x)"
    by (simp add: s1 retain_object_def)
  show "confs s1 t = confs s t" if "t \<noteq> a"
    using that by (simp add: s1 retain_object_def)
  show "has_left debug strategy x (confs s a) (confs s1 a)" if m: "?moves \<and> a < n"
  proof -
    have c1: "confs s1 a = leave_pools W strategy x (confs s a)"
      using m by (simp add: s1 retain_object_def)
    have "affinity s x = Thread a" using a m by simp
    then have "debug \<and> current_pool_only strategy \<longrightarrow>
        \<not> mulleContainsObject_class W (leave_pools W strategy x (confs s a)) x"
      using r m by (auto simp: relinquish_moving Let_def retain_object_def split: if_splits)
    then show ?thesis
      unfolding c1 using leave_pools_has_left [OF quiet x W] ok m by blast
  qed
qed

lemma autorelease_contents:
  assumes "pools c \<noteq> []" and "\<not> is_constant W x"
  shows "pools (autoreleaseObject W x c) \<noteq> []"
    and "set (pool_contents (autoreleaseObject W x c)) = insert x (set (pool_contents c))"
proof -
  obtain q qs where q: "pools c = q # qs" using assms(1) by (cases "pools c") auto
  define c' where "c' = c\<lparr>object_map := map_option (map_incr (mops W) x) (object_map c)\<rparr>"
  have "pools c' = q # qs" using q by (simp add: c'_def)
  then obtain st where "pools (addObject x c') = q\<lparr>storage := st\<rparr> # qs" "contents st = contents (storage q) @ [x]"
    using addObject_pools by metis
  moreover have "autoreleaseObject W x c = addObject x c'"
    using assms by (simp add: autoreleaseObject_def c'_def)
  ultimately show "pools (autoreleaseObject W x c) \<noteq> []"
      "set (pool_contents (autoreleaseObject W x c)) = insert x (set (pool_contents c))"
    using q by (simp_all add: pool_contents_def)
qed

text \<open>What gaining does: it never fails for an object that was relinquished, and its reference is due in the pool.\<close>

lemma gain_effect:
  assumes W: "map_laws (mops W)" and ok: "\<forall>t<n. conf_ok W (confs s t)" and pool: "pools (confs s b) \<noteq> []"
    and x: "\<not> is_constant W x" and b: "b < n"
    and free: "affinity s x = (if moving strategy \<and> old \<noteq> Threadsafe then No_thread else old)"
    and old: "strategy = MulleObjCTAOKnownThreadSafe \<longrightarrow> old = Threadsafe"
  shows "\<exists>s2. GainAccess debug asserts W strategy b x s = Done (Inr s2) \<and> (\<forall>t<n. conf_ok W (confs s2 t))
    \<and> (\<forall>y. y \<noteq> nil \<longrightarrow> owners n s2 y = owners n s y - (if y = x then 1 else 0))
    \<and> affinity s2 = (affinity s)(x := if moving strategy \<and> old \<noteq> Threadsafe then Thread b else old)
    \<and> pools (confs s2 b) \<noteq> [] \<and> set (pool_contents (confs s2 b)) = insert x (set (pool_contents (confs s b)))
    \<and> (\<forall>t. t \<noteq> b \<longrightarrow> confs s2 t = confs s t)"
proof -
  define s2 where "s2 = autorelease_object W b x
     (s\<lparr>affinity := (affinity s)(x := if moving strategy \<and> old \<noteq> Threadsafe then Thread b else old)\<rparr>)"
  have gain: "GainAccess debug asserts W strategy b x s = Done (Inr s2)"
  proof (cases "moving strategy \<and> old \<noteq> Threadsafe")
    case True
    then show ?thesis using free by (simp add: gain_moving s2_def)
  next
    case False
    then have "(affinity s)(x := old) = affinity s" and same: "s\<lparr>affinity := affinity s\<rparr> = s"
      using free by (auto simp: fun_eq_iff)
    have "s2 = autorelease_object W b x (s\<lparr>affinity := (affinity s)(x := old)\<rparr>)"
      unfolding s2_def using False by (simp only: if_False)
    then have "s2 = autorelease_object W b x s" using same \<open>(affinity s)(x := old) = affinity s\<close> by simp
    then show ?thesis
      using False free old by (cases strategy) (auto simp: GainAccess_def moving_def)
  qed
  have ok2: "\<forall>t<n. conf_ok W (confs s2 t)"
    using ok autoreleaseObject_inv [OF W] by (simp add: s2_def autorelease_object_def)
  have "owners n s2 y = owners n s y - (if y = x then 1 else 0)" if y: "y \<noteq> nil" for y
  proof (cases "y = x")
    case True
    have "(\<Sum>t<n. int (count_list (added (confs s2 t)) x)) = (\<Sum>t<n. int (count_list (added (confs s t)) x)) + 1"
      by (rule sum_one_more [OF b]) (simp_all add: s2_def autorelease_object_def autorelease_added [OF pool x])
    then show ?thesis
      using owners_added [OF ok2 y] owners_added [OF ok y] True by (simp add: s2_def autorelease_object_def)
  next
    case False
    have "count_list (added (confs s2 t)) y = count_list (added (confs s t)) y" for t
      using False by (simp add: s2_def autorelease_object_def autorelease_added [OF pool x])
    then show ?thesis
      using owners_added [OF ok2 y] owners_added [OF ok y] False by (simp add: s2_def autorelease_object_def)
  qed
  then show ?thesis
    using gain ok2 autorelease_contents [OF pool x] by (simp add: s2_def autorelease_object_def)
qed

text \<open>
  C16. An object that is not thread safe and no constant is handed over without a loss: after its thread has
  relinquished access, it has left the pools of that thread that its strategy names (see \<open>has_left\<close>), no thread may
  use the object and one reference more keeps it alive; the thread that then gains access is the one that may use it,
  its pool, which it must have, will give that reference back, and the references that the owners hold are what they
  were.  This is so for all strategies that move an object, in debug builds and others, when the release of the object
  autoreleases nothing.
\<close>
theorem access_handed_over:
  assumes "map_laws (mops W)" and "\<forall>t<n. conf_ok W (confs s t)" and "\<forall>h. react W h x = []"
    and "x \<noteq> nil" and "\<not> is_constant W x" and "moving strategy"
    and "a < n" and "b < n" and "a \<noteq> b" and "pools (confs s b) \<noteq> []"
    and "affinity s x = Thread a" and "0 \<le> owners n s x"
    and "RelinquishAccess debug asserts W strategy a x s = Done (Inr s1)"
  shows "affinity s1 x = No_thread \<and> 1 \<le> reference_count n s1 x
    \<and> has_left debug strategy x (confs s a) (confs s1 a) \<and>
    (\<exists>s2. GainAccess debug asserts W strategy b x s1 = Done (Inr s2) \<and> affinity s2 x = Thread b
       \<and> mulleIsAccessible b x s2 \<and> x \<in> set (pool_contents (confs s2 b)) \<and> confs s2 a = confs s1 a
       \<and> owners n s2 x = owners n s x \<and> (\<forall>t<n. conf_ok W (confs s2 t)))"
proof -
  have a: "affinity s x = Thread a \<or> affinity s x = Threadsafe" using assms(11) by simp
  note eff = relinquish_effect [OF assms(1-4) a assms(13)]
  have aff: "affinity s1 x = No_thread" using eff(3) assms(6,11) by simp
  have own: "owners n s1 x = owners n s x + 1" using eff(2) assms(4) by simp
  have "1 \<le> reference_count n s1 x"
    using own assms(12) sum_nonneg [of "{..<n}" "\<lambda>t. int (count_list (pool_contents (confs s1 t)) x)"]
    by (simp add: owners_def)
  moreover have pb: "pools (confs s1 b) \<noteq> []" using eff(4) assms(9,10) by simp
  have known: "strategy = MulleObjCTAOKnownThreadSafe \<longrightarrow> Thread a = Threadsafe" using assms(6) by (simp add: moving_def)
  have free: "affinity s1 x = (if moving strategy \<and> Thread a \<noteq> Threadsafe then No_thread else Thread a)"
    using aff assms(6) by simp
  obtain s2 where "GainAccess debug asserts W strategy b x s1 = Done (Inr s2)" "\<forall>t<n. conf_ok W (confs s2 t)"
      "owners n s2 x = owners n s x" "affinity s2 x = Thread b" "x \<in> set (pool_contents (confs s2 b))"
      "confs s2 a = confs s1 a"
    using gain_effect [OF assms(1) eff(1) pb assms(5,8) free known] own assms(4,6,9) by fastforce
  moreover have "has_left debug strategy x (confs s a) (confs s1 a)"
    using eff(5) assms(6,7,11) by simp
  ultimately show ?thesis
    using aff by (auto simp: mulleIsAccessible_def)
qed

text \<open>The object 8 is in the innermost pool of the first thread and has an owner; the second thread has an empty pool.\<close>

definition two_threads :: "(oid \<Rightarrow> NSUInteger) program" where
  "two_threads = \<lparr>confs = (\<lambda>t. if t = 0 then demo_conf else pushAutoreleasePool 2 (empty_conf None)),
     retained = (\<lambda>x. if x = 8 then 2 else 0), affinity = (\<lambda>_. Thread 0)\<rparr>"

lemma two_threads_ok: "\<forall>t<2. conf_ok quiet_world (confs two_threads t)"
proof -
  have "conf_ok quiet_world (pushAutoreleasePool 2 (empty_conf None))"
    by (rule push_inv) (simp_all add: inv_defs empty_conf_def pool_contents_def)
  then show ?thesis
    by (simp add: two_threads_def demo_conf_ok)
qed

theorem access_handed_over_witness:
  "\<exists>s1. RelinquishAccess False True quiet_world MulleObjCTAOCallerRemovesFromCurrentPool 0 8 two_threads = Done (Inr s1)
     \<and> affinity s1 8 = No_thread \<and> 1 \<le> reference_count 2 s1 8
     \<and> has_left False MulleObjCTAOCallerRemovesFromCurrentPool 8 demo_conf (confs s1 0)"
proof -
  have m: "moving MulleObjCTAOCallerRemovesFromCurrentPool" by (simp add: moving_def)
  have "affinity two_threads 8 = Thread 0" by (simp add: two_threads_def)
  then obtain s1 where s1:
      "RelinquishAccess False True quiet_world MulleObjCTAOCallerRemovesFromCurrentPool 0 8 two_threads = Done (Inr s1)"
    by (simp add: relinquish_moving [OF m] Let_def)
  have "{..<2 :: nat} = {0, 1}" by auto
  then have "owners 2 two_threads 8 = 1"
    by (simp add: owners_def reference_count_def two_threads_def demo_conf_def pool_contents_def
        pushAutoreleasePool_def empty_conf_def)
  then show ?thesis
    using access_handed_over [OF _ two_threads_ok _ _ _ m _ _ _ _ _ _ s1, of 1] s1
    by (simp add: two_threads_def pushAutoreleasePool_def nil_def)
qed

text \<open>
  The checks of \<open>-mulleRelinquishAccess\<close>: in a debug build a thread without access gets its exception only
  after the object was retained, so that the exception leaks a reference.  In a build with assertions that is
  no debug build the assertion is the wrong way round: the object of another thread is taken from it without
  complaint, and the object that nobody has, which a debug build lets pass, ends the process.
\<close>
theorem relinquish_checks:
  assumes "moving strategy" and "a \<noteq> current" and "affinity s x = Thread a" and "affinity s y = No_thread"
  shows "RelinquishAccess True asserts W strategy current x s = Done (Inl (No_access, retain_object x s))
    \<and> (\<exists>s'. RelinquishAccess False True W strategy current x s = Done (Inr s') \<and> affinity s' x = No_thread)
    \<and> RelinquishAccess False True W strategy current y s = Abort
    \<and> RelinquishAccess True asserts W strategy current y s = Done (Inr (retain_object y s))"
  using assms by (cases strategy) (simp_all add: RelinquishAccess_def moving_def retain_object_def Let_def)

theorem relinquish_checks_witness:
  "RelinquishAccess True False quiet_world MulleObjCTAOTransferIvars 1 8
     (two_threads\<lparr>affinity := (\<lambda>x. if x = 8 then Thread 0 else No_thread)\<rparr>)
   = Done (Inl (No_access, retain_object 8 (two_threads\<lparr>affinity := (\<lambda>x. if x = 8 then Thread 0 else No_thread)\<rparr>)))"
  using relinquish_checks [of MulleObjCTAOTransferIvars 0 1
      "two_threads\<lparr>affinity := (\<lambda>x. if x = 8 then Thread 0 else No_thread)\<rparr>" 8 9 False quiet_world]
  by (simp add: moving_def)

end
