(* ===== verification/DynamicProperties.thy ===== *)
theory DynamicProperties
  imports Objects
begin

text \<open>
  The properties of a \<open>MulleDynamicObject\<close> (\<open>src/class/MulleDynamicObject.m\<close>): how the type of a property
  is stored, the search for the property of a selector, the table from accessors to getters, and which C
  function becomes the implementation of an accessor.

  The type characters \<open>_C_...\<close> and the parser of type encodings belong to the runtime and are parameters,
  as are the walk over the properties of a class and the answers of \<open>+[NSValue
  setterImplementationObjCType:accessorBits:]\<close> and its relatives, which other libraries define.  The
  hash maps are functions in which 0 stands for an absent key, as their lookup does.
\<close>

section \<open>Types of properties\<close>

datatype type_char = ClassT | AssignId | RetainId | CopyId | CharPtr | Sel | Chr | UChr | Sht | USht | IntT
  | UInt | BoolT | Lng | ULng | LngLng | ULngLng | Dbl | Flt | LngDbl | Ptr | OtherT

record type_env =
  type_char_of :: "char \<Rightarrow> type_char"
  skip_type_qualifier :: "string \<Rightarrow> string"
  is_voidptr_storage_compatible :: "type_char \<Rightarrow> bool"

definition GenericTypeOfSignature :: "type_env \<Rightarrow> string \<Rightarrow> MulleObjCGenericType" where
  "GenericTypeOfSignature T signature =
     (case skip_type_qualifier T signature of
        [] \<Rightarrow> MulleObjCGenericTypeValue
      | c # rest \<Rightarrow>
          (let t = type_char_of T c in
           if t \<in> {ClassT, AssignId} then MulleObjCGenericTypeAssign
           else if t = RetainId then MulleObjCGenericTypeRetain
           else if t = CopyId then MulleObjCGenericTypeCopy
           else if t = CharPtr then MulleObjCGenericTypeStrdup
           else if t \<in> {Sel, Chr, UChr, Sht, USht, IntT, UInt, BoolT} then MulleObjCGenericTypeVoidPointer
           else if t \<in> {Lng, ULng, LngLng, ULngLng}
           then (if is_voidptr_storage_compatible T t then MulleObjCGenericTypeVoidPointer
                 else MulleObjCGenericTypeNumber)
           else if t \<in> {Dbl, Flt, LngDbl} then MulleObjCGenericTypeNumber
           else if t = Ptr
           then (if rest \<noteq> [] \<and> hd rest = CHR ''?'' then MulleObjCGenericTypeVoidPointer
                 else if is_voidptr_storage_compatible T Ptr then MulleObjCGenericTypeVoidPointer
                 else MulleObjCGenericTypeValue)
           else MulleObjCGenericTypeValue))"

text \<open>A property: its signature, the selectors of its accessors (0 for none) and its bits.\<close>

record dynamic_property =
  signature :: string
  getter :: uint32
  setter :: uint32
  adder :: uint32
  remover :: uint32
  is_retain :: bool
  is_copy :: bool
  is_dynamic :: bool
  is_readonly :: bool
  is_observable :: bool
  is_relationship :: bool
  is_container :: bool

definition GenericTypeOfProperty :: "type_env \<Rightarrow> dynamic_property \<Rightarrow> MulleObjCGenericType" where
  "GenericTypeOfProperty T p =
     (if is_retain p then MulleObjCGenericTypeRetain
      else if is_copy p then MulleObjCGenericTypeCopy
      else (let ivarType = GenericTypeOfSignature T (signature p) in
            if ivarType = MulleObjCGenericTypeRetain then MulleObjCGenericTypeAssign else ivarType))"

section \<open>The property of a selector\<close>

text \<open>The walk's callback: \<open>True\<close> is \<open>mulle_objc_walk_done\<close>.\<close>

definition search_methodid :: "uint32 \<Rightarrow> dynamic_property \<Rightarrow> bool" where
  "search_methodid methodid p =
     (if \<not> is_dynamic p then False
      else if getter p \<noteq> methodid
      then (if is_readonly p then False
            else \<not> (setter p \<noteq> methodid \<and> adder p \<noteq> methodid \<and> remover p \<noteq> methodid))
      else True)"

text \<open>
  The walk visits the properties of a class and its superclasses until the callback is done.  The second
  component is what \<open>*infra_p\<close> is set to.
\<close>

definition ClassPointerSearchDynamicProperty ::
    "(ref \<Rightarrow> (dynamic_property \<times> ref) list) \<Rightarrow> ref \<Rightarrow> uint32 \<Rightarrow> dynamic_property option \<times> ref" where
  "ClassPointerSearchDynamicProperty walk infra methodid =
     (if infra = 0 then (None, infra)
      else (case find (\<lambda>(p, _). search_methodid methodid p) (walk infra) of
              Some (p, _) \<Rightarrow> (Some p, infra)
            | None \<Rightarrow> (None, infra)))"

section \<open>From accessors to getters\<close>

text \<open>\<open>ClassStatic._getter_lookup\<close>; two properties that disagree about a selector end the program.\<close>

type_synonym getter_lookup = "uint32 \<Rightarrow> uint32"

definition register_getter_lookup :: "uint32 \<Rightarrow> dynamic_property \<Rightarrow> getter_lookup \<Rightarrow> getter_lookup outcome" where
  "register_getter_lookup sel p table =
     (let previous = table sel in
      if previous = 0 then Done (table(sel := getter p))
      else if previous = getter p then Done table
      else Abort)"

text \<open>
  The key of a value is the selector of its getter.  An unregistered selector fails an assertion; the
  invalid method id stands for a selector that has to be searched.
\<close>

definition GetKeyForSelector ::
    "uint32 \<Rightarrow> (ref \<Rightarrow> (dynamic_property \<times> ref) list) \<Rightarrow> getter_lookup \<Rightarrow> ref \<Rightarrow> uint32 \<Rightarrow> uint32 outcome" where
  "GetKeyForSelector invalid_methodid walk table cls cmd =
     (let key = table cmd in
      if key = 0 then Abort
      else if key \<noteq> invalid_methodid then Done key
      else (case ClassPointerSearchDynamicProperty walk cls cmd of
              (Some p, _) \<Rightarrow> Done (getter p)
            | (None, _) \<Rightarrow> Abort))"

section \<open>The implementations\<close>

text \<open>The C functions of the file, and \<open>Implementation\<close> for one that another library supplies.\<close>

datatype accessor =
    VoidPointerGetter
  | AssignGetterWillReadRelationship
  | RetainGetterWillReadRelationship
  | ValueGetter
  | VoidPointerSetter
  | VoidPointerSetterWillChange
  | StrdupSetter
  | StrdupSetterWillChange
  | RetainSetter
  | RetainSetterWillChange
  | CopySetter
  | CopySetterWillChange
  | GenericValueSetter
  | GenericValueSetterWillChange
  | Adder
  | AdderWillChange
  | AdderWillReadRelationship
  | AdderWillChangeAndReadRelationship
  | Remover
  | RemoverWillChange
  | RemoverWillReadRelationship
  | RemoverWillChangeAndReadRelationship
  | Implementation ref

text \<open>
  What the implementations in the clobber chain of a class method answer, the newest first; the first that
  supplies something is asked last.
\<close>

fun NSClassAccessorImplementationForObjCType :: "ref list \<Rightarrow> ref" where
  "NSClassAccessorImplementationForObjCType [] = 0"
| "NSClassAccessorImplementationForObjCType (imp # imps) =
     (if imp \<noteq> 0 then imp else NSClassAccessorImplementationForObjCType imps)"

record value_classes =
  value_setters :: "dynamic_property \<Rightarrow> ref list"
  value_getters :: "dynamic_property \<Rightarrow> ref list"
  number_setters :: "dynamic_property \<Rightarrow> ref list"
  number_getters :: "dynamic_property \<Rightarrow> ref list"

definition NSValueSetterImplementationForProperty :: "value_classes \<Rightarrow> dynamic_property \<Rightarrow> ref" where
  "NSValueSetterImplementationForProperty V p = NSClassAccessorImplementationForObjCType (value_setters V p)"

definition NSValueGetterImplementationForProperty :: "value_classes \<Rightarrow> dynamic_property \<Rightarrow> ref" where
  "NSValueGetterImplementationForProperty V p = NSClassAccessorImplementationForObjCType (value_getters V p)"

definition NSNumberSetterImplementationForProperty :: "value_classes \<Rightarrow> dynamic_property \<Rightarrow> ref" where
  "NSNumberSetterImplementationForProperty V p = NSClassAccessorImplementationForObjCType (number_setters V p)"

definition NSNumberGetterImplementationForProperty :: "value_classes \<Rightarrow> dynamic_property \<Rightarrow> ref" where
  "NSNumberGetterImplementationForProperty V p = NSClassAccessorImplementationForObjCType (number_getters V p)"

definition value_getter :: "value_classes \<Rightarrow> dynamic_property \<Rightarrow> accessor" where
  "value_getter V p =
     (let imp = NSValueGetterImplementationForProperty V p in
      if imp = 0 then ValueGetter else Implementation imp)"

definition init_getter :: "type_env \<Rightarrow> value_classes \<Rightarrow> dynamic_property \<Rightarrow> accessor" where
  "init_getter T V p =
     (case GenericTypeOfProperty T p of
        MulleObjCGenericTypeVoidPointer \<Rightarrow> VoidPointerGetter
      | MulleObjCGenericTypeStrdup \<Rightarrow> VoidPointerGetter
      | MulleObjCGenericTypeAssign \<Rightarrow>
          (if is_relationship p then AssignGetterWillReadRelationship else VoidPointerGetter)
      | MulleObjCGenericTypeCopy \<Rightarrow>
          (if is_relationship p then RetainGetterWillReadRelationship else VoidPointerGetter)
      | MulleObjCGenericTypeRetain \<Rightarrow>
          (if is_relationship p then RetainGetterWillReadRelationship else VoidPointerGetter)
      | MulleObjCGenericTypeNumber \<Rightarrow>
          (let imp = NSNumberGetterImplementationForProperty V p in
           if imp \<noteq> 0 then Implementation imp else value_getter V p)
      | MulleObjCGenericTypeValue \<Rightarrow> value_getter V p)"

definition value_setter :: "value_classes \<Rightarrow> dynamic_property \<Rightarrow> accessor" where
  "value_setter V p =
     (let imp = NSValueSetterImplementationForProperty V p in
      if imp = 0 then (if is_observable p then GenericValueSetterWillChange else GenericValueSetter)
      else Implementation imp)"

definition setter_imp :: "type_env \<Rightarrow> value_classes \<Rightarrow> dynamic_property \<Rightarrow> accessor" where
  "setter_imp T V p =
     (case GenericTypeOfProperty T p of
        MulleObjCGenericTypeAssign \<Rightarrow> (if is_observable p then VoidPointerSetterWillChange else VoidPointerSetter)
      | MulleObjCGenericTypeVoidPointer \<Rightarrow> (if is_observable p then VoidPointerSetterWillChange else VoidPointerSetter)
      | MulleObjCGenericTypeStrdup \<Rightarrow> (if is_observable p then StrdupSetterWillChange else StrdupSetter)
      | MulleObjCGenericTypeRetain \<Rightarrow> (if is_observable p then RetainSetterWillChange else RetainSetter)
      | MulleObjCGenericTypeCopy \<Rightarrow> (if is_observable p then CopySetterWillChange else CopySetter)
      | MulleObjCGenericTypeNumber \<Rightarrow>
          (let imp = NSNumberSetterImplementationForProperty V p in
           if imp \<noteq> 0 then Implementation imp else value_setter V p)
      | MulleObjCGenericTypeValue \<Rightarrow> value_setter V p)"

definition registered :: "uint32 \<Rightarrow> dynamic_property \<Rightarrow> accessor \<Rightarrow> getter_lookup \<Rightarrow> (accessor \<times> getter_lookup) outcome" where
  "registered sel p imp table =
     (case register_getter_lookup sel p table of Abort \<Rightarrow> Abort | Done table \<Rightarrow> Done (imp, table))"

definition init_setter ::
    "type_env \<Rightarrow> value_classes \<Rightarrow> dynamic_property \<Rightarrow> uint32 \<Rightarrow> getter_lookup \<Rightarrow> (accessor \<times> getter_lookup) outcome" where
  "init_setter T V p sel table = registered sel p (setter_imp T V p) table"

definition adder_imp :: "dynamic_property \<Rightarrow> accessor" where
  "adder_imp p =
     (if is_observable p
      then (if is_relationship p then AdderWillChangeAndReadRelationship else AdderWillChange)
      else (if is_relationship p then AdderWillReadRelationship else Adder))"

definition remover_imp :: "dynamic_property \<Rightarrow> accessor" where
  "remover_imp p =
     (if is_observable p
      then (if is_relationship p then RemoverWillChangeAndReadRelationship else RemoverWillChange)
      else (if is_relationship p then RemoverWillReadRelationship else Remover))"

text \<open>The assertion that the property is a container, and the complaint about other types.\<close>

definition container_type :: "type_env \<Rightarrow> dynamic_property \<Rightarrow> bool" where
  "container_type T p \<longleftrightarrow>
     GenericTypeOfProperty T p \<in> {MulleObjCGenericTypeRetain, MulleObjCGenericTypeCopy, MulleObjCGenericTypeAssign}"

definition init_adder ::
    "type_env \<Rightarrow> dynamic_property \<Rightarrow> uint32 \<Rightarrow> getter_lookup \<Rightarrow> (accessor \<times> getter_lookup) outcome" where
  "init_adder T p sel table =
     (if \<not> is_container p then Abort
      else if \<not> container_type T p then Abort
      else registered sel p (adder_imp p) table)"

definition init_remover ::
    "type_env \<Rightarrow> dynamic_property \<Rightarrow> uint32 \<Rightarrow> getter_lookup \<Rightarrow> (accessor \<times> getter_lookup) outcome" where
  "init_remover T p sel table =
     (if \<not> is_container p then Abort
      else if \<not> container_type T p then Abort
      else registered sel p (remover_imp p) table)"

section \<open>The methods of a property\<close>

datatype accessor_type = AccessorGetter | AccessorSetter | AccessorAdder | AccessorRemover

definition accessor_selector :: "dynamic_property \<Rightarrow> accessor_type \<Rightarrow> uint32" where
  "accessor_selector p a =
     (case a of AccessorGetter \<Rightarrow> getter p | AccessorSetter \<Rightarrow> setter p
      | AccessorAdder \<Rightarrow> adder p | AccessorRemover \<Rightarrow> remover p)"

definition init_accessor ::
    "type_env \<Rightarrow> value_classes \<Rightarrow> dynamic_property \<Rightarrow> accessor_type \<Rightarrow> getter_lookup \<Rightarrow> (accessor \<times> getter_lookup) outcome" where
  "init_accessor T V p a table =
     (case a of
        AccessorGetter \<Rightarrow> Done (init_getter T V p, table)
      | AccessorSetter \<Rightarrow> init_setter T V p (setter p) table
      | AccessorAdder \<Rightarrow> init_adder T p (adder p) table
      | AccessorRemover \<Rightarrow> init_remover T p (remover p) table)"

text \<open>The methods that the class of the object has itself, by selector.\<close>

type_synonym class_methods = "uint32 \<Rightarrow> accessor option"

fun init_accessors ::
    "type_env \<Rightarrow> value_classes \<Rightarrow> dynamic_property \<Rightarrow> accessor_type list \<Rightarrow> getter_lookup
      \<Rightarrow> ((uint32 \<times> accessor) list \<times> getter_lookup) outcome" where
  "init_accessors T V p [] table = Done ([], table)"
| "init_accessors T V p (a # as) table =
     (case init_accessor T V p a table of
        Abort \<Rightarrow> Abort
      | Done (imp, table) \<Rightarrow>
          (case init_accessors T V p as table of
             Abort \<Rightarrow> Abort
           | Done (ms, table) \<Rightarrow> Done ((accessor_selector p a, imp) # ms, table)))"

text \<open>
  The accessors that are declared and not in the class yet.  A selector whose descriptor the universe does
  not know leaves an empty entry in the method list; it can not be the method that is found at the end.
\<close>

definition missing_accessors :: "class_methods \<Rightarrow> dynamic_property \<Rightarrow> accessor_type list" where
  "missing_accessors methods p =
     filter (\<lambda>a. accessor_selector p a \<noteq> 0 \<and> methods (accessor_selector p a) = None)
       [AccessorGetter, AccessorSetter, AccessorAdder, AccessorRemover]"

definition create_methods_for_property ::
    "type_env \<Rightarrow> value_classes \<Rightarrow> (uint32 \<Rightarrow> bool) \<Rightarrow> dynamic_property \<Rightarrow> uint32 \<Rightarrow> class_methods \<times> getter_lookup
      \<Rightarrow> (accessor \<times> class_methods \<times> getter_lookup) outcome" where
  "create_methods_for_property T V has_descriptor p needed = (\<lambda>(methods, table).
     if \<exists>a \<in> {AccessorGetter, AccessorSetter, AccessorAdder, AccessorRemover}.
          accessor_selector p a \<noteq> 0 \<and> methods (accessor_selector p a) \<noteq> None \<and> accessor_selector p a = needed
     then Abort
     else let as = missing_accessors methods p in
       if as = [] then Abort
       else (case init_accessors T V p (filter (\<lambda>a. has_descriptor (accessor_selector p a)) as) table of
               Abort \<Rightarrow> Abort
             | Done (ms, table) \<Rightarrow>
                 (case map_of ms needed of
                    None \<Rightarrow> Abort
                  | Some imp \<Rightarrow> Done (imp, methods ++ map_of ms, table))))"

end
