(* ===== verification/DynamicAccessors.thy ===== *)
theory DynamicAccessors
  imports DynamicProperties
begin

text \<open>
  The values of a \<open>MulleDynamicObject\<close> (\<open>src/class/MulleDynamicObject.m\<close>): what the accessors do, finalizing, and
  sending a message, with the methods made when they are needed.

  The map \<open>__ivars\<close> is a function from the selector of the getter, with 0 for a key that is not there.  What
  happens to other objects and to memory is recorded in a log: retaining, copying, autoreleasing, making of
  values, duplicating and freeing of strings, and messages.  The answers of other code depend on the log so
  far.  What a callback such as \<open>-willChange\<close> does to this very object is not modelled.
\<close>

section \<open>State and surroundings\<close>

datatype dynamic_event =
    Retained ref
  | Copied ref ref
  | Made ref
  | Autoreleased ref
  | Duplicated ref ref
  | Freed ref
  | Will_change
  | Will_read ref ref
  | Added ref ref
  | Removed ref ref
  | Asked_value ref ref

text \<open>The state: the values, the log, and the methods and the table of the class.\<close>

record dynamic_state =
  ivars :: "uint32 \<Rightarrow> ref"
  events :: "dynamic_event list"
  methods :: class_methods
  getter_of :: getter_lookup

text \<open>
  The class and the code around: \<open>walk\<close>, \<open>cls\<close> (the class of the object), \<open>has_descriptor\<close>, types and foreign
  implementations, and the answers of \<open>-copy\<close>, \<open>mulle_allocator_strdup\<close>, \<open>-[NSValue initWithBytes:objCType:]\<close>
  (\<open>-[NSNumber ...]\<close>) and \<open>-willReadRelationship:\<close>.
\<close>

record dynamic_class =
  type_of_char :: type_env
  value_imps :: value_classes
  walk :: "ref \<Rightarrow> (dynamic_property \<times> ref) list"
  cls :: ref
  has_descriptor :: "uint32 \<Rightarrow> bool"
  invalid_methodid :: uint32
  fully_dynamic :: bool
  copy_of :: "dynamic_event list \<Rightarrow> ref \<Rightarrow> ref"
  dup_of :: "dynamic_event list \<Rightarrow> ref \<Rightarrow> ref"
  value_with :: "dynamic_event list \<Rightarrow> string \<Rightarrow> ref \<Rightarrow> ref"
  number_with :: "dynamic_event list \<Rightarrow> string \<Rightarrow> ref \<Rightarrow> ref"
  will_read :: "dynamic_event list \<Rightarrow> ref \<Rightarrow> ref"
  foreign :: "ref \<Rightarrow> uint32 \<Rightarrow> ref \<Rightarrow> dynamic_state \<Rightarrow> (ref \<times> dynamic_state) outcome"

definition happens :: "dynamic_event \<Rightarrow> dynamic_state \<Rightarrow> dynamic_state" where
  "happens e s = s\<lparr>events := events s @ [e]\<rparr>"

text \<open>Messages to nil do nothing and answer nil; freeing NULL does nothing.\<close>

definition retain :: "ref \<Rightarrow> dynamic_state \<Rightarrow> dynamic_state" where
  "retain x s = (if x = 0 then s else happens (Retained x) s)"

definition autorelease :: "ref \<Rightarrow> dynamic_state \<Rightarrow> dynamic_state" where
  "autorelease x s = (if x = 0 then s else happens (Autoreleased x) s)"

definition copy :: "dynamic_class \<Rightarrow> ref \<Rightarrow> dynamic_state \<Rightarrow> ref \<times> dynamic_state" where
  "copy E x s = (if x = 0 then (0, s) else let c = copy_of E (events s) x in (c, happens (Copied x c) s))"

definition free :: "ref \<Rightarrow> dynamic_state \<Rightarrow> dynamic_state" where
  "free x s = (if x = 0 then s else happens (Freed x) s)"

definition get :: "dynamic_state \<Rightarrow> uint32 \<Rightarrow> ref" where
  "get s key = ivars s key"

definition set_value :: "uint32 \<Rightarrow> ref \<Rightarrow> dynamic_state \<Rightarrow> dynamic_state" where
  "set_value key v s = s\<lparr>ivars := (ivars s)(key := v)\<rparr>"

text \<open>\<open>_mulle__pointermap_update\<close> answers with the old value.\<close>

definition update :: "uint32 \<Rightarrow> ref \<Rightarrow> dynamic_state \<Rightarrow> ref \<times> dynamic_state" where
  "update key v s = (get s key, set_value key v s)"

definition key_for :: "dynamic_class \<Rightarrow> dynamic_state \<Rightarrow> uint32 \<Rightarrow> uint32 outcome" where
  "key_for E s cmd = GetKeyForSelector (invalid_methodid E) (walk E) (getter_of s) (cls E) cmd"

section \<open>Getters\<close>

definition void_pointer_getter :: "uint32 \<Rightarrow> dynamic_state \<Rightarrow> ref \<times> dynamic_state" where
  "void_pointer_getter cmd s = (get s cmd, s)"

definition assign_getter_will_read :: "dynamic_class \<Rightarrow> uint32 \<Rightarrow> dynamic_state \<Rightarrow> ref \<times> dynamic_state" where
  "assign_getter_will_read E cmd s =
     (let old = get s cmd;
          changed = will_read E (events s) old;
          s = happens (Will_read old changed) s;
          s = (if old \<noteq> changed then set_value cmd changed s else s)
      in (changed, s))"

definition retain_getter_will_read :: "dynamic_class \<Rightarrow> uint32 \<Rightarrow> dynamic_state \<Rightarrow> ref \<times> dynamic_state" where
  "retain_getter_will_read E cmd s =
     (let old = get s cmd;
          changed = will_read E (events s) old;
          s = happens (Will_read old changed) s;
          s = (if old \<noteq> changed then set_value cmd changed (retain changed (autorelease old s)) else s)
      in (changed, s))"

text \<open>The value is copied to \<open>_param\<close>.\<close>

definition value_getter_call :: "uint32 \<Rightarrow> ref \<Rightarrow> dynamic_state \<Rightarrow> dynamic_state" where
  "value_getter_call cmd param s =
     (let v = get s cmd in if v = 0 then s else happens (Asked_value v param) s)"

section \<open>Setters\<close>

definition void_pointer_setter :: "dynamic_class \<Rightarrow> uint32 \<Rightarrow> ref \<Rightarrow> dynamic_state \<Rightarrow> dynamic_state outcome" where
  "void_pointer_setter E cmd param s =
     (case key_for E s cmd of Abort \<Rightarrow> Abort | Done key \<Rightarrow> Done (set_value key param s))"

definition strdup_setter :: "dynamic_class \<Rightarrow> uint32 \<Rightarrow> ref \<Rightarrow> dynamic_state \<Rightarrow> dynamic_state outcome" where
  "strdup_setter E cmd param s =
     (case key_for E s cmd of
        Abort \<Rightarrow> Abort
      | Done key \<Rightarrow>
          (let v = dup_of E (events s) param;
               (old, s) = update key v (happens (Duplicated param v) s)
           in Done (free old s)))"

definition retain_setter :: "dynamic_class \<Rightarrow> uint32 \<Rightarrow> ref \<Rightarrow> dynamic_state \<Rightarrow> dynamic_state outcome" where
  "retain_setter E cmd param s =
     (let s = retain param s in
      case key_for E s cmd of
        Abort \<Rightarrow> Abort
      | Done key \<Rightarrow> (let (old, s) = update key param s in Done (autorelease old s)))"

definition copy_setter :: "dynamic_class \<Rightarrow> uint32 \<Rightarrow> ref \<Rightarrow> dynamic_state \<Rightarrow> dynamic_state outcome" where
  "copy_setter E cmd param s =
     (let (v, s) = copy E param s in
      case key_for E s cmd of
        Abort \<Rightarrow> Abort
      | Done key \<Rightarrow> (let (old, s) = update key v s in Done (autorelease old s)))"

text \<open>The property of the key tells the type; without a property its signature is read through NULL.\<close>

definition generic_value_setter :: "dynamic_class \<Rightarrow> uint32 \<Rightarrow> ref \<Rightarrow> dynamic_state \<Rightarrow> dynamic_state outcome" where
  "generic_value_setter E cmd param s =
     (case key_for E s cmd of
        Abort \<Rightarrow> Abort
      | Done key \<Rightarrow>
          (case fst (ClassPointerSearchDynamicProperty (walk E) (cls E) key) of
             None \<Rightarrow> Abort
           | Some p \<Rightarrow>
               (let v = value_with E (events s) (signature p) param;
                    (old, s) = update key v (happens (Made v) s)
                in Done (autorelease old s))))"

definition DynamicObjectValueSetter :: "dynamic_class \<Rightarrow> uint32 \<Rightarrow> ref \<Rightarrow> string \<Rightarrow> dynamic_state \<Rightarrow> dynamic_state outcome" where
  "DynamicObjectValueSetter E cmd param objcType s =
     (case key_for E s cmd of
        Abort \<Rightarrow> Abort
      | Done key \<Rightarrow>
          (let v = value_with E (events s) objcType param;
               (old, s) = update key v (happens (Made v) s)
           in Done (autorelease old s)))"

definition DynamicObjectNumberSetter :: "dynamic_class \<Rightarrow> uint32 \<Rightarrow> ref \<Rightarrow> string \<Rightarrow> dynamic_state \<Rightarrow> dynamic_state outcome" where
  "DynamicObjectNumberSetter E cmd param objcType s =
     (case key_for E s cmd of
        Abort \<Rightarrow> Abort
      | Done key \<Rightarrow>
          (let v = number_with E (events s) objcType param;
               (old, s) = update key v (happens (Made v) s)
           in Done (autorelease old s)))"

section \<open>Adding to and removing from a container\<close>

definition tell_container :: "(ref \<Rightarrow> ref \<Rightarrow> dynamic_event) \<Rightarrow> ref \<Rightarrow> ref \<Rightarrow> dynamic_state \<Rightarrow> dynamic_state" where
  "tell_container e container v s = (if container = 0 then s else happens (e container v) s)"

definition adder_call :: "dynamic_class \<Rightarrow> uint32 \<Rightarrow> ref \<Rightarrow> dynamic_state \<Rightarrow> dynamic_state outcome" where
  "adder_call E cmd param s =
     (case key_for E s cmd of Abort \<Rightarrow> Abort | Done key \<Rightarrow> Done (tell_container Added (get s key) param s))"

definition adder_will_read :: "dynamic_class \<Rightarrow> uint32 \<Rightarrow> ref \<Rightarrow> dynamic_state \<Rightarrow> dynamic_state outcome" where
  "adder_will_read E cmd param s =
     (case key_for E s cmd of
        Abort \<Rightarrow> Abort
      | Done key \<Rightarrow> (let (container, s) = retain_getter_will_read E key s in Done (tell_container Added container param s)))"

definition remover_call :: "dynamic_class \<Rightarrow> uint32 \<Rightarrow> ref \<Rightarrow> dynamic_state \<Rightarrow> dynamic_state outcome" where
  "remover_call E cmd param s =
     (case key_for E s cmd of Abort \<Rightarrow> Abort | Done key \<Rightarrow> Done (tell_container Removed (get s key) param s))"

definition remover_will_read :: "dynamic_class \<Rightarrow> uint32 \<Rightarrow> ref \<Rightarrow> dynamic_state \<Rightarrow> dynamic_state outcome" where
  "remover_will_read E cmd param s =
     (case key_for E s cmd of
        Abort \<Rightarrow> Abort
      | Done key \<Rightarrow> (let (container, s) = retain_getter_will_read E key s in Done (tell_container Removed container param s)))"

section \<open>Calling an implementation\<close>

definition quiet :: "dynamic_state outcome \<Rightarrow> (ref \<times> dynamic_state) outcome" where
  "quiet r = (case r of Abort \<Rightarrow> Abort | Done s \<Rightarrow> Done (0, s))"

definition call_accessor :: "dynamic_class \<Rightarrow> accessor \<Rightarrow> uint32 \<Rightarrow> ref \<Rightarrow> dynamic_state \<Rightarrow> (ref \<times> dynamic_state) outcome" where
  "call_accessor E imp cmd param s =
     (case imp of
        VoidPointerGetter \<Rightarrow> Done (void_pointer_getter cmd s)
      | AssignGetterWillReadRelationship \<Rightarrow> Done (assign_getter_will_read E cmd s)
      | RetainGetterWillReadRelationship \<Rightarrow> Done (retain_getter_will_read E cmd s)
      | ValueGetter \<Rightarrow> Done (0, value_getter_call cmd param s)
      | VoidPointerSetter \<Rightarrow> quiet (void_pointer_setter E cmd param s)
      | VoidPointerSetterWillChange \<Rightarrow> quiet (void_pointer_setter E cmd param (happens Will_change s))
      | StrdupSetter \<Rightarrow> quiet (strdup_setter E cmd param s)
      | StrdupSetterWillChange \<Rightarrow> quiet (strdup_setter E cmd param (happens Will_change s))
      | RetainSetter \<Rightarrow> quiet (retain_setter E cmd param s)
      | RetainSetterWillChange \<Rightarrow> quiet (retain_setter E cmd param (happens Will_change s))
      | CopySetter \<Rightarrow> quiet (copy_setter E cmd param s)
      | CopySetterWillChange \<Rightarrow> quiet (copy_setter E cmd param (happens Will_change s))
      | GenericValueSetter \<Rightarrow> quiet (generic_value_setter E cmd param s)
      | GenericValueSetterWillChange \<Rightarrow> quiet (generic_value_setter E cmd param (happens Will_change s))
      | Adder \<Rightarrow> quiet (adder_call E cmd param s)
      | AdderWillChange \<Rightarrow> quiet (adder_call E cmd param (happens Will_change s))
      | AdderWillReadRelationship \<Rightarrow> quiet (adder_will_read E cmd param s)
      | AdderWillChangeAndReadRelationship \<Rightarrow> quiet (adder_will_read E cmd param (happens Will_change s))
      | Remover \<Rightarrow> quiet (remover_call E cmd param s)
      | RemoverWillChange \<Rightarrow> quiet (remover_call E cmd param (happens Will_change s))
      | RemoverWillReadRelationship \<Rightarrow> quiet (remover_will_read E cmd param s)
      | RemoverWillChangeAndReadRelationship \<Rightarrow> quiet (remover_will_read E cmd param (happens Will_change s))
      | Implementation f \<Rightarrow> foreign E f cmd param s)"

section \<open>Finalizing\<close>

definition release_generic_value :: "type_env \<Rightarrow> dynamic_property option \<Rightarrow> ref \<Rightarrow> dynamic_state \<Rightarrow> dynamic_state" where
  "release_generic_value T property v s =
     (case property of
        Some p \<Rightarrow>
          (let type = GenericTypeOfProperty T p in
           if type = MulleObjCGenericTypeVoidPointer then s
           else if type = MulleObjCGenericTypeStrdup then free v s
           else autorelease v s)
      | None \<Rightarrow> autorelease v s)"

text \<open>The loop over the map, in the order of the enumerator, and its reset.\<close>

fun finalize_values :: "dynamic_class \<Rightarrow> uint32 list \<Rightarrow> dynamic_state \<Rightarrow> dynamic_state" where
  "finalize_values E [] s = s"
| "finalize_values E (key # keys) s =
     finalize_values E keys
       (if get s key = 0 then s
        else release_generic_value (type_of_char E)
               (fst (ClassPointerSearchDynamicProperty (walk E) (cls E) key)) (get s key) s)"

definition finalize :: "dynamic_class \<Rightarrow> ((uint32 \<Rightarrow> ref) \<Rightarrow> uint32 list) \<Rightarrow> dynamic_state \<Rightarrow> dynamic_state" where
  "finalize E rover s = (finalize_values E (rover (ivars s)) s)\<lparr>ivars := (\<lambda>_. 0)\<rparr>"

section \<open>Sending a message\<close>

definition method_forwarding :: "dynamic_class \<Rightarrow> (uint32 \<Rightarrow> dynamic_state \<Rightarrow> (accessor option \<times> dynamic_state) outcome)
    \<Rightarrow> (dynamic_property, accessor, ref, ref, dynamic_state) forwarding" where
  "method_forwarding E create_accessors =
     \<lparr>search_property = ClassPointerSearchDynamicProperty (walk E),
      create_methods_for_property = (\<lambda>infra p sel s.
        case create_methods_for_property (type_of_char E) (value_imps E) (has_descriptor E) p sel (methods s, getter_of s) of
          Abort \<Rightarrow> Abort
        | Done (imp, ms, table) \<Rightarrow> Done (imp, s\<lparr>methods := ms, getter_of := table\<rparr>)),
      create_accessor_methods = (\<lambda>infra sel s. create_accessors sel s),
      isFullyDynamic = (\<lambda>infra. fully_dynamic E),
      invoke = (\<lambda>imp self sel args s. call_accessor E imp sel args s)\<rparr>"

text \<open>
  A message finds the method of the class, or goes to \<open>-forward:\<close>, which makes the methods of a property; the
  \<open>-forward:\<close> of the superclass, for all other selectors, raises.
\<close>

definition send :: "dynamic_class \<Rightarrow> (uint32 \<Rightarrow> dynamic_state \<Rightarrow> (accessor option \<times> dynamic_state) outcome)
    \<Rightarrow> uint32 \<Rightarrow> ref \<Rightarrow> dynamic_state \<Rightarrow> (ref \<times> dynamic_state) outcome" where
  "send E create_accessors cmd param s =
     (case methods s cmd of
        Some imp \<Rightarrow> call_accessor E imp cmd param s
      | None \<Rightarrow>
          (case MulleDynamicObjectForward True (method_forwarding E create_accessors) (\<lambda>_. cls E) 1 cmd param s of
             Done (Some r, s) \<Rightarrow> Done (r, s)
           | _ \<Rightarrow> Abort))"

end
