(* ===== verification/DynamicProps.thy ===== *)
theory DynamicProps
  imports DynamicAccessors
begin

text \<open>
  Properties of dynamic objects: which references and strings the values of an object hold, that every message to a declared
  accessor returns and keeps the books, and that finalizing gives everything back.
\<close>

section \<open>What is acquired and given back\<close>

fun gains :: "dynamic_event \<Rightarrow> ref option" where
  "gains (Retained x) = Some x"
| "gains (Copied _ c) = Some c"
| "gains (Made v) = Some v"
| "gains _ = None"

fun loses :: "dynamic_event \<Rightarrow> ref option" where
  "loses (Autoreleased x) = Some x"
| "loses _ = None"

fun duplicates :: "dynamic_event \<Rightarrow> ref option" where
  "duplicates (Duplicated _ d) = Some d"
| "duplicates _ = None"

fun frees :: "dynamic_event \<Rightarrow> ref option" where
  "frees (Freed x) = Some x"
| "frees _ = None"

text \<open>How often a value is stored under the keys of a kind.\<close>

definition holding :: "(uint32 \<Rightarrow> bool) \<Rightarrow> (uint32 \<Rightarrow> ref) \<Rightarrow> ref \<Rightarrow> nat" where
  "holding K m x = card {k. K k \<and> m k = x}"

lemma holding_update:
  assumes "K k"
  shows "holding K (m(k := v)) x + (if m k = x then 1 else 0) = holding K m x + (if v = x then 1 else 0)"
proof -
  let ?A = "{j. K j \<and> j \<noteq> k \<and> m j = x}"
  have "{j. K j \<and> (m(k := v)) j = x} = (if v = x then insert k ?A else ?A)"
    and "{j. K j \<and> m j = x} = (if m k = x then insert k ?A else ?A)"
    using assms by auto
  then show ?thesis by (simp add: holding_def)
qed

lemma holding_other [simp]: "\<not> K k \<Longrightarrow> holding K (m(k := v)) x = holding K m x"
  by (simp add: holding_def) (metis fun_upd_def)

lemma holding_nothing: "x \<noteq> 0 \<Longrightarrow> holding K (\<lambda>_. 0) x = 0"
  by (simp add: holding_def)

section \<open>Declared properties\<close>

definition declared :: "dynamic_class \<Rightarrow> dynamic_property list" where
  "declared E = map fst (walk E (cls E))"

definition selectors :: "dynamic_property \<Rightarrow> uint32 list" where
  "selectors p = filter (\<lambda>sel. sel \<noteq> 0) [getter p, setter p, adder p, remover p]"

text \<open>
  What the compiler and the runtime see to: the accessors of the properties of a class are different selectors, they have
  descriptors, adders and removers belong to containers of objects.  Properties are not \<open>assign\<close>, and no other
  library supplies implementations.
\<close>

definition fit :: "dynamic_class \<Rightarrow> dynamic_property \<Rightarrow> bool" where
  "fit E p \<longleftrightarrow>
     is_dynamic p \<and> getter p \<noteq> 0 \<and> getter p \<noteq> invalid_methodid E
     \<and> list_all (has_descriptor E) (selectors p)
     \<and> GenericTypeOfProperty (type_of_char E) p \<noteq> MulleObjCGenericTypeAssign
     \<and> (setter p = 0 \<and> adder p = 0 \<and> remover p = 0 \<or> \<not> is_readonly p)
     \<and> (adder p = 0 \<and> remover p = 0 \<or> is_container p \<and> container_type (type_of_char E) p)
     \<and> NSValueSetterImplementationForProperty (value_imps E) p = 0
     \<and> NSValueGetterImplementationForProperty (value_imps E) p = 0
     \<and> NSNumberSetterImplementationForProperty (value_imps E) p = 0
     \<and> NSNumberGetterImplementationForProperty (value_imps E) p = 0"

definition well_declared :: "dynamic_class \<Rightarrow> bool" where
  "well_declared E \<longleftrightarrow>
     cls E \<noteq> 0 \<and> distinct (concat (map selectors (declared E))) \<and> list_all (fit E) (declared E)"

lemma distinct_concat_same:
  "distinct (concat (map f xs)) \<Longrightarrow> x \<in> set xs \<Longrightarrow> y \<in> set xs \<Longrightarrow> a \<in> set (f x) \<Longrightarrow> a \<in> set (f y) \<Longrightarrow> x = y"
  by (induction xs) auto

lemma set_selectors:
  "sel \<in> set (selectors p) \<longleftrightarrow> sel \<noteq> 0 \<and> (sel = getter p \<or> sel = setter p \<or> sel = adder p \<or> sel = remover p)"
  unfolding selectors_def set_filter by auto

lemma accessor_selector_simps [simp]:
  "accessor_selector p AccessorGetter = getter p" "accessor_selector p AccessorSetter = setter p"
  "accessor_selector p AccessorAdder = adder p" "accessor_selector p AccessorRemover = remover p"
  by (simp_all add: accessor_selector_def)

lemma accessor_selector_mem: "accessor_selector p a \<noteq> 0 \<Longrightarrow> accessor_selector p a \<in> set (selectors p)"
  by (cases a) (simp_all add: set_selectors)

lemma selectors_accessor:
  assumes "sel \<in> set (selectors p)"
  obtains a where "sel = accessor_selector p a"
  using assms accessor_selector_simps [of p, symmetric] unfolding set_selectors by metis

lemma search_hits_selector: "sel \<noteq> 0 \<Longrightarrow> search_methodid sel p \<Longrightarrow> sel \<in> set (selectors p)"
  by (auto simp: search_methodid_def set_selectors split: if_splits)

lemma fit_hits: "fit E p \<Longrightarrow> sel \<in> set (selectors p) \<Longrightarrow> search_methodid sel p"
  by (auto simp: fit_def search_methodid_def set_selectors)

lemma find_unique:
  assumes "x \<in> set xs" and "P x" and "\<And>y. y \<in> set xs \<Longrightarrow> P y \<Longrightarrow> f y = f x"
  shows "\<exists>y. find P xs = Some y \<and> f y = f x"
proof -
  obtain y where "find P xs = Some y"
    using assms(1,2) by (metis find_None_iff not_None_eq)
  then show ?thesis
    using assms(3) by (auto simp: find_Some_iff)
qed

text \<open>The search finds the property that declares the selector.\<close>

lemma search_declared:
  assumes "well_declared E" and "p \<in> set (declared E)" and "sel \<in> set (selectors p)"
  shows "ClassPointerSearchDynamicProperty (walk E) (cls E) sel = (Some p, cls E)"
proof -
  let ?P = "\<lambda>(q, _). search_methodid sel q"
  obtain c where c: "(p, c) \<in> set (walk E (cls E))"
    using assms(2) by (auto simp: declared_def)
  have "fit E p" and sel: "sel \<noteq> 0"
    using assms by (simp_all add: well_declared_def list_all_iff set_selectors)
  then have "?P (p, c)"
    using assms(3) fit_hits by simp
  moreover have "fst y = fst (p, c)" if "y \<in> set (walk E (cls E))" and "?P y" for y
  proof -
    have "fst y \<in> set (declared E)" "sel \<in> set (selectors (fst y))"
      using that search_hits_selector [OF sel] by (auto simp: declared_def)
    then show ?thesis
      using distinct_concat_same [of selectors "declared E" "fst y" p sel] assms by (simp add: well_declared_def)
  qed
  ultimately obtain d where "find ?P (walk E (cls E)) = Some (p, d)"
    using find_unique [OF c, of ?P fst] by (metis fst_conv prod.collapse)
  then show ?thesis
    using assms(1) by (simp add: ClassPointerSearchDynamicProperty_def well_declared_def)
qed

section \<open>The invariant\<close>

definition imp_of :: "dynamic_class \<Rightarrow> dynamic_property \<Rightarrow> accessor_type \<Rightarrow> accessor" where
  "imp_of E p a =
     (case a of
        AccessorGetter \<Rightarrow> init_getter (type_of_char E) (value_imps E) p
      | AccessorSetter \<Rightarrow> setter_imp (type_of_char E) (value_imps E) p
      | AccessorAdder \<Rightarrow> adder_imp p
      | AccessorRemover \<Rightarrow> remover_imp p)"

definition method_ok :: "dynamic_class \<Rightarrow> getter_lookup \<Rightarrow> uint32 \<Rightarrow> accessor \<Rightarrow> bool" where
  "method_ok E table sel imp \<longleftrightarrow>
     (\<exists>p \<in> set (declared E). \<exists>a. sel = accessor_selector p a \<and> sel \<noteq> 0 \<and> imp = imp_of E p a
        \<and> (a = AccessorGetter \<or> table sel = getter p))"

definition table_ok :: "dynamic_class \<Rightarrow> getter_lookup \<Rightarrow> bool" where
  "table_ok E table \<longleftrightarrow>
     (\<forall>sel. table sel \<noteq> 0 \<longrightarrow> (\<exists>p \<in> set (declared E). sel \<in> set (selectors p) \<and> table sel = getter p))"

definition methods_ok :: "dynamic_class \<Rightarrow> class_methods \<Rightarrow> getter_lookup \<Rightarrow> bool" where
  "methods_ok E ms table \<longleftrightarrow> (\<forall>sel imp. ms sel = Some imp \<longrightarrow> method_ok E table sel imp)"

text \<open>Which keys hold a reference to an object, and which a string.\<close>

definition owns_object :: "dynamic_class \<Rightarrow> uint32 \<Rightarrow> bool" where
  "owns_object E k =
     (case fst (ClassPointerSearchDynamicProperty (walk E) (cls E) k) of
        Some p \<Rightarrow> GenericTypeOfProperty (type_of_char E) p \<notin> {MulleObjCGenericTypeVoidPointer, MulleObjCGenericTypeStrdup}
      | None \<Rightarrow> True)"

definition owns_string :: "dynamic_class \<Rightarrow> uint32 \<Rightarrow> bool" where
  "owns_string E k =
     (case fst (ClassPointerSearchDynamicProperty (walk E) (cls E) k) of
        Some p \<Rightarrow> GenericTypeOfProperty (type_of_char E) p = MulleObjCGenericTypeStrdup
      | None \<Rightarrow> False)"

definition balanced :: "dynamic_class \<Rightarrow> dynamic_state \<Rightarrow> bool" where
  "balanced E s \<longleftrightarrow>
     (\<forall>x. x \<noteq> 0 \<longrightarrow>
        times gains (events s) x = times loses (events s) x + holding (owns_object E) (ivars s) x
        \<and> times duplicates (events s) x = times frees (events s) x + holding (owns_string E) (ivars s) x)"

definition object_ok :: "dynamic_class \<Rightarrow> dynamic_state \<Rightarrow> bool" where
  "object_ok E s \<longleftrightarrow> table_ok E (getter_of s) \<and> methods_ok E (methods s) (getter_of s) \<and> balanced E s"

section \<open>Every accessor keeps the books\<close>

lemma state_simps [simp]:
  "ivars (happens e s) = ivars s" "events (happens e s) = events s @ [e]"
  "methods (happens e s) = methods s" "getter_of (happens e s) = getter_of s"
  "ivars (set_value k v s) = (ivars s)(k := v)" "events (set_value k v s) = events s"
  "methods (set_value k v s) = methods s" "getter_of (set_value k v s) = getter_of s"
  "get s k = ivars s k"
  by (simp_all add: happens_def set_value_def get_def)

lemma effect_simps [simp]:
  "ivars (autorelease x s) = ivars s" "methods (autorelease x s) = methods s" "getter_of (autorelease x s) = getter_of s"
  "ivars (free x s) = ivars s" "methods (free x s) = methods s" "getter_of (free x s) = getter_of s"
  "ivars (retain x s) = ivars s" "methods (retain x s) = methods s" "getter_of (retain x s) = getter_of s"
  "ivars (tell_container e c x s) = ivars s" "methods (tell_container e c x s) = methods s"
  "getter_of (tell_container e c x s) = getter_of s"
  by (simp_all add: autorelease_def free_def retain_def tell_container_def)

lemma copy_simps [simp]:
  "ivars (snd (copy E x s)) = ivars s" "methods (snd (copy E x s)) = methods s" "getter_of (snd (copy E x s)) = getter_of s"
  by (simp_all add: copy_def Let_def)

lemma owns_one: "owns_object E k \<Longrightarrow> \<not> owns_string E k"
  by (simp add: owns_object_def owns_string_def split: option.splits)

definition silent :: "dynamic_event \<Rightarrow> bool" where
  "silent e \<longleftrightarrow> gains e = None \<and> loses e = None \<and> duplicates e = None \<and> frees e = None"

lemma balanced_silent [simp]: "silent e \<Longrightarrow> balanced E (happens e s) = balanced E s"
  by (simp add: balanced_def silent_def)

lemma silent_simps [simp]:
  "silent Will_change" "silent (Will_read x y)" "silent (Added x y)" "silent (Removed x y)" "silent (Asked_value x y)"
  by (simp_all add: silent_def)

lemma balanced_tell [simp]: "silent (e c x) \<Longrightarrow> balanced E (tell_container e c x s) = balanced E s"
  by (simp add: tell_container_def)

text \<open>A new reference \<open>v\<close> goes under a key, and the old one is given back.\<close>

definition took :: "ref \<Rightarrow> dynamic_state \<Rightarrow> dynamic_state \<Rightarrow> bool" where
  "took v s s' \<longleftrightarrow> ivars s' = ivars s \<and>
     (\<forall>x. x \<noteq> 0 \<longrightarrow> times gains (events s') x = times gains (events s) x + (if v = x then 1 else 0)
        \<and> times loses (events s') x = times loses (events s) x
        \<and> times duplicates (events s') x = times duplicates (events s) x
        \<and> times frees (events s') x = times frees (events s) x)"

lemma took_intros:
  "took v s (retain v s)" "took (fst (copy E x s)) s (snd (copy E x s))" "took v s (happens (Made v) s)"
  by (simp_all add: took_def retain_def copy_def Let_def)

lemma balanced_put_object:
  assumes "balanced E s" and "owns_object E k" and "took v s s'"
  shows "balanced E (autorelease (ivars s k) (set_value k v s'))"
  unfolding balanced_def
proof (intro allI impI conjI)
  fix x :: ref assume x: "x \<noteq> 0"
  note update = holding_update [where K = "owns_object E" and m = "ivars s" and v = v and x = x, OF assms(2)]
  have "times loses (events (autorelease (ivars s k) (set_value k v s'))) x
      = times loses (events s) x + (if ivars s k = x then 1 else 0)"
    and "times gains (events (autorelease (ivars s k) (set_value k v s'))) x
      = times gains (events s) x + (if v = x then 1 else 0)"
    using assms(3) x by (auto simp: took_def autorelease_def)
  then show "times gains (events (autorelease (ivars s k) (set_value k v s'))) x
      = times loses (events (autorelease (ivars s k) (set_value k v s'))) x
        + holding (owns_object E) (ivars (autorelease (ivars s k) (set_value k v s'))) x"
    using assms(1,3) update x unfolding balanced_def took_def by (simp del: One_nat_def)
  show "times duplicates (events (autorelease (ivars s k) (set_value k v s'))) x
      = times frees (events (autorelease (ivars s k) (set_value k v s'))) x
        + holding (owns_string E) (ivars (autorelease (ivars s k) (set_value k v s'))) x"
    using assms(1,3) owns_one [OF assms(2)] x by (simp add: balanced_def took_def autorelease_def)
qed

lemma balanced_put_string:
  assumes "balanced E s" and "owns_string E k"
  shows "balanced E (free (ivars s k) (set_value k v (happens (Duplicated y v) s)))"
  unfolding balanced_def
proof (intro allI impI conjI)
  fix x :: ref assume x: "x \<noteq> 0"
  let ?s = "free (ivars s k) (set_value k v (happens (Duplicated y v) s))"
  note update = holding_update [where K = "owns_string E" and m = "ivars s" and v = v and x = x, OF assms(2)]
  have "times frees (events ?s) x = times frees (events s) x + (if ivars s k = x then 1 else 0)"
    and "times duplicates (events ?s) x = times duplicates (events s) x + (if v = x then 1 else 0)"
    using x by (auto simp: free_def)
  then show "times duplicates (events ?s) x = times frees (events ?s) x + holding (owns_string E) (ivars ?s) x"
    using assms(1) update x unfolding balanced_def by (simp del: One_nat_def)
  have "\<not> owns_object E k" using assms(2) owns_one by blast
  then show "times gains (events ?s) x = times loses (events ?s) x + holding (owns_object E) (ivars ?s) x"
    using assms(1) x by (simp add: balanced_def free_def)
qed

lemma balanced_put_plain:
  "balanced E s \<Longrightarrow> \<not> owns_object E k \<Longrightarrow> \<not> owns_string E k \<Longrightarrow> balanced E (set_value k v s)"
  by (simp add: balanced_def)

lemma times_effects [simp]:
  "times f (events (autorelease x s)) y = times f (events s) y + (if x \<noteq> 0 \<and> f (Autoreleased x) = Some y then 1 else 0)"
  "times f (events (retain x s)) y = times f (events s) y + (if x \<noteq> 0 \<and> f (Retained x) = Some y then 1 else 0)"
  by (simp_all add: autorelease_def retain_def)

lemma balanced_cong:
  "balanced E s \<Longrightarrow> ivars s' = ivars s \<Longrightarrow> (\<And>f x. times f (events s') x = times (f :: dynamic_event \<Rightarrow> ref option) (events s) x) \<Longrightarrow>
    balanced E s'"
  by (simp add: balanced_def)

text \<open>What an accessor leaves behind: it returns, the books balance, and the class is as before.\<close>

definition fine :: "dynamic_class \<Rightarrow> dynamic_state \<Rightarrow> dynamic_state outcome \<Rightarrow> bool" where
  "fine E s r \<longleftrightarrow>
     (case r of Abort \<Rightarrow> False
      | Done s' \<Rightarrow> balanced E s' \<and> methods s' = methods s \<and> getter_of s' = getter_of s)"

lemma fine_Done [simp]:
  "fine E s (Done s') \<longleftrightarrow> balanced E s' \<and> methods s' = methods s \<and> getter_of s' = getter_of s"
  by (simp add: fine_def)

lemma fine_happens: "fine E (happens e s) r = fine E s r"
  by (simp add: fine_def split: outcome.splits)

lemma key_for_registered:
  "getter_of s sel = getter p \<Longrightarrow> fit E p \<Longrightarrow> key_for E s sel = Done (getter p)"
  by (simp add: key_for_def GetKeyForSelector_def fit_def)

lemma owns_declared:
  assumes "well_declared E" and "p \<in> set (declared E)"
  shows "owns_object E (getter p) \<longleftrightarrow>
      GenericTypeOfProperty (type_of_char E) p \<notin> {MulleObjCGenericTypeVoidPointer, MulleObjCGenericTypeStrdup}"
    and "owns_string E (getter p) \<longleftrightarrow> GenericTypeOfProperty (type_of_char E) p = MulleObjCGenericTypeStrdup"
proof -
  have "getter p \<in> set (selectors p)"
    using assms by (simp add: set_selectors well_declared_def list_all_iff fit_def)
  then show "owns_object E (getter p) \<longleftrightarrow>
      GenericTypeOfProperty (type_of_char E) p \<notin> {MulleObjCGenericTypeVoidPointer, MulleObjCGenericTypeStrdup}"
    and "owns_string E (getter p) \<longleftrightarrow> GenericTypeOfProperty (type_of_char E) p = MulleObjCGenericTypeStrdup"
    using search_declared [OF assms] by (simp_all add: owns_object_def owns_string_def)
qed

lemma fine_retain_setter:
  "key_for E s cmd = Done k \<Longrightarrow> owns_object E k \<Longrightarrow> balanced E s \<Longrightarrow> fine E s (retain_setter E cmd param s)"
  using balanced_put_object [OF _ _ took_intros(1)]
  by (simp add: retain_setter_def update_def key_for_def)

lemma fine_copy_setter:
  "key_for E s cmd = Done k \<Longrightarrow> owns_object E k \<Longrightarrow> balanced E s \<Longrightarrow> fine E s (copy_setter E cmd param s)"
  using balanced_put_object [OF _ _ took_intros(2) [of E param s]]
  by (simp add: copy_setter_def update_def key_for_def case_prod_beta)

lemma fine_generic_value_setter:
  "key_for E s cmd = Done k \<Longrightarrow> owns_object E k \<Longrightarrow> balanced E s \<Longrightarrow>
    ClassPointerSearchDynamicProperty (walk E) (cls E) k = (Some p, c) \<Longrightarrow>
    fine E s (generic_value_setter E cmd param s)"
  using balanced_put_object [OF _ _ took_intros(3)]
  by (simp add: generic_value_setter_def update_def Let_def)

lemma fine_strdup_setter:
  "key_for E s cmd = Done k \<Longrightarrow> owns_string E k \<Longrightarrow> balanced E s \<Longrightarrow> fine E s (strdup_setter E cmd param s)"
  using balanced_put_string by (simp add: strdup_setter_def update_def Let_def)

lemma fine_void_pointer_setter:
  "key_for E s cmd = Done k \<Longrightarrow> \<not> owns_object E k \<Longrightarrow> \<not> owns_string E k \<Longrightarrow> balanced E s \<Longrightarrow>
    fine E s (void_pointer_setter E cmd param s)"
  using balanced_put_plain by (simp add: void_pointer_setter_def)

lemma retain_getter_keeps:
  assumes "owns_object E k" and "balanced E s"
  shows "balanced E (snd (retain_getter_will_read E k s))"
    and "methods (snd (retain_getter_will_read E k s)) = methods s"
    and "getter_of (snd (retain_getter_will_read E k s)) = getter_of s"
proof -
  let ?v = "will_read E (events s) (ivars s k)" and ?s = "happens (Will_read (ivars s k) (will_read E (events s) (ivars s k))) s"
  have "balanced E (autorelease (ivars ?s k) (set_value k ?v (retain ?v ?s)))"
    using assms by (intro balanced_put_object) (simp_all add: took_intros)
  then have "balanced E (set_value k ?v (retain ?v (autorelease (ivars s k) ?s)))"
    by (rule balanced_cong) simp_all
  then show "balanced E (snd (retain_getter_will_read E k s))"
    using assms(2) by (simp add: retain_getter_will_read_def Let_def)
qed (simp_all add: retain_getter_will_read_def Let_def)

lemma fine_container:
  assumes "key_for E s cmd = Done k" and "balanced E s"
  shows "fine E s (adder_call E cmd param s)" and "fine E s (remover_call E cmd param s)"
    and "owns_object E k \<Longrightarrow> fine E s (adder_will_read E cmd param s)"
    and "owns_object E k \<Longrightarrow> fine E s (remover_will_read E cmd param s)"
  using assms retain_getter_keeps [of E k s]
  by (simp_all add: adder_call_def remover_call_def adder_will_read_def remover_will_read_def case_prod_beta)

definition state_of :: "(ref \<times> dynamic_state) outcome \<Rightarrow> dynamic_state outcome" where
  "state_of r = (case r of Abort \<Rightarrow> Abort | Done (_, s) \<Rightarrow> Done s)"

lemma state_of_simps [simp]: "state_of (quiet r) = r" "state_of (Done v) = Done (snd v)"
  by (simp_all add: state_of_def quiet_def split: outcome.splits prod.splits)

lemmas fine_setters = fine_retain_setter fine_copy_setter fine_generic_value_setter fine_strdup_setter
  fine_void_pointer_setter fine_container

lemma declared_fit: "well_declared E \<Longrightarrow> p \<in> set (declared E) \<Longrightarrow> fit E p"
  by (simp add: well_declared_def list_all_iff)

lemma getter_selector: "fit E p \<Longrightarrow> getter p \<in> set (selectors p)"
  by (simp add: set_selectors fit_def)

lemma getter_call_fine:
  assumes "well_declared E" and "p \<in> set (declared E)" and "balanced E s"
  shows "fine E s (state_of (call_accessor E (imp_of E p AccessorGetter) (getter p) param s))"
  using owns_declared [OF assms(1,2)] retain_getter_keeps [of E "getter p" s] declared_fit [OF assms(1,2)] assms(3)
  by (cases "GenericTypeOfProperty (type_of_char E) p")
     (simp_all add: imp_of_def init_getter_def call_accessor_def void_pointer_getter_def value_getter_call_def
        value_getter_def fit_def Let_def)

lemma setter_call_fine:
  assumes "well_declared E" and "p \<in> set (declared E)" and "balanced E s" and "getter_of s (setter p) = getter p"
  shows "fine E s (state_of (call_accessor E (imp_of E p AccessorSetter) (setter p) param s))"
proof -
  note fits = declared_fit [OF assms(1,2)]
  have key: "key_for E s (setter p) = Done (getter p)" "key_for E (happens Will_change s) (setter p) = Done (getter p)"
    using key_for_registered [OF _ fits] assms by simp_all
  note found = search_declared [OF assms(1,2) getter_selector [OF fits]]
  have s': "balanced E (happens Will_change s)" using assms(3) by simp
  show ?thesis
    using owns_declared [OF assms(1,2)] fine_setters [OF key(1)] fine_setters [OF key(2)] found fits assms(3) s'
    by (cases "GenericTypeOfProperty (type_of_char E) p")
       (simp_all add: imp_of_def setter_imp_def call_accessor_def value_setter_def fit_def Let_def fine_happens)
qed

lemma container_call_fine:
  assumes "well_declared E" and "p \<in> set (declared E)" and "balanced E s"
  shows "adder p \<noteq> 0 \<Longrightarrow> getter_of s (adder p) = getter p \<Longrightarrow>
      fine E s (state_of (call_accessor E (imp_of E p AccessorAdder) (adder p) param s))"
    and "remover p \<noteq> 0 \<Longrightarrow> getter_of s (remover p) = getter p \<Longrightarrow>
      fine E s (state_of (call_accessor E (imp_of E p AccessorRemover) (remover p) param s))"
proof -
  note fits = declared_fit [OF assms(1,2)]
  have s': "balanced E (happens Will_change s)" using assms(3) by simp
  have owned: "owns_object E (getter p)" if "adder p \<noteq> 0 \<or> remover p \<noteq> 0"
    using that fits owns_declared(1) [OF assms(1,2)] by (auto simp: fit_def container_type_def)
  show "fine E s (state_of (call_accessor E (imp_of E p AccessorAdder) (adder p) param s))"
    if "adder p \<noteq> 0" "getter_of s (adder p) = getter p"
    using fine_container [OF key_for_registered [OF that(2) fits] assms(3)]
      fine_container [OF key_for_registered [of "happens Will_change s", OF _ fits] s'] owned that
    by (simp add: imp_of_def adder_imp_def call_accessor_def fine_happens)
  show "fine E s (state_of (call_accessor E (imp_of E p AccessorRemover) (remover p) param s))"
    if "remover p \<noteq> 0" "getter_of s (remover p) = getter p"
    using fine_container [OF key_for_registered [OF that(2) fits] assms(3)]
      fine_container [OF key_for_registered [of "happens Will_change s", OF _ fits] s'] owned that
    by (simp add: imp_of_def remover_imp_def call_accessor_def fine_happens)
qed

lemma accessor_call_fine:
  assumes "well_declared E" and "method_ok E (getter_of s) sel imp" and "balanced E s"
  shows "fine E s (state_of (call_accessor E imp sel param s))"
proof -
  obtain p a where p: "p \<in> set (declared E)" and a: "sel = accessor_selector p a" "sel \<noteq> 0" "imp = imp_of E p a"
      "a = AccessorGetter \<or> getter_of s sel = getter p"
    using assms(2) unfolding method_ok_def by blast
  show ?thesis
    using a getter_call_fine [OF assms(1) p assms(3)] setter_call_fine [OF assms(1) p assms(3)]
      container_call_fine [OF assms(1) p assms(3)]
    by (cases a) simp_all
qed

section \<open>Making the methods of a property\<close>

text \<open>Registering can not fail, and finds the getter afterwards.\<close>

lemma register_declared:
  assumes "well_declared E" and "p \<in> set (declared E)" and "sel \<in> set (selectors p)" and "table_ok E table"
  shows "register_getter_lookup sel p table = Done (table(sel := getter p))" (is ?done)
    and "table_ok E (table(sel := getter p))"
    and "table sel' \<noteq> 0 \<Longrightarrow> (table(sel := getter p)) sel' = table sel'"
proof -
  have same: "table sel = getter p" if set: "table sel \<noteq> 0"
  proof -
    obtain q where q: "q \<in> set (declared E)" "sel \<in> set (selectors q)" "table sel = getter q"
      using assms(4) set unfolding table_ok_def by blast
    then have "q = p"
      using distinct_concat_same [of selectors "declared E" q p sel] assms(1-3) by (simp add: well_declared_def)
    then show ?thesis using q by simp
  qed
  then show ?done
    by (auto simp: register_getter_lookup_def Let_def fun_upd_idem)
  show "table_ok E (table(sel := getter p))"
    using assms(2-4) by (auto simp: table_ok_def)
  show "(table(sel := getter p)) sel' = table sel'" if "table sel' \<noteq> 0"
    using same that by auto
qed

lemma init_accessor_declared:
  assumes "well_declared E" and "p \<in> set (declared E)" and "accessor_selector p a \<noteq> 0" and "table_ok E table"
  shows "init_accessor (type_of_char E) (value_imps E) p a table
      = Done (imp_of E p a, if a = AccessorGetter then table else table(accessor_selector p a := getter p))"
proof -
  note register = register_declared(1) [OF assms(1,2) accessor_selector_mem [OF assms(3)] assms(4)]
  show ?thesis
    using declared_fit [OF assms(1,2)] register assms(3)
    by (cases a) (simp_all add: init_accessor_def init_setter_def init_adder_def init_remover_def registered_def
        imp_of_def fit_def)
qed

text \<open>The new methods do what they are meant to, and what was registered before stays.\<close>

definition extends :: "getter_lookup \<Rightarrow> getter_lookup \<Rightarrow> bool" where
  "extends table table' \<longleftrightarrow> (\<forall>sel. table sel \<noteq> 0 \<longrightarrow> table' sel = table sel)"

lemma init_accessors_declared:
  assumes "well_declared E" and "p \<in> set (declared E)"
  shows "\<forall>a \<in> set as. accessor_selector p a \<noteq> 0 \<Longrightarrow> table_ok E table \<Longrightarrow>
    \<exists>table'. init_accessors (type_of_char E) (value_imps E) p as table
        = Done (map (\<lambda>a. (accessor_selector p a, imp_of E p a)) as, table')
      \<and> table_ok E table' \<and> extends table table'
      \<and> (\<forall>a \<in> set as. a = AccessorGetter \<or> table' (accessor_selector p a) = getter p)"
proof (induction as arbitrary: table)
  case (Cons a as)
  define new where "new = (if a = AccessorGetter then table else table(accessor_selector p a := getter p))"
  have a: "accessor_selector p a \<noteq> 0" using Cons.prems by simp
  note register = register_declared(2,3) [OF assms accessor_selector_mem [OF a] Cons.prems(2)]
  have "table_ok E new" and new: "extends table new" "a = AccessorGetter \<or> new (accessor_selector p a) = getter p"
    using register Cons.prems(2) by (simp_all add: new_def extends_def)
  then obtain table' where t: "init_accessors (type_of_char E) (value_imps E) p as new
        = Done (map (\<lambda>a. (accessor_selector p a, imp_of E p a)) as, table')" "table_ok E table'" "extends new table'"
      "\<forall>a \<in> set as. a = AccessorGetter \<or> table' (accessor_selector p a) = getter p"
    using Cons.IH [of new] Cons.prems(1) by auto
  have "getter p \<noteq> 0" using declared_fit [OF assms] by (simp add: fit_def)
  then have "a = AccessorGetter \<or> table' (accessor_selector p a) = getter p"
    using t(3) new(2) unfolding extends_def by metis
  moreover have "extends table table'"
    using t(3) new(1) unfolding extends_def by metis
  ultimately show ?case
    using t init_accessor_declared [OF assms a Cons.prems(2)] by (auto simp: new_def)
qed (simp add: extends_def)

lemma method_ok_extends:
  assumes "method_ok E table sel imp" and "extends table table'" and "well_declared E"
  shows "method_ok E table' sel imp"
proof -
  obtain p a where p: "p \<in> set (declared E)" "sel = accessor_selector p a" "sel \<noteq> 0" "imp = imp_of E p a"
      "a = AccessorGetter \<or> table sel = getter p"
    using assms(1) unfolding method_ok_def by blast
  have "getter p \<noteq> 0" using declared_fit [OF assms(3) p(1)] by (simp add: fit_def)
  then have "a = AccessorGetter \<or> table' sel = getter p"
    using p(5) assms(2) unfolding extends_def by metis
  then show ?thesis using p unfolding method_ok_def by blast
qed

lemma create_methods_declared:
  assumes "well_declared E" and "p \<in> set (declared E)" and "sel \<in> set (selectors p)"
    and "ms sel = None" and "table_ok E table" and "methods_ok E ms table"
  shows "\<exists>imp ms' table'. create_methods_for_property (type_of_char E) (value_imps E) (has_descriptor E) p sel (ms, table)
      = Done (imp, ms', table') \<and> table_ok E table' \<and> methods_ok E ms' table' \<and> method_ok E table' sel imp"
proof -
  let ?as = "missing_accessors ms p"
  let ?new = "map (\<lambda>a. (accessor_selector p a, imp_of E p a)) ?as"
  obtain b where b: "sel = accessor_selector p b" and "sel \<noteq> 0"
    using assms(3) selectors_accessor by (metis set_selectors)
  then have mem: "b \<in> set ?as"
    using assms(4) by (cases b) (simp_all add: missing_accessors_def)
  have nz: "\<forall>a \<in> set ?as. accessor_selector p a \<noteq> 0"
    by (simp add: missing_accessors_def)
  then have "\<forall>a \<in> set ?as. has_descriptor E (accessor_selector p a)"
    using declared_fit [OF assms(1,2)] accessor_selector_mem by (auto simp: fit_def list_all_iff)
  then have described: "filter (\<lambda>a. has_descriptor E (accessor_selector p a)) ?as = ?as"
    by (simp add: filter_id_conv)
  obtain table' where t: "init_accessors (type_of_char E) (value_imps E) p ?as table = Done (?new, table')"
      "table_ok E table'" "extends table table'"
      "\<forall>a \<in> set ?as. a = AccessorGetter \<or> table' (accessor_selector p a) = getter p"
    using init_accessors_declared [OF assms(1,2) nz assms(5)] by blast
  have new_ok: "method_ok E table' s i" if "map_of ?new s = Some i" for s i
    using map_of_SomeD [OF that] t(4) nz assms(2) unfolding method_ok_def by auto
  obtain imp where imp: "map_of ?new sel = Some imp"
    using mem b by (metis (no_types, lifting) image_eqI map_of_eq_None_iff not_None_eq set_map fst_conv)
  have "methods_ok E (ms ++ map_of ?new) table'"
    using new_ok method_ok_extends [OF _ t(3) assms(1)] assms(6)
    by (auto simp: methods_ok_def map_add_Some_iff)
  moreover have "\<not> (\<exists>a \<in> {AccessorGetter, AccessorSetter, AccessorAdder, AccessorRemover}.
      accessor_selector p a \<noteq> 0 \<and> ms (accessor_selector p a) \<noteq> None \<and> accessor_selector p a = sel)"
    using assms(4) by auto
  moreover have "?as \<noteq> []" using mem by auto
  ultimately have "create_methods_for_property (type_of_char E) (value_imps E) (has_descriptor E) p sel (ms, table)
      = Done (imp, ms ++ map_of ?new, table')"
    by (simp only: create_methods_for_property_def prod.case if_False Let_def described t(1) imp outcome.case option.case)
  then show ?thesis
    using t(2) new_ok [OF imp] \<open>methods_ok E (ms ++ map_of ?new) table'\<close> by blast
qed

end
