(* ===== verification/DynamicSends.thy ===== *)
theory DynamicSends
  imports DynamicProps
begin

text \<open>
  A dynamic object through its life: messages to its accessors, in any order and with methods made on demand, and
  finalization.
\<close>

section \<open>Messages\<close>

lemma forward_declared:
  assumes "well_declared E" and "p \<in> set (declared E)" and "sel \<in> set (selectors p)"
    and "methods s sel = None" and "object_ok E s"
  shows "\<exists>imp ms table. method_ok E table sel imp
      \<and> object_ok E (s\<lparr>methods := ms, getter_of := table\<rparr>)
      \<and> send E C sel param s = call_accessor E imp sel param (s\<lparr>methods := ms, getter_of := table\<rparr>)"
proof -
  have "table_ok E (getter_of s)" "methods_ok E (methods s) (getter_of s)"
    using assms(5) by (simp_all add: object_ok_def)
  from create_methods_declared [OF assms(1-4) this] obtain imp ms table where
    c: "create_methods_for_property (type_of_char E) (value_imps E) (has_descriptor E) p sel (methods s, getter_of s)
        = Done (imp, ms, table)"
    and ok: "table_ok E table" "methods_ok E ms table" "method_ok E table sel imp"
    by blast
  have "object_ok E (s\<lparr>methods := ms, getter_of := table\<rparr>)"
    using assms(5) ok by (simp add: object_ok_def balanced_def)
  moreover have "send E C sel param s = call_accessor E imp sel param (s\<lparr>methods := ms, getter_of := table\<rparr>)"
    using c assms(4) search_declared [OF assms(1-3)]
    by (auto simp: send_def MulleDynamicObjectForward_def method_forwarding_def split: outcome.splits)
  ultimately show ?thesis using ok by blast
qed

text \<open>
  Whether the method is there or is made now, the message is the call of the accessor of a declared property, in
  a state that differs in methods and table only.
\<close>

lemma send_declared:
  assumes "well_declared E" and "p \<in> set (declared E)" and "sel \<in> set (selectors p)" and "object_ok E s"
  shows "\<exists>imp ms table. method_ok E table sel imp
      \<and> object_ok E (s\<lparr>methods := ms, getter_of := table\<rparr>)
      \<and> send E C sel param s = call_accessor E imp sel param (s\<lparr>methods := ms, getter_of := table\<rparr>)"
proof (cases "methods s sel")
  case None
  then show ?thesis using forward_declared [OF assms(1-3) _ assms(4)] by blast
next
  case (Some imp)
  then have "method_ok E (getter_of s) sel imp" using assms(4) by (simp add: object_ok_def methods_ok_def)
  moreover have "s\<lparr>methods := methods s, getter_of := getter_of s\<rparr> = s" by simp
  ultimately show ?thesis using Some assms(4) unfolding send_def by (metis option.simps(5))
qed

lemma send_keeps:
  assumes "well_declared E" and "p \<in> set (declared E)" and "sel \<in> set (selectors p)" and "object_ok E s"
  shows "\<exists>r s'. send E C sel param s = Done (r, s') \<and> object_ok E s'"
proof -
  obtain imp ms table where m: "method_ok E table sel imp"
    and ok: "object_ok E (s\<lparr>methods := ms, getter_of := table\<rparr>)"
    and send: "send E C sel param s = call_accessor E imp sel param (s\<lparr>methods := ms, getter_of := table\<rparr>)"
    using send_declared [OF assms, of C param] by blast
  let ?s = "s\<lparr>methods := ms, getter_of := table\<rparr>"
  have "fine E ?s (state_of (call_accessor E imp sel param ?s))"
    using accessor_call_fine [OF assms(1), of ?s] m ok by (simp add: object_ok_def)
  then show ?thesis
    using ok unfolding send by (auto simp: fine_def state_of_def object_ok_def split: outcome.splits)
qed

definition dynamic_step ::
    "dynamic_class \<Rightarrow> (uint32 \<Rightarrow> dynamic_state \<Rightarrow> (accessor option \<times> dynamic_state) outcome)
      \<Rightarrow> uint32 \<times> ref \<Rightarrow> dynamic_state \<Rightarrow> dynamic_state option" where
  "dynamic_step E C call s =
     (case send E C (fst call) (snd call) s of Abort \<Rightarrow> None | Done (r, s') \<Rightarrow> Some s')"

definition dynamic_legal :: "dynamic_class \<Rightarrow> uint32 \<times> ref \<Rightarrow> dynamic_state \<Rightarrow> bool" where
  "dynamic_legal E call s \<longleftrightarrow> fst call \<in> set (concat (map selectors (declared E)))"

interpretation dynamic: live_invariant "dynamic_step E C" "dynamic_legal E" "\<lambda>s. well_declared E \<and> object_ok E s"
proof unfold_locales
  fix s s' call
  assume ok: "well_declared E \<and> object_ok E s" and legal: "dynamic_legal E call s"
  have sends: "\<exists>r s'. send E C (fst call) (snd call) s = Done (r, s') \<and> object_ok E s'"
    using legal send_keeps ok by (auto simp: dynamic_legal_def)
  then show "\<exists>s'. dynamic_step E C call s = Some s'"
    by (auto simp: dynamic_step_def)
  show "well_declared E \<and> object_ok E s'" if "dynamic_step E C call s = Some s'"
    using sends that ok by (auto simp: dynamic_step_def)
qed

lemma dynamic_legal_run:
  "list_all (\<lambda>call. fst call \<in> set (concat (map selectors (declared E)))) calls \<Longrightarrow>
    legal_run (dynamic_step E C) (dynamic_legal E) calls s"
  by (induction calls arbitrary: s) (auto simp: dynamic_legal_def split: option.splits)

text \<open>\<open>-init\<close>, in a class that has no methods for its properties yet.\<close>

definition init_object :: dynamic_state where
  "init_object = \<lparr>ivars = (\<lambda>_. 0), events = [], methods = (\<lambda>_. None), getter_of = (\<lambda>_. 0)\<rparr>"

lemma init_object_ok: "object_ok E init_object"
  by (simp add: object_ok_def init_object_def table_ok_def methods_ok_def balanced_def holding_nothing)

section \<open>Finalization\<close>

lemma finalize_counts:
  assumes "x \<noteq> 0"
  shows "distinct keys \<Longrightarrow>
    ivars (finalize_values E keys s) = ivars s
    \<and> times gains (events (finalize_values E keys s)) x = times gains (events s) x
    \<and> times duplicates (events (finalize_values E keys s)) x = times duplicates (events s) x
    \<and> times loses (events (finalize_values E keys s)) x
        = times loses (events s) x + card {k \<in> set keys. owns_object E k \<and> ivars s k = x}
    \<and> times frees (events (finalize_values E keys s)) x
        = times frees (events s) x + card {k \<in> set keys. owns_string E k \<and> ivars s k = x}"
proof (induction keys arbitrary: s)
  case (Cons k keys)
  define t where "t = (if ivars s k = 0 then s
    else release_generic_value (type_of_char E) (fst (ClassPointerSearchDynamicProperty (walk E) (cls E) k)) (ivars s k) s)"
  have t: "ivars t = ivars s" "times gains (events t) x = times gains (events s) x"
      "times duplicates (events t) x = times duplicates (events s) x"
      "times loses (events t) x = times loses (events s) x + (if owns_object E k \<and> ivars s k = x then 1 else 0)"
      "times frees (events t) x = times frees (events s) x + (if owns_string E k \<and> ivars s k = x then 1 else 0)"
    using assms
    by (auto simp: t_def release_generic_value_def owns_object_def owns_string_def free_def Let_def split: option.splits)
  have card: "card {j \<in> set (k # keys). P j \<and> ivars s j = x}
      = (if P k \<and> ivars s k = x then 1 else 0) + card {j \<in> set keys. P j \<and> ivars s j = x}" for P
  proof -
    have "{j \<in> set (k # keys). P j \<and> ivars s j = x}
        = (if P k \<and> ivars s k = x then insert k {j \<in> set keys. P j \<and> ivars s j = x}
           else {j \<in> set keys. P j \<and> ivars s j = x})" by auto
    then show ?thesis using Cons.prems by simp
  qed
  have "finalize_values E (k # keys) s = finalize_values E keys t" by (simp add: t_def)
  moreover have "distinct keys" using Cons.prems by simp
  ultimately show ?case
    using Cons.IH [of t] unfolding card t by simp
qed simp

text \<open>The enumerator visits every key that is in the map once, whatever the order.\<close>

definition visits_all :: "((uint32 \<Rightarrow> ref) \<Rightarrow> uint32 list) \<Rightarrow> bool" where
  "visits_all rover \<longleftrightarrow> (\<forall>m. distinct (rover m) \<and> {k. m k \<noteq> 0} \<subseteq> set (rover m))"

lemma finalize_gives_back:
  assumes "object_ok E s" and "visits_all rover" and "x \<noteq> 0"
  shows "times gains (events (finalize E rover s)) x = times loses (events (finalize E rover s)) x"
    and "times duplicates (events (finalize E rover s)) x = times frees (events (finalize E rover s)) x"
proof -
  have rover: "distinct (rover (ivars s))" "\<And>k. ivars s k = x \<Longrightarrow> k \<in> set (rover (ivars s))"
    using assms(2,3) by (auto simp: visits_all_def)
  then have "{k \<in> set (rover (ivars s)). P k \<and> ivars s k = x} = {k. P k \<and> ivars s k = x}" for P
    by auto
  with finalize_counts [OF assms(3) rover(1), of E s] assms(1,3)
  show "times gains (events (finalize E rover s)) x = times loses (events (finalize E rover s)) x"
    and "times duplicates (events (finalize E rover s)) x = times frees (events (finalize E rover s)) x"
    by (simp_all add: finalize_def object_ok_def balanced_def holding_def)
qed

end
