(* ===== verification/DynamicNames.thy ===== *)
theory DynamicNames
  imports DynamicSends "HOL-Library.Sublist" "HOL-Library.Char_ord"
begin

text \<open>
  Fully dynamic objects (\<open>src/class/MulleDynamicObject.m\<close>): accessors for selectors without any declared property, with
  names, signatures and types that are guessed.

  The descriptors that the universe knows, the name of a selector and the selector of a name are parameters, as is
  the parser of signatures.  That the universe remembers a guessed descriptor is not modelled: guessing again
  gives the same one.  A write outside of a buffer and a format that does not fit its arguments are undefined
  behaviour and end the call, as an abort does.
\<close>

section \<open>Kinds of accessors by their names\<close>

definition is_upper :: "char \<Rightarrow> bool" where
  "is_upper c \<longleftrightarrow> CHR ''A'' \<le> c \<and> c \<le> CHR ''Z''"

text \<open>The rest of the name after the prefix has to begin with an uppercase letter.\<close>

definition after_prefix :: "string \<Rightarrow> accessor_type \<Rightarrow> string \<Rightarrow> accessor_type option" where
  "after_prefix cmp a s =
     (if take (length cmp) s \<noteq> cmp then None
      else (case drop (length cmp) s of
              [] \<Rightarrow> None
            | c # _ \<Rightarrow> (if is_upper c then Some a else None)))"

text \<open>\<open>None\<close> is \<open>mulle_objc_property_accessor_invalid\<close>.\<close>

definition accessor_type_from_string :: "string \<Rightarrow> accessor_type option" where
  "accessor_type_from_string name =
     (if CHR '':'' \<notin> set name then Some AccessorGetter
      else if tl (dropWhile (\<lambda>c. c \<noteq> CHR '':'') name) \<noteq> [] then None
      else let expect_uppercase = (take 5 name = ''mulle'');
               s = (if expect_uppercase then drop 5 name else name)
        in case s of
             [] \<Rightarrow> None
           | c # s \<Rightarrow>
               (if c = CHR ''S'' \<and> expect_uppercase \<or> c = CHR ''s'' \<and> \<not> expect_uppercase
                then after_prefix ''et'' AccessorSetter s
                else if c = CHR ''A'' \<and> expect_uppercase \<or> c = CHR ''a'' \<and> \<not> expect_uppercase
                then after_prefix ''ddTo'' AccessorAdder s
                else if c = CHR ''R'' \<and> expect_uppercase \<or> c = CHR ''r'' \<and> \<not> expect_uppercase
                then after_prefix ''emoveFrom'' AccessorRemover s
                else None))"

section \<open>Names of getters and setters\<close>

text \<open>A C string is what comes before the first 0 of its buffer.\<close>

definition nul :: char where
  "nul = CHR 0x00"

definition c_string :: "char list \<Rightarrow> string" where
  "c_string buf = takeWhile (\<lambda>c. c \<noteq> nul) buf"

definition calloc :: "nat \<Rightarrow> char list" where
  "calloc n = replicate n nul"

definition memcpy :: "nat \<Rightarrow> string \<Rightarrow> char list \<Rightarrow> char list outcome" where
  "memcpy i s buf =
     (if i + length s \<le> length buf then Done (take i buf @ s @ drop (i + length s) buf) else Abort)"

text \<open>\<open>c - 'A' + 'a'\<close> in a char.\<close>

definition lowered :: "char \<Rightarrow> char" where
  "lowered c = char_of (((of_char c :: nat) + 32) mod 256)"

definition getter_name :: "string \<Rightarrow> string outcome" where
  "getter_name sel_name =
     (let len = length sel_name in
      if sel_name = [] then Abort
      else if hd sel_name = CHR ''s''
      then (if len < 4 then Abort
            else (case memcpy 0 (take (len - 4) (drop 3 sel_name)) (calloc len) of
                    Abort \<Rightarrow> Abort
                  | Done name \<Rightarrow> Done (c_string (name[0 := lowered (name ! 0)]))))
      else (if len < 9 then Abort
            else (case memcpy 0 (take 5 sel_name) (calloc len) of
                    Abort \<Rightarrow> Abort
                  | Done name \<Rightarrow>
                      (case memcpy 5 (take (len - 9) (drop 8 sel_name)) name of
                         Abort \<Rightarrow> Abort
                       | Done name \<Rightarrow> Done (c_string (name[8 := lowered (name ! 0)]))))))"

definition toupper :: "char \<Rightarrow> char" where
  "toupper c = (if CHR ''a'' \<le> c \<and> c \<le> CHR ''z'' then char_of ((of_char c :: nat) - 32) else c)"

text \<open>\<open>strcpy\<close> and two times \<open>strcat\<close> into a buffer of 3 bytes more than the name, the colon and the 0 need.\<close>

definition is_mulle :: "string \<Rightarrow> bool" where
  "is_mulle sel_name \<longleftrightarrow> take 5 sel_name = ''mulle'' \<and> 5 < length sel_name \<and> is_upper (sel_name ! 5)"

definition setter_name :: "string \<Rightarrow> string outcome" where
  "setter_name sel_name =
     (let prefix = (if is_mulle sel_name then ''mulleSet'' else ''set'')
      in case memcpy 0 (prefix @ sel_name @ '':'' @ [nul]) (calloc (3 + length sel_name + 1 + 1)) of
           Abort \<Rightarrow> Abort
         | Done name \<Rightarrow> Done (c_string (name[length prefix := toupper (name ! length prefix)])))"

section \<open>Descriptors\<close>

datatype family = GetterFamily | SetterFamily | OtherFamily

record descriptor =
  d_name :: string
  d_methodid :: uint32
  d_signature :: string
  d_family :: family

text \<open>
  \<open>argument_type\<close> is the pure type of the first argument after \<open>_cmd\<close>, \<open>return_type\<close> that of the result.
\<close>

record descriptor_env =
  lookup_descriptor :: "uint32 \<Rightarrow> descriptor option"
  search_hashstring :: "uint32 \<Rightarrow> string option"
  methodid_from_string :: "string \<Rightarrow> uint32"
  argument_type :: "string \<Rightarrow> string"
  return_type :: "string \<Rightarrow> string"
  natural_size :: "string \<Rightarrow> nat"

text \<open>What \<open>sprintf\<close> makes of a format and its arguments.\<close>

datatype format = Lit string | Conv_d | Conv_s | Conv_star_s
datatype argument = Int_arg nat | Size_arg nat | Str_arg string

fun decimal :: "nat \<Rightarrow> string" where
  "decimal n = (if n < 10 then [char_of (48 + n)] else decimal (n div 10) @ [char_of (48 + n mod 10)])"

declare decimal.simps [simp del]

definition prepend :: "string \<Rightarrow> string outcome \<Rightarrow> string outcome" where
  "prepend s r = (case r of Abort \<Rightarrow> Abort | Done t \<Rightarrow> Done (s @ t))"

fun sprintf :: "format list \<Rightarrow> argument list \<Rightarrow> string outcome" where
  "sprintf [] as = Done []"
| "sprintf (Lit l # fs) as = prepend l (sprintf fs as)"
| "sprintf (Conv_d # fs) (Int_arg n # as) = prepend (decimal n) (sprintf fs as)"
| "sprintf (Conv_s # fs) (Str_arg s # as) = prepend s (sprintf fs as)"
| "sprintf (Conv_star_s # fs) (Int_arg n # Str_arg s # as) = prepend (take n s) (sprintf fs as)"
| "sprintf (f # fs) as = Abort"

definition create_getter_from_setter :: "descriptor_env \<Rightarrow> descriptor \<Rightarrow> descriptor outcome" where
  "create_getter_from_setter U sd =
     (case getter_name (d_name sd) of
        Abort \<Rightarrow> Abort
      | Done name \<Rightarrow>
          (let arg_s = argument_type U (d_signature sd) in
           case sprintf [Conv_star_s, Conv_d, Lit ''@0:'', Conv_d]
                  [Int_arg (length arg_s), Str_arg arg_s, Int_arg (sizeof_pointer + sizeof_pointer), Int_arg sizeof_pointer] of
             Abort \<Rightarrow> Abort
           | Done sig \<Rightarrow> Done \<lparr>d_name = name, d_methodid = methodid_from_string U name, d_signature = sig, d_family = GetterFamily\<rparr>))"

definition create_setter_from_getter :: "descriptor_env \<Rightarrow> descriptor \<Rightarrow> descriptor outcome" where
  "create_setter_from_getter U gd =
     (case setter_name (d_name gd) of
        Abort \<Rightarrow> Abort
      | Done name \<Rightarrow>
          (case sprintf [Lit ''v'', Conv_d, Lit ''@0:'', Conv_d, Conv_s, Conv_star_s, Conv_d]
                  [Int_arg (natural_size U (d_signature gd) + sizeof_pointer + sizeof_pointer), Int_arg sizeof_pointer,
                   Size_arg (length (return_type U (d_signature gd))), Str_arg (d_signature gd),
                   Int_arg (sizeof_pointer + sizeof_pointer)] of
             Abort \<Rightarrow> Abort
           | Done sig \<Rightarrow> Done \<lparr>d_name = name, d_methodid = methodid_from_string U name, d_signature = sig, d_family = SetterFamily\<rparr>))"

text \<open>Everything is an object.\<close>

definition create_fake_accessor :: "uint32 \<Rightarrow> string \<Rightarrow> descriptor option" where
  "create_fake_accessor methodid name =
     (case accessor_type_from_string name of
        Some AccessorGetter \<Rightarrow>
          Some \<lparr>d_name = name, d_methodid = methodid, d_signature = ''@16@0:8'', d_family = GetterFamily\<rparr>
      | Some AccessorSetter \<Rightarrow>
          Some \<lparr>d_name = name, d_methodid = methodid, d_signature = ''v24@0:8@16'', d_family = SetterFamily\<rparr>
      | _ \<Rightarrow> None)"

section \<open>Methods without a property\<close>

definition needed_descriptor :: "descriptor_env \<Rightarrow> uint32 \<Rightarrow> descriptor option" where
  "needed_descriptor U needed =
     (case lookup_descriptor U needed of
        Some d \<Rightarrow> Some d
      | None \<Rightarrow> (case search_hashstring U needed of None \<Rightarrow> None | Some name \<Rightarrow> create_fake_accessor needed name))"

text \<open>The getter and the setter, of which one is needed; \<open>None\<close> for any other method.\<close>

definition accessor_pair :: "descriptor_env \<Rightarrow> descriptor \<Rightarrow> (descriptor \<times> descriptor) option outcome" where
  "accessor_pair U d =
     (case d_family d of
        SetterFamily \<Rightarrow> (case create_getter_from_setter U d of Abort \<Rightarrow> Abort | Done g \<Rightarrow> Done (Some (g, d)))
      | GetterFamily \<Rightarrow> (case create_setter_from_getter U d of Abort \<Rightarrow> Abort | Done s \<Rightarrow> Done (Some (d, s)))
      | OtherFamily \<Rightarrow> Done None)"

definition fake_property :: "descriptor \<Rightarrow> descriptor \<Rightarrow> dynamic_property" where
  "fake_property g s =
     \<lparr>signature = d_signature g, getter = d_methodid g, setter = d_methodid s, adder = 0, remover = 0,
      is_retain = False, is_copy = False, is_dynamic = False, is_readonly = False, is_observable = True,
      is_relationship = False, is_container = False\<rparr>"

text \<open>\<open>inherited\<close> tells of the methods that a search in the class finds besides its own.\<close>

definition create_accessor_methods ::
    "descriptor_env \<Rightarrow> (uint32 \<Rightarrow> bool) \<Rightarrow> dynamic_class \<Rightarrow> uint32 \<Rightarrow> dynamic_state \<Rightarrow> (accessor option \<times> dynamic_state) outcome" where
  "create_accessor_methods U inherited E needed s =
     (if needed = 0 then Abort
      else case needed_descriptor U needed of
        None \<Rightarrow> Done (None, s)
      | Some d \<Rightarrow>
          (case accessor_pair U d of
             Abort \<Rightarrow> Abort
           | Done None \<Rightarrow> Done (None, s)
           | Done (Some (g, st)) \<Rightarrow>
               (if methods s (d_methodid g) \<noteq> None \<or> inherited (d_methodid g)
                  \<or> methods s (d_methodid st) \<noteq> None \<or> inherited (d_methodid st)
                then Done (None, s)
                else let p = fake_property g st;
                         get_imp = init_getter (type_of_char E) (value_imps E) p
                  in case init_setter (type_of_char E) (value_imps E) p (d_methodid st) (getter_of s) of
                       Abort \<Rightarrow> Abort
                     | Done (set_imp, table) \<Rightarrow>
                         (case map_of [(d_methodid g, get_imp), (d_methodid st, set_imp)] needed of
                            None \<Rightarrow> Abort
                          | Some imp \<Rightarrow>
                              Done (Some imp, s\<lparr>methods := (methods s)(d_methodid st \<mapsto> set_imp, d_methodid g \<mapsto> get_imp),
                                getter_of := table\<rparr>)))))"

text \<open>\<open>strchr\<close> on the name of a selector that has none reads through NULL.\<close>

definition RespondsToSelector :: "descriptor_env \<Rightarrow> dynamic_class \<Rightarrow> uint32 \<Rightarrow> bool outcome" where
  "RespondsToSelector U E sel =
     (case fst (ClassPointerSearchDynamicProperty (walk E) (cls E) sel) of
        Some p \<Rightarrow> Done True
      | None \<Rightarrow>
          (if \<not> fully_dynamic E then Done False
           else (case lookup_descriptor U sel of
                   Some d \<Rightarrow> Done (d_family d = GetterFamily \<or> d_family d = SetterFamily)
                 | None \<Rightarrow>
                     (case search_hashstring U sel of
                        None \<Rightarrow> Abort
                      | Some name \<Rightarrow>
                          Done (accessor_type_from_string name = Some AccessorGetter
                            \<or> accessor_type_from_string name = Some AccessorSetter)))))"

definition respondsToSelector :: "descriptor_env \<Rightarrow> (uint32 \<Rightarrow> bool) \<Rightarrow> dynamic_class \<Rightarrow> uint32 \<Rightarrow> bool outcome" where
  "respondsToSelector U super_responds E sel =
     (if super_responds sel then Done True else RespondsToSelector U E sel)"

end
