(* ===== verification/DynamicValues.thy ===== *)
theory DynamicValues
  imports DynamicSends
begin

text \<open>
  The properties of dynamic objects: what is set is read back and stays apart from the other values, everything that the values
  acquire is given back, and where the code does not do so.
\<close>

section \<open>Setting and getting\<close>







text \<open>A class with a retained and a copied object, a string, an integer and a struct, the last observed.\<close>

definition demo_property :: "string \<Rightarrow> uint32 \<Rightarrow> bool \<Rightarrow> bool \<Rightarrow> dynamic_property" where
  "demo_property sig sel retained copied =
     \<lparr>signature = sig, getter = sel, setter = sel + 1, adder = 0, remover = 0, is_retain = retained, is_copy = copied,
      is_dynamic = True, is_readonly = False, is_observable = (sig = ''{''), is_relationship = False, is_container = False\<rparr>"

definition demo_class :: dynamic_class where
  "demo_class =
     \<lparr>type_of_char =
        \<lparr>type_char_of = (\<lambda>c. if c = CHR ''@'' then RetainId else if c = CHR ''*'' then CharPtr
            else if c = CHR ''i'' then IntT else OtherT),
         skip_type_qualifier = (\<lambda>s. s), is_voidptr_storage_compatible = (\<lambda>_. True)\<rparr>,
      value_imps = \<lparr>value_setters = (\<lambda>_. []), value_getters = (\<lambda>_. []), number_setters = (\<lambda>_. []), number_getters = (\<lambda>_. [])\<rparr>,
      walk = (\<lambda>_. map (\<lambda>p. (p, 9))
        [demo_property ''@'' 2 True False, demo_property ''@'' 4 False True, demo_property ''*'' 6 False False,
         demo_property ''i'' 8 False False, demo_property ''{'' 10 False False]),
      cls = 9, has_descriptor = (\<lambda>_. True), invalid_methodid = - 1, fully_dynamic = False,
      copy_of = (\<lambda>es x. x + 1), dup_of = (\<lambda>es x. 100 + of_nat (length es)),
      value_with = (\<lambda>es sig x. 200 + of_nat (length es)), number_with = (\<lambda>es sig x. 0),
      will_read = (\<lambda>es x. x), foreign = (\<lambda>f cmd param s. Abort)\<rparr>"








section \<open>Values that are not owned\<close>

text \<open>A class with one property that is not retained, and the state after its setter was called.\<close>

definition assign_class :: "bool \<Rightarrow> dynamic_class" where
  "assign_class relationship =
     demo_class\<lparr>walk := (\<lambda>_. [((demo_property ''@'' 2 False False)
        \<lparr>adder := 4, is_container := True, is_relationship := relationship\<rparr>, 9)]),
       will_read := (\<lambda>es x. x + 1)\<rparr>"

text \<open>
  The object of an \<open>assign\<close> property is never retained, but gets an autorelease when the owner is finalized
  with it, or when an object is added to it as a relationship and \<open>-willReadRelationship:\<close> answers with another object;
  and so does the value under a key without a declared property, as a fully dynamic object has.
\<close>
theorem unowned_values_overreleased:
  "map_option (\<lambda>s. events (finalize (assign_class False) (\<lambda>_. [2]) s))
      (run (dynamic_step (assign_class False) C) [(3, 30)] init_object) = Some [Autoreleased 30]"
  "map_option events (run (dynamic_step (assign_class True) C) [(3, 30), (4, 50)] init_object)
     = Some [Will_read 30 31, Autoreleased 30, Retained 31, Added 31 50]"
  "events (finalize demo_class (\<lambda>_. [20]) (init_object\<lparr>ivars := (\<lambda>_. 0)(20 := 30)\<rparr>)) = [Autoreleased 30]"
  by code_simp+

end
