(* ===== verification/DynamicGuess.thy ===== *)
theory DynamicGuess
  imports DynamicNames DynamicValues
begin

text \<open>
  Properties of guessed accessors: names of getters and setters belong together, a fully dynamic object keeps what is set
  without a property, and which names and selectors the code can not deal with.
\<close>

lemma lower_bounds:
  assumes "CHR ''a'' \<le> c" and "c \<le> CHR ''z''"
  shows "97 \<le> (of_char c :: nat)" "(of_char c :: nat) \<le> 122"
  using assms by (simp_all add: less_eq_char_def)

lemma toupper_lower:
  assumes "CHR ''a'' \<le> c" and "c \<le> CHR ''z''"
  shows "of_char (toupper c) = (of_char c :: nat) - 32" "lowered (toupper c) = c" "is_upper (toupper c)"
proof -
  note c = lower_bounds [OF assms]
  have "(of_char c :: nat) - 32 < 256" using c(2) by linarith
  then have small: "((of_char c :: nat) - 32) mod 256 = of_char c - 32" by simp
  show up: "of_char (toupper c) = (of_char c :: nat) - 32"
    using assms small by (simp add: toupper_def)
  show "lowered (toupper c) = c"
    using c small by (simp add: lowered_def up)
  have "65 \<le> (of_char c :: nat) - 32" "(of_char c :: nat) - 32 \<le> 90"
    using c by linarith+
  then show "is_upper (toupper c)"
    unfolding is_upper_def less_eq_char_def up by simp
qed

lemma memcpy_whole: "length s = n \<Longrightarrow> memcpy 0 s (calloc n) = Done s"
  by (simp add: memcpy_def calloc_def)

lemma memcpy_start: "memcpy 0 s (calloc (length s + n)) = Done (s @ calloc n)"
  by (simp add: memcpy_def calloc_def)

lemma c_string_append: "nul \<notin> set s \<Longrightarrow> c_string (s @ nul # t) = s"
  unfolding c_string_def by (subst takeWhile_append2) auto

lemma setter_name_plain:
  assumes "nul \<notin> set (c # cs)" and "nul \<noteq> toupper c" and "\<not> is_mulle (c # cs)"
  shows "setter_name (c # cs) = Done (''set'' @ toupper c # cs @ '':'')"
proof -
  have "memcpy 0 (''set'' @ (c # cs) @ '':'' @ [nul]) (calloc (3 + length (c # cs) + 1 + 1)) = Done (''set'' @ (c # cs) @ '':'' @ [nul])"
    by (rule memcpy_whole) simp
  then have "setter_name (c # cs) = Done (c_string ((''set'' @ toupper c # cs @ '':'') @ [nul]))"
    using assms(3) by (simp only: setter_name_def if_False Let_def outcome.case) simp
  moreover have "c_string ((''set'' @ toupper c # cs @ '':'') @ [nul]) = ''set'' @ toupper c # cs @ '':''"
    using assms by (intro c_string_append) (auto simp: nul_def)
  ultimately show ?thesis by (simp only:)
qed

lemma getter_name_plain:
  assumes "nul \<notin> set cs" and "nul \<noteq> lowered c"
  shows "getter_name (''set'' @ c # cs @ '':'') = Done (lowered c # cs)"
proof -
  have "memcpy 0 (c # cs) (calloc (length cs + 5)) = Done ((c # cs) @ calloc 4)"
    using memcpy_start [of "c # cs" 4] by (simp add: add.commute)
  moreover have "c_string ((lowered c # cs) @ nul # [nul, nul, nul]) = lowered c # cs"
    using assms by (intro c_string_append) simp
  ultimately show ?thesis
    by (simp add: getter_name_def Let_def calloc_def eval_nat_numeral)
qed

lemma setter_kind:
  assumes "is_upper u" and "CHR '':'' \<notin> set cs"
  shows "accessor_type_from_string (''set'' @ u # cs @ '':'') = Some AccessorSetter"
proof -
  have "u \<noteq> CHR '':''" using assms(1) by (auto simp: is_upper_def less_eq_char_def)
  moreover have "dropWhile (\<lambda>c. c \<noteq> CHR '':'') (cs @ '':'') = '':''"
    using assms(2) by (subst dropWhile_append2) auto
  ultimately have "dropWhile (\<lambda>c. c \<noteq> CHR '':'') (''set'' @ u # cs @ '':'') = '':''"
    by simp
  then show ?thesis
    using assms(1) by (simp add: accessor_type_from_string_def after_prefix_def)
qed

lemma accessor_names:
  assumes "CHR ''a'' \<le> c" and "c \<le> CHR ''z''" and "nul \<notin> set cs" and "CHR '':'' \<notin> set cs" and "\<not> is_mulle (c # cs)"
  shows "\<exists>s. setter_name (c # cs) = Done s \<and> getter_name s = Done (c # cs)
      \<and> accessor_type_from_string s = Some AccessorSetter \<and> accessor_type_from_string (c # cs) = Some AccessorGetter"
proof -
  note c = toupper_lower [OF assms(1,2)] lower_bounds [OF assms(1,2)]
  have "(of_char nul :: nat) \<noteq> of_char (toupper c)"
    using c(1,4) by (simp add: nul_def)
  then have "nul \<noteq> toupper c" by metis
  moreover have "nul \<noteq> c" "c \<noteq> CHR '':''"
    using c(4) by (auto simp: nul_def)
  ultimately show ?thesis
    using setter_name_plain [of c cs] getter_name_plain [of cs "toupper c"] setter_kind [of "toupper c" cs] assms c
    by (simp add: accessor_type_from_string_def)
qed

text \<open>
  The name of a setter that is made from the name of a getter is recognized as that of a setter, and the getter that is made
  from it has the name at the beginning again, for all names that begin with a lowercase letter and not with \<open>mulle\<close>
  and an uppercase one.
\<close>
theorem accessor_names_roundtrip:
  assumes "CHR ''a'' \<le> c" and "c \<le> CHR ''z''" and "nul \<notin> set cs" and "CHR '':'' \<notin> set cs" and "\<not> is_mulle (c # cs)"
  shows "\<exists>s. setter_name (c # cs) = Done s \<and> getter_name s = Done (c # cs)
      \<and> accessor_type_from_string s = Some AccessorSetter \<and> accessor_type_from_string (c # cs) = Some AccessorGetter"
  by (rule accessor_names [OF assms])

lemma accessor_names_roundtrip_witness:
  "\<exists>s. setter_name ''fooBar'' = Done s \<and> getter_name s = Done ''fooBar''
      \<and> accessor_type_from_string s = Some AccessorSetter \<and> accessor_type_from_string ''fooBar'' = Some AccessorGetter"
  using accessor_names_roundtrip [of "CHR ''f''" "''ooBar''"] by (simp add: less_eq_char_def nul_def is_mulle_def)

section \<open>Names with the prefix mulle\<close>

lemma sprintf_size: "sprintf (Conv_s # fs) (Size_arg n # as) = Abort"
  by simp

text \<open>
  A setter is never made from a getter, because its format reads a size as a string; for names with \<open>mulle\<close> the
  buffer is too small besides, and the getter that is made from a setter is spoiled by a write behind the place.
\<close>
theorem guessed_accessors_broken:
  "create_setter_from_getter U d = Abort \<and> setter_name ''mulleValue'' = Abort
   \<and> getter_name ''mulleSetValue:'' = Done (''mulleVal'' @ [CHR 0x8D] @ ''e'')
   \<and> accessor_type_from_string ''mulleSetValue:'' = Some AccessorSetter"
proof (intro conjI)
  show "create_setter_from_getter U d = Abort"
    by (simp add: create_setter_from_getter_def prepend_def split: outcome.splits)
qed (code_simp)+

section \<open>Objects without properties\<close>

text \<open>
  What a selector needs so that a setter can be guessed: a known name, no descriptor, and nothing in the way.
\<close>

definition guessable :: "descriptor_env \<Rightarrow> (uint32 \<Rightarrow> bool) \<Rightarrow> dynamic_class \<Rightarrow> dynamic_state \<Rightarrow> string \<Rightarrow> uint32 \<Rightarrow> uint32 \<Rightarrow> bool" where
  "guessable U inherited E s name set_sel get_sel \<longleftrightarrow>
     fully_dynamic E \<and> fst (ClassPointerSearchDynamicProperty (walk E) (cls E) set_sel) = None
     \<and> setter_name name = Done (the (search_hashstring U set_sel)) \<and> search_hashstring U set_sel \<noteq> None
     \<and> lookup_descriptor U set_sel = None \<and> methodid_from_string U name = get_sel
     \<and> set_sel \<noteq> 0 \<and> get_sel \<noteq> 0 \<and> get_sel \<noteq> invalid_methodid E \<and> get_sel \<noteq> set_sel
     \<and> argument_type U ''v24@0:8@16'' = ''@'' \<and> skip_type_qualifier (type_of_char E) ''@16@0:8'' = ''@16@0:8''
     \<and> type_char_of (type_of_char E) CHR ''@'' = RetainId
     \<and> methods s set_sel = None \<and> methods s get_sel = None \<and> \<not> inherited set_sel \<and> \<not> inherited get_sel
     \<and> getter_of s set_sel = 0"

lemma decimal_simps: "decimal 16 = ''16''" "decimal 8 = ''8''"
  by code_simp+

lemma guessed_accessors:
  assumes "guessable U inherited E s (c # cs) set_sel get_sel"
    and "CHR ''a'' \<le> c" and "c \<le> CHR ''z''" and "nul \<notin> set cs" and "CHR '':'' \<notin> set cs" and "\<not> is_mulle (c # cs)"
  shows "create_accessor_methods U inherited E set_sel s = Done (Some VoidPointerSetterWillChange,
      s\<lparr>methods := (methods s)(set_sel \<mapsto> VoidPointerSetterWillChange, get_sel \<mapsto> VoidPointerGetter),
        getter_of := (getter_of s)(set_sel := get_sel)\<rparr>)"
proof -
  define st where "st = the (search_hashstring U set_sel)"
  have name: "setter_name (c # cs) = Done st" "search_hashstring U set_sel = Some st"
    using assms(1) by (auto simp: guessable_def st_def)
  then have "getter_name st = Done (c # cs)" "accessor_type_from_string st = Some AccessorSetter"
    using accessor_names [OF assms(2-6)] by auto
  then have "needed_descriptor U set_sel
      = Some \<lparr>d_name = st, d_methodid = set_sel, d_signature = ''v24@0:8@16'', d_family = SetterFamily\<rparr>"
    and "create_getter_from_setter U \<lparr>d_name = st, d_methodid = set_sel, d_signature = ''v24@0:8@16'', d_family = SetterFamily\<rparr>
      = Done \<lparr>d_name = c # cs, d_methodid = get_sel, d_signature = ''@16@0:8'', d_family = GetterFamily\<rparr>"
    using assms(1) name
    by (simp_all add: guessable_def needed_descriptor_def create_fake_accessor_def create_getter_from_setter_def
        sizeof_pointer_def prepend_def decimal_simps)
  moreover have "GenericTypeOfProperty (type_of_char E) p = MulleObjCGenericTypeAssign"
    if "signature p = ''@16@0:8''" "\<not> is_retain p" "\<not> is_copy p" for p :: dynamic_property
    using assms(1) that by (simp add: guessable_def GenericTypeOfProperty_def GenericTypeOfSignature_def)
  moreover note assms(1)
  moreover have "set_sel \<noteq> get_sel" using assms(1) by (auto simp: guessable_def)
  ultimately show ?thesis
    by (simp add: guessable_def create_accessor_methods_def accessor_pair_def init_getter_def init_setter_def setter_imp_def
        registered_def register_getter_lookup_def fake_property_def Let_def fun_upd_twist)
qed

text \<open>
  C34. In a fully dynamic class a setter \<open>set<Name>:\<close> works although nothing declares it: the first message makes the
  methods for it and its getter, the value comes back from the getter, the object announced the change, and the other
  values stay; but the value has not been retained.  This is for names that begin with a letter, are without another
  colon and have not the prefix \<open>mulle\<close> with an uppercase letter behind it, which the code gets wrong
  (\<open>guessed_accessors_broken\<close>); the name of the setter is known to the universe, the setter has no descriptor, neither
  the setter nor the getter has a method yet, and the getter that \<open>get_sel\<close> names is the one with the lowercase name.
\<close>
theorem fully_dynamic_set_then_get:
  assumes "guessable U inherited E s (c # cs) set_sel get_sel"
    and "CHR ''a'' \<le> c" and "c \<le> CHR ''z''" and "nul \<notin> set cs" and "CHR '':'' \<notin> set cs" and "\<not> is_mulle (c # cs)"
  shows "\<exists>s'. send E (create_accessor_methods U inherited E) set_sel x s = Done (0, s')
      \<and> send E (create_accessor_methods U inherited E) get_sel y s' = Done (x, s')
      \<and> events s' = events s @ [Will_change] \<and> ivars s' = (ivars s)(get_sel := x)"
proof -
  note made = guessed_accessors [OF assms]
  let ?s = "s\<lparr>methods := (methods s)(set_sel \<mapsto> VoidPointerSetterWillChange, get_sel \<mapsto> VoidPointerGetter),
        getter_of := (getter_of s)(set_sel := get_sel)\<rparr>"
  let ?s' = "set_value get_sel x (happens Will_change ?s)"
  have found: "ClassPointerSearchDynamicProperty (walk E) (cls E) set_sel = (None, cls E)"
    using assms(1) by (auto simp: guessable_def ClassPointerSearchDynamicProperty_def split: option.splits if_splits)
  have key: "key_for E (happens Will_change ?s) set_sel = Done get_sel"
    using assms(1) by (simp add: guessable_def key_for_def GetKeyForSelector_def)
  have "send E (create_accessor_methods U inherited E) set_sel x s = Done (0, ?s')"
    using assms(1) made found key
    by (simp add: guessable_def send_def MulleDynamicObjectForward_def method_forwarding_def call_accessor_def quiet_def
        void_pointer_setter_def)
  moreover have "send E (create_accessor_methods U inherited E) get_sel y ?s' = Done (x, ?s')"
    by (simp add: send_def call_accessor_def void_pointer_getter_def)
  ultimately show ?thesis by (intro exI [of _ ?s']) simp
qed

definition demo_universe :: descriptor_env where
  "demo_universe =
     \<lparr>lookup_descriptor = (\<lambda>_. None), search_hashstring = [5 \<mapsto> ''setFoo:''], methodid_from_string = (\<lambda>_. 7),
      argument_type = (\<lambda>_. ''@''), return_type = (\<lambda>_. ''@''), natural_size = (\<lambda>_. 8)\<rparr>"

lemma fully_dynamic_set_then_get_witness:
  "\<exists>s'. send (demo_class\<lparr>walk := (\<lambda>_. []), fully_dynamic := True\<rparr>)
        (create_accessor_methods demo_universe (\<lambda>_. False) (demo_class\<lparr>walk := (\<lambda>_. []), fully_dynamic := True\<rparr>))
        5 30 init_object = Done (0, s')
      \<and> events s' = [Will_change] \<and> ivars s' = (\<lambda>_. 0)(7 := 30)"
proof -
  have "setter_name ''foo'' = Done ''setFoo:''" by code_simp
  then have "guessable demo_universe (\<lambda>_. False) (demo_class\<lparr>walk := (\<lambda>_. []), fully_dynamic := True\<rparr>) init_object ''foo'' 5 7"
    by (simp add: guessable_def demo_universe_def demo_class_def init_object_def ClassPointerSearchDynamicProperty_def)
  from fully_dynamic_set_then_get [OF this, of 30 0]
  show ?thesis
    by (auto simp: less_eq_char_def nul_def is_mulle_def init_object_def)
qed

end
