(* ===== verification/Containers.thy ===== *)
theory Containers
  imports Prelude
begin

text \<open>
  The callbacks with which containers of \<open>mulle-container\<close> hold objects, pointers, integers and C strings
  (\<open>src/struct/MulleObjCContainerObjectCallback.h\<close>, \<open>src/struct/MulleObjCContainerObjectCallback.m\<close>).

  The messages to objects and the callbacks of \<open>mulle-container\<close> itself are parameters.  What the callbacks do
  to the ownership of objects and strings is recorded in a log.
\<close>

section \<open>Callbacks\<close>

datatype container_event =
    Retained ref
  | Copied ref ref
  | Immutably_copied ref ref
  | Autoreleased ref
  | Duplicated ref ref
  | Freed ref

type_synonym container_log = "container_event list"

text \<open>The methods that objects answer with, for objects that are not nil.\<close>

record object_methods =
  hash_of :: "ref \<Rightarrow> ref"
  is_equal_of :: "ref \<Rightarrow> ref \<Rightarrow> bool"
  copy_of :: "container_log \<Rightarrow> ref \<Rightarrow> ref"
  immutable_copy_of :: "container_log \<Rightarrow> ref \<Rightarrow> ref"
  utf8string_of :: "ref \<Rightarrow> ref"

text \<open>What is used of \<open>mulle-container\<close>.\<close>

record container_lib =
  pointer_hash :: "ref \<Rightarrow> ref"
  cstring_hash :: "ref \<Rightarrow> ref"
  cstring_is_equal :: "ref \<Rightarrow> ref \<Rightarrow> bool"
  cstring_copy_of :: "container_log \<Rightarrow> ref \<Rightarrow> ref"
  pointer_describe :: "ref \<Rightarrow> ref"
  intptr_describe :: "ref \<Rightarrow> ref"
  cstring_describe :: "ref \<Rightarrow> ref"
  not_an_intptr :: ref

record valuecallback =
  v_retain :: "ref \<Rightarrow> container_log \<Rightarrow> ref \<times> container_log"
  v_release :: "ref \<Rightarrow> container_log \<Rightarrow> container_log"
  v_describe :: "ref \<Rightarrow> ref"

record keycallback =
  hash :: "ref \<Rightarrow> ref"
  is_equal :: "ref \<Rightarrow> ref \<Rightarrow> bool"
  k_retain :: "ref \<Rightarrow> container_log \<Rightarrow> ref \<times> container_log"
  k_release :: "ref \<Rightarrow> container_log \<Rightarrow> container_log"
  k_describe :: "ref \<Rightarrow> ref"
  notakey :: ref

type_synonym keyvaluecallback = "keycallback \<times> valuecallback"

text \<open>The functions of \<open>mulle-container\<close> that are passed through.\<close>

definition callback_self :: "ref \<Rightarrow> container_log \<Rightarrow> ref \<times> container_log" where
  "callback_self x es = (x, es)"

definition callback_nop :: "ref \<Rightarrow> container_log \<Rightarrow> container_log" where
  "callback_nop x es = es"

definition cstring_copy :: "container_lib \<Rightarrow> ref \<Rightarrow> container_log \<Rightarrow> ref \<times> container_log" where
  "cstring_copy L x es = (let d = cstring_copy_of L es x in (d, es @ [Duplicated x d]))"

definition pointer_free :: "ref \<Rightarrow> container_log \<Rightarrow> container_log" where
  "pointer_free x es = (if x = 0 then es else es @ [Freed x])"

text \<open>The functions on objects; messages to nil answer 0 and do nothing.\<close>

definition keycallback_object_hash :: "object_methods \<Rightarrow> ref \<Rightarrow> ref" where
  "keycallback_object_hash M obj = (if obj = 0 then 0 else hash_of M obj)"

definition keycallback_object_is_equal :: "object_methods \<Rightarrow> ref \<Rightarrow> ref \<Rightarrow> bool" where
  "keycallback_object_is_equal M obj other = (obj \<noteq> 0 \<and> is_equal_of M obj other)"

definition object_assign :: "ref \<Rightarrow> container_log \<Rightarrow> ref \<times> container_log" where
  "object_assign obj es = (obj, es)"

definition object_retain :: "ref \<Rightarrow> container_log \<Rightarrow> ref \<times> container_log" where
  "object_retain obj es = (obj, if obj = 0 then es else es @ [Retained obj])"

definition object_copy :: "object_methods \<Rightarrow> ref \<Rightarrow> container_log \<Rightarrow> ref \<times> container_log" where
  "object_copy M obj es =
     (if obj = 0 then (0, es) else let c = copy_of M es obj in (c, es @ [Copied obj c]))"

definition object_immutable_copy :: "object_methods \<Rightarrow> ref \<Rightarrow> container_log \<Rightarrow> ref \<times> container_log" where
  "object_immutable_copy M obj es =
     (if obj = 0 then (0, es) else let c = immutable_copy_of M es obj in (c, es @ [Immutably_copied obj c]))"

definition object_autorelease :: "ref \<Rightarrow> container_log \<Rightarrow> container_log" where
  "object_autorelease obj es = (if obj = 0 then es else es @ [Autoreleased obj])"

definition object_describe :: "object_methods \<Rightarrow> ref \<Rightarrow> ref" where
  "object_describe M obj = (if obj = 0 then 0 else utf8string_of M obj)"

section \<open>Tables\<close>

definition INTEGER_KEY_CALLBACK :: "container_lib \<Rightarrow> keycallback" where
  "INTEGER_KEY_CALLBACK L =
     \<lparr>hash = pointer_hash L, is_equal = (=), k_retain = callback_self, k_release = callback_nop,
      k_describe = intptr_describe L, notakey = not_an_intptr L\<rparr>"

definition POINTER_KEY_CALLBACK :: "container_lib \<Rightarrow> keycallback" where
  "POINTER_KEY_CALLBACK L =
     \<lparr>hash = pointer_hash L, is_equal = (=), k_retain = callback_self, k_release = callback_nop,
      k_describe = pointer_describe L, notakey = 0\<rparr>"

definition COPIED_CSTRING_KEY_CALLBACK :: "container_lib \<Rightarrow> keycallback" where
  "COPIED_CSTRING_KEY_CALLBACK L =
     \<lparr>hash = cstring_hash L, is_equal = cstring_is_equal L, k_retain = cstring_copy L, k_release = pointer_free,
      k_describe = cstring_describe L, notakey = 0\<rparr>"

definition ASSIGN_KEY_CALLBACK :: "object_methods \<Rightarrow> keycallback" where
  "ASSIGN_KEY_CALLBACK M =
     \<lparr>hash = keycallback_object_hash M, is_equal = keycallback_object_is_equal M, k_retain = object_assign,
      k_release = callback_nop, k_describe = object_describe M, notakey = 0\<rparr>"

definition ASSIGN_RETAINED_KEY_CALLBACK :: "object_methods \<Rightarrow> keycallback" where
  "ASSIGN_RETAINED_KEY_CALLBACK M =
     \<lparr>hash = keycallback_object_hash M, is_equal = keycallback_object_is_equal M, k_retain = object_assign,
      k_release = object_autorelease, k_describe = object_describe M, notakey = 0\<rparr>"

definition RETAIN_KEY_CALLBACK :: "object_methods \<Rightarrow> keycallback" where
  "RETAIN_KEY_CALLBACK M =
     \<lparr>hash = keycallback_object_hash M, is_equal = keycallback_object_is_equal M, k_retain = object_retain,
      k_release = object_autorelease, k_describe = object_describe M, notakey = 0\<rparr>"

definition COPY_KEY_CALLBACK :: "object_methods \<Rightarrow> keycallback" where
  "COPY_KEY_CALLBACK M =
     \<lparr>hash = keycallback_object_hash M, is_equal = keycallback_object_is_equal M, k_retain = object_immutable_copy M,
      k_release = object_autorelease, k_describe = object_describe M, notakey = 0\<rparr>"

definition RETAIN_POINTER_COMPARE_KEY_CALLBACK :: "container_lib \<Rightarrow> object_methods \<Rightarrow> keycallback" where
  "RETAIN_POINTER_COMPARE_KEY_CALLBACK L M =
     \<lparr>hash = pointer_hash L, is_equal = (=), k_retain = object_retain, k_release = object_autorelease,
      k_describe = object_describe M, notakey = 0\<rparr>"

definition INTEGER_VALUE_CALLBACK :: "container_lib \<Rightarrow> valuecallback" where
  "INTEGER_VALUE_CALLBACK L =
     \<lparr>v_retain = callback_self, v_release = callback_nop, v_describe = intptr_describe L\<rparr>"

definition POINTER_VALUE_CALLBACK :: "container_lib \<Rightarrow> valuecallback" where
  "POINTER_VALUE_CALLBACK L =
     \<lparr>v_retain = callback_self, v_release = callback_nop, v_describe = pointer_describe L\<rparr>"

definition ASSIGN_VALUE_CALLBACK :: "object_methods \<Rightarrow> valuecallback" where
  "ASSIGN_VALUE_CALLBACK M =
     \<lparr>v_retain = callback_self, v_release = callback_nop, v_describe = object_describe M\<rparr>"

definition ASSIGN_RETAINED_VALUE_CALLBACK :: "object_methods \<Rightarrow> valuecallback" where
  "ASSIGN_RETAINED_VALUE_CALLBACK M =
     \<lparr>v_retain = callback_self, v_release = object_autorelease, v_describe = object_describe M\<rparr>"

definition RETAIN_VALUE_CALLBACK :: "object_methods \<Rightarrow> valuecallback" where
  "RETAIN_VALUE_CALLBACK M =
     \<lparr>v_retain = object_retain, v_release = object_autorelease, v_describe = object_describe M\<rparr>"

definition COPY_VALUE_CALLBACK :: "object_methods \<Rightarrow> valuecallback" where
  "COPY_VALUE_CALLBACK M =
     \<lparr>v_retain = object_copy M, v_release = object_autorelease, v_describe = object_describe M\<rparr>"

definition COPIED_CSTRING_VALUE_CALLBACK :: "container_lib \<Rightarrow> valuecallback" where
  "COPIED_CSTRING_VALUE_CALLBACK L =
     \<lparr>v_retain = cstring_copy L, v_release = pointer_free, v_describe = cstring_describe L\<rparr>"

text \<open>The tables of keys and values.\<close>

definition ContainerIntegerKeyRetainValueCallback :: "container_lib \<Rightarrow> object_methods \<Rightarrow> keyvaluecallback" where
  "ContainerIntegerKeyRetainValueCallback L M = (INTEGER_KEY_CALLBACK L, RETAIN_VALUE_CALLBACK M)"

definition ContainerAssignKeyRetainValueCallback :: "object_methods \<Rightarrow> keyvaluecallback" where
  "ContainerAssignKeyRetainValueCallback M = (ASSIGN_KEY_CALLBACK M, RETAIN_VALUE_CALLBACK M)"

definition ContainerAssignRetainedKeyRetainValueCallback :: "object_methods \<Rightarrow> keyvaluecallback" where
  "ContainerAssignRetainedKeyRetainValueCallback M = (ASSIGN_RETAINED_KEY_CALLBACK M, RETAIN_VALUE_CALLBACK M)"

definition ContainerCopyCStringKeyRetainValueCallback :: "container_lib \<Rightarrow> object_methods \<Rightarrow> keyvaluecallback" where
  "ContainerCopyCStringKeyRetainValueCallback L M = (COPIED_CSTRING_KEY_CALLBACK L, RETAIN_VALUE_CALLBACK M)"

definition ContainerRetainKeyRetainValueCallback :: "object_methods \<Rightarrow> keyvaluecallback" where
  "ContainerRetainKeyRetainValueCallback M = (RETAIN_KEY_CALLBACK M, RETAIN_VALUE_CALLBACK M)"

definition ContainerCopyKeyRetainValueCallback :: "object_methods \<Rightarrow> keyvaluecallback" where
  "ContainerCopyKeyRetainValueCallback M = (COPY_KEY_CALLBACK M, RETAIN_VALUE_CALLBACK M)"

definition ContainerRetainKeyCopyValueCallback :: "object_methods \<Rightarrow> keyvaluecallback" where
  "ContainerRetainKeyCopyValueCallback M = (RETAIN_KEY_CALLBACK M, COPY_VALUE_CALLBACK M)"

definition ContainerCopyKeyCopyValueCallback :: "object_methods \<Rightarrow> keyvaluecallback" where
  "ContainerCopyKeyCopyValueCallback M = (COPY_KEY_CALLBACK M, COPY_VALUE_CALLBACK M)"

definition ContainerAssignRetainedKeyAssignRetainedValueCallback :: "object_methods \<Rightarrow> keyvaluecallback" where
  "ContainerAssignRetainedKeyAssignRetainedValueCallback M = (ASSIGN_RETAINED_KEY_CALLBACK M, ASSIGN_RETAINED_VALUE_CALLBACK M)"

definition ContainerPointerKeyIntegerValueCallback :: "container_lib \<Rightarrow> keyvaluecallback" where
  "ContainerPointerKeyIntegerValueCallback L = (POINTER_KEY_CALLBACK L, INTEGER_VALUE_CALLBACK L)"

definition ContainerIntegerKeyPointerValueCallback :: "container_lib \<Rightarrow> keyvaluecallback" where
  "ContainerIntegerKeyPointerValueCallback L = (INTEGER_KEY_CALLBACK L, POINTER_VALUE_CALLBACK L)"

definition ContainerPointerKeyAssignValueCallback :: "container_lib \<Rightarrow> object_methods \<Rightarrow> keyvaluecallback" where
  "ContainerPointerKeyAssignValueCallback L M = (POINTER_KEY_CALLBACK L, ASSIGN_VALUE_CALLBACK M)"

definition ContainerCopiedCStringIntegerValueCallback :: "container_lib \<Rightarrow> keyvaluecallback" where
  "ContainerCopiedCStringIntegerValueCallback L = (COPIED_CSTRING_KEY_CALLBACK L, INTEGER_VALUE_CALLBACK L)"

definition ContainerIntegerKeyCopiedCStringValueCallback :: "container_lib \<Rightarrow> keyvaluecallback" where
  "ContainerIntegerKeyCopiedCStringValueCallback L = (INTEGER_KEY_CALLBACK L, COPIED_CSTRING_VALUE_CALLBACK L)"

definition ContainerCopiedCStringPointerValueCallback :: "container_lib \<Rightarrow> keyvaluecallback" where
  "ContainerCopiedCStringPointerValueCallback L = (COPIED_CSTRING_KEY_CALLBACK L, POINTER_VALUE_CALLBACK L)"

definition ContainerPointerKeyCopiedCStringValueCallback :: "container_lib \<Rightarrow> keyvaluecallback" where
  "ContainerPointerKeyCopiedCStringValueCallback L = (POINTER_KEY_CALLBACK L, COPIED_CSTRING_VALUE_CALLBACK L)"

text \<open>The tables of keys or values alone, and those that the header picks out of a pair.\<close>

definition ContainerAssignKeyCallback :: "object_methods \<Rightarrow> keycallback" where
  "ContainerAssignKeyCallback M = ASSIGN_KEY_CALLBACK M"

definition ContainerAssignRetainedKeyCallback :: "object_methods \<Rightarrow> keycallback" where
  "ContainerAssignRetainedKeyCallback M = ASSIGN_RETAINED_KEY_CALLBACK M"

definition ContainerRetainPointerCompareKeyCallback :: "container_lib \<Rightarrow> object_methods \<Rightarrow> keycallback" where
  "ContainerRetainPointerCompareKeyCallback L M = RETAIN_POINTER_COMPARE_KEY_CALLBACK L M"

definition ContainerAssignValueCallback :: "object_methods \<Rightarrow> valuecallback" where
  "ContainerAssignValueCallback M = ASSIGN_VALUE_CALLBACK M"

definition ContainerAssignRetainedValueCallback :: "object_methods \<Rightarrow> valuecallback" where
  "ContainerAssignRetainedValueCallback M = ASSIGN_RETAINED_VALUE_CALLBACK M"

definition ContainerRetainKeyCallback :: "object_methods \<Rightarrow> keycallback" where
  "ContainerRetainKeyCallback M = fst (ContainerRetainKeyRetainValueCallback M)"

definition ContainerCopyKeyCallback :: "object_methods \<Rightarrow> keycallback" where
  "ContainerCopyKeyCallback M = fst (ContainerCopyKeyCopyValueCallback M)"

definition ContainerRetainValueCallback :: "object_methods \<Rightarrow> valuecallback" where
  "ContainerRetainValueCallback M = snd (ContainerRetainKeyRetainValueCallback M)"

definition ContainerCopyValueCallback :: "object_methods \<Rightarrow> valuecallback" where
  "ContainerCopyValueCallback M = snd (ContainerCopyKeyCopyValueCallback M)"

end
