(* ===== verification/ContainerProps.thy ===== *)
theory ContainerProps
  imports Containers
begin

text \<open>
  What containers may rely on: an entry is stored with the retain callback and dropped with the release callback,
  and equal keys have the same hash.
\<close>

section \<open>The contract of storing and dropping\<close>

text \<open>
  How a container uses a pair of callbacks: it stores what the retain callback answers, as often as there are entries, and
  gives to the release callback what it has stored, once for each entry.  The calls of a container and what is stored:
\<close>

datatype entry_call = Store ref | Drop ref

fun entry_step ::
    "(ref \<Rightarrow> container_log \<Rightarrow> ref \<times> container_log) \<Rightarrow> (ref \<Rightarrow> container_log \<Rightarrow> container_log)
      \<Rightarrow> entry_call \<Rightarrow> ref multiset \<times> container_log \<Rightarrow> (ref multiset \<times> container_log) option" where
  "entry_step keep drop_it (Store x) (entries, es) =
     (let (y, es) = keep x es in Some (add_mset y entries, es))"
| "entry_step keep drop_it (Drop y) (entries, es) = Some (entries - {#y#}, drop_it y es)"

fun entry_legal :: "entry_call \<Rightarrow> ref multiset \<times> container_log \<Rightarrow> bool" where
  "entry_legal (Store x) s = True"
| "entry_legal (Drop y) s = (y \<in># fst s)"

definition accounted ::
    "(container_event \<Rightarrow> ref option) \<Rightarrow> (container_event \<Rightarrow> ref option) \<Rightarrow> ref multiset \<times> container_log \<Rightarrow> bool" where
  "accounted gain loss s \<longleftrightarrow> (\<forall>x. x \<noteq> 0 \<longrightarrow> times gain (snd s) x = times loss (snd s) x + count (fst s) x)"

text \<open>
  The laws: \<open>gain\<close> and \<open>loss\<close> tell which references an event takes and gives back.  Storing takes the reference that is
  stored, and dropping gives it back; what else happens to other references cancels out or does not occur.
\<close>

locale owning_callbacks =
  fixes keep :: "ref \<Rightarrow> container_log \<Rightarrow> ref \<times> container_log"
    and drop_it :: "ref \<Rightarrow> container_log \<Rightarrow> container_log"
    and gain loss :: "container_event \<Rightarrow> ref option"
  assumes keep_gains: "x \<noteq> 0 \<Longrightarrow>
      times gain (snd (keep y es)) x = times gain es x + (if fst (keep y es) = x then 1 else 0)"
    and keep_loses: "times loss (snd (keep y es)) x = times loss es x"
    and drop_gains: "times gain (drop_it y es) x = times gain es x"
    and drop_loses: "x \<noteq> 0 \<Longrightarrow> times loss (drop_it y es) x = times loss es x + (if y = x then 1 else 0)"
begin

lemma step_accounted:
  assumes "accounted gain loss s" and "entry_legal c s" and "entry_step keep drop_it c s = Some s'"
  shows "accounted gain loss s'"
proof -
  obtain entries es where s: "s = (entries, es)" by (cases s)
  have ok: "times gain es x = times loss es x + count entries x" if "x \<noteq> 0" for x
    using assms(1) that s by (auto simp: accounted_def)
  show ?thesis
  proof (cases c)
    case (Store y)
    then have "s' = (add_mset (fst (keep y es)) entries, snd (keep y es))"
      using assms(3) s by (simp add: case_prod_beta)
    then show ?thesis using ok by (auto simp: accounted_def keep_gains keep_loses)
  next
    case (Drop y)
    then have "s' = (entries - {#y#}, drop_it y es)" and "0 < count entries y"
      using assms(2,3) s by simp_all
    then show ?thesis using ok by (auto simp: accounted_def drop_gains drop_loses)
  qed
qed

end

sublocale owning_callbacks \<subseteq> live_invariant "entry_step keep drop_it" entry_legal "accounted gain loss"
proof unfold_locales
  show "accounted gain loss s'" if "accounted gain loss s" "entry_legal c s" "entry_step keep drop_it c s = Some s'" for s c s'
    using step_accounted that by blast
  show "\<exists>s'. entry_step keep drop_it c s = Some s'" for s c
    by (cases c; cases s) (simp_all add: case_prod_beta)
qed

text \<open>The references to objects and the strings that the events of the log take and give back.\<close>

fun takes :: "container_event \<Rightarrow> ref option" where
  "takes (Retained x) = Some x"
| "takes (Copied _ c) = Some c"
| "takes (Immutably_copied _ c) = Some c"
| "takes _ = None"

fun returns :: "container_event \<Rightarrow> ref option" where
  "returns (Autoreleased x) = Some x"
| "returns _ = None"

fun allocates :: "container_event \<Rightarrow> ref option" where
  "allocates (Duplicated _ d) = Some d"
| "allocates _ = None"

fun deallocates :: "container_event \<Rightarrow> ref option" where
  "deallocates (Freed x) = Some x"
| "deallocates _ = None"

lemmas callback_defs = object_retain_def object_copy_def object_immutable_copy_def object_autorelease_def object_assign_def
  cstring_copy_def pointer_free_def callback_self_def callback_nop_def

interpretation retained: owning_callbacks object_retain object_autorelease takes returns
  by unfold_locales (auto simp: callback_defs)

interpretation copied: owning_callbacks "object_copy M" object_autorelease takes returns
  by unfold_locales (auto simp: callback_defs Let_def)

interpretation immutably_copied: owning_callbacks "object_immutable_copy M" object_autorelease takes returns
  by unfold_locales (auto simp: callback_defs Let_def)

interpretation string: owning_callbacks "cstring_copy L" pointer_free allocates deallocates
  by unfold_locales (auto simp: callback_defs Let_def)

section \<open>The tables\<close>

text \<open>The callbacks by which keys or values are kept: objects that are owned, strings that are, and what is only looked at.\<close>

definition object_owners ::
    "container_lib \<Rightarrow> object_methods \<Rightarrow> ((ref \<Rightarrow> container_log \<Rightarrow> ref \<times> container_log) \<times> (ref \<Rightarrow> container_log \<Rightarrow> container_log)) list" where
  "object_owners L M =
     map (\<lambda>k. (k_retain k, k_release k))
       [ContainerRetainKeyCallback M, ContainerCopyKeyCallback M, ContainerRetainPointerCompareKeyCallback L M,
        fst (ContainerRetainKeyCopyValueCallback M), fst (ContainerCopyKeyRetainValueCallback M)]
     @ map (\<lambda>v. (v_retain v, v_release v))
       [ContainerRetainValueCallback M, ContainerCopyValueCallback M, snd (ContainerRetainKeyCopyValueCallback M),
        snd (ContainerCopyKeyRetainValueCallback M), snd (ContainerIntegerKeyRetainValueCallback L M),
        snd (ContainerAssignKeyRetainValueCallback M), snd (ContainerAssignRetainedKeyRetainValueCallback M),
        snd (ContainerCopyCStringKeyRetainValueCallback L M)]"

definition string_owners ::
    "container_lib \<Rightarrow> object_methods \<Rightarrow> ((ref \<Rightarrow> container_log \<Rightarrow> ref \<times> container_log) \<times> (ref \<Rightarrow> container_log \<Rightarrow> container_log)) list" where
  "string_owners L M =
     map (\<lambda>k. (k_retain k, k_release k))
       [fst (ContainerCopyCStringKeyRetainValueCallback L M), fst (ContainerCopiedCStringIntegerValueCallback L),
        fst (ContainerCopiedCStringPointerValueCallback L)]
     @ map (\<lambda>v. (v_retain v, v_release v))
       [snd (ContainerIntegerKeyCopiedCStringValueCallback L), snd (ContainerPointerKeyCopiedCStringValueCallback L)]"

definition borrowers ::
    "container_lib \<Rightarrow> object_methods \<Rightarrow> ((ref \<Rightarrow> container_log \<Rightarrow> ref \<times> container_log) \<times> (ref \<Rightarrow> container_log \<Rightarrow> container_log)) list" where
  "borrowers L M =
     map (\<lambda>k. (k_retain k, k_release k))
       [ContainerAssignKeyCallback M, fst (ContainerPointerKeyIntegerValueCallback L), fst (ContainerIntegerKeyPointerValueCallback L)]
     @ map (\<lambda>v. (v_retain v, v_release v))
       [ContainerAssignValueCallback M, snd (ContainerPointerKeyIntegerValueCallback L), snd (ContainerIntegerKeyPointerValueCallback L),
        snd (ContainerPointerKeyAssignValueCallback L M)]"

lemmas table_defs =
  INTEGER_KEY_CALLBACK_def POINTER_KEY_CALLBACK_def COPIED_CSTRING_KEY_CALLBACK_def ASSIGN_KEY_CALLBACK_def
  ASSIGN_RETAINED_KEY_CALLBACK_def RETAIN_KEY_CALLBACK_def COPY_KEY_CALLBACK_def RETAIN_POINTER_COMPARE_KEY_CALLBACK_def
  INTEGER_VALUE_CALLBACK_def POINTER_VALUE_CALLBACK_def ASSIGN_VALUE_CALLBACK_def ASSIGN_RETAINED_VALUE_CALLBACK_def
  RETAIN_VALUE_CALLBACK_def COPY_VALUE_CALLBACK_def COPIED_CSTRING_VALUE_CALLBACK_def
  ContainerIntegerKeyRetainValueCallback_def ContainerAssignKeyRetainValueCallback_def
  ContainerAssignRetainedKeyRetainValueCallback_def ContainerCopyCStringKeyRetainValueCallback_def
  ContainerRetainKeyRetainValueCallback_def ContainerCopyKeyRetainValueCallback_def ContainerRetainKeyCopyValueCallback_def
  ContainerCopyKeyCopyValueCallback_def ContainerAssignRetainedKeyAssignRetainedValueCallback_def
  ContainerPointerKeyIntegerValueCallback_def ContainerIntegerKeyPointerValueCallback_def
  ContainerPointerKeyAssignValueCallback_def ContainerCopiedCStringIntegerValueCallback_def
  ContainerIntegerKeyCopiedCStringValueCallback_def ContainerCopiedCStringPointerValueCallback_def
  ContainerPointerKeyCopiedCStringValueCallback_def ContainerAssignKeyCallback_def ContainerAssignRetainedKeyCallback_def
  ContainerRetainPointerCompareKeyCallback_def ContainerAssignValueCallback_def ContainerAssignRetainedValueCallback_def
  ContainerRetainKeyCallback_def ContainerCopyKeyCallback_def ContainerRetainValueCallback_def ContainerCopyValueCallback_def

lemma object_owners_cases:
  "set (object_owners L M) =
     {(object_retain, object_autorelease), (object_copy M, object_autorelease), (object_immutable_copy M, object_autorelease)}"
  by (auto simp: object_owners_def table_defs)

lemma string_owners_cases: "set (string_owners L M) = {(cstring_copy L, pointer_free)}"
  by (auto simp: string_owners_def table_defs)

lemma borrowers_cases: "set (borrowers L M) = {(object_assign, callback_nop), (callback_self, callback_nop)}"
  by (auto simp: borrowers_def table_defs)

lemma nothing_accounted: "accounted gain loss ({#}, [])"
  by (simp add: accounted_def)

text \<open>
  C33. A container that stores and drops entries with the callbacks of any table for owned objects holds, after
  any such calls, one reference for each of its entries: the references taken by retaining or copying are those given
  back by autoreleasing and those of the entries that are left.
\<close>
theorem container_entries_balanced:
  assumes "(keep, drop_it) \<in> set (object_owners L M)" and "legal_run (entry_step keep drop_it) entry_legal calls ({#}, [])"
  shows "\<exists>entries es. run (entry_step keep drop_it) calls ({#}, []) = Some (entries, es)
      \<and> (\<forall>x. x = 0 \<or> times takes es x = times returns es x + count entries x)"
proof -
  have "\<exists>s. run (entry_step keep drop_it) calls ({#}, []) = Some s \<and> accounted takes returns s"
    using assms retained.run_returns [OF nothing_accounted, of calls] copied.run_returns [OF nothing_accounted, of M calls]
      immutably_copied.run_returns [OF nothing_accounted, of M calls]
    by (auto simp: object_owners_cases)
  then show ?thesis by (auto simp: accounted_def)
qed

definition demo_methods :: object_methods where
  "demo_methods = \<lparr>hash_of = (\<lambda>x. x), is_equal_of = (=), copy_of = (\<lambda>es x. x + 1), immutable_copy_of = (\<lambda>es x. x),
     utf8string_of = (\<lambda>x. 0)\<rparr>"

lemma container_entries_balanced_witness:
  "\<exists>entries es. run (entry_step (object_copy demo_methods) object_autorelease) [Store 4, Store 4, Drop 5] ({#}, []) = Some (entries, es)
      \<and> times takes es 5 = times returns es 5 + count entries 5"
proof -
  have "(object_copy demo_methods, object_autorelease) \<in> set (object_owners L demo_methods)" for L
    by (simp add: object_owners_cases)
  moreover have "legal_run (entry_step (object_copy demo_methods) object_autorelease) entry_legal [Store 4, Store 4, Drop 5] ({#}, [])"
    by (simp add: object_copy_def demo_methods_def)
  ultimately have "\<exists>entries es.
      run (entry_step (object_copy demo_methods) object_autorelease) [Store 4, Store 4, Drop 5] ({#}, []) = Some (entries, es)
      \<and> (\<forall>x. x = 0 \<or> times takes es x = times returns es x + count entries x)"
    by (rule container_entries_balanced)
  then obtain entries es
    where "run (entry_step (object_copy demo_methods) object_autorelease) [Store 4, Store 4, Drop 5] ({#}, []) = Some (entries, es)"
      and "\<forall>x. x = 0 \<or> times takes es x = times returns es x + count entries x"
    by blast
  moreover from this(2) have "times takes es 5 = times returns es 5 + count entries 5"
    by (elim allE [of _ 5]) simp
  ultimately show ?thesis by blast
qed

text \<open>Strings that are copied are freed as often; what is assigned leaves no trace.\<close>

lemma container_strings_balanced:
  assumes "(keep, drop_it) \<in> set (string_owners L M)" and "legal_run (entry_step keep drop_it) entry_legal calls ({#}, [])"
  shows "\<exists>s. run (entry_step keep drop_it) calls ({#}, []) = Some s \<and> accounted allocates deallocates s"
  using assms string.run_returns [OF nothing_accounted, of L calls] by (simp add: string_owners_cases)

lemma borrowed_entries_untouched:
  assumes "(keep, drop_it) \<in> set (borrowers L M)"
  shows "entry_step keep drop_it c (entries, es) = Some (entries', es') \<Longrightarrow> es' = es"
  using assms by (cases c) (auto simp: borrowers_cases callback_defs)

text \<open>
  Objects that are handed over retained are given back when they are dropped, although storing takes nothing; and a key
  that is copied is so by \<open>-immutableCopy\<close>.
\<close>

lemma handed_over_entries:
  "k_retain (ContainerAssignRetainedKeyCallback M) x es = (x, es)"
  "x \<noteq> 0 \<Longrightarrow> k_release (ContainerAssignRetainedKeyCallback M) x es = es @ [Autoreleased x]"
  "x \<noteq> 0 \<Longrightarrow> k_retain (ContainerCopyKeyCallback M) x es = (immutable_copy_of M es x, es @ [Immutably_copied x (immutable_copy_of M es x)])"
  by (simp_all add: table_defs callback_defs Let_def)

section \<open>Keys\<close>

text \<open>What objects promise: equality is an equivalence, and equal objects have the same hash.\<close>

definition object_laws :: "object_methods \<Rightarrow> bool" where
  "object_laws M \<longleftrightarrow> equivp (is_equal_of M) \<and> (\<forall>x y. is_equal_of M x y \<longrightarrow> hash_of M x = hash_of M y)
     \<and> (\<forall>x. is_equal_of M x 0 \<longrightarrow> x = 0)"

text \<open>What a hash table needs of its keys, apart from the one that is no key.\<close>

definition key_laws :: "keycallback \<Rightarrow> bool" where
  "key_laws k \<longleftrightarrow>
     (\<forall>x y. is_equal k x y \<longrightarrow> hash k x = hash k y)
     \<and> (\<forall>x. x \<noteq> notakey k \<longrightarrow> is_equal k x x) \<and> (\<forall>x y. is_equal k x y \<longrightarrow> is_equal k y x)
     \<and> (\<forall>x y z. is_equal k x y \<longrightarrow> is_equal k y z \<longrightarrow> is_equal k x z)"

lemma identity_key_ok: "is_equal k = (=) \<Longrightarrow> key_laws k"
  by (simp add: key_laws_def)

lemma object_key_ok:
  assumes "object_laws M" and "hash k = keycallback_object_hash M" and "is_equal k = keycallback_object_is_equal M"
    and "notakey k = 0"
  shows "key_laws k"
proof -
  have equiv: "equivp (is_equal_of M)" and same: "is_equal_of M x y \<Longrightarrow> hash_of M x = hash_of M y"
    and null: "is_equal_of M x 0 \<Longrightarrow> x = 0" for x y
    using assms(1) by (simp_all add: object_laws_def)
  have eq: "is_equal k x y \<longleftrightarrow> x \<noteq> 0 \<and> y \<noteq> 0 \<and> is_equal_of M x y" for x y
    using null by (auto simp: assms(3) keycallback_object_is_equal_def)
  show ?thesis
    unfolding key_laws_def eq assms(2,4)
  proof (intro conjI allI impI)
    fix x y z
    show "keycallback_object_hash M x = keycallback_object_hash M y" if "x \<noteq> 0 \<and> y \<noteq> 0 \<and> is_equal_of M x y"
      using that same by (simp add: keycallback_object_hash_def)
    show "is_equal_of M x x" by (rule equivp_reflp [OF equiv])
    show "is_equal_of M y x" if "x \<noteq> 0 \<and> y \<noteq> 0 \<and> is_equal_of M x y"
      using that equivp_symp [OF equiv] by simp
    show "is_equal_of M x z" if "x \<noteq> 0 \<and> y \<noteq> 0 \<and> is_equal_of M x y" "y \<noteq> 0 \<and> z \<noteq> 0 \<and> is_equal_of M y z"
      using that equivp_transp [OF equiv, of x y z] by simp
  qed simp_all
qed

lemma key_tables_ok:
  "object_laws M \<Longrightarrow> list_all key_laws
     [ContainerAssignKeyCallback M, ContainerAssignRetainedKeyCallback M, ContainerRetainKeyCallback M, ContainerCopyKeyCallback M]"
  "list_all key_laws [ContainerRetainPointerCompareKeyCallback L M, POINTER_KEY_CALLBACK L, INTEGER_KEY_CALLBACK L]"
  by (simp_all add: object_key_ok identity_key_ok table_defs)

end
