(* ===== verification/Autolocking.thy ===== *)
theory Autolocking
  imports Calls
begin

text \<open>
  Objects that lock themselves (\<open>src/class/MulleObject.m\<close>, \<open>src/class/MulleObject-Private.h\<close>): which of their methods
  run under the lock of the object, how the implementations are found through two caches, and the locking calls of
  any number of threads.

  Methods, their descriptors and the search for them belong to the runtime, and so do its caches: the parameters
  \<open>search_api\<close> and \<open>cache_api\<close>.  Which entries a cache loses when it grows is left open.
\<close>

section \<open>Locking methods\<close>

text \<open>The families of methods that the code asks for; all others are \<open>Other_family\<close>.\<close>

datatype lmethod_family = Init_family | Dealloc_family | Other_family

record 'i lmethod =
  threadaffine :: bool
  methodfamily :: lmethod_family
  method_imp :: 'i

definition is_a_locking_descriptor :: "'i lmethod \<Rightarrow> bool" where
  "is_a_locking_descriptor desc =
     (if \<not> threadaffine desc then False
      else case methodfamily desc of Init_family \<Rightarrow> False | Dealloc_family \<Rightarrow> False | _ \<Rightarrow> True)"

text \<open>
  \<open>search\<close> finds the method of a selector, \<open>search_nofail\<close> the method for forwarding where there is none.
  \<open>forward_sel\<close> is the selector of \<open>__lockingForward:\<close>.  \<open>locking_forward\<close> and \<open>locking_super_forward\<close> are what the
  default search finds for \<open>__lockingForward:\<close> and \<open>__lockingSuperForward:\<close>.
\<close>

record 'i search_api =
  search :: "SEL \<Rightarrow> 'i lmethod option"
  search_nofail :: "SEL \<Rightarrow> 'i lmethod"
  search_super :: "SEL \<Rightarrow> 'i lmethod option"
  forward_sel :: SEL
  locking_forward :: "'i lmethod"
  locking_super_forward :: "'i lmethod"

record ('i, 'c) cache_api =
  probe :: "'c \<Rightarrow> SEL \<Rightarrow> 'i option"
  fill :: "'c \<Rightarrow> 'i \<Rightarrow> SEL \<Rightarrow> 'c"
  fresh :: "'c \<Rightarrow> 'c"
  default_invalidate :: "'c \<Rightarrow> SEL list option \<Rightarrow> 'c"

text \<open>
  The class: the cache of the runtime and the second cache in \<open>userinfo\<close>, each with the method that its callbacks
  hold.
\<close>

record ('i, 'c) locking_class =
  first_level :: 'c
  first_callback :: "'i lmethod option"
  second_level :: 'c
  second_callback :: "'i lmethod option"

definition threadSafeMethodForSelector_noforward :: "'i search_api \<Rightarrow> SEL \<Rightarrow> 'i lmethod option" where
  "threadSafeMethodForSelector_noforward S methodid =
     (case search S methodid of
        None \<Rightarrow> None
      | Some m \<Rightarrow> if is_a_locking_descriptor m then None else Some m)"

definition MulleObjectRefreshMethodNofail ::
    "'i search_api \<Rightarrow> ('i, 'c) cache_api \<Rightarrow> SEL \<Rightarrow> ('i, 'c) locking_class \<Rightarrow> 'i lmethod \<times> ('i, 'c) locking_class" where
  "MulleObjectRefreshMethodNofail S C methodid cls =
     (let m = (case threadSafeMethodForSelector_noforward S methodid of None \<Rightarrow> locking_forward S | Some m \<Rightarrow> m)
      in (m, cls\<lparr>first_level := fill C (first_level cls) (method_imp m) methodid\<rparr>))"

text \<open>What runs when a superclass has no method is looked up once and kept in the callbacks of the first cache.\<close>

definition MulleObjectRefreshSuperMethodNofail ::
    "'i search_api \<Rightarrow> ('i, 'c) cache_api \<Rightarrow> SEL \<Rightarrow> ('i, 'c) locking_class \<Rightarrow> 'i lmethod \<times> ('i, 'c) locking_class" where
  "MulleObjectRefreshSuperMethodNofail S C superid cls =
     (let (m, cls) =
        (case search_super S superid of
           Some m \<Rightarrow> (m, cls)
         | None \<Rightarrow> (case first_callback cls of
             Some m \<Rightarrow> (m, cls)
           | None \<Rightarrow> (locking_super_forward S, cls\<lparr>first_callback := Some (locking_super_forward S)\<rparr>)))
      in (m, cls\<lparr>first_level := fill C (first_level cls) (method_imp m) superid\<rparr>))"

definition MulleObjectGetForwardImp ::
    "'i search_api \<Rightarrow> ('i, 'c) cache_api \<Rightarrow> SEL \<Rightarrow> ('i, 'c) locking_class \<Rightarrow> 'i \<times> ('i, 'c) locking_class" where
  "MulleObjectGetForwardImp S C methodid cls =
     (case probe C (second_level cls) methodid of
        Some imp \<Rightarrow> (imp, cls)
      | None \<Rightarrow>
          let imp = method_imp (search_nofail S methodid)
          in (imp, cls\<lparr>second_level := fill C (second_level cls) imp methodid\<rparr>))"

text \<open>\<open>forward\<close> is what the search finds for \<open>forward:\<close>.\<close>

definition MulleObjectGetSuperForwardImp ::
    "'i lmethod \<Rightarrow> ('i, 'c) locking_class \<Rightarrow> 'i \<times> ('i, 'c) locking_class" where
  "MulleObjectGetSuperForwardImp forward cls =
     (case second_callback cls of
        Some m \<Rightarrow> (method_imp m, cls)
      | None \<Rightarrow> (method_imp forward, cls\<lparr>second_callback := Some forward\<rparr>))"

section \<open>Invalidating the caches\<close>

definition MulleObjectSwapInFreshSecondLevelCache ::
    "('i, 'c) cache_api \<Rightarrow> ('i, 'c) locking_class \<Rightarrow> ('i, 'c) locking_class" where
  "MulleObjectSwapInFreshSecondLevelCache C cls = cls\<lparr>second_level := fresh C (second_level cls)\<rparr>"

text \<open>No selector, for \<open>MULLE_OBJC_NO_METHODID\<close>, stands for all; the result is whether the cache was exchanged.\<close>

definition MulleObjectInvalidateSecondLevelCacheEntry ::
    "('i, 'c) cache_api \<Rightarrow> ('c \<Rightarrow> bool) \<Rightarrow> SEL option \<Rightarrow> ('i, 'c) locking_class \<Rightarrow> bool \<times> ('i, 'c) locking_class" where
  "MulleObjectInvalidateSecondLevelCacheEntry C has_entries uniqueid cls =
     (let cache = second_level cls in
      if \<not> has_entries cache then (False, cls)
      else case uniqueid of
        Some i \<Rightarrow> if probe C cache i = None then (False, cls) else (True, MulleObjectSwapInFreshSecondLevelCache C cls)
      | None \<Rightarrow> (True, MulleObjectSwapInFreshSecondLevelCache C cls))"

fun invalidate_methods ::
    "('i, 'c) cache_api \<Rightarrow> ('c \<Rightarrow> bool) \<Rightarrow> SEL list \<Rightarrow> ('i, 'c) locking_class \<Rightarrow> ('i, 'c) locking_class" where
  "invalidate_methods C has_entries [] cls = cls"
| "invalidate_methods C has_entries (m # ms) cls =
     (let (exchanged, cls) = MulleObjectInvalidateSecondLevelCacheEntry C has_entries (Some m) cls
      in if exchanged then cls else invalidate_methods C has_entries ms cls)"

definition MulleObjectInvalidateSecondLevelCache ::
    "('i, 'c) cache_api \<Rightarrow> ('c \<Rightarrow> bool) \<Rightarrow> SEL list option \<Rightarrow> ('i, 'c) locking_class \<Rightarrow> ('i, 'c) locking_class" where
  "MulleObjectInvalidateSecondLevelCache C has_entries methods cls =
     (case methods of
        None \<Rightarrow> snd (MulleObjectInvalidateSecondLevelCacheEntry C has_entries None cls)
      | Some ms \<Rightarrow> invalidate_methods C has_entries ms cls)"

definition MulleObjectInvalidateCaches ::
    "('i, 'c) cache_api \<Rightarrow> ('c \<Rightarrow> bool) \<Rightarrow> SEL list option \<Rightarrow> ('i, 'c) locking_class \<Rightarrow> ('i, 'c) locking_class" where
  "MulleObjectInvalidateCaches C has_entries methods cls =
     MulleObjectInvalidateSecondLevelCache C has_entries methods
       (cls\<lparr>first_level := default_invalidate C (first_level cls) methods\<rparr>)"

section \<open>Messages through the caches\<close>

text \<open>What a message runs: an implementation as it is, or one under the lock of the object.\<close>

datatype 'i runs = Unlocked 'i | Locked 'i

definition first_imp ::
    "'i search_api \<Rightarrow> ('i, 'c) cache_api \<Rightarrow> SEL \<Rightarrow> ('i, 'c) locking_class \<Rightarrow> 'i \<times> ('i, 'c) locking_class" where
  "first_imp S C methodid cls =
     (case probe C (first_level cls) methodid of
        Some imp \<Rightarrow> (imp, cls)
      | None \<Rightarrow> let (m, cls) = MulleObjectRefreshMethodNofail S C methodid cls in (method_imp m, cls))"

definition dispatch ::
    "'i search_api \<Rightarrow> ('i, 'c) cache_api \<Rightarrow> SEL \<Rightarrow> ('i, 'c) locking_class \<Rightarrow> 'i runs \<times> ('i, 'c) locking_class" where
  "dispatch S C methodid cls =
     (let (imp, cls) = first_imp S C methodid cls
      in if imp = method_imp (locking_forward S)
         then let (imp, cls) = MulleObjectGetForwardImp S C methodid cls in (Locked imp, cls)
         else (Unlocked imp, cls))"

text \<open>The reference: no cache, one search.\<close>

definition searched :: "'i search_api \<Rightarrow> SEL \<Rightarrow> 'i runs" where
  "searched S methodid =
     (case search S methodid of
        Some m \<Rightarrow> if is_a_locking_descriptor m then Locked (method_imp m) else Unlocked (method_imp m)
      | None \<Rightarrow> Locked (method_imp (search_nofail S methodid)))"

text \<open>
  What is documented of the runtime: the two searches agree on methods that exist, the method \<open>__lockingForward:\<close> of
  \<open>MulleObject\<close> is found under its own selector, and no other selector has its implementation; a cache answers what
  was filled in or nothing, and nothing for what was invalidated.
\<close>

definition search_laws :: "'i search_api \<Rightarrow> bool" where
  "search_laws S \<longleftrightarrow> search S (forward_sel S) = Some (locking_forward S) \<and>
     (\<forall>k m. search S k = Some m \<longrightarrow> search_nofail S k = m) \<and>
     (\<forall>k m. search S k = Some m \<longrightarrow> method_imp m = method_imp (locking_forward S) \<longrightarrow> k = forward_sel S)"

definition cache_laws :: "('i, 'c) cache_api \<Rightarrow> ('c \<Rightarrow> bool) \<Rightarrow> bool" where
  "cache_laws C has_entries \<longleftrightarrow>
     (\<forall>c i k x. probe C (fill C c i k) x = Some i \<and> x = k \<or> x \<noteq> k \<and> probe C (fill C c i k) x \<in> {None, probe C c x}) \<and>
     (\<forall>c x. probe C (fresh C c) x = None) \<and>
     (\<forall>c ms x. probe C (default_invalidate C c ms) x \<in> {None, probe C c x}) \<and>
     (\<forall>c x. probe C (default_invalidate C c None) x = None) \<and>
     (\<forall>c ms x. x \<in> set ms \<longrightarrow> probe C (default_invalidate C c (Some ms)) x = None) \<and>
     (\<forall>c x. \<not> has_entries c \<longrightarrow> probe C c x = None)"

text \<open>
  What happens to a class: messages, super calls that are looked up, and new methods, after which the searches
  have other results and the caches are invalidated.
\<close>

datatype 'i class_event = Message SEL | Super_call SEL | New_methods "'i search_api" "SEL list option"

fun class_step ::
    "('i, 'c) cache_api \<Rightarrow> ('c \<Rightarrow> bool) \<Rightarrow> 'i class_event \<Rightarrow> 'i search_api \<times> ('i, 'c) locking_class
     \<Rightarrow> ('i search_api \<times> ('i, 'c) locking_class) option" where
  "class_step C has_entries (Message k) (S, cls) = Some (S, snd (dispatch S C k cls))"
| "class_step C has_entries (Super_call k) (S, cls) = Some (S, snd (MulleObjectRefreshSuperMethodNofail S C k cls))"
| "class_step C has_entries (New_methods S' ms) (S, cls) = Some (S', MulleObjectInvalidateCaches C has_entries ms cls)"

text \<open>
  The identifiers of super calls are not selectors.  A list of new methods names every selector with another result,
  and does not override \<open>__lockingForward:\<close>; when all caches are cleared, it may have been overridden as well.
\<close>

fun class_legal :: "SEL set \<Rightarrow> 'i class_event \<Rightarrow> 'i search_api \<times> ('i, 'c) locking_class \<Rightarrow> bool" where
  "class_legal selectors (Message k) (S, cls) \<longleftrightarrow> k \<in> selectors"
| "class_legal selectors (Super_call k) (S, cls) \<longleftrightarrow> k \<notin> selectors"
| "class_legal selectors (New_methods S' ms) (S, cls) \<longleftrightarrow> search_laws S' \<and> forward_sel S' = forward_sel S \<and>
     (case ms of None \<Rightarrow> True | Some ms \<Rightarrow> method_imp (locking_forward S') = method_imp (locking_forward S) \<and>
        (\<forall>k. k \<notin> set ms \<longrightarrow> search S' k = search S k \<and> search_nofail S' k = search_nofail S k))"

definition first_target :: "'i search_api \<Rightarrow> SEL \<Rightarrow> 'i" where
  "first_target S k = method_imp (case threadSafeMethodForSelector_noforward S k of None \<Rightarrow> locking_forward S | Some m \<Rightarrow> m)"

definition caches_ok :: "('i, 'c) cache_api \<Rightarrow> SEL set \<Rightarrow> 'i search_api \<times> ('i, 'c) locking_class \<Rightarrow> bool" where
  "caches_ok C selectors = (\<lambda>(S, cls). search_laws S \<and>
     (\<forall>k\<in>selectors. \<forall>i. probe C (first_level cls) k = Some i \<longrightarrow> i = first_target S k) \<and>
     (\<forall>k i. probe C (second_level cls) k = Some i \<longrightarrow> i = method_imp (search_nofail S k)))"

lemma caches_okD:
  assumes "caches_ok C K (S, cls)"
  shows "search_laws S" "\<And>k i. k \<in> K \<Longrightarrow> probe C (first_level cls) k = Some i \<Longrightarrow> i = first_target S k"
    "\<And>k i. probe C (second_level cls) k = Some i \<Longrightarrow> i = method_imp (search_nofail S k)"
  using assms by (simp_all add: caches_ok_def)

lemma caches_okI:
  assumes "search_laws S" "\<And>k i. k \<in> K \<Longrightarrow> probe C (first_level cls) k = Some i \<Longrightarrow> i = first_target S k"
    "\<And>k i. probe C (second_level cls) k = Some i \<Longrightarrow> i = method_imp (search_nofail S k)"
  shows "caches_ok C K (S, cls)"
  using assms by (simp add: caches_ok_def)

lemma probe_fill:
  assumes "cache_laws C e"
  shows "probe C (fill C c i k) x = Some j \<Longrightarrow> x = k \<and> j = i \<or> x \<noteq> k \<and> probe C c x = Some j"
  using assms unfolding cache_laws_def by (metis empty_iff insert_iff option.distinct(1) option.inject)

lemma probe_invalidated:
  assumes "cache_laws C e"
  shows "probe C (default_invalidate C c ms) x = Some j \<Longrightarrow>
      probe C c x = Some j \<and> (case ms of None \<Rightarrow> False | Some ms \<Rightarrow> x \<notin> set ms)"
  using assms unfolding cache_laws_def
  by (cases ms) (metis empty_iff insert_iff option.distinct(1) option.simps(4,5))+

lemma first_imp_ok:
  assumes C: "cache_laws C e" and ok: "caches_ok C K (S, cls)" and k: "k \<in> K"
  shows "fst (first_imp S C k cls) = first_target S k \<and> caches_ok C K (S, snd (first_imp S C k cls))"
proof (cases "probe C (first_level cls) k")
  case None
  moreover have "caches_ok C K (S, cls\<lparr>first_level := fill C (first_level cls) (first_target S k) k\<rparr>)"
    by (rule caches_okI) (use caches_okD [OF ok] in \<open>auto dest!: probe_fill [OF C]\<close>)
  ultimately show ?thesis
    by (simp add: first_imp_def MulleObjectRefreshMethodNofail_def first_target_def Let_def)
next
  case (Some imp)
  then show ?thesis
    using ok k by (simp add: first_imp_def caches_ok_def)
qed

lemma forward_imp_ok:
  assumes C: "cache_laws C e" and ok: "caches_ok C K (S, cls)"
  shows "fst (MulleObjectGetForwardImp S C k cls) = method_imp (search_nofail S k)
    \<and> caches_ok C K (S, snd (MulleObjectGetForwardImp S C k cls))"
proof (cases "probe C (second_level cls) k")
  case None
  moreover have "caches_ok C K (S, cls\<lparr>second_level := fill C (second_level cls) (method_imp (search_nofail S k)) k\<rparr>)"
    by (rule caches_okI) (use caches_okD [OF ok] in \<open>auto dest!: probe_fill [OF C]\<close>)
  ultimately show ?thesis
    by (simp add: MulleObjectGetForwardImp_def Let_def)
next
  case (Some imp)
  then show ?thesis
    using ok by (simp add: MulleObjectGetForwardImp_def caches_ok_def)
qed

lemma dispatch_ok:
  assumes C: "cache_laws C e" and ok: "caches_ok C K (S, cls)" and k: "k \<in> K"
  shows "fst (dispatch S C k cls) = (if k = forward_sel S then Locked (method_imp (locking_forward S)) else searched S k)
    \<and> caches_ok C K (S, snd (dispatch S C k cls))"
proof -
  obtain cls' where f: "first_imp S C k cls = (first_target S k, cls')" and ok': "caches_ok C K (S, cls')"
    using first_imp_ok [OF assms] by (metis prod.collapse)
  have laws: "search S (forward_sel S) = Some (locking_forward S)"
      "\<And>k m. search S k = Some m \<Longrightarrow> search_nofail S k = m"
      "\<And>k m. search S k = Some m \<Longrightarrow> method_imp m = method_imp (locking_forward S) \<Longrightarrow> k = forward_sel S"
    using ok by (auto simp: caches_ok_def search_laws_def)
  have nofail: "search_nofail S (forward_sel S) = locking_forward S"
    using laws(1,2) by blast
  have fwd: "dispatch S C k cls =
      (if first_target S k = method_imp (locking_forward S)
       then (Locked (fst (MulleObjectGetForwardImp S C k cls')), snd (MulleObjectGetForwardImp S C k cls'))
       else (Unlocked (first_target S k), cls'))"
    using f by (simp add: dispatch_def case_prod_beta Let_def)
  show ?thesis
  proof (cases "k = forward_sel S")
    case True
    then have "first_target S k = method_imp (locking_forward S)"
      using laws(1) by (simp add: first_target_def threadSafeMethodForSelector_noforward_def)
    then show ?thesis
      using fwd forward_imp_ok [OF C ok', of k] nofail True by simp
  next
    case False
    then have "search S k = Some m \<Longrightarrow> method_imp m \<noteq> method_imp (locking_forward S)" for m
      using laws(3) by blast
    then show ?thesis
      using fwd ok' forward_imp_ok [OF C ok', of k] laws(2) False
      by (cases "search S k")
        (simp_all add: searched_def first_target_def threadSafeMethodForSelector_noforward_def)
  qed
qed

lemma super_ok:
  assumes C: "cache_laws C e" and ok: "caches_ok C K (S, cls)" and k: "k \<notin> K"
  shows "caches_ok C K (S, snd (MulleObjectRefreshSuperMethodNofail S C k cls))"
proof (rule caches_okI)
  fix x i
  let ?cls = "snd (MulleObjectRefreshSuperMethodNofail S C k cls)"
  have first: "\<exists>j. first_level ?cls = fill C (first_level cls) j k" and second: "second_level ?cls = second_level cls"
    by (auto simp: MulleObjectRefreshSuperMethodNofail_def Let_def split: option.splits)
  show "x \<in> K \<Longrightarrow> probe C (first_level ?cls) x = Some i \<Longrightarrow> i = first_target S x"
    using first k caches_okD(2) [OF ok] by (auto dest!: probe_fill [OF C])
  show "probe C (second_level ?cls) x = Some i \<Longrightarrow> i = method_imp (search_nofail S x)"
    using second caches_okD(3) [OF ok] by simp
qed (rule caches_okD(1) [OF ok])

lemmas invalidate_entry_defs = MulleObjectInvalidateSecondLevelCacheEntry_def MulleObjectSwapInFreshSecondLevelCache_def

text \<open>The second cache loses everything when it has an entry for one of the methods, otherwise it has nothing stale.\<close>

lemma invalidate_entry:
  assumes C: "cache_laws C e" and "MulleObjectInvalidateSecondLevelCacheEntry C e (Some m) cls = (b, cls')"
  shows "first_level cls' = first_level cls"
    and "b \<Longrightarrow> probe C (second_level cls') k = None" and "\<not> b \<Longrightarrow> cls' = cls \<and> probe C (second_level cls) m = None"
proof -
  have "probe C (fresh C c) k = None" "\<not> e c \<Longrightarrow> probe C c m = None" for c
    using C by (simp_all add: cache_laws_def)
  then show "first_level cls' = first_level cls" "b \<Longrightarrow> probe C (second_level cls') k = None"
      "\<not> b \<Longrightarrow> cls' = cls \<and> probe C (second_level cls) m = None"
    using assms(2) by (auto simp: invalidate_entry_defs Let_def split: if_splits)
qed

lemma invalidate_methods_ok:
  assumes C: "cache_laws C e"
  shows "first_level (invalidate_methods C e ms cls) = first_level cls
    \<and> (\<forall>k i. probe C (second_level (invalidate_methods C e ms cls)) k = Some i \<longrightarrow>
        probe C (second_level cls) k = Some i \<and> k \<notin> set ms)"
proof (induction ms arbitrary: cls)
  case (Cons m ms)
  obtain b cls' where e: "MulleObjectInvalidateSecondLevelCacheEntry C e (Some m) cls = (b, cls')"
    by (metis prod.collapse)
  show ?case
    using invalidate_entry [OF C e] Cons.IH [of cls] by (cases b) (auto simp: e)
qed simp

lemma new_methods_ok:
  assumes C: "cache_laws C e" and ok: "caches_ok C K (S, cls)" and legal: "class_legal K (New_methods S' ms) (S, cls)"
  shows "caches_ok C K (S', MulleObjectInvalidateCaches C e ms cls)"
proof (cases ms)
  case None
  let ?cls = "cls\<lparr>first_level := default_invalidate C (first_level cls) None\<rparr>"
  let ?cls' = "snd (MulleObjectInvalidateSecondLevelCacheEntry C e None ?cls)"
  have "probe C (second_level ?cls') k = None" "probe C (first_level ?cls') k = None" for k
    using C by (simp_all add: invalidate_entry_defs cache_laws_def Let_def)
  then have "caches_ok C K (S', ?cls')"
    using legal by (simp add: caches_ok_def)
  then show ?thesis
    using None by (simp add: MulleObjectInvalidateCaches_def MulleObjectInvalidateSecondLevelCache_def)
next
  case (Some l)
  have same: "search_nofail S' k = search_nofail S k \<and> first_target S' k = first_target S k" if "k \<notin> set l" for k
    using legal Some that by (auto simp: first_target_def threadSafeMethodForSelector_noforward_def split: option.splits)
  let ?cls = "invalidate_methods C e l (cls\<lparr>first_level := default_invalidate C (first_level cls) ms\<rparr>)"
  have "caches_ok C K (S', ?cls)"
  proof (rule caches_okI)
    show "search_laws S'" using legal by simp
  next
    fix k i
    assume "k \<in> K" and "probe C (first_level ?cls) k = Some i"
    then have "probe C (first_level cls) k = Some i \<and> k \<notin> set l"
      using invalidate_methods_ok [OF C, of l "cls\<lparr>first_level := default_invalidate C (first_level cls) ms\<rparr>"]
        probe_invalidated [OF C, of "first_level cls" ms k i] Some by simp
    then show "i = first_target S' k"
      using caches_okD(2) [OF ok \<open>k \<in> K\<close>] same by simp
  next
    fix k i
    assume "probe C (second_level ?cls) k = Some i"
    then have "probe C (second_level cls) k = Some i \<and> k \<notin> set l"
      using invalidate_methods_ok [OF C, of l "cls\<lparr>first_level := default_invalidate C (first_level cls) ms\<rparr>"] by simp
    then show "i = method_imp (search_nofail S' k)"
      using caches_okD(3) [OF ok] same by simp
  qed
  then show ?thesis
    using Some by (simp add: MulleObjectInvalidateCaches_def MulleObjectInvalidateSecondLevelCache_def)
qed

lemma class_step_ok:
  assumes C: "cache_laws C e" and ok: "caches_ok C K s" and legal: "class_legal K x s" and step: "class_step C e x s = Some s'"
  shows "caches_ok C K s'"
proof -
  obtain S cls where s: "s = (S, cls)" by (cases s)
  note ok = ok [unfolded s] and legal = legal [unfolded s] and step = step [unfolded s]
  show ?thesis
  proof (cases x)
    case (Message k)
    then show ?thesis using dispatch_ok [OF C ok] legal step by auto
  next
    case (Super_call k)
    then show ?thesis using super_ok [OF C ok] legal step by auto
  next
    case (New_methods S' ms)
    then show ?thesis using new_methods_ok [OF C ok] legal step by (auto simp del: class_legal.simps)
  qed
qed

interpretation class_caches: kept_invariant "class_step C e" "class_legal K" "\<lambda>s. cache_laws C e \<and> caches_ok C K s"
  by unfold_locales (auto intro: class_step_ok)

text \<open>
  C9. The two caches never change what a message runs: whatever messages and super calls came before, and whatever
  methods were added (listed ones may not override \<open>__lockingForward:\<close>, which would leave stale entries), a locking
  method runs under the lock of the object, every other one without it, and it is the implementation that a search
  finds now.  The one exception is the selector \<open>__lockingForward:\<close> itself: that message always runs the method
  \<open>__lockingForward:\<close> under the lock, whether the method is declared a locking one or not.
\<close>
theorem cached_dispatch_is_search:
  assumes "cache_laws C e" and "caches_ok C K s" and "legal_run (class_step C e) (class_legal K) xs s"
    and "run (class_step C e) xs s = Some (S, cls)" and "k \<in> K"
  shows "fst (dispatch S C k cls) = (if k = forward_sel S then Locked (method_imp (locking_forward S)) else searched S k)"
  using class_caches.run_inv [of C e K s xs "(S, cls)"] dispatch_ok [of C e K S cls k] assms by simp

text \<open>
  A cache that keeps everything, and a class with a locking method 7, a thread safe method 8 and \<open>__lockingForward:\<close>
  as method 6.
\<close>

definition map_cache :: "('i, SEL \<Rightarrow> 'i option) cache_api" where
  "map_cache = \<lparr>probe = (\<lambda>c. c), fill = (\<lambda>c i k. c(k := Some i)), fresh = (\<lambda>_ _. None),
     default_invalidate = (\<lambda>c ms x. case ms of None \<Rightarrow> None | Some ms \<Rightarrow> if x \<in> set ms then None else c x)\<rparr>"

definition demo_forward :: "nat lmethod" where
  "demo_forward = \<lparr>threadaffine = False, methodfamily = Other_family, method_imp = 1\<rparr>"

definition demo_methods :: "nat lmethod \<Rightarrow> nat search_api" where
  "demo_methods m =
     (let found = [6 \<mapsto> demo_forward, 7 \<mapsto> m, 8 \<mapsto> \<lparr>threadaffine = False, methodfamily = Other_family, method_imp = 80\<rparr>]
      in \<lparr>search = found,
          search_nofail = (\<lambda>k. case found k of Some m \<Rightarrow> m
             | None \<Rightarrow> \<lparr>threadaffine = True, methodfamily = Other_family, method_imp = 99\<rparr>),
          search_super = (\<lambda>_. None), forward_sel = 6, locking_forward = demo_forward,
          locking_super_forward = \<lparr>threadaffine = False, methodfamily = Other_family, method_imp = 2\<rparr>\<rparr>)"

definition affine_method :: "nat \<Rightarrow> nat lmethod" where
  "affine_method i = \<lparr>threadaffine = True, methodfamily = Other_family, method_imp = i\<rparr>"

definition new_class :: "(nat, SEL \<Rightarrow> nat option) locking_class" where
  "new_class = \<lparr>first_level = (\<lambda>_. None), first_callback = None, second_level = (\<lambda>_. None), second_callback = None\<rparr>"

theorem cached_dispatch_is_search_witness:
  "(\<exists>cls. run (class_step map_cache (\<lambda>_. True))
       [Message 7, Message 8, Message 6, Super_call 9, New_methods (demo_methods (affine_method 71)) (Some [7])]
       (demo_methods (affine_method 70), new_class) = Some (demo_methods (affine_method 71), cls)
     \<and> fst (dispatch (demo_methods (affine_method 71)) map_cache 7 cls) = Locked 71)"
proof -
  let ?xs = "[Message 7, Message 8, Message 6, Super_call 9, New_methods (demo_methods (affine_method 71)) (Some [7])]"
  let ?s = "(demo_methods (affine_method 70), new_class)"
  have laws: "cache_laws (map_cache :: (nat, _) cache_api) (\<lambda>_. True)"
    by (auto simp: cache_laws_def map_cache_def split: option.splits)
  have search: "search_laws (demo_methods (affine_method i))" if "i \<noteq> 1" for i
    using that by (auto simp: search_laws_def demo_methods_def demo_forward_def affine_method_def split: if_splits)
  have ok: "caches_ok map_cache {6, 7, 8} ?s"
    by (simp add: caches_ok_def search map_cache_def new_class_def)
  have legal: "legal_run (class_step map_cache (\<lambda>_. True)) (class_legal {6, 7, 8}) ?xs ?s"
    by (simp add: search) (simp add: demo_methods_def)
  obtain cls where r: "run (class_step map_cache (\<lambda>_. True)) ?xs ?s = Some (demo_methods (affine_method 71), cls)"
    by simp
  have "searched (demo_methods (affine_method 71)) 7 = Locked 71"
    by (simp add: searched_def demo_methods_def affine_method_def is_a_locking_descriptor_def)
  moreover have "forward_sel (demo_methods (affine_method 71)) \<noteq> 7"
    by (simp add: demo_methods_def)
  ultimately show ?thesis
    using cached_dispatch_is_search [OF laws ok legal r, of 7] r by auto
qed

end
