(* ===== verification/LockedCalls.thy ===== *)
theory LockedCalls
  imports LockCalls AccessTransfer
begin

text \<open>
  Calls to objects that lock themselves, by any number of threads (\<open>src/class/MulleObject.m\<close>,
  \<open>src/class/MulleObject-Private.h\<close>).

  Every thread has a stack of the calls that it is in.  A call reads the lock of the object, waits for it, runs the
  method, which may call further objects, and unlocks the lock that it has read, whatever lock the object has by then.
  The recursive mutexes are those of mulle-thread: \<open>depth_of\<close> tells how often a thread holds one, and the calls
  of the library are relations, as those that wait need not return.
\<close>

record 'k reentrant_api =
  depth_of :: "'k \<Rightarrow> ref \<Rightarrow> tid \<Rightarrow> nat"
  relock :: "tid \<Rightarrow> ref \<Rightarrow> 'k \<Rightarrow> 'k \<Rightarrow> bool"
  retrylock :: "tid \<Rightarrow> ref \<Rightarrow> int \<Rightarrow> 'k \<Rightarrow> 'k \<Rightarrow> bool"
  reunlock :: "tid \<Rightarrow> ref \<Rightarrow> 'k \<Rightarrow> 'k \<Rightarrow> bool"

definition deeper :: "tid \<Rightarrow> ref \<Rightarrow> (ref \<Rightarrow> tid \<Rightarrow> nat) \<Rightarrow> ref \<Rightarrow> tid \<Rightarrow> nat" where
  "deeper t l d = d(l := (d l)(t := Suc (d l t)))"

text \<open>What is documented of recursive mutexes; a mutex that the thread does not hold it may not unlock.\<close>

definition reentrant_laws :: "'k reentrant_api \<Rightarrow> bool" where
  "reentrant_laws A \<longleftrightarrow>
     (\<forall>t l k k'. relock A t l k k' \<longrightarrow>
        (\<forall>u. u \<noteq> t \<longrightarrow> depth_of A k l u = 0) \<and> depth_of A k' = deeper t l (depth_of A k)) \<and>
     (\<forall>t l k k'. retrylock A t l 0 k k' \<longrightarrow>
        (\<forall>u. u \<noteq> t \<longrightarrow> depth_of A k l u = 0) \<and> depth_of A k' = deeper t l (depth_of A k)) \<and>
     (\<forall>t l rval k k'. retrylock A t l rval k k' \<longrightarrow> rval \<noteq> 0 \<longrightarrow> depth_of A k' = depth_of A k) \<and>
     (\<forall>t l k k'. reunlock A t l k k' \<longrightarrow> 0 < depth_of A k l t \<longrightarrow> depth_of A k = deeper t l (depth_of A k'))"

section \<open>Calls\<close>

text \<open>
  What a call is for: a method of the class, \<open>shareRecursiveLock:\<close> with its argument, or the locking by \<open>-lock\<close>
  and \<open>-finalize\<close>, which waits like a call but has nothing to run.
\<close>

datatype call_body = Method | Shares ref | Locks_only

record frame =
  receiver :: oid
  taken :: ref
  entered :: bool
  called_for :: call_body

text \<open>
  \<open>lock_at\<close> is the instance variable \<open>__lock\<close>, 0 for none, \<open>belongs\<close> the thread affinity in the header and
  \<open>lock_references\<close> the references to a lock that are not due in a pool.  \<open>by_hand\<close>, \<open>abandoned\<close> and \<open>replaced\<close>
  are not in the program: how often a thread has locked with \<open>-lock\<close> or \<open>-tryLock\<close>, how many of its calls were left
  by an exception, and the objects that ever got another lock.
\<close>

record 'k lockers =
  mutexes :: 'k
  lock_at :: "oid \<Rightarrow> ref"
  belongs :: "oid \<Rightarrow> affinity"
  lock_references :: "ref \<Rightarrow> int"
  frames :: "tid \<Rightarrow> frame list"
  by_hand :: "ref \<Rightarrow> tid \<Rightarrow> nat"
  abandoned :: "ref \<Rightarrow> tid \<Rightarrow> nat"
  replaced :: "oid set"

abbreviation stack :: "tid \<Rightarrow> frame list \<Rightarrow> 'k lockers \<Rightarrow> 'k lockers" where
  "stack t fs s \<equiv> s\<lparr>frames := (frames s)(t := fs)\<rparr>"

definition didShareRecursiveLock :: "tid \<Rightarrow> oid \<Rightarrow> ref \<Rightarrow> 'k lockers \<Rightarrow> 'k lockers" where
  "didShareRecursiveLock t self lock s =
     s\<lparr>belongs := (belongs s)(self := if lock \<noteq> 0 then Threadsafe else Thread t)\<rparr>"

definition one_reference :: "int \<Rightarrow> ref \<Rightarrow> (ref \<Rightarrow> int) \<Rightarrow> ref \<Rightarrow> int" where
  "one_reference n lock refs = (if lock = 0 then refs else refs(lock := refs lock + n))"

definition shareRecursiveLock :: "tid \<Rightarrow> oid \<Rightarrow> ref \<Rightarrow> 'k lockers \<Rightarrow> 'k lockers" where
  "shareRecursiveLock t self lock s =
     (if lock = lock_at s self then s
      else didShareRecursiveLock t self lock
        (s\<lparr>lock_references := one_reference 1 lock (one_reference (- 1) (lock_at s self) (lock_references s)),
           lock_at := (lock_at s)(self := lock), replaced := insert self (replaced s)\<rparr>))"

text \<open>The argument that \<open>shareRecursiveLockWithObject:\<close> sends on; this method does not lock.\<close>

definition shareRecursiveLockWithObject :: "oid option \<Rightarrow> 'k lockers \<Rightarrow> call_body" where
  "shareRecursiveLockWithObject other s = Shares (case other of Some x \<Rightarrow> lock_at s x | None \<Rightarrow> 0)"

text \<open>A thread executes code unless it waits for a lock.\<close>

definition executing :: "tid \<Rightarrow> 'k lockers \<Rightarrow> bool" where
  "executing t s \<longleftrightarrow> (case frames s t of [] \<Rightarrow> True | f # _ \<Rightarrow> entered f)"

inductive autolock_step :: "'k reentrant_api \<Rightarrow> 'k lockers \<Rightarrow> 'k lockers \<Rightarrow> bool" for A where
  call: "executing t s \<Longrightarrow> b \<noteq> Locks_only \<or> lock_at s x \<noteq> 0 \<Longrightarrow>
     autolock_step A s
       (stack t (\<lparr>receiver = x, taken = lock_at s x, entered = (lock_at s x = 0), called_for = b\<rparr> # frames s t) s)"
| acquire: "frames s t = f # fs \<Longrightarrow> \<not> entered f \<Longrightarrow> called_for f \<noteq> Locks_only \<Longrightarrow> relock A t (taken f) (mutexes s) k \<Longrightarrow>
     autolock_step A s (stack t (f\<lparr>entered := True\<rparr> # fs) (s\<lparr>mutexes := k\<rparr>))"
| acquire_only: "frames s t = f # fs \<Longrightarrow> \<not> entered f \<Longrightarrow> called_for f = Locks_only \<Longrightarrow> relock A t (taken f) (mutexes s) k \<Longrightarrow>
     autolock_step A s (stack t fs (s\<lparr>mutexes := k, by_hand := deeper t (taken f) (by_hand s)\<rparr>))"
| share: "frames s t = f # fs \<Longrightarrow> entered f \<Longrightarrow> called_for f = Shares l \<Longrightarrow>
     autolock_step A s (stack t (f\<lparr>called_for := Method\<rparr> # fs) (shareRecursiveLock t (receiver f) l s))"
| return: "frames s t = f # fs \<Longrightarrow> entered f \<Longrightarrow> taken f = 0 \<Longrightarrow> autolock_step A s (stack t fs s)"
| return_unlock: "frames s t = f # fs \<Longrightarrow> entered f \<Longrightarrow> taken f \<noteq> 0 \<Longrightarrow> reunlock A t (taken f) (mutexes s) k \<Longrightarrow>
     autolock_step A s (stack t fs (s\<lparr>mutexes := k\<rparr>))"
| raise: "frames s t = f # fs \<Longrightarrow> entered f \<Longrightarrow>
     autolock_step A s (stack t fs (s\<lparr>abandoned := if taken f = 0 then abandoned s else deeper t (taken f) (abandoned s)\<rparr>))"
| try_lock: "executing t s \<Longrightarrow> lock_at s x \<noteq> 0 \<Longrightarrow> retrylock A t (lock_at s x) rval (mutexes s) k \<Longrightarrow>
     autolock_step A s (s\<lparr>mutexes := k,
       by_hand := if MulleObjCRecursiveLockTryLock rval then deeper t (lock_at s x) (by_hand s) else by_hand s\<rparr>)"
| unlock: "executing t s \<Longrightarrow> lock_at s x \<noteq> 0 \<Longrightarrow> 0 < by_hand s (lock_at s x) t \<Longrightarrow>
     reunlock A t (lock_at s x) (mutexes s) k \<Longrightarrow>
     autolock_step A s (s\<lparr>mutexes := k, by_hand := (by_hand s)(lock_at s x := (by_hand s (lock_at s x))
       (t := by_hand s (lock_at s x) t - 1))\<rparr>)"

text \<open>At first nobody is in a call and nobody holds a lock; which lock an object has is arbitrary, and several may share one.\<close>

definition nobody_calls :: "'k reentrant_api \<Rightarrow> 'k lockers \<Rightarrow> bool" where
  "nobody_calls A s \<longleftrightarrow> depth_of A (mutexes s) = (\<lambda>_ _. 0) \<and> frames s = (\<lambda>_. []) \<and> by_hand s = (\<lambda>_ _. 0)
     \<and> abandoned s = (\<lambda>_ _. 0) \<and> replaced s = {}"

abbreviation autolock_reachable :: "'k reentrant_api \<Rightarrow> 'k lockers \<Rightarrow> bool" where
  "autolock_reachable A \<equiv> reached (nobody_calls A) (autolock_step A)"

section \<open>What holds at every moment\<close>

definition calls_with :: "ref \<Rightarrow> frame list \<Rightarrow> nat" where
  "calls_with l fs = length (filter (\<lambda>f. entered f \<and> taken f = l) fs)"

lemma calls_with_simps [simp]:
  "calls_with l [] = 0"
  "calls_with l (f # fs) = (if entered f \<and> taken f = l then 1 else 0) + calls_with l fs"
  by (simp_all add: calls_with_def)

lemma calls_with_pos: "f \<in> set fs \<Longrightarrow> entered f \<Longrightarrow> 0 < calls_with (taken f) fs"
  by (induction fs) auto

definition depths_ok :: "'k reentrant_api \<Rightarrow> 'k lockers \<Rightarrow> bool" where
  "depths_ok A s \<longleftrightarrow>
     (\<forall>l t. l \<noteq> 0 \<longrightarrow> depth_of A (mutexes s) l t = calls_with l (frames s t) + by_hand s l t + abandoned s l t)"

definition one_holder :: "'k reentrant_api \<Rightarrow> 'k lockers \<Rightarrow> bool" where
  "one_holder A s \<longleftrightarrow> (\<forall>l t u. t \<noteq> u \<longrightarrow> depth_of A (mutexes s) l t = 0 \<or> depth_of A (mutexes s) l u = 0)"

definition frames_ok :: "'k lockers \<Rightarrow> bool" where
  "frames_ok s \<longleftrightarrow> (\<forall>t. \<forall>f\<in>set (frames s t).
     (\<not> entered f \<longrightarrow> taken f \<noteq> 0) \<and> (receiver f \<notin> replaced s \<longrightarrow> taken f = lock_at s (receiver f)))"

lemma deeper_apply [simp]: "deeper t l d l' u = (if l' = l \<and> u = t then Suc (d l t) else d l' u)"
  by (simp add: deeper_def)

lemma reentrantD:
  assumes "reentrant_laws A"
  shows "relock A t l k k' \<Longrightarrow> u \<noteq> t \<Longrightarrow> depth_of A k l u = 0"
    and "relock A t l k k' \<Longrightarrow> depth_of A k' = deeper t l (depth_of A k)"
    and "retrylock A t l 0 k k' \<Longrightarrow> u \<noteq> t \<Longrightarrow> depth_of A k l u = 0"
    and "retrylock A t l 0 k k' \<Longrightarrow> depth_of A k' = deeper t l (depth_of A k)"
    and "retrylock A t l rval k k' \<Longrightarrow> rval \<noteq> 0 \<Longrightarrow> depth_of A k' = depth_of A k"
    and "reunlock A t l k k' \<Longrightarrow> 0 < depth_of A k l t \<Longrightarrow> depth_of A k = deeper t l (depth_of A k')"
  using assms unfolding reentrant_laws_def by metis+

text \<open>Taking a lock and giving it back keep that a lock has one holder.\<close>

lemma one_holder_deeper:
  assumes "one_holder A s" and "\<And>u. u \<noteq> t \<Longrightarrow> depth_of A (mutexes s) l u = 0"
    and "depth_of A (mutexes s') = deeper t l (depth_of A (mutexes s))"
  shows "one_holder A s'"
  using assms unfolding one_holder_def by auto

lemma one_holder_less:
  assumes "one_holder A s" and "depth_of A (mutexes s) = deeper t l (depth_of A (mutexes s'))"
  shows "one_holder A s'"
  unfolding one_holder_def
proof (intro allI impI)
  fix x and u v :: nat
  assume "u \<noteq> v"
  then have "depth_of A (mutexes s) x u = 0 \<or> depth_of A (mutexes s) x v = 0"
    using assms(1) by (simp add: one_holder_def)
  then show "depth_of A (mutexes s') x u = 0 \<or> depth_of A (mutexes s') x v = 0"
    unfolding assms(2) by (auto split: if_splits)
qed

lemma one_holder_same: "one_holder A s \<Longrightarrow> mutexes s' = mutexes s \<Longrightarrow> one_holder A s'"
  by (simp add: one_holder_def)

lemma share_frame [simp]:
  "mutexes (shareRecursiveLock t x l s) = mutexes s"
  "frames (shareRecursiveLock t x l s) = frames s"
  "by_hand (shareRecursiveLock t x l s) = by_hand s"
  "abandoned (shareRecursiveLock t x l s) = abandoned s"
  by (simp_all add: shareRecursiveLock_def didShareRecursiveLock_def)

definition locked_ok :: "'k reentrant_api \<Rightarrow> 'k lockers \<Rightarrow> bool" where
  "locked_ok A s \<longleftrightarrow> depths_ok A s \<and> one_holder A s \<and> frames_ok s"

lemma depths_ok_held:
  assumes "depths_ok A s" and "l \<noteq> 0" and "0 < by_hand s l t \<or> (\<exists>f\<in>set (frames s t). entered f \<and> taken f = l)"
  shows "0 < depth_of A (mutexes s) l t"
  using assms calls_with_pos unfolding depths_ok_def by (metis add_gr_0)

inductive_cases autolock_stepE: "autolock_step A s s'"

lemma step_depths_ok:
  assumes A: "reentrant_laws A" and ok: "locked_ok A s" and "autolock_step A s s'"
  shows "depths_ok A s'"
  using assms(3)
proof cases
  case (return_unlock t f fs k)
  have "0 < depth_of A (mutexes s) (taken f) t"
    using ok return_unlock by (auto simp: locked_ok_def intro!: depths_ok_held)
  then have d: "depth_of A (mutexes s) = deeper t (taken f) (depth_of A k)"
    by (rule reentrantD(6) [OF A return_unlock(5)])
  show ?thesis
    unfolding depths_ok_def
  proof (intro allI impI)
    fix l u
    assume "l \<noteq> (0 :: ref)"
    then have "depth_of A (mutexes s) l u = calls_with l (frames s u) + by_hand s l u + abandoned s l u"
      using ok by (simp add: locked_ok_def depths_ok_def)
    then show "depth_of A (mutexes s') l u = calls_with l (frames s' u) + by_hand s' l u + abandoned s' l u"
      unfolding d using return_unlock by (auto split: if_splits)
  qed
next
  case (unlock t x k)
  have "0 < depth_of A (mutexes s) (lock_at s x) t"
    using ok unlock by (auto simp: locked_ok_def intro!: depths_ok_held)
  then have d: "depth_of A (mutexes s) = deeper t (lock_at s x) (depth_of A k)"
    by (rule reentrantD(6) [OF A unlock(5)])
  show ?thesis
    unfolding depths_ok_def
  proof (intro allI impI)
    fix l u
    assume "l \<noteq> (0 :: ref)"
    then have "depth_of A (mutexes s) l u = calls_with l (frames s u) + by_hand s l u + abandoned s l u"
      using ok by (simp add: locked_ok_def depths_ok_def)
    then show "depth_of A (mutexes s') l u = calls_with l (frames s' u) + by_hand s' l u + abandoned s' l u"
      unfolding d using unlock by (auto split: if_splits)
  qed
next
  case (acquire t f fs k)
  then show ?thesis
    using ok reentrantD(2) [OF A acquire(5)] by (auto simp: locked_ok_def depths_ok_def)
next
  case (acquire_only t f fs k)
  then show ?thesis
    using ok reentrantD(2) [OF A acquire_only(5)] by (auto simp: locked_ok_def depths_ok_def)
next
  case (try_lock t x rval k)
  then show ?thesis
    using ok reentrantD(4,5) [OF A, of t "lock_at s x"]
    by (auto simp: locked_ok_def depths_ok_def MulleObjCRecursiveLockTryLock_def)
qed (use ok in \<open>auto simp: locked_ok_def depths_ok_def\<close>)

lemma step_one_holder:
  assumes A: "reentrant_laws A" and ok: "locked_ok A s" and "autolock_step A s s'"
  shows "one_holder A s'"
proof -
  have one: "one_holder A s" using ok by (simp add: locked_ok_def)
  show ?thesis
    using assms(3)
  proof cases
    case (return_unlock t f fs k)
    have "0 < depth_of A (mutexes s) (taken f) t"
      using ok return_unlock by (auto simp: locked_ok_def intro!: depths_ok_held)
    then show ?thesis
      using one_holder_less [OF one, of t "taken f" s'] reentrantD(6) [OF A return_unlock(5)] return_unlock(1) by simp
  next
    case (unlock t x k)
    have "0 < depth_of A (mutexes s) (lock_at s x) t"
      using ok unlock by (auto simp: locked_ok_def intro!: depths_ok_held)
    then show ?thesis
      using one_holder_less [OF one, of t "lock_at s x" s'] reentrantD(6) [OF A unlock(5)] unlock(1) by simp
  next
    case (acquire t f fs k)
    then show ?thesis
      using one_holder_deeper [OF one, of t "taken f" s'] reentrantD(1,2) [OF A acquire(5)] by simp
  next
    case (acquire_only t f fs k)
    then show ?thesis
      using one_holder_deeper [OF one, of t "taken f" s'] reentrantD(1,2) [OF A acquire_only(5)] by simp
  next
    case (try_lock t x rval k)
    show ?thesis
    proof (cases "rval = 0")
      case True
      note k = try_lock(4) [unfolded True]
      show ?thesis
        using one_holder_deeper [OF one, of t "lock_at s x" s'] reentrantD(3,4) [OF A k] try_lock(1) by simp
    next
      case False
      then show ?thesis
        using one reentrantD(5) [OF A try_lock(4)] try_lock(1) by (simp add: one_holder_def)
    qed
  qed (use one in \<open>auto intro: one_holder_same\<close>)
qed

lemma frames_ok_share:
  assumes "frames_ok s" shows "frames_ok (shareRecursiveLock t x l s)"
  using assms by (auto simp: frames_ok_def shareRecursiveLock_def didShareRecursiveLock_def)

lemma frames_ok_stack:
  assumes "frames_ok s" and "lock_at s' = lock_at s" and "replaced s' = replaced s" and "frames s' = (frames s)(t := fs)"
    and "\<And>f. f \<in> set fs \<Longrightarrow> f \<in> set (frames s t) \<or>
        (\<not> entered f \<longrightarrow> taken f \<noteq> 0) \<and> (receiver f \<notin> replaced s \<longrightarrow> taken f = lock_at s (receiver f))"
  shows "frames_ok s'"
  using assms by (auto simp: frames_ok_def)

lemma step_frames_ok:
  assumes ok: "frames_ok s" and "autolock_step A s s'"
  shows "frames_ok s'"
  using assms(2)
proof cases
  case (share t f fs l)
  have "frames_ok (shareRecursiveLock t (receiver f) l s)"
    by (rule frames_ok_share [OF ok])
  moreover from this have "(\<not> entered g \<longrightarrow> taken g \<noteq> 0) \<and> (receiver g \<notin> replaced (shareRecursiveLock t (receiver f) l s) \<longrightarrow>
      taken g = lock_at (shareRecursiveLock t (receiver f) l s) (receiver g))" if "g \<in> set (f # fs)" for g
    using share that unfolding frames_ok_def by (metis share_frame(2))
  ultimately show ?thesis
    unfolding share(1) by - (rule frames_ok_stack [where s = "shareRecursiveLock t (receiver f) l s" and t = t and fs = "f\<lparr>called_for := Method\<rparr> # fs"], auto)
next
  case (call t b x)
  then show ?thesis by (auto intro!: frames_ok_stack [OF ok, where t = t])
next
  case (acquire t f fs k)
  have "receiver f \<notin> replaced s \<longrightarrow> taken f = lock_at s (receiver f)"
    using ok acquire(2) unfolding frames_ok_def by (metis list.set_intros(1))
  then show ?thesis
    unfolding acquire(1) by (intro frames_ok_stack [OF ok, where t = t]) (auto simp: acquire(2))
next
  case (acquire_only t f fs k)
  then show ?thesis by (auto intro!: frames_ok_stack [OF ok, where t = t])
next
  case (return t f fs)
  then show ?thesis by (auto intro!: frames_ok_stack [OF ok, where t = t])
next
  case (return_unlock t f fs k)
  then show ?thesis by (auto intro!: frames_ok_stack [OF ok, where t = t])
next
  case (raise t f fs)
  then show ?thesis by (auto intro!: frames_ok_stack [OF ok, where t = t])
qed (use ok in \<open>auto simp: frames_ok_def\<close>)

lemma step_locked_ok:
  "reentrant_laws A \<Longrightarrow> locked_ok A s \<Longrightarrow> autolock_step A s s' \<Longrightarrow> locked_ok A s'"
  using step_depths_ok step_one_holder step_frames_ok by (metis locked_ok_def)

interpretation locked: stable_invariant "nobody_calls A" "autolock_step A" "\<lambda>s. reentrant_laws A \<longrightarrow> locked_ok A s"
proof unfold_locales
  show "reentrant_laws A \<longrightarrow> locked_ok A s" if "nobody_calls A s" for s
    using that by (simp add: nobody_calls_def locked_ok_def depths_ok_def one_holder_def frames_ok_def)
qed (blast intro: step_locked_ok)

section \<open>Locks and calls\<close>

text \<open>
  C8. Every lock counts exactly the calls: at every moment a thread holds a lock as often as it is in methods that took it,
  plus what it locked by hand, plus the calls that it left by an exception.  This holds for nested calls, for objects
  that share a lock, and when objects get another lock while their methods run; so a thread that is back from all
  calls, with as many unlocks as locks and without exceptions, holds no lock.
\<close>
theorem lock_depth_counts_calls:
  assumes "reentrant_laws A" and "autolock_reachable A s" and "l \<noteq> 0"
  shows "depth_of A (mutexes s) l t = calls_with l (frames s t) + by_hand s l t + abandoned s l t"
  using locked.reached_invariant [OF assms(2)] assms(1,3) by (simp add: locked_ok_def depths_ok_def)

lemma entered_once:
  assumes "reentrant_laws A" and "autolock_reachable A s" and "t \<noteq> u"
    and "f \<in> set (frames s t)" and "entered f" and "g \<in> set (frames s u)" and "entered g" and "taken f = taken g"
  shows "taken f = 0"
proof (rule ccontr)
  assume l: "taken f \<noteq> 0"
  have ok: "locked_ok A s" using locked.reached_invariant [OF assms(2)] assms(1) by simp
  have "0 < depth_of A (mutexes s) (taken f) t"
    by (rule depths_ok_held) (use ok l assms(4,5) in \<open>auto simp: locked_ok_def\<close>)
  moreover have "0 < depth_of A (mutexes s) (taken f) u"
    by (rule depths_ok_held) (use ok l assms(6-8) in \<open>auto simp: locked_ok_def\<close>)
  ultimately show False
    using ok assms(3) by (metis locked_ok_def one_holder_def less_numeral_extra(3))
qed

text \<open>
  C7. While a thread is in a locking method of an object, no other thread is in one of the same object or of an
  object that has the same lock, as long as neither object was given another lock.
\<close>
theorem locking_methods_exclude:
  assumes "reentrant_laws A" and "autolock_reachable A s" and "t \<noteq> u"
    and "f \<in> set (frames s t)" and "entered f" and "g \<in> set (frames s u)"
    and "lock_at s (receiver f) \<noteq> 0" and "lock_at s (receiver g) = lock_at s (receiver f)"
    and "receiver f \<notin> replaced s" and "receiver g \<notin> replaced s"
  shows "\<not> entered g"
proof
  assume "entered g"
  have "frames_ok s" using locked.reached_invariant [OF assms(2)] assms(1) by (simp add: locked_ok_def)
  then have "taken f = lock_at s (receiver f)" and "taken g = lock_at s (receiver g)"
    using assms by (simp_all add: frames_ok_def)
  then show False
    using entered_once [OF assms(1-6) \<open>entered g\<close>] assms(7,8) by simp
qed

section \<open>Examples\<close>

definition counting_mutexes :: "(ref \<Rightarrow> tid \<Rightarrow> nat) reentrant_api" where
  "counting_mutexes =
     \<lparr>depth_of = (\<lambda>k. k),
      relock = (\<lambda>t l k k'. (\<forall>u. u \<noteq> t \<longrightarrow> k l u = 0) \<and> k' = deeper t l k),
      retrylock = (\<lambda>t l rval k k'. if rval = 0 then (\<forall>u. u \<noteq> t \<longrightarrow> k l u = 0) \<and> k' = deeper t l k else k' = k),
      reunlock = (\<lambda>t l k k'. k' = k(l := (k l)(t := k l t - 1)))\<rparr>"

lemma counting_mutexes_laws: "reentrant_laws counting_mutexes"
proof -
  have "deeper t l (k(l := (k l)(t := k l t - Suc 0))) = k" if "0 < k l t" for k t l
    using that by (simp add: deeper_def fun_eq_iff)
  then show ?thesis
    by (auto simp: reentrant_laws_def counting_mutexes_def)
qed

text \<open>The objects 8 and 16 share the lock 5.\<close>

definition two_objects :: "(ref \<Rightarrow> tid \<Rightarrow> nat) lockers" where
  "two_objects = \<lparr>mutexes = (\<lambda>_ _. 0), lock_at = (\<lambda>_. 5), belongs = (\<lambda>_. Threadsafe), lock_references = (\<lambda>_. 2),
     frames = (\<lambda>_. []), by_hand = (\<lambda>_ _. 0), abandoned = (\<lambda>_ _. 0), replaced = {}\<rparr>"

lemma two_objects_start: "autolock_reachable counting_mutexes two_objects"
  by (rule reached.at_start) (simp add: nobody_calls_def two_objects_def counting_mutexes_def)

text \<open>The first thread is in a method of the object 8, the second one waits at the object 16.\<close>

definition one_waits :: "call_body \<Rightarrow> (ref \<Rightarrow> tid \<Rightarrow> nat) lockers" where
  "one_waits b = two_objects\<lparr>mutexes := deeper 0 5 (\<lambda>_ _. 0),
     frames := (\<lambda>_. [])(0 := [\<lparr>receiver = 8, taken = 5, entered = True, called_for = b\<rparr>],
       1 := [\<lparr>receiver = 16, taken = 5, entered = False, called_for = Method\<rparr>])\<rparr>"

lemma one_waits_reachable:
  assumes "b \<noteq> Locks_only"
  shows "autolock_reachable counting_mutexes (one_waits b)"
proof -
  let ?f = "\<lparr>receiver = 8, taken = 5, entered = False, called_for = b\<rparr>"
  have r1: "autolock_reachable counting_mutexes (stack 0 [?f] two_objects)"
    by (rule reached_to [OF two_objects_start], rule autolock_step.call [of 0 _ b 8])
      (simp_all add: executing_def two_objects_def assms)
  have r2: "autolock_reachable counting_mutexes (stack 0 [?f\<lparr>entered := True\<rparr>] (two_objects\<lparr>mutexes := deeper 0 5 (\<lambda>_ _. 0)\<rparr>))"
    by (rule reached_to [OF r1], rule autolock_step.acquire [where t = 0 and f = ?f and fs = "[]"])
      (simp_all add: two_objects_def counting_mutexes_def assms)
  show ?thesis
    by (rule reached_to [OF r2], rule autolock_step.call [of 1 _ Method 16])
      (simp_all add: executing_def two_objects_def one_waits_def)
qed

theorem lock_depth_counts_calls_witness:
  "depth_of counting_mutexes (mutexes (one_waits Method)) 5 0 = 1"
  using lock_depth_counts_calls [OF counting_mutexes_laws one_waits_reachable, of Method 5 0]
  by (simp add: one_waits_def two_objects_def)

theorem locking_methods_exclude_witness:
  "\<not> entered (hd (frames (one_waits Method) 1))"
  using locking_methods_exclude [OF counting_mutexes_laws one_waits_reachable, of Method 0 1
      "hd (frames (one_waits Method) 0)" "hd (frames (one_waits Method) 1)"]
  by (simp add: one_waits_def two_objects_def)

text \<open>
  An object that gets another lock can be in two threads at once: a thread that has read the old lock and waits for it
  enters as soon as the old lock is free, while another thread enters with the new one.
\<close>
theorem replaced_lock_admits_two:
  "\<exists>s f g. autolock_reachable counting_mutexes s \<and> f \<in> set (frames s 0) \<and> g \<in> set (frames s 1)
     \<and> entered f \<and> entered g \<and> taken f \<noteq> 0 \<and> taken g \<noteq> 0 \<and> receiver f = receiver g"
proof -
  let ?s = "two_objects\<lparr>lock_at := (\<lambda>_. 5)(16 := 6), belongs := (\<lambda>_. Threadsafe)(16 := Threadsafe),
     lock_references := ((\<lambda>_. 2)(5 := 1))(6 := 3), replaced := {16}\<rparr>"
  let ?d = "\<lambda>l t. deeper t l (\<lambda>_ _. 0)"
  let ?f = "\<lambda>l e b. \<lparr>receiver = 16, taken = l, entered = e, called_for = b\<rparr>"
  have r1: "autolock_reachable counting_mutexes (stack 0 [?f 5 False (Shares 6)] two_objects)"
    by (rule reached_to [OF two_objects_start], rule autolock_step.call [of 0 _ "Shares 6" 16])
      (simp_all add: executing_def two_objects_def)
  have r2: "autolock_reachable counting_mutexes (stack 0 [?f 5 True (Shares 6)] (two_objects\<lparr>mutexes := ?d 5 0\<rparr>))"
    by (rule reached_to [OF r1], rule autolock_step.acquire [where t = 0 and f = "?f 5 False (Shares 6)" and fs = "[]"])
      (simp_all add: two_objects_def counting_mutexes_def)
  have r3: "autolock_reachable counting_mutexes
      (stack 1 [?f 5 False Method] (stack 0 [?f 5 True (Shares 6)] (two_objects\<lparr>mutexes := ?d 5 0\<rparr>)))"
    by (rule reached_to [OF r2], rule autolock_step.call [of 1 _ Method 16]) (simp_all add: executing_def two_objects_def)
  have r4: "autolock_reachable counting_mutexes
      (stack 1 [?f 5 False Method] (stack 0 [?f 5 True Method] (?s\<lparr>mutexes := ?d 5 0\<rparr>)))"
    by (rule reached_to [OF r3], rule autolock_step.share [where t = 0 and f = "?f 5 True (Shares 6)" and fs = "[]" and l = 6])
      (simp_all add: two_objects_def shareRecursiveLock_def didShareRecursiveLock_def one_reference_def fun_upd_twist)
  have r5: "autolock_reachable counting_mutexes (stack 1 [?f 5 False Method] ?s)"
    by (rule reached_to [OF r4], rule autolock_step.return_unlock [where t = 0 and f = "?f 5 True Method" and fs = "[]" and k = "\<lambda>_ _. 0"])
      (simp_all add: two_objects_def counting_mutexes_def fun_eq_iff)
  have r6: "autolock_reachable counting_mutexes (stack 1 [?f 5 True Method] (?s\<lparr>mutexes := ?d 5 1\<rparr>))"
    by (rule reached_to [OF r5], rule autolock_step.acquire [where t = 1 and f = "?f 5 False Method" and fs = "[]"])
      (simp_all add: two_objects_def counting_mutexes_def)
  have r7: "autolock_reachable counting_mutexes
      (stack 0 [?f 6 False Method] (stack 1 [?f 5 True Method] (?s\<lparr>mutexes := ?d 5 1\<rparr>)))"
    by (rule reached_to [OF r6], rule autolock_step.call [of 0 _ Method 16]) (simp_all add: executing_def two_objects_def)
  have r8: "autolock_reachable counting_mutexes
      (stack 0 [?f 6 True Method] (stack 1 [?f 5 True Method] (?s\<lparr>mutexes := deeper 0 6 (?d 5 1)\<rparr>)))"
    by (rule reached_to [OF r7], rule autolock_step.acquire [where t = 0 and f = "?f 6 False Method" and fs = "[]"])
      (simp_all add: two_objects_def counting_mutexes_def)
  show ?thesis
    by (rule exI, rule exI [of _ "?f 6 True Method"], rule exI [of _ "?f 5 True Method"], intro conjI, rule r8) simp_all
qed

end
