(* ===== verification/Proxies.thy ===== *)
theory Proxies
  imports LockCalls AccessTransfer
begin

text \<open>
  Proxies that lock (\<open>src/class/MulleProxy.m\<close>): every message to the proxy goes to its target, under the lock of the
  proxy and with access to the target for the duration of the call.

  The access to the target is that of theory \<open>AccessTransfer\<close>.  The mutexes are those of mulle-thread with the state
  \<open>mutexes\<close>.  A method of the target may do anything to the program: it is the parameter \<open>deliver\<close>.
\<close>

record proxy =
  proxy_lock :: ref
  proxy_target :: oid
  proxy_strategy :: MulleObjCTAOStrategy

datatype proxy_error = Access access_error | Method_raised | Inconsistency

record ('s, 'm) proxied =
  mutexes :: 's
  program :: "'m program"

type_synonym ('s, 'm) proxy_result = "((proxy_error \<times> ('s, 'm) proxied) + ('s, 'm) proxied) outcome"

text \<open>The strategies by their numbers; those that come before the finalizing one would empty pools.\<close>

definition strategy_number :: "MulleObjCTAOStrategy \<Rightarrow> nat" where
  "strategy_number strategy =
     (case strategy of
        MulleObjCTAOCallerRemovesFromCurrentPool \<Rightarrow> 0
      | MulleObjCTAOCallerRemovesFromAllPools \<Rightarrow> 1
      | MulleObjCTAOCallerRemovesFromCurrentPoolShallow \<Rightarrow> 2
      | MulleObjCTAOCallerRemovesFromAllPoolsShallow \<Rightarrow> 3
      | MulleObjCTAOReceiverPerformsFinalize \<Rightarrow> 4
      | MulleObjCTAOTransferIvars \<Rightarrow> 5
      | MulleObjCTAOKnownThreadSafeMethods \<Rightarrow> 6
      | MulleObjCTAOKnownThreadSafe \<Rightarrow> 7)"

definition initWithTarget :: "oid \<Rightarrow> MulleObjCTAOStrategy \<Rightarrow> 'm program \<Rightarrow> proxy \<times> 'm program" where
  "initWithTarget target strategy s =
     (\<lparr>proxy_lock = 0, proxy_target = target,
       proxy_strategy =
         (if strategy_number strategy < strategy_number MulleObjCTAOReceiverPerformsFinalize
          then MulleObjCTAOReceiverPerformsFinalize else strategy)\<rparr>,
      retain_object target s)"

definition initNoLockWithObject :: "oid \<Rightarrow> MulleObjCTAOStrategy \<Rightarrow> 'm program \<Rightarrow> proxy \<times> 'm program" where
  "initNoLockWithObject target strategy s = initWithTarget target strategy s"

text \<open>\<open>fresh_lock\<close> is the new \<open>NSRecursiveLock\<close>.\<close>

definition initWithObject :: "ref \<Rightarrow> oid \<Rightarrow> MulleObjCTAOStrategy \<Rightarrow> 'm program \<Rightarrow> proxy \<times> 'm program" where
  "initWithObject fresh_lock target strategy s =
     (let (P, s) = initWithTarget target strategy s in (P\<lparr>proxy_lock := fresh_lock\<rparr>, s))"

section \<open>Calls through a proxy\<close>

definition access_in ::
    "'m access_result \<Rightarrow> 's \<Rightarrow> ('s, 'm) proxy_result" where
  "access_in r m =
     (case r of
        Abort \<Rightarrow> Abort
      | Done (Inl (e, p)) \<Rightarrow> Done (Inl (Access e, \<lparr>mutexes = m, program = p\<rparr>))
      | Done (Inr p) \<Rightarrow> Done (Inr \<lparr>mutexes = m, program = p\<rparr>))"

definition and_then ::
    "('s, 'm) proxy_result \<Rightarrow> (('s, 'm) proxied \<Rightarrow> ('s, 'm) proxy_result) \<Rightarrow> ('s, 'm) proxy_result" where
  "and_then r f = (case r of Done (Inr s) \<Rightarrow> f s | _ \<Rightarrow> r)"

text \<open>Without \<open>NDEBUG\<close> an exception of the method is replaced by another one.\<close>

definition passing :: "bool \<Rightarrow> ('s, 'm) proxy_result \<Rightarrow> ('s, 'm) proxy_result" where
  "passing ndebug r = (case r of Done (Inl (e, s)) \<Rightarrow> Done (Inl (if ndebug then e else Inconsistency, s)) | _ \<Rightarrow> r)"

definition with_lock :: "('s \<Rightarrow> 's) \<Rightarrow> ('s, 'm) proxied \<Rightarrow> ('s, 'm) proxied" where
  "with_lock f s = s\<lparr>mutexes := f (mutexes s)\<rparr>"

definition proxy_forward ::
    "bool \<Rightarrow> bool \<Rightarrow> bool \<Rightarrow> 'm world \<Rightarrow> 's recursive_api \<Rightarrow> (ref \<Rightarrow> ref) \<Rightarrow> proxy \<Rightarrow> nat
     \<Rightarrow> (('s, 'm) proxied \<Rightarrow> ('s, 'm) proxy_result) \<Rightarrow> ('s, 'm) proxied \<Rightarrow> ('s, 'm) proxy_result" where
  "proxy_forward debug asserts ndebug W A lock_of P current deliver s =
     (let lock = proxy_lock P in
      and_then
        (if lock \<noteq> 0
         then (let s = with_lock (MulleObjCRecursiveLockLock A lock_of lock) s
               in access_in (GainAccess debug asserts W (proxy_strategy P) current (proxy_target P) (program s)) (mutexes s))
         else Done (Inr s))
        (\<lambda>s. and_then (passing ndebug (deliver s))
        (\<lambda>s. if lock \<noteq> 0
             then and_then
               (access_in (RelinquishAccess debug asserts W (proxy_strategy P) current (proxy_target P) (program s)) (mutexes s))
               (\<lambda>s. Done (Inr (with_lock (MulleObjCRecursiveLockUnlock A lock_of lock) s)))
             else Done (Inr s))))"

section \<open>Between calls and inside of one\<close>

text \<open>
  The threads are those below \<open>n\<close>, every one with a pool; \<open>refs\<close> counts the references to the target that are
  not due in a pool, and \<open>depth\<close> how often the lock is held.
\<close>

definition target_at ::
    "nat \<Rightarrow> 'm world \<Rightarrow> 's recursive_api \<Rightarrow> (ref \<Rightarrow> ref) \<Rightarrow> proxy \<Rightarrow> affinity \<Rightarrow> int \<Rightarrow> NSUInteger
     \<Rightarrow> ('s, 'm) proxied \<Rightarrow> bool" where
  "target_at n W A lock_of P who refs depth s \<longleftrightarrow>
     (\<forall>t<n. conf_ok W (confs (program s) t) \<and> pools (confs (program s) t) \<noteq> []) \<and>
     affinity (program s) (proxy_target P) = who \<and> owners n (program s) (proxy_target P) = refs \<and>
     recursive_depth A (lock_of (proxy_lock P)) (mutexes s) = depth"

text \<open>A proxy with a lock, for a target that is neither nil nor thread safe.\<close>

definition proxy_ok :: "'m world \<Rightarrow> proxy \<Rightarrow> bool" where
  "proxy_ok W P \<longleftrightarrow> proxy_lock P \<noteq> 0 \<and> proxy_target P \<noteq> nil \<and> \<not> is_constant W (proxy_target P) \<and>
     proxy_strategy P \<in> {MulleObjCTAOReceiverPerformsFinalize, MulleObjCTAOTransferIvars}"

lemma initWithObject_ok:
  assumes "moving strategy" and "fresh_lock \<noteq> 0" and "target \<noteq> nil" and "\<not> is_constant W target"
  shows "proxy_ok W (fst (initWithObject fresh_lock target strategy s))"
  using assms by (cases strategy) (simp_all add: proxy_ok_def initWithObject_def initWithTarget_def strategy_number_def moving_def)

lemma pools_after_autorelease: "pools c \<noteq> [] \<Longrightarrow> pools (autoreleaseObject W x c) \<noteq> []"
  by (auto simp: autoreleaseObject_def addObject_def Let_def split: list.splits)

text \<open>
  Gaining access takes one reference from the owners to the pool, relinquishing gives it back: first for the program
  alone, then together with the mutexes.
\<close>

definition object_at :: "nat \<Rightarrow> 'm world \<Rightarrow> oid \<Rightarrow> affinity \<Rightarrow> int \<Rightarrow> 'm program \<Rightarrow> bool" where
  "object_at n W x who refs p \<longleftrightarrow>
     (\<forall>t<n. conf_ok W (confs p t) \<and> pools (confs p t) \<noteq> []) \<and> affinity p x = who \<and> owners n p x = refs"

lemma target_at_object:
  "target_at n W A lock_of P who refs d s \<longleftrightarrow>
     object_at n W (proxy_target P) who refs (program s) \<and> recursive_depth A (lock_of (proxy_lock P)) (mutexes s) = d"
  by (simp add: target_at_def object_at_def)

lemma gain_object:
  assumes "map_laws (mops W)" and P: "proxy_ok W P" and "t < n" and s: "object_at n W (proxy_target P) who refs p0"
    and "who = No_thread \<or> who = Thread t"
  shows "\<exists>p. GainAccess debug asserts W (proxy_strategy P) t (proxy_target P) p0 = Done (Inr p)
    \<and> object_at n W (proxy_target P) (Thread t) (refs - 1) p"
proof -
  let ?x = "proxy_target P"
  define p where "p = autorelease_object W t ?x (p0\<lparr>affinity := (affinity p0)(?x := Thread t)\<rparr>)"
  have gain: "GainAccess debug asserts W (proxy_strategy P) t ?x p0 = Done (Inr p)"
    using P s assms(5) by (auto simp: GainAccess_def proxy_ok_def object_at_def p_def)
  have ok: "\<forall>u<n. conf_ok W (confs p0 u)" and pools: "\<forall>u<n. pools (confs p0 u) \<noteq> []"
    using s by (simp_all add: object_at_def)
  have ok': "\<forall>u<n. conf_ok W (confs p u)"
    using ok autoreleaseObject_inv [OF assms(1)] by (simp add: p_def autorelease_object_def)
  have "(\<Sum>u<n. int (count_list (added (confs p u)) ?x)) = (\<Sum>u<n. int (count_list (added (confs p0 u)) ?x)) + 1"
    by (rule sum_one_more [OF assms(3)])
      (use P pools assms(3) in \<open>simp_all add: p_def autorelease_object_def autorelease_added proxy_ok_def\<close>)
  then have "owners n p ?x = owners n p0 ?x - 1"
    using owners_added [OF ok', of ?x] owners_added [OF ok, of ?x] P
    by (simp add: proxy_ok_def p_def autorelease_object_def)
  then have "object_at n W ?x (Thread t) (refs - 1) p"
    using s ok' pools pools_after_autorelease [of "confs p0 t" W ?x] assms(3)
    by (simp add: object_at_def) (auto simp: p_def autorelease_object_def)
  then show ?thesis
    using gain by blast
qed

lemma relinquish_object:
  assumes P: "proxy_ok W P" and s: "object_at n W (proxy_target P) (Thread t) refs p0"
  shows "\<exists>p. RelinquishAccess debug asserts W (proxy_strategy P) t (proxy_target P) p0 = Done (Inr p)
    \<and> object_at n W (proxy_target P) No_thread (refs + 1) p"
proof -
  let ?x = "proxy_target P" and ?p = "retain_object (proxy_target P) p0"
  define p where "p = ?p\<lparr>affinity := (affinity ?p)(?x := No_thread)\<rparr>"
  have "RelinquishAccess debug asserts W (proxy_strategy P) t ?x p0 = Done (Inr p)"
    using P s by (auto simp: RelinquishAccess_def proxy_ok_def object_at_def p_def retain_object_def leave_pools_def
        current_pool_only_def Let_def)
  moreover have "object_at n W ?x No_thread (refs + 1) p"
    using s by (auto simp: object_at_def p_def retain_object_def owners_def reference_count_def)
  ultimately show ?thesis by blast
qed

lemma gain_target:
  assumes "map_laws (mops W)" and P: "proxy_ok W P" and "t < n" and s: "target_at n W A lock_of P who refs d s"
    and "who = No_thread \<or> who = Thread t"
  shows "\<exists>s'. access_in (GainAccess debug asserts W (proxy_strategy P) t (proxy_target P) (program s)) (mutexes s) = Done (Inr s')
    \<and> target_at n W A lock_of P (Thread t) (refs - 1) d s'"
proof -
  obtain p where "GainAccess debug asserts W (proxy_strategy P) t (proxy_target P) (program s) = Done (Inr p)"
      "object_at n W (proxy_target P) (Thread t) (refs - 1) p"
    using gain_object [OF assms(1-3) _ assms(5), of refs "program s"] s by (auto simp: target_at_object)
  then show ?thesis
    using s by (auto simp: target_at_object access_in_def)
qed

lemma relinquish_target:
  assumes P: "proxy_ok W P" and s: "target_at n W A lock_of P (Thread t) refs d s"
  shows "\<exists>s'. access_in (RelinquishAccess debug asserts W (proxy_strategy P) t (proxy_target P) (program s)) (mutexes s) = Done (Inr s')
    \<and> target_at n W A lock_of P No_thread (refs + 1) d s'"
proof -
  obtain p where "RelinquishAccess debug asserts W (proxy_strategy P) t (proxy_target P) (program s) = Done (Inr p)"
      "object_at n W (proxy_target P) No_thread (refs + 1) p"
    using relinquish_object [OF P, of n t refs "program s"] s by (auto simp: target_at_object)
  then show ?thesis
    using s by (auto simp: target_at_object access_in_def)
qed

lemma lock_target:
  assumes "depth_laws A (lock_of (proxy_lock P))" and "target_at n W A lock_of P who refs d s"
  shows "target_at n W A lock_of P who refs (d + 1) (with_lock (MulleObjCRecursiveLockLock A lock_of (proxy_lock P)) s)"
    and "target_at n W A lock_of P who refs (d - 1) (with_lock (MulleObjCRecursiveLockUnlock A lock_of (proxy_lock P)) s)"
  using assms by (simp_all add: target_at_def with_lock_def depth_laws_def MulleObjCRecursiveLockLock_def
      MulleObjCRecursiveLockUnlock_def MulleObjCRecursiveLockGetMutex_def)

text \<open>A method that leaves access, references and lock as it found them.\<close>

definition keeps_target where
  "keeps_target n W A lock_of P t refs d deliver \<longleftrightarrow>
     (\<forall>s. target_at n W A lock_of P (Thread t) refs d s \<longrightarrow>
        (\<exists>s'. deliver s = Done (Inr s') \<and> target_at n W A lock_of P (Thread t) refs d s'))"

lemma proxy_forward_target:
  assumes W: "map_laws (mops W)" and D: "depth_laws A (lock_of (proxy_lock P))" and P: "proxy_ok W P" and "t < n"
    and s: "target_at n W A lock_of P who refs d s" and who: "who = No_thread \<or> who = Thread t"
    and keeps: "keeps_target n W A lock_of P t (refs - 1) (d + 1) deliver"
  shows "\<exists>s'. proxy_forward debug asserts ndebug W A lock_of P t deliver s = Done (Inr s')
    \<and> target_at n W A lock_of P No_thread refs d s'"
proof -
  have lock: "proxy_lock P \<noteq> 0" using P by (simp add: proxy_ok_def)
  define s1 where "s1 = with_lock (MulleObjCRecursiveLockLock A lock_of (proxy_lock P)) s"
  obtain s2 where s2: "access_in (GainAccess debug asserts W (proxy_strategy P) t (proxy_target P) (program s1)) (mutexes s1) = Done (Inr s2)"
      and t2: "target_at n W A lock_of P (Thread t) (refs - 1) (d + 1) s2"
    using gain_target [OF W P assms(4) lock_target(1) [where lock_of = lock_of, OF D s] who] unfolding s1_def by blast
  obtain s3 where s3: "deliver s2 = Done (Inr s3)" and t3: "target_at n W A lock_of P (Thread t) (refs - 1) (d + 1) s3"
    using keeps t2 unfolding keeps_target_def by blast
  obtain s4 where s4: "access_in (RelinquishAccess debug asserts W (proxy_strategy P) t (proxy_target P) (program s3)) (mutexes s3) = Done (Inr s4)"
      and t4: "target_at n W A lock_of P No_thread refs (d + 1) s4"
    using relinquish_target [OF P t3] by fastforce
  show ?thesis
    using lock s2 s3 s4 lock_target(2) [where lock_of = lock_of, OF D t4]
    by (simp add: proxy_forward_def s1_def [symmetric] and_then_def passing_def Let_def)
qed

section \<open>Any calls by any threads\<close>

text \<open>
  The threads that call through a proxy, one step of one of them at a time.  A step is one of the calls of \<open>-forward:\<close>:
  \<open>Outside\<close> of a call a thread waits for the lock, \<open>Holding\<close> the lock it gains access, \<open>Gained\<close> means that it is in the
  method of the target, \<open>Returned\<close> that it relinquishes access next, \<open>Relinquished\<close> that it unlocks.  \<open>Stuck\<close> are the
  exception and the failed assertion of gaining or relinquishing access, both with the lock held.

  \<open>open_to_all\<close> tells that the thread which made the proxy has given up its access to the target, by relinquishing it
  (\<open>gives\<close>) or by a call through the proxy: until then only that thread may call.  \<open>due\<close> keeps the account of the
  references to the target that are not due in a pool.
\<close>

datatype proxy_phase = Outside | Holding | Gained | Returned | Relinquished | Stuck

record 'm proxy_run =
  lock_holder :: "nat option"
  call_phase :: "nat \<Rightarrow> proxy_phase"
  open_to_all :: bool
  the_program :: "'m program"
  due :: int

abbreviation in_phase :: "nat \<Rightarrow> proxy_phase \<Rightarrow> 'm proxy_run \<Rightarrow> 'm proxy_run" where
  "in_phase t ph s \<equiv> s\<lparr>call_phase := (call_phase s)(t := ph)\<rparr>"

text \<open>
  What the methods of the target and all else that the threads do may change, at any time: anything but the access to the
  target.  They may take and give up \<open>d\<close> references to it.
\<close>

definition other_work :: "nat \<Rightarrow> 'm world \<Rightarrow> oid \<Rightarrow> int \<Rightarrow> 'm program \<Rightarrow> 'm program \<Rightarrow> bool" where
  "other_work n W x d p p' \<longleftrightarrow> (\<forall>t<n. conf_ok W (confs p' t) \<and> pools (confs p' t) \<noteq> []) \<and>
     affinity p' x = affinity p x \<and> owners n p' x = owners n p x + d"

inductive proxy_move ::
    "bool \<Rightarrow> bool \<Rightarrow> nat \<Rightarrow> 'm world \<Rightarrow> MulleObjCTAOStrategy \<Rightarrow> nat \<Rightarrow> proxy \<Rightarrow> 'm proxy_run \<Rightarrow> 'm proxy_run \<Rightarrow> bool"
  for debug asserts n W strategy maker P where
  gives: "\<not> open_to_all s \<Longrightarrow> call_phase s maker = Outside \<Longrightarrow>
     RelinquishAccess debug asserts W strategy maker (proxy_target P) (the_program s) = Done (Inr p) \<Longrightarrow>
     proxy_move debug asserts n W strategy maker P s (s\<lparr>the_program := p, open_to_all := True, due := due s + 1\<rparr>)"
| locks: "t < n \<Longrightarrow> call_phase s t = Outside \<Longrightarrow> lock_holder s = None \<Longrightarrow> open_to_all s \<or> t = maker \<Longrightarrow>
     proxy_move debug asserts n W strategy maker P s (in_phase t Holding (s\<lparr>lock_holder := Some t\<rparr>))"
| gains: "t < n \<Longrightarrow> call_phase s t = Holding \<Longrightarrow>
     GainAccess debug asserts W (proxy_strategy P) t (proxy_target P) (the_program s) = Done (Inr p) \<Longrightarrow>
     proxy_move debug asserts n W strategy maker P s (in_phase t Gained (s\<lparr>the_program := p\<rparr>))"
| gain_fails: "t < n \<Longrightarrow> call_phase s t = Holding \<Longrightarrow>
     (\<forall>p. GainAccess debug asserts W (proxy_strategy P) t (proxy_target P) (the_program s) \<noteq> Done (Inr p)) \<Longrightarrow>
     proxy_move debug asserts n W strategy maker P s (in_phase t Stuck s)"
| works: "other_work n W (proxy_target P) d (the_program s) p \<Longrightarrow>
     proxy_move debug asserts n W strategy maker P s (s\<lparr>the_program := p, due := due s + d\<rparr>)"
| returns: "t < n \<Longrightarrow> call_phase s t = Gained \<Longrightarrow> proxy_move debug asserts n W strategy maker P s (in_phase t Returned s)"
| relinquishes: "t < n \<Longrightarrow> call_phase s t = Returned \<Longrightarrow>
     RelinquishAccess debug asserts W (proxy_strategy P) t (proxy_target P) (the_program s) = Done (Inr p) \<Longrightarrow>
     proxy_move debug asserts n W strategy maker P s (in_phase t Relinquished (s\<lparr>the_program := p, open_to_all := True\<rparr>))"
| relinquish_fails: "t < n \<Longrightarrow> call_phase s t = Returned \<Longrightarrow>
     (\<forall>p. RelinquishAccess debug asserts W (proxy_strategy P) t (proxy_target P) (the_program s) \<noteq> Done (Inr p)) \<Longrightarrow>
     proxy_move debug asserts n W strategy maker P s (in_phase t Stuck s)"
| unlocks: "t < n \<Longrightarrow> call_phase s t = Relinquished \<Longrightarrow>
     proxy_move debug asserts n W strategy maker P s (in_phase t Outside (s\<lparr>lock_holder := None\<rparr>))"

text \<open>The thread \<open>maker\<close>, which alone has access to the target, has made the proxy with \<open>-initWithObject:\<close>.\<close>

definition proxy_made ::
    "nat \<Rightarrow> 'm world \<Rightarrow> MulleObjCTAOStrategy \<Rightarrow> nat \<Rightarrow> ref \<Rightarrow> oid \<Rightarrow> proxy \<Rightarrow> 'm proxy_run \<Rightarrow> bool" where
  "proxy_made n W strategy maker fresh_lock target P s \<longleftrightarrow>
     (\<exists>p. object_at n W target (Thread maker) (due s - 1) p \<and> initWithObject fresh_lock target strategy p = (P, the_program s))
     \<and> lock_holder s = None \<and> (\<forall>t. call_phase s t = Outside) \<and> \<not> open_to_all s"

definition inside :: "proxy_phase \<Rightarrow> bool" where
  "inside ph \<longleftrightarrow> ph = Gained \<or> ph = Returned"

definition access_of :: "nat \<Rightarrow> 'm proxy_run \<Rightarrow> affinity" where
  "access_of maker s =
     (case lock_holder s of
        Some t \<Rightarrow> if inside (call_phase s t) then Thread t else if open_to_all s then No_thread else Thread maker
      | None \<Rightarrow> if open_to_all s then No_thread else Thread maker)"

definition refs_of :: "'m proxy_run \<Rightarrow> int" where
  "refs_of s = (case lock_holder s of Some t \<Rightarrow> if inside (call_phase s t) then due s - 1 else due s | None \<Rightarrow> due s)"

definition proxy_invariant :: "nat \<Rightarrow> 'm world \<Rightarrow> nat \<Rightarrow> proxy \<Rightarrow> 'm proxy_run \<Rightarrow> bool" where
  "proxy_invariant n W maker P s \<longleftrightarrow>
     object_at n W (proxy_target P) (access_of maker s) (refs_of s) (the_program s) \<and>
     (\<forall>t. call_phase s t \<noteq> Outside \<longleftrightarrow> lock_holder s = Some t) \<and> (\<forall>t. call_phase s t \<noteq> Stuck) \<and>
     (\<forall>t. lock_holder s = Some t \<longrightarrow> t < n \<and> (\<not> open_to_all s \<longrightarrow> t = maker \<and> call_phase s t \<noteq> Relinquished))"

text \<open>The hypotheses on the target: it is no constant and its release autoreleases nothing.\<close>

definition proxy_setting :: "nat \<Rightarrow> 'm world \<Rightarrow> MulleObjCTAOStrategy \<Rightarrow> nat \<Rightarrow> proxy \<Rightarrow> bool" where
  "proxy_setting n W strategy maker P \<longleftrightarrow> map_laws (mops W) \<and> (\<forall>h. react W h (proxy_target P) = []) \<and>
     moving strategy \<and> maker < n \<and> proxy_ok W P"

lemma leave_pools_pools:
  "pools c \<noteq> [] \<Longrightarrow> pools (leave_pools W strategy x c) \<noteq> []"
proof -
  assume c: "pools c \<noteq> []"
  have "map paddr (pools (leave_pools W strategy x c)) = map paddr (pools c)"
    by (simp add: leave_pools_def mulleReleasePoolObject_inst_def mulleReleasePoolObject_class_def
        same_addresses_releaseObjects same_addresses_fold split: MulleObjCTAOStrategy.splits list.splits)
  then show ?thesis using c by (metis map_is_Nil_conv)
qed

lemma maker_gives:
  assumes set: "proxy_setting n W strategy maker P" and p0: "object_at n W (proxy_target P) (Thread maker) refs p0"
    and r: "RelinquishAccess debug asserts W strategy maker (proxy_target P) p0 = Done (Inr p)"
  shows "object_at n W (proxy_target P) No_thread (refs + 1) p"
proof -
  let ?x = "proxy_target P"
  have W: "map_laws (mops W)" "\<forall>h. react W h ?x = []" "moving strategy" "?x \<noteq> nil"
    using set by (simp_all add: proxy_setting_def proxy_ok_def)
  have ok: "\<forall>t<n. conf_ok W (confs p0 t)" and aff: "affinity p0 ?x = Thread maker"
    using p0 by (simp_all add: object_at_def)
  have aff': "affinity p0 ?x = Thread maker \<or> affinity p0 ?x = Threadsafe" using aff by simp
  note eff = relinquish_effect [OF W(1) ok W(2,4) aff' r]
  have "pools (confs p t) \<noteq> []" if "t < n" for t
  proof (cases "t = maker")
    case True
    have "confs p maker = leave_pools W strategy ?x (confs p0 maker)"
      using r relinquish_moving [OF W(3) aff, of debug asserts W]
      by (auto simp: Let_def retain_object_def split: if_splits)
    moreover have "pools (confs p0 maker) \<noteq> []"
      using True that p0 by (simp add: object_at_def)
    ultimately show ?thesis
      using True leave_pools_pools by metis
  next
    case False
    then show ?thesis using eff(4) that p0 by (simp add: object_at_def)
  qed
  moreover have "affinity p ?x = No_thread" using eff(3) W(3) aff by simp
  ultimately show ?thesis
    using eff(1,2) W(4) p0 by (simp add: object_at_def)
qed

lemma proxy_made_invariant:
  assumes "proxy_made n W strategy maker fresh_lock target P s"
  shows "proxy_invariant n W maker P s"
proof -
  obtain p where p: "object_at n W target (Thread maker) (due s - 1) p" "initWithObject fresh_lock target strategy p = (P, the_program s)"
    using assms unfolding proxy_made_def by blast
  then have "proxy_target P = target" "the_program s = retain_object target p"
    by (auto simp: initWithObject_def initWithTarget_def)
  moreover have "object_at n W target (Thread maker) (due s) (retain_object target p)"
    using p(1) by (simp add: object_at_def retain_object_def owners_def reference_count_def)
  ultimately show ?thesis
    using assms by (simp add: proxy_invariant_def proxy_made_def access_of_def refs_of_def)
qed


text \<open>In a call the step that comes next is possible and does what it should.\<close>

lemma call_phases:
  assumes set: "proxy_setting n W strategy maker P" and i: "proxy_invariant n W maker P s"
  shows "call_phase s t = Holding \<Longrightarrow> \<exists>p. GainAccess debug asserts W (proxy_strategy P) t (proxy_target P) (the_program s) = Done (Inr p)
      \<and> object_at n W (proxy_target P) (Thread t) (due s - 1) p"
    and "call_phase s t = Returned \<Longrightarrow> \<exists>p. RelinquishAccess debug asserts W (proxy_strategy P) t (proxy_target P) (the_program s) = Done (Inr p)
      \<and> object_at n W (proxy_target P) No_thread (due s) p"
proof -
  have P: "proxy_ok W P" and W: "map_laws (mops W)" using set by (simp_all add: proxy_setting_def)
  have held: "lock_holder s = Some t" and t: "t < n" "\<not> open_to_all s \<longrightarrow> t = maker" if "call_phase s t \<noteq> Outside"
    using i that by (simp_all add: proxy_invariant_def)
  show "\<exists>p. GainAccess debug asserts W (proxy_strategy P) t (proxy_target P) (the_program s) = Done (Inr p)
      \<and> object_at n W (proxy_target P) (Thread t) (due s - 1) p" if h: "call_phase s t = Holding"
  proof (rule gain_object [OF W P])
    show "object_at n W (proxy_target P) (access_of maker s) (due s) (the_program s)"
      using i h held by (simp add: proxy_invariant_def refs_of_def inside_def)
    show "access_of maker s = No_thread \<or> access_of maker s = Thread t"
      using h held t(2) by (auto simp: access_of_def inside_def)
  qed (use h t(1) in simp)
  show "\<exists>p. RelinquishAccess debug asserts W (proxy_strategy P) t (proxy_target P) (the_program s) = Done (Inr p)
      \<and> object_at n W (proxy_target P) No_thread (due s) p" if r: "call_phase s t = Returned"
  proof -
    have "object_at n W (proxy_target P) (Thread t) (due s - 1) (the_program s)"
      using i r held by (simp add: proxy_invariant_def access_of_def refs_of_def inside_def)
    then show ?thesis using relinquish_object [OF P] by fastforce
  qed
qed

lemma proxy_move_invariant:
  assumes i: "proxy_setting n W strategy maker P \<and> proxy_invariant n W maker P s"
    and "proxy_move debug asserts n W strategy maker P s s'"
  shows "proxy_setting n W strategy maker P \<and> proxy_invariant n W maker P s'"
proof -
  have held: "lock_holder s = Some t" if "call_phase s t \<noteq> Outside" for t
    using i that by (simp add: proxy_invariant_def)
  show ?thesis
    using assms(2)
  proof (cases rule: proxy_move.cases)
    case (gives p)
    have none: "lock_holder s = None"
      using i gives by (cases "lock_holder s") (auto simp: proxy_invariant_def)
    have "object_at n W (proxy_target P) (Thread maker) (due s) (the_program s)"
      using i none gives by (simp add: proxy_invariant_def access_of_def refs_of_def)
    then have "object_at n W (proxy_target P) No_thread (due s + 1) p"
      using maker_gives [OF conjunct1 [OF i]] gives by blast
    then show ?thesis
      using i none gives by (simp add: proxy_invariant_def access_of_def refs_of_def)
  next
    case (locks t)
    then show ?thesis
      using i held [of t] by (auto simp: proxy_invariant_def access_of_def refs_of_def inside_def)
  next
    case (gains t p)
    then have "object_at n W (proxy_target P) (Thread t) (due s - 1) p"
      using call_phases(1) [OF conjunct1 [OF i] conjunct2 [OF i], of t debug asserts] by auto
    then show ?thesis
      using i gains held [of t] by (auto simp: proxy_invariant_def access_of_def refs_of_def inside_def)
  next
    case (gain_fails t)
    then show ?thesis
      using call_phases(1) [OF conjunct1 [OF i] conjunct2 [OF i], of t debug asserts] by auto
  next
    case (works d p)
    have "access_of maker s' = access_of maker s" "refs_of s' = refs_of s + d"
      using works by (simp_all add: access_of_def refs_of_def split: option.splits)
    then show ?thesis
      using i works by (simp add: proxy_invariant_def object_at_def other_work_def)
  next
    case (returns t)
    then show ?thesis
      using i held [of t] by (auto simp: proxy_invariant_def access_of_def refs_of_def inside_def)
  next
    case (relinquishes t p)
    then have "object_at n W (proxy_target P) No_thread (due s) p"
      using call_phases(2) [OF conjunct1 [OF i] conjunct2 [OF i], of t debug asserts] by auto
    then show ?thesis
      using i relinquishes held [of t] by (auto simp: proxy_invariant_def access_of_def refs_of_def inside_def)
  next
    case (relinquish_fails t)
    then show ?thesis
      using call_phases(2) [OF conjunct1 [OF i] conjunct2 [OF i], of t debug asserts] by auto
  next
    case (unlocks t)
    then show ?thesis
      using i held [of t] by (auto simp: proxy_invariant_def access_of_def refs_of_def inside_def)
  qed
qed

interpretation proxied_target: stable_invariant
  "\<lambda>s. proxy_setting n W strategy maker P \<and> proxy_made n W strategy maker fresh_lock target P s"
  "proxy_move debug asserts n W strategy maker P"
  "\<lambda>s. proxy_setting n W strategy maker P \<and> proxy_invariant n W maker P s"
  using proxy_made_invariant proxy_move_invariant by unfold_locales blast+

lemma initWithObject_setting:
  assumes "map_laws (mops W)" and "\<forall>h. react W h target = []" and "moving strategy" and "maker < n"
    and "fresh_lock \<noteq> 0" and "target \<noteq> nil" and "\<not> is_constant W target"
    and "proxy_made n W strategy maker fresh_lock target P s"
  shows "proxy_setting n W strategy maker P" and "proxy_target P = target"
proof -
  obtain p where p: "initWithObject fresh_lock target strategy p = (P, the_program s)"
    using assms(8) unfolding proxy_made_def by blast
  show target: "proxy_target P = target"
    using p by (auto simp: initWithObject_def initWithTarget_def)
  have "proxy_ok W P"
    using initWithObject_ok [OF assms(3,5,6,7), of p] p by simp
  then show "proxy_setting n W strategy maker P"
    using assms(1-4) target by (simp add: proxy_setting_def)
qed

lemma proxy_invariant_holds:
  assumes "proxy_setting n W strategy maker P" and "proxy_made n W strategy maker fresh_lock target P s0"
    and "reached (\<lambda>s. s = s0) (proxy_move debug asserts n W strategy maker P) s"
  shows "proxy_invariant n W maker P s"
proof -
  have "reached (\<lambda>s. proxy_setting n W strategy maker P \<and> proxy_made n W strategy maker fresh_lock target P s)
      (proxy_move debug asserts n W strategy maker P) s"
    using assms(3) by induction (use assms(1,2) in \<open>auto intro: reached.intros\<close>)
  then show ?thesis
    using proxied_target.reached_invariant by blast
qed

lemma call_goes_on:
  assumes set: "proxy_setting n W strategy maker P" and i: "proxy_invariant n W maker P s" and t: "call_phase s t \<noteq> Outside"
  shows "\<exists>s'. proxy_move debug asserts n W strategy maker P s s' \<and> call_phase s' t \<noteq> call_phase s t"
proof -
  let ?move = "proxy_move debug asserts n W strategy maker P s"
  have n: "t < n" using i t by (simp add: proxy_invariant_def)
  show ?thesis
  proof (cases "call_phase s t")
    case Holding
    obtain p where p: "GainAccess debug asserts W (proxy_strategy P) t (proxy_target P) (the_program s) = Done (Inr p)"
      using call_phases(1) [OF set i Holding] by blast
    have "?move (in_phase t Gained (s\<lparr>the_program := p\<rparr>))"
      by (rule proxy_move.gains [OF n Holding p])
    then show ?thesis
      using Holding by fastforce
  next
    case Gained
    have "?move (in_phase t Returned s)"
      by (rule proxy_move.returns [OF n Gained])
    then show ?thesis
      using Gained by fastforce
  next
    case Returned
    obtain p where p: "RelinquishAccess debug asserts W (proxy_strategy P) t (proxy_target P) (the_program s) = Done (Inr p)"
      using call_phases(2) [OF set i Returned] by blast
    have "?move (in_phase t Relinquished (s\<lparr>the_program := p, open_to_all := True\<rparr>))"
      by (rule proxy_move.relinquishes [OF n Returned p])
    then show ?thesis
      using Returned by fastforce
  next
    case Relinquished
    have "?move (in_phase t Outside (s\<lparr>lock_holder := None\<rparr>))"
      by (rule proxy_move.unlocks [OF n Relinquished])
    then show ?thesis
      using Relinquished by fastforce
  qed (use i t in \<open>simp_all add: proxy_invariant_def\<close>)
qed

text \<open>
  C11. A thread that has access to an object makes a proxy for it with \<open>-initWithObject:\<close>, and from when it has
  relinquished its access, directly or by a call through the proxy, any threads call through the proxy, their steps in
  any order.  Then at most one thread is in a call; while it is in the method of the target, that thread and no other has
  access to the target, whose reference is due in its pool; gaining and relinquishing access never fail, the call goes
  on to its end, and when no thread is in a call the lock is free, no thread has access, and the target has the
  references that the proxy and its owners took.  This is for a target that is no constant, not thread safe, whose
  release autoreleases nothing, and whose methods neither change its affinity nor call the same proxy again
  (see C40), when none of them raises.
\<close>
theorem proxy_calls_return_target:
  assumes "map_laws (mops W)" and "\<forall>h. react W h target = []" and "moving strategy" and "maker < n"
    and "fresh_lock \<noteq> 0" and "target \<noteq> nil" and "\<not> is_constant W target"
    and "proxy_made n W strategy maker fresh_lock target P s0"
    and "reached (\<lambda>s. s = s0) (proxy_move debug asserts n W strategy maker P) s"
  shows "(\<forall>t. call_phase s t \<noteq> Stuck) \<and> (\<forall>t u. call_phase s t \<noteq> Outside \<and> call_phase s u \<noteq> Outside \<longrightarrow> t = u)
    \<and> (\<forall>t. inside (call_phase s t) \<longrightarrow> (\<forall>u. mulleIsAccessible u target (the_program s) \<longleftrightarrow> u = t)
         \<and> owners n (the_program s) target = due s - 1)
    \<and> (\<forall>t. call_phase s t \<noteq> Outside \<longrightarrow> (\<exists>s'. proxy_move debug asserts n W strategy maker P s s' \<and> call_phase s' t \<noteq> call_phase s t))
    \<and> ((\<forall>t. call_phase s t = Outside) \<longrightarrow> lock_holder s = None \<and> owners n (the_program s) target = due s
         \<and> affinity (the_program s) target = (if open_to_all s then No_thread else Thread maker))"
proof -
  have set: "proxy_setting n W strategy maker P" and target: "proxy_target P = target"
    using initWithObject_setting [OF assms(1-8)] by simp_all
  have i: "proxy_invariant n W maker P s"
    by (rule proxy_invariant_holds [OF set assms(8,9)])
  have held: "lock_holder s = Some t" "t < n" if "call_phase s t \<noteq> Outside" for t
    using i that by (simp_all add: proxy_invariant_def)
  have at: "object_at n W target (access_of maker s) (refs_of s) (the_program s)"
    using i target by (simp add: proxy_invariant_def)
  have "\<exists>s'. proxy_move debug asserts n W strategy maker P s s' \<and> call_phase s' t \<noteq> call_phase s t"
    if t: "call_phase s t \<noteq> Outside" for t
    by (rule call_goes_on [OF set i t])
  moreover have "mulleIsAccessible u target (the_program s) \<longleftrightarrow> u = t" "owners n (the_program s) target = due s - 1"
    if "inside (call_phase s t)" for t u
    using at that held(1) [of t] by (auto simp: object_at_def access_of_def refs_of_def mulleIsAccessible_def inside_def)
  moreover have "lock_holder s = None" if "\<forall>t. call_phase s t = Outside"
    using i that by (cases "lock_holder s") (auto simp: proxy_invariant_def)
  moreover have "call_phase s t \<noteq> Stuck" for t
    using i by (simp add: proxy_invariant_def)
  moreover have "t = u" if "call_phase s t \<noteq> Outside" "call_phase s u \<noteq> Outside" for t u
    using held(1) [OF that(1)] held(1) [OF that(2)] by simp
  ultimately show ?thesis
    using at by (auto simp: object_at_def access_of_def refs_of_def)
qed

text \<open>An object that nobody has, with two threads.\<close>

definition demo_proxied :: "(NSUInteger, oid \<Rightarrow> NSUInteger) proxied" where
  "demo_proxied = \<lparr>mutexes = 0, program = two_threads
     \<lparr>confs := (\<lambda>t. pushAutoreleasePool 2 (empty_conf None)), affinity := (\<lambda>_. No_thread)\<rparr>\<rparr>"

lemma demo_proxy:
  "proxy_ok quiet_world (fst (initWithObject 5 8 MulleObjCTAOTransferIvars s))"
  "target_at 2 quiet_world counter id (fst (initWithObject 5 8 MulleObjCTAOTransferIvars s)) No_thread 2 0 demo_proxied"
proof -
  have "conf_ok quiet_world (pushAutoreleasePool 2 (empty_conf None))"
    by (rule push_inv) (simp_all add: inv_defs empty_conf_def pool_contents_def)
  moreover have "owners 2 (program demo_proxied) 8 = 2"
    by (simp add: owners_def reference_count_def demo_proxied_def two_threads_def pool_contents_def pushAutoreleasePool_def empty_conf_def)
  moreover have "proxy_target (fst (initWithObject 5 8 MulleObjCTAOTransferIvars s)) = 8"
    by (simp add: initWithObject_def initWithTarget_def)
  ultimately show "target_at 2 quiet_world counter id (fst (initWithObject 5 8 MulleObjCTAOTransferIvars s)) No_thread 2 0 demo_proxied"
    by (simp add: target_at_def) (simp add: demo_proxied_def counter_def pushAutoreleasePool_def)
qed (rule initWithObject_ok, simp_all add: moving_def nil_def)

text \<open>
  The thread 0 makes a proxy for the object 8, which it may access, and gives up its access; thread 1 calls.
\<close>

definition demo_made :: "(oid \<Rightarrow> NSUInteger) proxy_run" where
  "demo_made = \<lparr>lock_holder = None, call_phase = (\<lambda>_. Outside), open_to_all = False,
     the_program = snd (initWithObject 5 8 MulleObjCTAOTransferIvars
       (program demo_proxied\<lparr>affinity := (\<lambda>_. Thread 0)\<rparr>)), due = 3\<rparr>"

lemma demo_made:
  "proxy_made 2 quiet_world MulleObjCTAOTransferIvars 0 5 8 (fst (initWithObject 5 8 MulleObjCTAOTransferIvars q)) demo_made"
proof -
  let ?p = "program demo_proxied\<lparr>affinity := (\<lambda>_. Thread 0)\<rparr>"
  have "object_at 2 quiet_world 8 (Thread 0) 2 ?p"
    using demo_proxy(2) [of q]
    by (simp add: target_at_object object_at_def owners_def reference_count_def initWithObject_def initWithTarget_def)
  moreover have "initWithObject 5 8 MulleObjCTAOTransferIvars ?p
      = (fst (initWithObject 5 8 MulleObjCTAOTransferIvars q), the_program demo_made)"
    by (simp add: demo_made_def initWithObject_def initWithTarget_def)
  moreover have "due demo_made - 1 = 2" by (simp add: demo_made_def)
  ultimately show ?thesis
    unfolding proxy_made_def by (simp add: demo_made_def) blast
qed

theorem proxy_calls_return_target_witness:
  "\<exists>s. reached (\<lambda>s. s = demo_made) (proxy_move True True 2 quiet_world MulleObjCTAOTransferIvars 0
       (fst (initWithObject 5 8 MulleObjCTAOTransferIvars (program demo_proxied)))) s
     \<and> call_phase s 1 = Gained \<and> (\<forall>u. mulleIsAccessible u 8 (the_program s) \<longleftrightarrow> u = 1)
     \<and> owners 2 (the_program s) 8 = 3"
proof -
  let ?P = "fst (initWithObject 5 8 MulleObjCTAOTransferIvars (program demo_proxied))"
  let ?move = "proxy_move True True 2 quiet_world MulleObjCTAOTransferIvars 0 ?P"
  let ?reached = "reached (\<lambda>s. s = demo_made) ?move"
  note made = demo_made [of "program demo_proxied"]
  have set: "proxy_setting 2 quiet_world MulleObjCTAOTransferIvars 0 ?P" and target: "proxy_target ?P = 8"
    using initWithObject_setting [OF _ _ _ _ _ _ _ made] by (simp_all add: moving_def nil_def)
  obtain p where p: "RelinquishAccess True True quiet_world MulleObjCTAOTransferIvars 0 8 (the_program demo_made) = Done (Inr p)"
    using relinquish_moving [of MulleObjCTAOTransferIvars "the_program demo_made" 8 0]
    by (simp add: moving_def current_pool_only_def Let_def demo_made_def initWithObject_def initWithTarget_def retain_object_def)
  define s1 where "s1 = demo_made\<lparr>the_program := p, open_to_all := True, due := due demo_made + 1\<rparr>"
  have "RelinquishAccess True True quiet_world MulleObjCTAOTransferIvars 0 (proxy_target ?P) (the_program demo_made) = Done (Inr p)"
    by (subst target) (rule p)
  then have "?move demo_made s1"
    unfolding s1_def by (intro proxy_move.gives) (simp_all add: demo_made_def)
  then have r1: "?reached s1"
    by (rule reached.next_step [rotated]) (rule reached.at_start, rule refl)
  define s2 where "s2 = in_phase 1 Holding (s1\<lparr>lock_holder := Some 1\<rparr>)"
  have r2: "?reached s2"
    unfolding s2_def by (rule reached.next_step [OF r1], rule proxy_move.locks) (simp_all add: s1_def demo_made_def)
  have holding: "call_phase s2 1 = Holding" by (simp add: s2_def)
  obtain p2 where p2: "GainAccess True True quiet_world (proxy_strategy ?P) 1 (proxy_target ?P) (the_program s2) = Done (Inr p2)"
    using call_phases(1) [OF set proxy_invariant_holds [OF set made r2] holding] by blast
  define s3 where "s3 = in_phase 1 Gained (s2\<lparr>the_program := p2\<rparr>)"
  have r3: "?reached s3"
    unfolding s3_def by (rule reached.next_step [OF r2], rule proxy_move.gains) (use holding p2 in simp_all)
  have at3: "inside (call_phase s3 1)" "due s3 = 4" "call_phase s3 1 = Gained"
    by (simp_all add: s3_def s2_def s1_def demo_made_def inside_def)
  have laws: "map_laws (mops quiet_world)" "\<forall>h. react quiet_world h 8 = []" "moving MulleObjCTAOTransferIvars"
      "(0::nat) < 2" "(5::ref) \<noteq> 0" "8 \<noteq> nil" "\<not> is_constant quiet_world 8"
    by (simp_all add: moving_def nil_def)
  have "\<forall>t. inside (call_phase s3 t) \<longrightarrow> (\<forall>u. mulleIsAccessible u 8 (the_program s3) \<longleftrightarrow> u = t)
      \<and> owners 2 (the_program s3) 8 = due s3 - 1"
    using proxy_calls_return_target [OF laws made r3] by (elim conjE) assumption
  then have "(\<forall>u. mulleIsAccessible u 8 (the_program s3) \<longleftrightarrow> u = 1) \<and> owners 2 (the_program s3) 8 = 3"
    using at3(1,2) by (elim allE [of _ 1] impE) auto
  then show ?thesis
    using r3 at3(3) by blast
qed

section \<open>Where access is lost\<close>

text \<open>A method that does nothing, and one that needs access to the target.\<close>

definition needs_access :: "proxy \<Rightarrow> nat \<Rightarrow> ('s, 'm) proxied \<Rightarrow> ('s, 'm) proxy_result" where
  "needs_access P t s =
     (if mulleIsAccessible t (proxy_target P) (program s) then Done (Inr s) else Done (Inl (Method_raised, s)))"

text \<open>A method that first calls its own object through the proxy, as the recursive lock allows.\<close>

definition calls_back where
  "calls_back debug asserts ndebug W A lock_of P t rest s =
     and_then (proxy_forward debug asserts ndebug W A lock_of P t (\<lambda>s. Done (Inr s)) s) rest"

text \<open>
  C40. Nested calls through a proxy do not work.  The inner call relinquishes the access that the outer one has gained:
  the outer method goes on without access to its own object, and fails when it needs it, with the lock still held.
  When it does not need it, a build with assertions that is no debug build ends the process as the outer call
  relinquishes access a second time.
\<close>
theorem nested_proxy_call_loses_access:
  assumes "map_laws (mops W)" and "depth_laws A (lock_of (proxy_lock P))" and "proxy_ok W P" and "t < n"
    and "target_at n W A lock_of P No_thread refs 0 s"
  shows "(\<exists>e s'. proxy_forward debug asserts ndebug W A lock_of P t
        (calls_back debug asserts ndebug W A lock_of P t (needs_access P t)) s = Done (Inl (e, s'))
      \<and> target_at n W A lock_of P No_thread (refs - 1) 1 s')
    \<and> proxy_forward False True ndebug W A lock_of P t
        (calls_back False True ndebug W A lock_of P t (\<lambda>s. Done (Inr s))) s = Abort"
proof -
  have lock: "proxy_lock P \<noteq> 0" using assms(3) by (simp add: proxy_ok_def)
  have kept: "keeps_target n W A lock_of P t (refs - 2) 2 (\<lambda>s. Done (Inr s))"
    by (simp add: keeps_target_def)
  define s1 where "s1 = with_lock (MulleObjCRecursiveLockLock A lock_of (proxy_lock P)) s"
  have t1: "target_at n W A lock_of P No_thread refs 1 s1"
    using lock_target(1) [where lock_of = lock_of, OF assms(2,5)] by (simp add: s1_def)
  have outer: "\<exists>s2 s3. access_in (GainAccess d as W (proxy_strategy P) t (proxy_target P) (program s1)) (mutexes s1) = Done (Inr s2)
      \<and> proxy_forward d as ndebug W A lock_of P t (\<lambda>s. Done (Inr s)) s2 = Done (Inr s3)
      \<and> target_at n W A lock_of P No_thread (refs - 1) 1 s3" for d as
  proof -
    obtain s2 where "access_in (GainAccess d as W (proxy_strategy P) t (proxy_target P) (program s1)) (mutexes s1) = Done (Inr s2)"
        and "target_at n W A lock_of P (Thread t) (refs - 1) 1 s2"
      using gain_target [OF assms(1,3,4) t1] by blast
    then show ?thesis
      using proxy_forward_target [where lock_of = lock_of and who = "Thread t" and refs = "refs - 1" and d = 1,
          OF assms(1,2,3,4)] kept by fastforce
  qed
  show ?thesis
  proof
    obtain s2 s3 where s2: "access_in (GainAccess debug asserts W (proxy_strategy P) t (proxy_target P) (program s1)) (mutexes s1) = Done (Inr s2)"
        and s3: "proxy_forward debug asserts ndebug W A lock_of P t (\<lambda>s. Done (Inr s)) s2 = Done (Inr s3)"
        and t3: "target_at n W A lock_of P No_thread (refs - 1) 1 s3"
      using outer by blast
    have "needs_access P t s3 = Done (Inl (Method_raised, s3))"
      using t3 by (simp add: needs_access_def mulleIsAccessible_def target_at_def)
    then show "\<exists>e s'. proxy_forward debug asserts ndebug W A lock_of P t
          (calls_back debug asserts ndebug W A lock_of P t (needs_access P t)) s = Done (Inl (e, s'))
        \<and> target_at n W A lock_of P No_thread (refs - 1) 1 s'"
      using lock s2 s3 t3
      by (subst proxy_forward_def) (simp add: s1_def [symmetric] and_then_def passing_def calls_back_def Let_def)
  next
    obtain s2 s3 where s2: "access_in (GainAccess False True W (proxy_strategy P) t (proxy_target P) (program s1)) (mutexes s1) = Done (Inr s2)"
        and s3: "proxy_forward False True ndebug W A lock_of P t (\<lambda>s. Done (Inr s)) s2 = Done (Inr s3)"
        and t3: "target_at n W A lock_of P No_thread (refs - 1) 1 s3"
      using outer by blast
    have "RelinquishAccess False True W (proxy_strategy P) t (proxy_target P) (program s3) = Abort"
      using t3 assms(3) by (auto simp: RelinquishAccess_def target_at_def proxy_ok_def retain_object_def Let_def)
    then show "proxy_forward False True ndebug W A lock_of P t
        (calls_back False True ndebug W A lock_of P t (\<lambda>s. Done (Inr s))) s = Abort"
      using lock s2 s3
      by (subst proxy_forward_def) (simp add: s1_def [symmetric] and_then_def passing_def calls_back_def access_in_def Let_def)
  qed
qed

theorem nested_proxy_call_loses_access_witness:
  "let P = fst (initWithObject 5 8 MulleObjCTAOTransferIvars (program demo_proxied))
   in proxy_forward False True True quiet_world counter id P 0
     (calls_back False True True quiet_world counter id P 0 (\<lambda>s. Done (Inr s))) demo_proxied = Abort"
  using nested_proxy_call_loses_access [OF _ _ demo_proxy(1) _ demo_proxy(2), of "program demo_proxied" 0 False True True]
  by (simp add: Let_def depth_laws_def counter_def)

end
