(* ===== verification/AccessWalk.thy ===== *)
theory AccessWalk
  imports AccessTransfer
begin

text \<open>
  Handing over an object with all that it owns (\<open>src/class/NSObject.m\<close>, \<open>src/protocol/MulleObjCRootObject.m\<close>): relinquishing
  and gaining access walk along properties and instance variables, and a set of the objects that were met keeps each
  from being asked twice, also when they refer to each other in circles.

  How objects refer to each other is the record \<open>shape\<close>, which does not change during a walk.  The messages that are still to
  be sent are a list, the innermost first.
\<close>

record shape =
  strategy_of :: "oid \<Rightarrow> MulleObjCTAOStrategy"
  is_class_object :: "oid \<Rightarrow> bool"
  is_NSObject :: "oid \<Rightarrow> bool"
  properties_of :: "oid \<Rightarrow> (nat \<times> bool) list"
  ivars_of :: "oid \<Rightarrow> (nat \<times> bool) list"
  ivar_value :: "oid \<Rightarrow> nat \<Rightarrow> oid"

section \<open>The values of an object\<close>

text \<open>
  A property names its instance variable, 0 for none, and whether it is retained or copied; an instance variable
  whether its type is an object.  The set has the instance variables that were met, also those of properties that
  own nothing.
\<close>

fun property_values :: "shape \<Rightarrow> oid \<Rightarrow> (nat \<times> bool) list \<Rightarrow> nat set \<Rightarrow> oid list \<times> nat set" where
  "property_values S self [] ivars = ([], ivars)"
| "property_values S self ((ivar, owned) # ps) ivars =
     (if ivar = 0 then property_values S self ps ivars
      else if ivar \<in> ivars then property_values S self ps ivars
      else let (vs, ivars) = property_values S self ps (insert ivar ivars)
           in (if owned then ivar_value S self ivar # vs else vs, ivars))"

fun other_ivar_values :: "shape \<Rightarrow> oid \<Rightarrow> (nat \<times> bool) list \<Rightarrow> nat set \<Rightarrow> oid list" where
  "other_ivar_values S self [] ivars = []"
| "other_ivar_values S self ((ivar, is_object) # vs) ivars =
     (if ivar \<in> ivars then other_ivar_values S self vs ivars
      else if \<not> is_object then other_ivar_values S self vs (insert ivar ivars)
      else ivar_value S self ivar # other_ivar_values S self vs (insert ivar ivars))"

definition GainOrRelinquishAccessToIvars :: "shape \<Rightarrow> oid \<Rightarrow> oid list" where
  "GainOrRelinquishAccessToIvars S self =
     (let (vs, ivars) = property_values S self (properties_of S self) {}
      in vs @ other_ivar_values S self (ivars_of S self) ivars)"

definition values_to_pass :: "shape \<Rightarrow> oid \<Rightarrow> oid list" where
  "values_to_pass S self =
     (if \<not> is_NSObject S self then []
      else case strategy_of S self of
        MulleObjCTAOCallerRemovesFromCurrentPool \<Rightarrow> GainOrRelinquishAccessToIvars S self
      | MulleObjCTAOCallerRemovesFromAllPools \<Rightarrow> GainOrRelinquishAccessToIvars S self
      | MulleObjCTAOTransferIvars \<Rightarrow> GainOrRelinquishAccessToIvars S self
      | _ \<Rightarrow> [])"

section \<open>The walk\<close>

text \<open>\<open>Meet\<close> asks an object unless it was met before, \<open>Access\<close> sends the message with the strategy.\<close>

datatype job = Meet oid | Access oid

definition GainAccessWithUniquingSet :: "shape \<Rightarrow> oid \<Rightarrow> job list" where
  "GainAccessWithUniquingSet S self =
     (if is_class_object S self then [] else Access self # map Meet (values_to_pass S self))"

definition RelinquishAccessWithUniquingSet :: "shape \<Rightarrow> oid \<Rightarrow> job list" where
  "RelinquishAccessWithUniquingSet S self =
     (if is_class_object S self then [] else map Meet (values_to_pass S self) @ [Access self])"

partial_function (option) walk ::
    "(oid \<Rightarrow> job list) \<Rightarrow> job list \<Rightarrow> oid set \<Rightarrow> oid list \<Rightarrow> (oid set \<times> oid list) option" where
  "walk ask jobs uniquing sent_to =
     (case jobs of
        [] \<Rightarrow> Some (uniquing, sent_to)
      | Access x # js \<Rightarrow> walk ask js uniquing (sent_to @ [x])
      | Meet x # js \<Rightarrow>
          if x \<in> uniquing then walk ask js uniquing sent_to
          else walk ask ((if x = nil then [] else ask x) @ js) (insert x uniquing) sent_to)"

lemma walk_simps [simp]:
  "walk ask [] U xs = Some (U, xs)"
  "walk ask (Access x # js) U xs = walk ask js U (xs @ [x])"
  "walk ask (Meet x # js) U xs =
     (if x \<in> U then walk ask js U xs
      else walk ask ((if x = nil then [] else ask x) @ js) (insert x U) xs)"
  by (simp_all add: walk.simps)

text \<open>The messages that are sent, one after the other, until one raises.\<close>

fun send_each :: "(oid \<Rightarrow> 'm program \<Rightarrow> 'm access_result) \<Rightarrow> oid list \<Rightarrow> 'm program \<Rightarrow> 'm access_result" where
  "send_each f [] s = Done (Inr s)"
| "send_each f (x # xs) s = (case f x s of Done (Inr s') \<Rightarrow> send_each f xs s' | r \<Rightarrow> r)"



definition RelinquishAccessToObjects ::
    "bool \<Rightarrow> bool \<Rightarrow> 'm world \<Rightarrow> shape \<Rightarrow> nat \<Rightarrow> oid list \<Rightarrow> 'm program \<Rightarrow> 'm access_result option" where
  "RelinquishAccessToObjects debug asserts W S current objs s =
     (case walk (RelinquishAccessWithUniquingSet S) (map Meet objs) {} [] of
        None \<Rightarrow> None
      | Some (_, xs) \<Rightarrow> Some (send_each (\<lambda>x. RelinquishAccess debug asserts W (strategy_of S x) current x) xs s))"

definition GainAccessToObjects ::
    "bool \<Rightarrow> bool \<Rightarrow> 'm world \<Rightarrow> shape \<Rightarrow> nat \<Rightarrow> oid list \<Rightarrow> 'm program \<Rightarrow> 'm access_result option" where
  "GainAccessToObjects debug asserts W S current objs s =
     (case walk (GainAccessWithUniquingSet S) (map Meet objs) {} [] of
        None \<Rightarrow> None
      | Some (_, xs) \<Rightarrow> Some (send_each (\<lambda>x. GainAccess debug asserts W (strategy_of S x) current x) xs s))"

section \<open>Each object once\<close>

text \<open>What hangs on an object.\<close>

inductive owns :: "shape \<Rightarrow> oid \<Rightarrow> oid \<Rightarrow> bool" for S where
  self: "owns S x x"
| value_of: "owns S x y \<Longrightarrow> y \<noteq> nil \<Longrightarrow> \<not> is_class_object S y \<Longrightarrow> z \<in> set (values_to_pass S y) \<Longrightarrow> owns S x z"

text \<open>The objects of a walk that are sent the message.\<close>

definition owned_objects :: "shape \<Rightarrow> oid list \<Rightarrow> oid set" where
  "owned_objects S objs = {y. (\<exists>x\<in>set objs. owns S x y) \<and> y \<noteq> nil \<and> \<not> is_class_object S y}"

fun accesses :: "job list \<Rightarrow> oid list" where
  "accesses [] = []"
| "accesses (Access x # js) = x # accesses js"
| "accesses (Meet x # js) = accesses js"

lemma accesses_simps [simp]: "accesses (js @ js') = accesses js @ accesses js'" "accesses (map Meet xs) = []"
  by (induction js rule: accesses.induct) (simp_all, induction xs, simp_all)

definition proper_method :: "shape \<Rightarrow> (oid \<Rightarrow> job list) \<Rightarrow> bool" where
  "proper_method S ask \<longleftrightarrow> (\<forall>x. mset (ask x) =
     (if is_class_object S x then {#} else add_mset (Access x) (image_mset Meet (mset (values_to_pass S x)))))"

lemma proper_methods:
  "proper_method S (GainAccessWithUniquingSet S)" "proper_method S (RelinquishAccessWithUniquingSet S)"
  by (simp_all add: proper_method_def GainAccessWithUniquingSet_def RelinquishAccessWithUniquingSet_def)

definition walk_ok :: "shape \<Rightarrow> oid list \<Rightarrow> job list \<Rightarrow> oid set \<Rightarrow> oid list \<Rightarrow> bool" where
  "walk_ok S objs js U xs \<longleftrightarrow>
     distinct (xs @ accesses js) \<and> set (xs @ accesses js) = {x \<in> U. x \<noteq> nil \<and> \<not> is_class_object S x} \<and>
     (\<forall>x. x \<in> U \<or> Meet x \<in> set js \<longrightarrow> (\<exists>r\<in>set objs. owns S r x)) \<and>
     (\<forall>x\<in>U. x \<noteq> nil \<and> \<not> is_class_object S x \<longrightarrow> (\<forall>z\<in>set (values_to_pass S x). z \<in> U \<or> Meet z \<in> set js)) \<and>
     (\<forall>r\<in>set objs. r \<in> U \<or> Meet r \<in> set js)"

lemma walk_ok_access: "walk_ok S objs (Access x # js) U xs \<Longrightarrow> walk_ok S objs js U (xs @ [x])"
  by (auto simp: walk_ok_def)

lemma walk_ok_met: "walk_ok S objs (Meet x # js) U xs \<Longrightarrow> x \<in> U \<Longrightarrow> walk_ok S objs js U xs"
  by (auto simp: walk_ok_def)

lemma accesses_set: "x \<in> set (accesses js) \<longleftrightarrow> Access x \<in> set js"
  by (induction js rule: accesses.induct) auto

lemma accesses_method:
  assumes "proper_method S ask"
  shows "accesses (ask x) = (if is_class_object S x then [] else [x])"
    and "Meet z \<in> set (ask x) \<longleftrightarrow> \<not> is_class_object S x \<and> z \<in> set (values_to_pass S x)"
proof -
  have m: "mset (ask x) = (if is_class_object S x then {#} else add_mset (Access x) (image_mset Meet (mset (values_to_pass S x))))"
    using assms by (simp add: proper_method_def)
  have acc: "mset (accesses js) = image_mset (\<lambda>j. case j of Access y \<Rightarrow> y | Meet y \<Rightarrow> y) (filter_mset (\<lambda>j. case j of Access _ \<Rightarrow> True | Meet _ \<Rightarrow> False) (mset js))" for js
    by (induction js rule: accesses.induct) simp_all
  have "mset (accesses (ask x)) = (if is_class_object S x then {#} else {#x#})"
    unfolding acc m by (simp add: filter_mset_image_mset)
  then show "accesses (ask x) = (if is_class_object S x then [] else [x])"
    by (metis mset_zero_iff mset_single_iff)
  have "set (ask x) = (if is_class_object S x then {} else insert (Access x) (Meet ` set (values_to_pass S x)))"
    using arg_cong [OF m, of set_mset] by (simp split: if_splits)
  then show "Meet z \<in> set (ask x) \<longleftrightarrow> \<not> is_class_object S x \<and> z \<in> set (values_to_pass S x)"
    by auto
qed

lemma walk_ok_meet:
  assumes ask: "proper_method S ask" and ok: "walk_ok S objs (Meet x # js) U xs" and new: "x \<notin> U"
  shows "walk_ok S objs ((if x = nil then [] else ask x) @ js) (insert x U) xs"
proof -
  let ?js = "(if x = nil then [] else ask x) @ js"
  have reach: "\<exists>r\<in>set objs. owns S r y" if "y \<in> U \<or> Meet y \<in> set (Meet x # js)" for y
    using ok that unfolding walk_ok_def by (metis list.set_intros(1,2))
  have sent: "set (xs @ accesses js) = {x \<in> U. x \<noteq> nil \<and> \<not> is_class_object S x}" "distinct (xs @ accesses js)"
    using ok by (simp_all add: walk_ok_def)
  have acc: "accesses ?js = (if x = nil \<or> is_class_object S x then [] else [x]) @ accesses js"
    using accesses_method(1) [OF ask] by simp
  have "x \<notin> set (xs @ accesses js)" using sent(1) new by simp
  then have "distinct (xs @ accesses ?js)" "set (xs @ accesses ?js) = {y \<in> insert x U. y \<noteq> nil \<and> \<not> is_class_object S y}"
    unfolding acc using sent by auto
  moreover have "\<exists>r\<in>set objs. owns S r y" if y: "y \<in> insert x U \<or> Meet y \<in> set ?js" for y
  proof (cases "y \<in> insert x U \<or> Meet y \<in> set js")
    case True
    then show ?thesis using reach by auto
  next
    case False
    then have "x \<noteq> nil" "\<not> is_class_object S x" "y \<in> set (values_to_pass S x)"
      using y accesses_method(2) [OF ask] by (auto split: if_splits)
    then show ?thesis
      using reach [of x] by (metis list.set_intros(1) owns.value_of)
  qed
  moreover have "z \<in> insert x U \<or> Meet z \<in> set ?js"
    if "y \<in> insert x U" "y \<noteq> nil" "\<not> is_class_object S y" "z \<in> set (values_to_pass S y)" for y z
  proof (cases "y = x")
    case True
    then show ?thesis using that accesses_method(2) [OF ask] by simp
  next
    case False
    then show ?thesis using that ok by (auto simp: walk_ok_def)
  qed
  moreover have "r \<in> insert x U \<or> Meet r \<in> set ?js" if "r \<in> set objs" for r
    using ok that by (auto simp: walk_ok_def)
  ultimately show ?thesis
    unfolding walk_ok_def by blast
qed

text \<open>A walk over finitely many objects ends: each meeting of a new object leaves fewer that are new.\<close>

lemma walk_ends:
  assumes ask: "proper_method S ask" and fin: "finite X" and X: "\<And>r y. r \<in> set objs \<Longrightarrow> owns S r y \<Longrightarrow> y \<in> X"
    and "walk_ok S objs js U xs"
  shows "\<exists>U' xs'. walk ask js U xs = Some (U', xs') \<and> walk_ok S objs [] U' xs'"
  using assms(4)
proof (induction "card (X - U)" arbitrary: js U xs rule: less_induct)
  case less
  note outer = less.hyps
  show ?case
    using less.prems
  proof (induction js arbitrary: xs)
    case Nil
    then show ?case by simp
  next
    case (Cons j js)
    show ?case
    proof (cases j)
      case (Access x)
      then show ?thesis using Cons.IH [of "xs @ [x]"] walk_ok_access Cons.prems by simp
    next
      case (Meet x)
      show ?thesis
      proof (cases "x \<in> U")
        case True
        then show ?thesis using Cons.IH [of xs] walk_ok_met Cons.prems Meet by simp
      next
        case False
        have "x \<in> X" using Cons.prems X Meet by (auto simp: walk_ok_def)
        then have "card (X - insert x U) < card (X - U)"
          using False fin by (intro psubset_card_mono) auto
        then show ?thesis
          using outer [OF _ walk_ok_meet [OF ask Cons.prems [unfolded Meet] False]] Meet False by simp
      qed
    qed
  qed
qed

lemma walk_start: "walk_ok S objs (map Meet objs) {} []"
  by (auto simp: walk_ok_def intro: owns.self)

lemma walk_complete:
  assumes "walk_ok S objs [] U xs"
  shows "distinct xs \<and> set xs = owned_objects S objs"
proof -
  have closed: "z \<in> U" if "y \<in> U" "y \<noteq> nil" "\<not> is_class_object S y" "z \<in> set (values_to_pass S y)" for y z
    using assms that by (auto simp: walk_ok_def)
  have "y \<in> U" if "owns S r y" "r \<in> set objs" for r y
    using that by induction (use assms closed in \<open>auto simp: walk_ok_def\<close>)
  then show ?thesis
    using assms by (auto simp: walk_ok_def owned_objects_def)
qed

lemma walk_visits:
  assumes "proper_method S ask" and "finite {y. \<exists>r\<in>set objs. owns S r y}"
  shows "\<exists>U xs. walk ask (map Meet objs) {} [] = Some (U, xs) \<and> distinct xs \<and> set xs = owned_objects S objs"
  using walk_ends [OF assms(1,2) _ walk_start] walk_complete by blast

text \<open>
  C18. Relinquishing and gaining access to many objects ends, and asks every object that hangs on them exactly once,
  however the objects refer to each other; both ask the same objects.
\<close>
theorem access_walk_once:
  assumes "finite {y. \<exists>r\<in>set objs. owns S r y}"
  shows "\<exists>U V xs ys. walk (RelinquishAccessWithUniquingSet S) (map Meet objs) {} [] = Some (U, xs)
    \<and> walk (GainAccessWithUniquingSet S) (map Meet objs) {} [] = Some (V, ys)
    \<and> distinct xs \<and> distinct ys \<and> set xs = owned_objects S objs \<and> set ys = owned_objects S objs"
  using walk_visits [OF proper_methods(1) assms] walk_visits [OF proper_methods(2) assms] by blast

section \<open>Handing over everything\<close>






text \<open>Two objects that refer to each other.\<close>

definition circle :: shape where
  "circle = \<lparr>strategy_of = (\<lambda>_. MulleObjCTAOTransferIvars), is_class_object = (\<lambda>_. False), is_NSObject = (\<lambda>_. True),
     properties_of = (\<lambda>_. []), ivars_of = (\<lambda>_. [(1, True)]), ivar_value = (\<lambda>x _. if x = 8 then 16 else 8)\<rparr>"

lemma circle_values: "values_to_pass circle x = [if x = 8 then 16 else 8]"
  by (simp add: values_to_pass_def GainOrRelinquishAccessToIvars_def circle_def)

lemma circle_owns: "owns circle x y \<Longrightarrow> x \<in> {8, 16} \<Longrightarrow> y \<in> {8, 16}"
  by (induction rule: owns.induct) (auto simp: circle_values split: if_splits)

lemma circle_finite: "finite {y. owns circle 8 y}"
  by (rule finite_subset [of _ "{8, 16}"]) (auto dest: circle_owns)

theorem access_walk_once_witness:
  "\<exists>xs. distinct xs \<and> set xs = owned_objects circle [8]
     \<and> walk (RelinquishAccessWithUniquingSet circle) [Meet 8] {} [] = Some ({8, 16}, xs)"
proof -
  have "walk (RelinquishAccessWithUniquingSet circle) [Meet 8] {} [] = Some ({8, 16}, [16, 8])"
    by (simp add: RelinquishAccessWithUniquingSet_def circle_values) (simp add: circle_def nil_def insert_commute)
  then show ?thesis
    using access_walk_once [of "[8]" circle] circle_finite by auto
qed



end
