(* ===== verification/ValueObjects.thy ===== *)
theory ValueObjects
  imports Values
begin

text \<open>
  Objects for C values (\<open>src/class/NSValue.m\<close>, \<open>src/class/_MulleObjCConcreteValue.m\<close>): the bytes of a value and its type
  are kept behind the instance, in the extra bytes that it is allocated with.

  The size of a type is computed by the runtime, the parameter \<open>size_of\<close>.  A pointer to bytes is the function that gives
  them, \<open>None\<close> is NULL.
\<close>

section \<open>A value\<close>

definition byte_of :: "char \<Rightarrow> 8 word" where
  "byte_of c = word_of_nat (of_char c)"

definition char_at :: "8 word \<Rightarrow> char" where
  "char_at w = char_of (unat w)"

record concrete_value =
  value_size :: nat
  extra_bytes :: "8 word list"

datatype value_error = Empty_bytes | Empty_type | Wrong_size nat

definition mulleNewWithBytes ::
    "bool \<Rightarrow> (string \<Rightarrow> nat) \<Rightarrow> (nat \<Rightarrow> 8 word) option \<Rightarrow> string option \<Rightarrow> (value_error + concrete_value) outcome" where
  "mulleNewWithBytes asserts size_of buffer type =
     (case buffer of
        None \<Rightarrow> Done (Inl Empty_bytes)
      | Some b \<Rightarrow>
          (case type of
             None \<Rightarrow> Done (Inl Empty_type)
           | Some ty \<Rightarrow>
               let size = size_of ty
               in if asserts \<and> size = 0 then Abort
                  else Done (Inr \<lparr>value_size = size, extra_bytes = map b [0..<size] @ map byte_of ty @ [0]\<rparr>)))"

definition objCType :: "concrete_value \<Rightarrow> string" where
  "objCType v = map char_at (takeWhile (\<lambda>w. w \<noteq> 0) (drop (value_size v) (extra_bytes v)))"

text \<open>What is written to the memory of the caller; the first has the size of the value.\<close>

definition getValue :: "bool \<Rightarrow> concrete_value \<Rightarrow> value_error + 8 word list" where
  "getValue null v = (if null then Inl Empty_bytes else Inr (take (value_size v) (extra_bytes v)))"

definition getValue_size :: "bool \<Rightarrow> nat \<Rightarrow> concrete_value \<Rightarrow> value_error + 8 word list" where
  "getValue_size null n v =
     (if null \<and> n \<noteq> 0 then Inl Empty_bytes
      else if n \<noteq> value_size v then Inl (Wrong_size (value_size v))
      else Inr (take (value_size v) (extra_bytes v)))"

text \<open>The values of fixed types read with the size of the type; \<open>width\<close> is that of a pointer, an object or a range.\<close>

definition pointerValue :: "concrete_value \<Rightarrow> value_error + 8 word list" where
  "pointerValue v = getValue_size False sizeof_pointer v"

definition nonretainedObjectValue :: "concrete_value \<Rightarrow> value_error + 8 word list" where
  "nonretainedObjectValue v = getValue_size False sizeof_pointer v"

definition rangeValue :: "concrete_value \<Rightarrow> value_error + 8 word list" where
  "rangeValue v = getValue_size False (2 * sizeof_pointer) v"

text \<open>\<open>at\<close> is where the bytes of the value are in memory.\<close>

definition value_hash :: "(8 word list \<Rightarrow> NSUInteger) \<Rightarrow> (ref \<Rightarrow> 8 word) \<Rightarrow> ref \<Rightarrow> concrete_value \<Rightarrow> NSUInteger" where
  "value_hash hash mem at v = MulleObjCBytesPartialHash hash mem at (of_nat (value_size v))"

definition isEqualToValue :: "(string \<Rightarrow> nat) \<Rightarrow> concrete_value \<Rightarrow> concrete_value \<Rightarrow> bool" where
  "isEqualToValue size_of v w =
     (if objCType v \<noteq> objCType w then False
      else if size_of (objCType v) \<noteq> size_of (objCType w) then False
      else (case (getValue False v, getValue False w) of
          (Inr a, Inr b) \<Rightarrow> take (size_of (objCType v)) a = take (size_of (objCType v)) b
        | _ \<Rightarrow> False))"

text \<open>\<open>other\<close> is \<open>None\<close> when it is no value.\<close>

definition value_isEqual :: "(string \<Rightarrow> nat) \<Rightarrow> bool \<Rightarrow> concrete_value \<Rightarrow> concrete_value option \<Rightarrow> bool" where
  "value_isEqual size_of same v other =
     (if same then True else case other of None \<Rightarrow> False | Some w \<Rightarrow> isEqualToValue size_of v w)"

section \<open>Properties\<close>

lemma char_at_byte_of [simp]: "char_at (byte_of c) = c"
proof -
  have "(of_char c :: nat) < 2 ^ LENGTH(8)" using nat_of_char_less_256 [of c] by simp
  then show ?thesis
    by (simp add: char_at_def byte_of_def unat_of_nat_small)
qed

lemma byte_of_nonzero: "c \<noteq> CHR 0x00 \<Longrightarrow> byte_of c \<noteq> 0"
proof
  assume c: "c \<noteq> CHR 0x00" and "byte_of c = 0"
  then have "char_at (byte_of c) = char_at 0" by simp
  moreover have "char_at 0 = CHR 0x00" by (simp add: char_at_def char_of_def)
  ultimately show False using c by simp
qed

lemma new_value:
  assumes "CHR 0x00 \<notin> set ty" and "0 < size_of ty"
    and "mulleNewWithBytes asserts size_of (Some b) (Some ty) = Done (Inr v)"
  shows "value_size v = size_of ty" and "objCType v = ty" and "getValue False v = Inr (map b [0..<size_of ty])"
proof -
  have v: "v = \<lparr>value_size = size_of ty, extra_bytes = map b [0..<size_of ty] @ map byte_of ty @ [0]\<rparr>"
    using assms(2,3) by (simp add: mulleNewWithBytes_def Let_def)
  have "byte_of c \<noteq> 0" if "c \<in> set ty" for c
    using assms(1) that by (intro byte_of_nonzero) metis
  then have "w \<noteq> 0" if "w \<in> set (map byte_of ty)" for w
    using that unfolding set_map by (metis imageE)
  then have "takeWhile (\<lambda>w. w \<noteq> 0) (map byte_of ty @ [0]) = map byte_of ty @ takeWhile (\<lambda>w. w \<noteq> 0) [0]"
    by (rule takeWhile_append2)
  then show "objCType v = ty"
    by (simp add: v objCType_def comp_def del: takeWhile_append)
  show "value_size v = size_of ty" "getValue False v = Inr (map b [0..<size_of ty])"
    by (simp_all add: v getValue_def)
qed

text \<open>The value at an address, as the instance holds it.\<close>

definition value_at :: "(ref \<Rightarrow> 8 word) \<Rightarrow> ref \<Rightarrow> concrete_value \<Rightarrow> bool" where
  "value_at mem at v \<longleftrightarrow> at \<noteq> 0 \<and> bytes mem at (of_nat (value_size v)) = take (value_size v) (extra_bytes v)"

lemma hash_of_bytes:
  assumes "p \<noteq> 0" and "q \<noteq> 0" and "bytes mem p n = bytes mem q n"
  shows "MulleObjCBytesPartialHash hash mem p n = MulleObjCBytesPartialHash hash mem q n"
  using partial_hash_of_tail [OF assms(1)] partial_hash_of_tail [OF assms(2)] assms(3) by metis

text \<open>
  C36. Value objects keep what they were made of: type and bytes come back, and reading with a wrong size raises.  Two
  values are equal exactly when their types are the same string and their bytes agree, and equal values have the same
  hash wherever they are in memory.
\<close>
theorem values_kept_and_compared:
  assumes "CHR 0x00 \<notin> set ty" and "0 < size_of ty" and "CHR 0x00 \<notin> set ty'" and "0 < size_of ty'"
    and "mulleNewWithBytes asserts size_of (Some b) (Some ty) = Done (Inr v)"
    and "mulleNewWithBytes asserts size_of (Some b') (Some ty') = Done (Inr w)"
    and "value_at mem p v" and "value_at mem q w"
  shows "objCType v = ty \<and> getValue_size False (size_of ty) v = Inr (map b [0..<size_of ty])
    \<and> (\<forall>n. n = size_of ty \<or> getValue_size False n v = Inl (Wrong_size (size_of ty)))
    \<and> (isEqualToValue size_of v w \<longleftrightarrow> ty = ty' \<and> map b [0..<size_of ty] = map b' [0..<size_of ty'])
    \<and> (\<not> isEqualToValue size_of v w \<or> value_hash hash mem p v = value_hash hash mem q w)"
proof -
  note v = new_value [where size_of = size_of, OF assms(1,2,5)] and w = new_value [where size_of = size_of, OF assms(3,4,6)]
  have equal: "isEqualToValue size_of v w \<longleftrightarrow> ty = ty' \<and> map b [0..<size_of ty] = map b' [0..<size_of ty']"
    using v w by (simp add: isEqualToValue_def del: map_eq_conv)
  have "value_hash hash mem p v = value_hash hash mem q w" if "isEqualToValue size_of v w"
  proof -
    have "ty = ty'" "map b [0..<size_of ty] = map b' [0..<size_of ty']"
      using that equal by blast+
    then have "take (value_size v) (extra_bytes v) = take (value_size w) (extra_bytes w)" "value_size v = value_size w"
      using v(1,3) w(1,3) by (simp_all add: getValue_def del: map_eq_conv)
    then have "bytes mem p (of_nat (value_size v)) = bytes mem q (of_nat (value_size w))"
      using assms(7,8) by (simp add: value_at_def)
    moreover have "p \<noteq> 0" "q \<noteq> 0" using assms(7,8) by (simp_all add: value_at_def)
    ultimately show ?thesis
      unfolding value_hash_def using \<open>value_size v = value_size w\<close> hash_of_bytes by metis
  qed
  then show ?thesis
    using v equal by (auto simp: getValue_def getValue_size_def)
qed

text \<open>Two values of four bytes with the same type, one behind the other in memory.\<close>

definition demo_size :: "string \<Rightarrow> nat" where
  "demo_size ty = (if ty = ''i'' then 4 else 0)"

definition demo_value :: concrete_value where
  "demo_value = \<lparr>value_size = 4, extra_bytes = [7, 7, 7, 7, 105, 0]\<rparr>"

theorem values_kept_and_compared_witness:
  "isEqualToValue demo_size demo_value demo_value
     \<and> value_hash (\<lambda>bs. of_nat (length bs)) (\<lambda>_. 7) 16 demo_value = value_hash (\<lambda>bs. of_nat (length bs)) (\<lambda>_. 7) 32 demo_value"
proof -
  have new: "mulleNewWithBytes True demo_size (Some (\<lambda>_. 7)) (Some ''i'') = Done (Inr demo_value)"
    by (simp add: mulleNewWithBytes_def demo_size_def demo_value_def upt_rec byte_of_def)
  have at: "value_at (\<lambda>_. 7) p demo_value" if "p \<noteq> 0" for p
    using that by (simp add: value_at_def bytes_def demo_value_def upt_rec)
  show ?thesis
    using values_kept_and_compared [OF _ _ _ _ new new at at, of 16 32] by (simp add: demo_size_def)
qed

end
