(* ===== verification/Interposing.thy ===== *)
theory Interposing
  imports Calls
begin

text \<open>
  Interposing a class between a class and its superclass (\<open>src/class/NSObject.m\<close>,
  \<open>MulleObjCClassInterposeBeforeClass\<close>).

  The runtime keeps for every class, infraclass or metaclass alike, its superclass, the ids of the class and of
  the superclass and a cache of methods.  What belongs to the runtime is a parameter: the test for
  a subclass, emptying the caches of a class, the list of infraclasses that a walk visits, and \<open>pick\<close>, the method
  that a search along given classes finds.
\<close>

section \<open>Classes\<close>

record 'i class_table =
  super_of :: "ref \<Rightarrow> ref"
  superid_of :: "ref \<Rightarrow> uint32"
  id_of :: "ref \<Rightarrow> uint32"
  meta_of :: "ref \<Rightarrow> ref"
  ivars_in :: "ref \<Rightarrow> bool"
  cached :: "ref \<Rightarrow> SEL \<Rightarrow> 'i option"

record 'i class_runtime =
  subclass_test :: "(ref \<Rightarrow> ref) \<Rightarrow> ref \<Rightarrow> ref \<Rightarrow> bool"
  invalidate_caches :: "ref \<Rightarrow> (ref \<Rightarrow> SEL \<Rightarrow> 'i option) \<Rightarrow> ref \<Rightarrow> SEL \<Rightarrow> 'i option"

datatype interpose_error = Is_a_root ref | Different_superclass ref | Has_instance_variables ref

section \<open>Interposing\<close>

definition interpose_callback :: "'i class_runtime \<Rightarrow> ref \<Rightarrow> ref \<Rightarrow> 'i class_table \<Rightarrow> 'i class_table" where
  "interpose_callback R subclass infra W =
     (if subclass_test R (super_of W) infra subclass
      then let meta = meta_of W infra;
               W = W\<lparr>cached := invalidate_caches R infra (cached W)\<rparr>
           in W\<lparr>cached := invalidate_caches R meta (cached W)\<rparr>
      else W)"

definition MulleObjCClassInterposeBeforeClass ::
    "'i class_runtime \<Rightarrow> ref list \<Rightarrow> ref \<Rightarrow> ref \<Rightarrow> 'i class_table \<Rightarrow> interpose_error + 'i class_table" where
  "MulleObjCClassInterposeBeforeClass R walked self other W =
     (if self = 0 \<or> other = 0 then Inr W
      else let infra = self; sub_infra = other; super_infra = super_of W sub_infra in
        if super_infra = 0 then Inl (Is_a_root sub_infra)
        else if super_infra \<noteq> super_of W infra then Inl (Different_superclass sub_infra)
        else if ivars_in W infra then Inl (Has_instance_variables infra)
        else let W = W\<lparr>super_of := (super_of W)(sub_infra := infra)\<rparr>;
                 W = W\<lparr>superid_of := (superid_of W)(sub_infra := id_of W infra)\<rparr>;
                 sub_meta = meta_of W sub_infra;
                 super_meta = meta_of W infra;
                 super_meta_superclass = (if super_meta \<noteq> 0 then super_meta else infra);
                 W = W\<lparr>super_of := (super_of W)(sub_meta := super_meta_superclass)\<rparr>;
                 W = W\<lparr>superid_of := (superid_of W)(infra := id_of W super_meta_superclass)\<rparr>
             in Inr (fold (interpose_callback R sub_infra) walked W))"

section \<open>Messages\<close>

text \<open>
  A class and its superclasses, in the order in which they are searched; \<open>None\<close> when they form a circle.
\<close>

partial_function (option) lineage :: "(ref \<Rightarrow> ref) \<Rightarrow> ref \<Rightarrow> ref list option" where
  "lineage up c = (if c = 0 then Some [] else Option.bind (lineage up (up c)) (\<lambda>xs. Some (c # xs)))"

declare lineage.simps [code]

lemma lineage_0 [simp]: "lineage up 0 = Some []"
  by (subst lineage.simps) simp

lemma lineage_step: "c \<noteq> 0 \<Longrightarrow> lineage up c = map_option (Cons c) (lineage up (up c))"
  by (subst lineage.simps) (simp add: map_conv_bind_option comp_def)

lemma lineage_Nil [simp]: "lineage up c = Some [] \<longleftrightarrow> c = 0"
  by (cases "c = 0") (simp_all add: lineage_step)

lemma lineage_Cons [simp]: "lineage up c = Some (x # xs) \<longleftrightarrow> c \<noteq> 0 \<and> x = c \<and> lineage up (up c) = Some xs"
  by (cases "c = 0") (auto simp: lineage_step)

definition message_method :: "(ref list \<Rightarrow> SEL \<Rightarrow> 'i option) \<Rightarrow> 'i class_table \<Rightarrow> ref \<Rightarrow> SEL \<Rightarrow> 'i option" where
  "message_method pick W c sel =
     (case cached W c sel of
        Some i \<Rightarrow> Some i
      | None \<Rightarrow> (case lineage (super_of W) c of None \<Rightarrow> None | Some xs \<Rightarrow> pick xs sel))"

lemma message_cached:
  assumes "cached W c sel \<in> {None, pick xs sel}" and "lineage (super_of W) c = Some xs"
  shows "message_method pick W c sel = pick xs sel"
  using assms by (cases "cached W c sel"; cases "pick xs sel") (simp_all add: message_method_def)

text \<open>The classes in question, and that their caches hold what a search would find.\<close>

definition all_classes :: "ref set \<Rightarrow> 'i class_table \<Rightarrow> ref set" where
  "all_classes infras W = infras \<union> meta_of W ` infras"

definition caches_truthful :: "ref set \<Rightarrow> (ref list \<Rightarrow> SEL \<Rightarrow> 'i option) \<Rightarrow> 'i class_table \<Rightarrow> bool" where
  "caches_truthful infras pick W \<longleftrightarrow>
     (\<forall>c \<in> all_classes infras W. \<forall>xs sel. lineage (super_of W) c = Some xs \<longrightarrow>
        cached W c sel \<in> {None, pick xs sel})"

section \<open>Well-formed classes\<close>

text \<open>
  Every infraclass has a metaclass of its own; the superclass of a metaclass is the metaclass of the superclass,
  and a metaclass of a root class has none or that root class.
\<close>

definition classes_ok :: "ref set \<Rightarrow> 'i class_table \<Rightarrow> bool" where
  "classes_ok infras W \<longleftrightarrow>
     0 \<notin> infras \<and> inj_on (meta_of W) infras \<and>
     (\<forall>c \<in> infras. meta_of W c \<noteq> 0 \<and> meta_of W c \<notin> infras) \<and>
     (\<forall>c \<in> infras. super_of W c = 0 \<and> super_of W (meta_of W c) \<in> {0, c} \<or>
        super_of W c \<in> infras \<and> super_of W (meta_of W c) = meta_of W (super_of W c)) \<and>
     (\<forall>c \<in> infras. \<exists>xs. lineage (super_of W) c = Some xs)"

text \<open>
  What is documented of the runtime: a class counts as subclass of the classes it inherits from, and
  invalidating empties the cache of that class and leaves other caches alone.  Whether a class counts as
  subclass of itself is what \<open>itself\<close> says.
\<close>

definition runtime_laws :: "bool \<Rightarrow> 'i class_runtime \<Rightarrow> bool" where
  "runtime_laws itself R \<longleftrightarrow>
     (\<forall>up c d xs. lineage up c = Some xs \<longrightarrow>
        subclass_test R up c d = (d \<in> set (if itself then xs else tl xs))) \<and>
     (\<forall>c ca d. invalidate_caches R c ca d = (if d = c then Map.empty else ca d))"

text \<open>What interposing does to a list of classes: behind each of the two goes the one that was interposed.\<close>

definition wedge :: "ref \<Rightarrow> ref \<Rightarrow> ref \<Rightarrow> ref \<Rightarrow> ref list \<Rightarrow> ref list" where
  "wedge a p b q xs = concat (map (\<lambda>x. if x = a then [a, p] else if x = b then [b, q] else [x]) xs)"

lemma wedge_simps [simp]:
  "wedge a p b q [] = []"
  "wedge a p b q (x # xs) = (if x = a then [a, p] else if x = b then [b, q] else [x]) @ wedge a p b q xs"
  by (simp_all add: wedge_def)

lemma wedge_untouched: "a \<notin> set xs \<Longrightarrow> b \<notin> set xs \<Longrightarrow> wedge a p b q xs = xs"
  by (induction xs) auto

lemma wedge_keeps: "set xs \<subseteq> set (wedge a p b q xs)"
  by (induction xs) auto

lemma lineage_wedge:
  assumes "up' a = p" and "up' b = q" and "\<And>c. c \<noteq> a \<Longrightarrow> c \<noteq> b \<Longrightarrow> up' c = up c"
    and "up p = up a" and "up q = up b" and "p \<notin> {0, a, b}" and "q \<notin> {0, a, b}"
    and "lineage up c = Some xs"
  shows "lineage up' c = Some (wedge a p b q xs)"
  using assms(8)
proof (induction xs arbitrary: c)
  case (Cons x ys)
  then have x: "x = c" "c \<noteq> 0" and rest: "lineage up' (up c) = Some (wedge a p b q ys)"
    by simp_all
  have pq: "up' p = up a" "up' q = up b"
    using assms(3) [of p] assms(3) [of q] assms(4-7) by simp_all
  show ?case
    using x rest pq assms(1-3) assms(6,7) by (cases "c = a"; cases "c = b") simp_all
qed simp

text \<open>The superclasses of a metaclass are the metaclasses of the superclasses, and perhaps the root class.\<close>

lemma lineage_infras:
  assumes "classes_ok infras W" and "c \<in> infras" and "lineage (super_of W) c = Some xs"
  shows "set xs \<subseteq> infras"
  using assms(2,3)
proof (induction xs arbitrary: c)
  case (Cons x ys)
  then have "x = c" "lineage (super_of W) (super_of W c) = Some ys" by simp_all
  moreover have "super_of W c = 0 \<or> super_of W c \<in> infras"
    using assms(1) Cons.prems(1) unfolding classes_ok_def by blast
  ultimately show ?case
    using Cons.IH [of "super_of W c"] Cons.prems(1) by auto
qed simp

lemma lineage_meta:
  assumes "classes_ok infras W" and "c \<in> infras" and "lineage (super_of W) c = Some xs"
  shows "\<exists>ys. lineage (super_of W) (meta_of W c) = Some (map (meta_of W) xs @ ys) \<and>
    (\<forall>r \<in> set ys. r \<in> infras \<and> super_of W r = 0)"
  using assms(2,3)
proof (induction xs arbitrary: c)
  case Nil
  then show ?case using assms(1) by (simp add: classes_ok_def)
next
  case (Cons x xs)
  have x: "x = c" "c \<noteq> 0" and xs: "lineage (super_of W) (super_of W c) = Some xs"
    using Cons.prems by simp_all
  have m: "meta_of W c \<noteq> 0"
    using assms(1) Cons.prems(1) by (simp add: classes_ok_def)
  consider "super_of W c = 0" "super_of W (meta_of W c) \<in> {0, c}"
    | "super_of W c \<in> infras" "super_of W (meta_of W c) = meta_of W (super_of W c)"
    using assms(1) Cons.prems(1) unfolding classes_ok_def by blast
  then show ?case
  proof cases
    case 1
    then have "xs = []" using xs by simp
    then show ?thesis
      using 1 x m Cons.prems(1)
      by (intro exI [of _ "if super_of W (meta_of W c) = 0 then [] else [c]"]) auto
  next
    case 2
    then show ?thesis
      using Cons.IH [OF 2(1) xs] x m by simp
  qed
qed

lemma lineage_exists:
  assumes "classes_ok infras W" and "c \<in> all_classes infras W"
  shows "\<exists>xs. lineage (super_of W) c = Some xs"
proof -
  have *: "\<exists>xs. lineage (super_of W) d = Some xs" if "d \<in> infras" for d
    using assms(1) that by (simp add: classes_ok_def)
  then show ?thesis
    using assms(2) lineage_meta [OF assms(1)] unfolding all_classes_def by blast
qed

lemma meta_below:
  assumes ok: "classes_ok infras W" and "c \<in> infras" and "a \<in> infras" and "super_of W a \<noteq> 0"
    and "lineage (super_of W) c = Some xs" and "lineage (super_of W) (meta_of W c) = Some ys"
    and "a \<in> set ys \<or> meta_of W a \<in> set ys"
  shows "a \<in> set xs"
proof -
  obtain zs where ys: "ys = map (meta_of W) xs @ zs" and zs: "\<forall>r \<in> set zs. r \<in> infras \<and> super_of W r = 0"
    using lineage_meta [OF ok assms(2,5)] assms(6) by auto
  have xs: "set xs \<subseteq> infras"
    by (rule lineage_infras [OF ok assms(2,5)])
  have "a \<notin> meta_of W ` set xs" "meta_of W a \<notin> infras" "a \<notin> set zs"
    using ok xs zs assms(3,4) unfolding classes_ok_def by blast+
  then have "meta_of W a \<in> meta_of W ` set xs"
    using assms(7) zs ys by auto
  then show ?thesis
    using ok xs assms(3) unfolding classes_ok_def by (auto dest: inj_onD)
qed

section \<open>The caches\<close>

lemma interpose_callback_keeps [simp]:
  "super_of (interpose_callback R a d W) = super_of W" "meta_of (interpose_callback R a d W) = meta_of W"
  "superid_of (interpose_callback R a d W) = superid_of W" "id_of (interpose_callback R a d W) = id_of W"
  "ivars_in (interpose_callback R a d W) = ivars_in W"
  by (simp_all add: interpose_callback_def Let_def)

lemma fold_callback_keeps [simp]:
  "super_of (fold (interpose_callback R a) ds W) = super_of W" "meta_of (fold (interpose_callback R a) ds W) = meta_of W"
  "superid_of (fold (interpose_callback R a) ds W) = superid_of W" "id_of (fold (interpose_callback R a) ds W) = id_of W"
  "ivars_in (fold (interpose_callback R a) ds W) = ivars_in W"
  by (induction ds arbitrary: W) simp_all

lemma callbacks_empty:
  assumes "runtime_laws itself R"
  shows "cached (fold (interpose_callback R a) ds W) c =
    (if \<exists>d \<in> set ds. subclass_test R (super_of W) d a \<and> (c = d \<or> c = meta_of W d) then Map.empty else cached W c)"
proof (induction ds arbitrary: W)
  case (Cons d ds)
  have "cached (interpose_callback R a d W) c =
      (if subclass_test R (super_of W) d a \<and> (c = d \<or> c = meta_of W d) then Map.empty else cached W c)"
    using assms by (simp add: interpose_callback_def runtime_laws_def Let_def)
  then show ?case by (auto simp: Cons.IH)
qed simp

section \<open>After interposing\<close>

lemma classes_okD:
  assumes "classes_ok infras W" and "c \<in> infras" and "d \<in> infras"
  shows "c \<noteq> 0" "meta_of W c \<noteq> 0" "meta_of W c \<noteq> d" "meta_of W c = meta_of W d \<longleftrightarrow> c = d"
  using assms inj_on_eq_iff [of "meta_of W" infras c d] by (auto simp: classes_ok_def)

lemma interposed:
  assumes "classes_ok infras W" and "self \<in> infras" and "other \<in> infras"
    and "MulleObjCClassInterposeBeforeClass R walked self other W = Inr W'"
  shows "super_of W other \<noteq> 0" "super_of W self = super_of W other"
    and "super_of W' = (super_of W)(other := self, meta_of W other := meta_of W self)" "meta_of W' = meta_of W"
    and "id_of W' = id_of W"
    and "superid_of W' = (superid_of W)(other := id_of W self, self := id_of W (meta_of W self))"
    and "runtime_laws itself R \<Longrightarrow> cached W' c =
      (if \<exists>d \<in> set walked. subclass_test R (super_of W') d other \<and> (c = d \<or> c = meta_of W d)
       then Map.empty else cached W c)"
proof -
  have "self \<noteq> 0" "other \<noteq> 0" "meta_of W self \<noteq> 0"
    using assms(1-3) by (auto simp: classes_ok_def)
  then show "super_of W other \<noteq> 0" "super_of W self = super_of W other"
    and "super_of W' = (super_of W)(other := self, meta_of W other := meta_of W self)" "meta_of W' = meta_of W"
    and "id_of W' = id_of W"
    and "superid_of W' = (superid_of W)(other := id_of W self, self := id_of W (meta_of W self))"
    and "runtime_laws itself R \<Longrightarrow> cached W' c =
      (if \<exists>d \<in> set walked. subclass_test R (super_of W') d other \<and> (c = d \<or> c = meta_of W d)
       then Map.empty else cached W c)"
    using assms(4) by (auto simp: MulleObjCClassInterposeBeforeClass_def Let_def callbacks_empty split: if_splits)
qed

lemma interposed_lineage:
  assumes ok: "classes_ok infras W" and self: "self \<in> infras" and other: "other \<in> infras" and "self \<noteq> other"
    and step: "MulleObjCClassInterposeBeforeClass R walked self other W = Inr W'"
    and "lineage (super_of W) c = Some xs"
  shows "lineage (super_of W') c = Some (wedge other self (meta_of W other) (meta_of W self) xs)"
proof -
  note i = interposed [OF ok self other step]
  have neq: "meta_of W other \<noteq> other" "meta_of W self \<notin> {0, other, meta_of W other}" "self \<notin> {0, other, meta_of W other}"
    using classes_okD [OF ok other other] classes_okD [OF ok self other] classes_okD [OF ok other self] \<open>self \<noteq> other\<close>
    by auto
  have "super_of W (meta_of W self) = super_of W (meta_of W other)"
    using ok self other i(1,2) unfolding classes_ok_def by metis
  then show ?thesis
    by (intro lineage_wedge [where up = "super_of W"]) (use neq i(2,3) assms(6) in simp_all)
qed

lemma interposed_ok:
  assumes ok: "classes_ok infras W" and self: "self \<in> infras" and other: "other \<in> infras" and "self \<noteq> other"
    and step: "MulleObjCClassInterposeBeforeClass R walked self other W = Inr W'"
  shows "classes_ok infras W'"
proof -
  note i = interposed [OF ok self other step]
  have m: "meta_of W c = meta_of W other \<longleftrightarrow> c = other" "meta_of W c \<noteq> other" "c \<noteq> meta_of W other" if "c \<in> infras" for c
    using classes_okD [OF ok that other] classes_okD [OF ok other that] by auto
  have "\<exists>xs. lineage (super_of W') c = Some xs" if "c \<in> infras" for c
    using interposed_lineage [OF ok self other \<open>self \<noteq> other\<close> step] ok that unfolding classes_ok_def by blast
  moreover have "super_of W' c = 0 \<and> super_of W' (meta_of W c) \<in> {0, c} \<or>
      super_of W' c \<in> infras \<and> super_of W' (meta_of W c) = meta_of W (super_of W' c)" if "c \<in> infras" for c
  proof (cases "c = other")
    case False
    then have "super_of W' c = super_of W c" "super_of W' (meta_of W c) = super_of W (meta_of W c)"
      using m [OF that] by (simp_all add: i(3))
    then show ?thesis
      using ok that by (simp add: classes_ok_def)
  qed (use self m [OF other] in \<open>simp add: i(3)\<close>)
  ultimately show ?thesis
    using ok by (simp add: classes_ok_def i(4))
qed

text \<open>The cache of a class whose superclasses are others now is empty.\<close>

lemma interposed_cache:
  assumes ok: "classes_ok infras W" and self: "self \<in> infras" and other: "other \<in> infras" and "self \<noteq> other"
    and step: "MulleObjCClassInterposeBeforeClass R walked self other W = Inr W'"
    and laws: "runtime_laws True R" and "infras \<subseteq> set walked"
    and "c \<in> all_classes infras W" and xs: "lineage (super_of W) c = Some xs"
  shows "cached W' c = Map.empty \<or>
    cached W' c = cached W c \<and> wedge other self (meta_of W other) (meta_of W self) xs = xs"
proof (cases "other \<in> set xs \<or> meta_of W other \<in> set xs")
  case False
  then show ?thesis
    using interposed(7) [OF ok self other step laws, of c] wedge_untouched by auto
next
  case True
  note i = interposed [OF ok self other step]
  obtain d ys where d: "d \<in> infras" "c = d \<or> c = meta_of W d" and ys: "lineage (super_of W) d = Some ys"
    using assms(8) ok unfolding all_classes_def classes_ok_def by blast
  have "other \<in> set ys"
  proof (cases "c = d")
    case True
    then show ?thesis
      using \<open>other \<in> set xs \<or> _\<close> xs ys lineage_infras [OF ok d(1) ys] ok other unfolding classes_ok_def by auto
  next
    case False
    then show ?thesis
      using d(2) xs True meta_below [OF ok d(1) other i(1) ys] by blast
  qed
  then have "subclass_test R (super_of W') d other"
    using laws interposed_lineage [OF ok self other \<open>self \<noteq> other\<close> step ys] wedge_keeps [THEN subsetD, of other ys]
    unfolding runtime_laws_def by simp
  then show ?thesis
    using i(7) [OF laws, of c] d \<open>infras \<subseteq> set walked\<close> by auto
qed

lemma interposed_caches:
  assumes "classes_ok infras W" and "caches_truthful infras pick W" and "runtime_laws True R" and "infras \<subseteq> set walked"
    and "self \<in> infras" and "other \<in> infras" and "self \<noteq> other"
    and "MulleObjCClassInterposeBeforeClass R walked self other W = Inr W'"
  shows "caches_truthful infras pick W'"
  unfolding caches_truthful_def all_classes_def interposed(4) [OF assms(1,5,6,8)]
proof (intro ballI allI impI)
  fix d zs sel
  assume "d \<in> infras \<union> meta_of W ` infras" and zs: "lineage (super_of W') d = Some zs"
  then have d: "d \<in> all_classes infras W" by (simp add: all_classes_def)
  then obtain ys where ys: "lineage (super_of W) d = Some ys"
    using lineage_exists [OF assms(1)] by blast
  have "cached W d sel \<in> {None, pick ys sel}"
    using assms(2) d ys unfolding caches_truthful_def by blast
  then show "cached W' d sel \<in> {None, pick zs sel}"
    using interposed_cache [OF assms(1,5-8,3,4) d ys] interposed_lineage [OF assms(1,5-8) ys] zs by auto
qed

lemma message_searches:
  assumes "caches_truthful infras pick W" and "c \<in> all_classes infras W" and "lineage (super_of W) c = Some xs"
  shows "message_method pick W c sel = pick xs sel"
  using assms by (intro message_cached) (auto simp: caches_truthful_def)

text \<open>
  Interposing one class after the other: an exception leaves the classes as they were.  The classes stay well-formed and their caches
  truthful, whatever is interposed.
\<close>

definition interpose_next :: "'i class_runtime \<times> ref list \<times> ref \<times> ref \<Rightarrow> 'i class_table \<Rightarrow> 'i class_table option" where
  "interpose_next = (\<lambda>(R, walked, self, other) W.
     case MulleObjCClassInterposeBeforeClass R walked self other W of Inl e \<Rightarrow> Some W | Inr W' \<Rightarrow> Some W')"

definition may_interpose :: "ref set \<Rightarrow> 'i class_runtime \<times> ref list \<times> ref \<times> ref \<Rightarrow> 'i class_table \<Rightarrow> bool" where
  "may_interpose infras = (\<lambda>(R, walked, self, other) W.
     runtime_laws True R \<and> infras \<subseteq> set walked \<and> self \<in> infras \<and> other \<in> infras \<and> self \<noteq> other)"

interpretation interposing: live_invariant interpose_next "may_interpose infras"
    "\<lambda>W. classes_ok infras W \<and> caches_truthful infras pick W"
proof unfold_locales
  fix W W' :: "'a class_table" and call
  assume "classes_ok infras W \<and> caches_truthful infras pick W" and "may_interpose infras call W"
    and "interpose_next call W = Some W'"
  then show "classes_ok infras W' \<and> caches_truthful infras pick W'"
    using interposed_ok interposed_caches
    by (cases call) (fastforce simp: interpose_next_def may_interpose_def split: sum.splits)
qed (auto simp: interpose_next_def split: sum.splits)

lemma interposings_keep_searches:
  assumes "classes_ok infras W" and "caches_truthful infras pick W"
    and "legal_run interpose_next (may_interpose infras) calls W"
  obtains W' where "run interpose_next calls W = Some W'"
    and "\<And>c sel. c \<in> all_classes infras W' \<Longrightarrow>
      \<exists>xs. lineage (super_of W') c = Some xs \<and> message_method pick W' c sel = pick xs sel"
proof -
  obtain W' where W': "run interpose_next calls W = Some W'" "classes_ok infras W'" "caches_truthful infras pick W'"
    using interposing.run_returns [of infras W pick calls] assms by blast
  then show ?thesis
    using that lineage_exists message_searches by metis
qed

section \<open>Properties\<close>

text \<open>
  C10. When a class is interposed between a class and its superclass, every class below gets it and its metaclass
  among its superclasses, just behind the class and its metaclass, and no class gets anything else; every
  message finds what a search along these superclasses finds, whatever was in the caches before; and the
  classes stay well-formed, so that more classes can be interposed.
\<close>
theorem interposing_redirects_messages:
  assumes "classes_ok infras W" and "caches_truthful infras pick W" and "runtime_laws True R" and "infras \<subseteq> set walked"
    and "self \<in> infras" and "other \<in> infras" and "self \<noteq> other"
    and "MulleObjCClassInterposeBeforeClass R walked self other W = Inr W'"
    and "c \<in> all_classes infras W" and "lineage (super_of W) c = Some xs"
  shows "lineage (super_of W') c = Some (wedge other self (meta_of W other) (meta_of W self) xs)
    \<and> message_method pick W' c sel = pick (wedge other self (meta_of W other) (meta_of W self) xs) sel
    \<and> classes_ok infras W' \<and> caches_truthful infras pick W'"
proof -
  note lineage = interposed_lineage [OF assms(1,5-8,10)]
  have c: "c \<in> all_classes infras W'"
    using assms(9) interposed(4) [OF assms(1,5,6,8)] by (simp add: all_classes_def)
  show ?thesis
    using lineage interposed_ok [OF assms(1,5-8)] interposed_caches [OF assms(1-8)]
      message_searches [OF interposed_caches [OF assms(1-8)] c lineage] by simp
qed

text \<open>
  Three classes, 1 the root and 2 and 3 below it, with the metaclasses 11, 12 and 13; 1 and 3 have the method,
  and the cache of 2 holds the one of 1.
\<close>

definition three_classes :: "ref class_table" where
  "three_classes = \<lparr>super_of = (\<lambda>c. if c = 2 \<or> c = 3 then 1 else if c = 12 \<or> c = 13 then 11 else if c = 11 then 1 else 0),
     superid_of = (\<lambda>c. if c \<in> {2, 3, 11, 12, 13} then 1 else 0),
     id_of = (\<lambda>c. if c > 10 then ucast c - 10 else ucast c), meta_of = (\<lambda>c. c + 10), ivars_in = (\<lambda>c. c = 2),
     cached = (\<lambda>c sel. if c = 2 \<and> sel = 7 then Some 1 else None)\<rparr>"

definition lineage_runtime :: "'i class_runtime" where
  "lineage_runtime = \<lparr>subclass_test = (\<lambda>up c d. case lineage up c of None \<Rightarrow> False | Some xs \<Rightarrow> d \<in> set xs),
     invalidate_caches = (\<lambda>c ca. ca(c := Map.empty))\<rparr>"

definition first_of_two :: "ref list \<Rightarrow> SEL \<Rightarrow> ref option" where
  "first_of_two xs sel = find (\<lambda>x. x = 1 \<or> x = 3) xs"

lemma lineage_runtime_laws: "runtime_laws True lineage_runtime"
  by (auto simp: runtime_laws_def lineage_runtime_def)

lemma three_lineages:
  "lineage (super_of three_classes) 1 = Some [1]" "lineage (super_of three_classes) 2 = Some [2, 1]"
  "lineage (super_of three_classes) 3 = Some [3, 1]" "lineage (super_of three_classes) 11 = Some [11, 1]"
  "lineage (super_of three_classes) 12 = Some [12, 11, 1]" "lineage (super_of three_classes) 13 = Some [13, 11, 1]"
  by (simp_all add: three_classes_def)

lemma three_classes_ok: "classes_ok {1, 2, 3} three_classes"
  by (simp add: classes_ok_def three_lineages) (simp add: three_classes_def inj_on_def)

lemma three_classes_truthful: "caches_truthful {1, 2, 3} first_of_two three_classes"
  by (simp add: caches_truthful_def all_classes_def three_lineages first_of_two_def) (simp add: three_classes_def three_lineages [unfolded three_classes_def, simplified] )

theorem interposing_redirects_messages_witness:
  "message_method first_of_two three_classes 2 7 = Some 1 \<and>
    (\<exists>W'. MulleObjCClassInterposeBeforeClass lineage_runtime [1, 2, 3] 3 2 three_classes = Inr W' \<and>
       lineage (super_of W') 2 = Some [2, 3, 1] \<and> message_method first_of_two W' 2 7 = Some 3)"
proof -
  obtain W' where W': "MulleObjCClassInterposeBeforeClass lineage_runtime [1, 2, 3] 3 2 three_classes = Inr W'"
    by (simp add: MulleObjCClassInterposeBeforeClass_def three_classes_def Let_def)
  have "2 \<in> all_classes {1, 2, 3} three_classes"
    by (simp add: all_classes_def)
  moreover have "wedge 2 3 (meta_of three_classes 2) (meta_of three_classes 3) [2, 1] = [2, 3, 1]"
    by (simp add: three_classes_def)
  moreover have "message_method first_of_two three_classes 2 7 = Some 1"
    by (simp add: message_method_def three_classes_def)
  ultimately show ?thesis
    using interposing_redirects_messages [OF three_classes_ok three_classes_truthful lineage_runtime_laws _ _ _ _ W',
        of 2 "[2, 1]" 7] W' three_lineages(2)
    by (simp add: first_of_two_def del: lineage_Cons)
qed

text \<open>
  C39. The ids of the superclasses are not set like the superclasses: the metaclass of the subclass keeps the id that it had, and
  the interposed class gets the id of its own metaclass instead, which is the id that it has itself, so that it
  names itself as its superclass.
\<close>
theorem interposed_class_names_itself:
  assumes "classes_ok infras W" and "self \<in> infras" and "other \<in> infras" and "self \<noteq> other"
    and "id_of W (meta_of W self) = id_of W self"
    and "MulleObjCClassInterposeBeforeClass R walked self other W = Inr W'"
  shows "superid_of W' other = id_of W' (super_of W' other) \<and> superid_of W' self = id_of W' self
    \<and> superid_of W' (meta_of W' other) = superid_of W (meta_of W other)"
proof -
  note i = interposed [OF assms(1-3,6)]
  have "meta_of W other \<noteq> other" "meta_of W other \<noteq> self"
    using classes_okD(3) [OF assms(1,3)] assms(2,3) by auto
  then show ?thesis
    using assms(4,5) by (simp add: i(3-6))
qed

theorem interposed_class_names_itself_witness:
  "\<exists>W'. MulleObjCClassInterposeBeforeClass lineage_runtime [1, 2, 3] 3 2 three_classes = Inr W' \<and>
     superid_of W' 3 = 3 \<and> super_of W' 3 = 1 \<and> id_of W' 1 = 1"
proof -
  obtain W' where W': "MulleObjCClassInterposeBeforeClass lineage_runtime [1, 2, 3] 3 2 three_classes = Inr W'"
    by (simp add: MulleObjCClassInterposeBeforeClass_def three_classes_def Let_def)
  note i = interposed [OF three_classes_ok _ _ W']
  have "id_of three_classes (meta_of three_classes 3) = id_of three_classes 3" "super_of W' 3 = 1" "id_of W' = id_of three_classes"
    using i(3,5) by (simp_all add: three_classes_def)
  then show ?thesis
    using interposed_class_names_itself [OF three_classes_ok _ _ _ _ W'] W' by (simp add: three_classes_def)
qed

text \<open>
  Nothing keeps a class from being interposed before itself; then it is its own superclass, and a search for a
  method that it does not have never ends.
\<close>

lemma interposed_before_itself:
  assumes "classes_ok infras W" and "self \<in> infras"
    and "MulleObjCClassInterposeBeforeClass R walked self self W = Inr W'"
  shows "lineage (super_of W') self = None"
proof -
  have self: "super_of W' self = self" "self \<noteq> 0"
    using interposed(3) [OF assms(1,2,2,3)] classes_okD [OF assms(1,2,2)] by auto
  then have "lineage (super_of W') self = map_option (Cons self) (lineage (super_of W') self)"
    using lineage_step [of self "super_of W'"] by simp
  then show ?thesis
    by (cases "lineage (super_of W') self") auto
qed

text \<open>When nothing is done, and when which exception is raised.\<close>

lemma interposing_outcome:
  "MulleObjCClassInterposeBeforeClass R walked self other W = Inl e \<longleftrightarrow>
     self \<noteq> 0 \<and> other \<noteq> 0 \<and>
     e = (if super_of W other = 0 then Is_a_root other
          else if super_of W other \<noteq> super_of W self then Different_superclass other
          else Has_instance_variables self) \<and>
     (super_of W other = 0 \<or> super_of W other \<noteq> super_of W self \<or> ivars_in W self)"
  by (auto simp: MulleObjCClassInterposeBeforeClass_def Let_def)

end
