(* ===== verification/Instances.thy ===== *)
theory Instances
  imports Standard
begin

text \<open>
  Making instances of \<open>NSObject\<close> (\<open>src/class/NSObject.m\<close>): \<open>+instance\<close>, which allocates, initializes and
  autoreleases with the inlined calls of theory \<open>Standard\<close>, and the placeholder that \<open>+instantiate\<close> returns, which does the
  same with the \<open>init\<close> message that it is sent; and equality and hash of objects by address.

  Which placeholder of a class \<open>+instantiate\<close> returns when several threads ask at once is the step system of theory
  \<open>Singletons\<close>: it looks, makes one, tries to install it, gives it back and starts again when it was too late.

  \<open>init_call\<close> is what happens when an object is sent the message that the placeholder got, with its parameter.
\<close>

section \<open>Sequences of messages\<close>

definition then_do ::
    "inconsistency + ref \<times> 's \<Rightarrow> (ref \<Rightarrow> 's \<Rightarrow> inconsistency + ref \<times> 's) \<Rightarrow> inconsistency + ref \<times> 's" where
  "then_do r f = (case r of Inl e \<Rightarrow> Inl e | Inr (obj, s) \<Rightarrow> f obj s)"

lemma then_do_simps [simp]:
  "then_do (Inl e) f = Inl e" "then_do (Inr (obj, s)) f = f obj s"
  by (simp_all add: then_do_def)

lemma then_do_cong:
  assumes "\<And>obj s. r = Inr (obj, s) \<Longrightarrow> f obj s = g obj s"
  shows "then_do r f = then_do r g"
  using assms by (auto simp: then_do_def split: sum.splits)

section \<open>Instances\<close>

definition class_of :: "'s standard \<Rightarrow> ref \<Rightarrow> 's \<Rightarrow> ref" where
  "class_of A obj s = (if obj = 0 then 0 else isa_of (mem A) s obj)"

definition NSObject_instance :: "'s standard \<Rightarrow> ref \<Rightarrow> 's \<Rightarrow> inconsistency + ref \<times> 's" where
  "NSObject_instance A self s =
     (let msk = GetStandardImplementationMask A self s in
      then_do (ClassCallAllocInline A self msk s)
        (\<lambda>obj s. let cls = class_of A obj s;
                      msk = (if cls \<noteq> self then GetStandardImplementationMask A cls s else msk)
                  in then_do (InstanceCallInitInline A obj msk s)
                       (\<lambda>obj s. InstanceCallAutoreleaseInline A obj msk s)))"

definition NSObject_object :: "'s standard \<Rightarrow> ref \<Rightarrow> 's \<Rightarrow> inconsistency + ref \<times> 's" where
  "NSObject_object A self s = NSObject_instance A self s"

text \<open>The placeholder holds the class whose instances it makes.  The result of \<open>-autorelease\<close> is not used.\<close>

definition placeholder_forward ::
    "'s standard \<Rightarrow> (ref \<Rightarrow> 's \<Rightarrow> inconsistency + ref \<times> 's) \<Rightarrow> ref \<Rightarrow> 's \<Rightarrow> inconsistency + ref \<times> 's" where
  "placeholder_forward A init_call cls s =
     then_do (message A cls M_alloc s)
       (\<lambda>obj s. then_do (init_call obj s)
          (\<lambda>obj s. then_do (message A obj M_autorelease s) (\<lambda>_ s. Inr (obj, s))))"

text \<open>The reference: three messages.\<close>

definition alloc_init_autorelease :: "'s standard \<Rightarrow> ref \<Rightarrow> 's \<Rightarrow> inconsistency + ref \<times> 's" where
  "alloc_init_autorelease A cls s =
     then_do (message A cls M_alloc s)
       (\<lambda>obj s. then_do (message A obj M_init s) (\<lambda>obj s. message A obj M_autorelease s))"

text \<open>
  Whether a class answers a message of a family in the standard way.  A message takes no standard implementation away
  from a class: while the instance is made, no class gets a method of these families that it did not have.
  \<open>-autorelease\<close> returns the object.  The last condition is for an \<open>-init\<close> that answers another object: when the
  class of the first one autoreleases in the standard way, that of the other does, too.
\<close>

definition has_standard :: "'s standard \<Rightarrow> standard_message \<Rightarrow> ref \<Rightarrow> 's \<Rightarrow> bool" where
  "has_standard A m cls s \<longleftrightarrow> GetStandardImplementationMask A cls s AND family_bit A m \<noteq> 0"

definition masks_kept :: "'s standard \<Rightarrow> bool" where
  "masks_kept A \<longleftrightarrow> (\<forall>x k s y s' m cls. message A x k s = Inr (y, s') \<longrightarrow> has_standard A m cls s \<longrightarrow> has_standard A m cls s')"

definition autorelease_returns_self :: "'s standard \<Rightarrow> bool" where
  "autorelease_returns_self A \<longleftrightarrow>
     (\<forall>obj s obj' s'. message A obj M_autorelease s = Inr (obj', s') \<longrightarrow> obj' = obj)"

definition inits_keep_autorelease :: "'s standard \<Rightarrow> bool" where
  "inits_keep_autorelease A \<longleftrightarrow>
     (\<forall>obj s obj' s'. message A obj M_init s = Inr (obj', s') \<longrightarrow> obj' \<noteq> 0 \<longrightarrow>
        has_standard A M_autorelease (class_of A obj s) s \<longrightarrow> has_standard A M_autorelease (class_of A obj' s') s')"

lemma mask_lawsD:
  assumes "\<And>cls. cls \<noteq> 0 \<Longrightarrow> mask_laws A cls"
  shows "has_standard A M_alloc cls s \<Longrightarrow> message A cls M_alloc s = Inr (StandardAlloc A cls s)"
    and "obj \<noteq> 0 \<Longrightarrow> has_standard A M_init (class_of A obj s) s \<Longrightarrow> message A obj M_init s = Inr (StandardInit obj s)"
    and "obj \<noteq> 0 \<Longrightarrow> has_standard A M_autorelease (class_of A obj s) s \<Longrightarrow>
      message A obj M_autorelease s = StandardAutorelease A obj s"
  using assms [of cls] assms [of "class_of A obj s"]
  by (auto simp: mask_laws_def has_standard_def GetStandardImplementationMask_def class_of_def split: if_splits)

lemma not_of_nil: "\<not> has_standard A m 0 s"
  by (simp add: has_standard_def GetStandardImplementationMask_def)

text \<open>The mask that \<open>+instance\<close> uses for the allocated object is that of its class, read before or after \<open>+alloc\<close>.\<close>

definition read_in :: "'s standard \<Rightarrow> ref \<Rightarrow> ref \<Rightarrow> 's \<Rightarrow> 's \<Rightarrow> 's" where
  "read_in A cls obj s s1 = (if class_of A obj s1 \<noteq> cls then s1 else s)"

text \<open>
  \<open>+instance\<close>, step by step: \<open>alloc\<close> and \<open>init\<close> are what the messages do; the autorelease is the standard one
  when the class of the allocated object has that, and the message otherwise.
\<close>

definition instance_steps :: "'s standard \<Rightarrow> ref \<Rightarrow> 's \<Rightarrow> inconsistency + ref \<times> 's" where
  "instance_steps A cls s =
     then_do (message A cls M_alloc s)
       (\<lambda>obj s1. then_do (message A obj M_init s1)
          (\<lambda>obj' s2. if obj' \<noteq> 0 \<and> has_standard A M_autorelease (class_of A obj s1) (read_in A cls obj s s1)
                     then StandardAutorelease A obj' s2 else message A obj' M_autorelease s2))"

lemma instance_is_steps:
  assumes "\<And>cls. cls \<noteq> 0 \<Longrightarrow> mask_laws A cls" and "\<And>m s. message A 0 m s = Inr (0, s)" and "masks_kept A" and "cls \<noteq> 0"
  shows "NSObject_instance A cls s = instance_steps A cls s"
proof -
  have alloc: "ClassCallAllocInline A cls (GetStandardImplementationMask A cls s) s = message A cls M_alloc s"
    using mask_lawsD(1) [OF assms(1), of cls s] by (simp add: ClassCallAllocInline_def has_standard_def)
  have "then_do (InstanceCallInitInline A obj (GetStandardImplementationMask A (class_of A obj s1) r) s1)
        (\<lambda>obj' s2. InstanceCallAutoreleaseInline A obj' (GetStandardImplementationMask A (class_of A obj s1) r) s2)
      = then_do (message A obj M_init s1)
        (\<lambda>obj' s2. if obj' \<noteq> 0 \<and> has_standard A M_autorelease (class_of A obj s1) r
                   then StandardAutorelease A obj' s2 else message A obj' M_autorelease s2)"
    if "r = s1 \<or> message A cls M_alloc s = Inr (obj, s1) \<and> r = s" for obj s1 r
  proof -
    have "has_standard A M_init (class_of A obj s1) r \<Longrightarrow> has_standard A M_init (class_of A obj s1) s1"
      using that assms(3) unfolding masks_kept_def by blast
    then have "InstanceCallInitInline A obj (GetStandardImplementationMask A (class_of A obj s1) r) s1 = message A obj M_init s1"
      using mask_lawsD(2) [OF assms(1), of obj s1] assms(2)
      by (auto simp: InstanceCallInitInline_def has_standard_def)
    then show ?thesis
      using assms(2) by (auto simp: InstanceCallAutoreleaseInline_def has_standard_def intro!: then_do_cong)
  qed
  note rest = this
  have mask: "(if class_of A obj s1 \<noteq> cls then GetStandardImplementationMask A (class_of A obj s1) s1
      else GetStandardImplementationMask A cls s) = GetStandardImplementationMask A (class_of A obj s1) (read_in A cls obj s s1)" for obj s1
    by (simp add: read_in_def)
  show ?thesis
    unfolding NSObject_instance_def instance_steps_def Let_def mask alloc
    by (rule then_do_cong, rule rest) (simp add: read_in_def)
qed

text \<open>
  C22. However an instance is made, the outcome is the same, exceptions included.  The placeholder that \<open>+instantiate\<close>
  returns always does for an \<open>init\<close> what the messages \<open>alloc\<close>, \<open>init\<close> and \<open>autorelease\<close> do.  \<open>+instance\<close> does the
  same, unless \<open>-init\<close> answers an object of a class that does not autorelease in the standard way, while the class of
  the object that was allocated does: in that case the method of the other class does not run
  (\<open>substituted_autorelease\<close>), as \<open>instance_steps\<close> says for all cases.  No class may get methods of these families while
  the instance is made, and \<open>-autorelease\<close> must return the object.
\<close>
theorem instance_is_messages:
  assumes "\<And>cls. cls \<noteq> 0 \<Longrightarrow> mask_laws A cls" and "\<And>m s. message A 0 m s = Inr (0, s)"
    and "masks_kept A" and "autorelease_returns_self A" and "cls \<noteq> 0"
  shows "placeholder_forward A (\<lambda>obj s. message A obj M_init s) cls s = alloc_init_autorelease A cls s
    \<and> NSObject_instance A cls s = instance_steps A cls s
    \<and> (inits_keep_autorelease A \<longrightarrow> NSObject_instance A cls s = alloc_init_autorelease A cls s)"
proof -
  have "then_do (message A obj M_autorelease s') (\<lambda>_ s. Inr (obj, s)) = message A obj M_autorelease s'" for obj s'
  proof (cases "message A obj M_autorelease s'")
    case (Inr r)
    then show ?thesis
      using assms(4) unfolding autorelease_returns_self_def by (cases r) (metis then_do_simps(2))
  qed simp
  then have forward: "placeholder_forward A (\<lambda>obj s. message A obj M_init s) cls s = alloc_init_autorelease A cls s"
    by (simp add: placeholder_forward_def alloc_init_autorelease_def)
  have "instance_steps A cls s = alloc_init_autorelease A cls s" if keep: "inits_keep_autorelease A"
    unfolding instance_steps_def alloc_init_autorelease_def
  proof (rule then_do_cong, rule then_do_cong)
    fix obj s1 obj' s2
    assume alloc: "message A cls M_alloc s = Inr (obj, s1)" and init: "message A obj M_init s1 = Inr (obj', s2)"
    have "has_standard A M_autorelease (class_of A obj s1) s \<Longrightarrow> has_standard A M_autorelease (class_of A obj s1) s1"
      using alloc assms(3) unfolding masks_kept_def by blast
    then have "has_standard A M_autorelease (class_of A obj s1) (read_in A cls obj s s1) \<Longrightarrow>
        has_standard A M_autorelease (class_of A obj s1) s1"
      by (simp add: read_in_def split: if_splits)
    then have "obj' \<noteq> 0 \<Longrightarrow> has_standard A M_autorelease (class_of A obj s1) (read_in A cls obj s s1) \<Longrightarrow>
        has_standard A M_autorelease (class_of A obj' s2) s2"
      using keep init unfolding inits_keep_autorelease_def by blast
    then show "(if obj' \<noteq> 0 \<and> has_standard A M_autorelease (class_of A obj s1) (read_in A cls obj s s1)
        then StandardAutorelease A obj' s2 else message A obj' M_autorelease s2) = message A obj' M_autorelease s2"
      using mask_lawsD(3) [OF assms(1), of obj' s2] by auto
  qed
  then show ?thesis
    using forward instance_is_steps [OF assms(1,2,3,5)] by simp
qed

lemma plain_mask_laws: "cls \<noteq> 0 \<Longrightarrow> mask_laws plain cls"
  by (auto simp: mask_laws_def plain_def StandardAlloc_def StandardInit_def family_bit_def
      StandardAutorelease_def CheckAutoreleaseRelease_def)

theorem instance_is_messages_witness:
  "NSObject_instance plain 5 (8, 2, \<lambda>_. (5, 2), [])
     = placeholder_forward plain (\<lambda>obj s. message plain obj M_init s) 5 (8, 2, \<lambda>_. (5, 2), [])"
proof -
  let ?s = "(8, 2, \<lambda>_. (5, 2), []) :: tiny"
  have nil: "message plain 0 m s = Inr (0, s)" for m s
    by (simp add: plain_def)
  have kept: "masks_kept plain" "autorelease_returns_self plain"
    by (auto simp: masks_kept_def has_standard_def GetStandardImplementationMask_def autorelease_returns_self_def plain_def
        split: if_splits)
  have inits: "inits_keep_autorelease plain"
    by (auto simp: inits_keep_autorelease_def has_standard_def GetStandardImplementationMask_def plain_def class_of_def
        split: if_splits)
  have all: "placeholder_forward plain (\<lambda>obj s. message plain obj M_init s) 5 ?s = alloc_init_autorelease plain 5 ?s
      \<and> NSObject_instance plain 5 ?s = instance_steps plain 5 ?s
      \<and> (inits_keep_autorelease plain \<longrightarrow> NSObject_instance plain 5 ?s = alloc_init_autorelease plain 5 ?s)"
    by (rule instance_is_messages) (simp_all add: nil kept plain_mask_laws)
  have "NSObject_instance plain 5 ?s = alloc_init_autorelease plain 5 ?s"
    by (rule all [THEN conjunct2, THEN conjunct2, THEN mp, OF inits])
  also have "\<dots> = placeholder_forward plain (\<lambda>obj s. message plain obj M_init s) 5 ?s"
    by (rule all [THEN conjunct1, symmetric])
  finally show ?thesis .
qed

text \<open>
  When \<open>-init\<close> answers an object of another class, \<open>+instance\<close> still uses the mask of the object that was
  allocated: an \<open>-autorelease\<close> that the other class has for itself does not run.
\<close>

definition substituting :: "tiny standard" where
  "substituting = plain\<lparr>pool_autorelease := (\<lambda>obj (n, a, objs, freed). (n, a, objs, (obj, 0) # freed)),
     standardimpmask := (\<lambda>s cls. 8),
     message := (\<lambda>obj m s. if obj = 0 then Inr (0, s)
        else case m of M_alloc \<Rightarrow> Inr (24, s) | M_init \<Rightarrow> Inr (32, s)
          | M_autorelease \<Rightarrow> Inr (obj, if obj = 32 then s else case s of (n, a, objs, freed) \<Rightarrow> (n, a, objs, (obj, 0) # freed)))\<rparr>"

lemma substituted_autorelease:
  "alloc_init_autorelease substituting 5 (8, 2, (\<lambda>_. (5, 2)), []) = Inr (32, 8, 2, (\<lambda>_. (5, 2)), [])"
  "NSObject_instance substituting 5 (8, 2, (\<lambda>_. (5, 2)), []) = Inr (32, 8, 2, (\<lambda>_. (5, 2)), [(32, 0)])"
  by (simp_all add: alloc_init_autorelease_def NSObject_instance_def substituting_def plain_def tiny_memory_def class_of_def
      GetStandardImplementationMask_def ClassCallAllocInline_def InstanceCallInitInline_def
      InstanceCallAutoreleaseInline_def StandardAutorelease_def CheckAutoreleaseRelease_def family_bit_def Let_def)

section \<open>Equality and hash\<close>

text \<open>On the modelled platform a pointer has 64 bits.\<close>

definition shift_factor :: nat where
  "shift_factor = (if sizeof_pointer = 4 then 4 else 5)"

definition max_factor :: nat where
  "max_factor = sizeof_pointer * 8"

definition rotate_uintptr :: "NSUInteger \<Rightarrow> NSUInteger" where
  "rotate_uintptr x = drop_bit shift_factor x OR push_bit (max_factor - shift_factor) x"

definition NSObject_isEqual :: "ref \<Rightarrow> ref \<Rightarrow> bool" where
  "NSObject_isEqual self other \<longleftrightarrow> self = other"

definition NSObject_hash :: "ref \<Rightarrow> NSUInteger" where
  "NSObject_hash self = rotate_uintptr self"

lemma bit_hash: "n < 64 \<Longrightarrow> bit (NSObject_hash a) n = bit a ((n + 5) mod 64)"
  by (auto simp: NSObject_hash_def rotate_uintptr_def shift_factor_def max_factor_def sizeof_pointer_def
      bit_simps mod_if le_mod_geq ac_simps dest: bit_imp_le_length)

text \<open>
  Objects are equal exactly when their hashes are, and the hash of an object whose address is a multiple of 32 is the
  number of its 32 byte block.
\<close>

lemma hash_tells_equality: "NSObject_hash a = NSObject_hash b \<longleftrightarrow> NSObject_isEqual a b"
proof
  assume *: "NSObject_hash a = NSObject_hash b"
  have "bit a n = bit b n" if "n < 64" for n
  proof -
    have "bit (NSObject_hash a) ((n + 59) mod 64) = bit (NSObject_hash b) ((n + 59) mod 64)"
      using * by simp
    moreover have "((n + 59) mod 64 + 5) mod 64 = n"
      using that by (simp add: mod_simps)
    ultimately show ?thesis
      using bit_hash [of "(n + 59) mod 64" a] bit_hash [of "(n + 59) mod 64" b] by simp
  qed
  then show "NSObject_isEqual a b"
    unfolding NSObject_isEqual_def by (intro bit_word_eqI) simp
qed (simp add: NSObject_isEqual_def)

lemma hash_of_aligned:
  assumes "32 dvd unat a"
  shows "unat (NSObject_hash a) = unat a div 32"
proof -
  obtain m where m: "a = of_nat (32 * m)"
    using assms by (metis dvdE of_nat_unat ucast_id)
  have "push_bit 59 a = of_nat (m * 2 ^ 64)"
    by (simp add: push_bit_eq_mult m)
  also have "\<dots> = 0"
    unfolding word_of_nat_eq_0_iff by simp
  finally show ?thesis
    by (simp add: NSObject_hash_def rotate_uintptr_def shift_factor_def max_factor_def sizeof_pointer_def
        drop_bit_eq_div unat_div_distrib)
qed

end
