(* ===== verification/Forwarding.thy ===== *)
theory Forwarding
  imports InvocationProps
begin

text \<open>
  Forwarding a message that an object has no method for (\<open>src/class/NSObject.m\<close>, \<open>forward:\<close>): to another
  object, or as an invocation, which is made of the parameter of the message
  (\<open>src/class/NSInvocation.m\<close>, \<open>NSInvocationCreateWithMetaABIFrame\<close>) and whose return value goes back to the caller.

  The parameter of a message is a pointer sized value, \<open>param\<close>, and, when it is the address of a parameter block,
  the bytes of that block, \<open>blk\<close>.  What subclasses override is a parameter of the definitions.
\<close>

section \<open>The parameter in an invocation\<close>

definition sizeof_SEL :: nat where
  "sizeof_SEL = 4"

definition write_within :: "invocation \<Rightarrow> nat \<Rightarrow> byte list \<Rightarrow> invocation effect" where
  "write_within self p bs =
     (if p + length bs \<le> length (istorage self) then Ret (self\<lparr>istorage := write_at (istorage self) p bs\<rparr>) else Wild)"

text \<open>
  How much of the block is copied: what the caller says, otherwise what the signature does; reading behind the
  end of the block is \<open>Wild\<close>.
\<close>

definition frame_size :: "sig_api \<Rightarrow> signature \<Rightarrow> nat \<Rightarrow> nat" where
  "frame_size A sig frame_length =
     (if frame_length \<noteq> 0 then frame_length
      else let info = infos sig ! (unat (scount sig) - 1)
           in sizeof_union A (invocation_offset info + natural_size info) - (sizeof_pointer + sizeof_SEL))"

definition frame_bytes :: "sig_api \<Rightarrow> signature \<Rightarrow> NSUInteger \<Rightarrow> byte list \<Rightarrow> nat \<Rightarrow> byte list effect" where
  "frame_bytes A sig param blk frame_length =
     (let callType = metaabi_calltype A (sbits sig);
          n = (if callType = 2 then sizeof_pointer else frame_size A sig frame_length)
      in if callType \<in> {0, 1} then Ret (map (ptr_bytes param) [0..<sizeof_pointer])
         else if n \<le> length blk then Ret (take n blk) else Wild)"

definition NSMethodSignatureSetMetaABIFrame ::
    "sig_api \<Rightarrow> signature \<Rightarrow> NSUInteger \<Rightarrow> byte list \<Rightarrow> nat \<Rightarrow> invocation \<Rightarrow> invocation effect" where
  "NSMethodSignatureSetMetaABIFrame A sig param blk frame_length self =
     (if metaabi_calltype A (sbits sig) \<in> {0, 1, 2, 8, 9, 10}
      then bind_effect (fourth_info sig)
        (\<lambda>info. bind_effect (frame_bytes A sig param blk frame_length) (write_within self (invocation_offset info)))
      else Ret self)"

text \<open>\<open>None\<close> is nil, for a signature with a variable number of arguments.\<close>

definition NSInvocationCreateWithMetaABIFrame ::
    "sig_api \<Rightarrow> 'f fifo_ops \<Rightarrow> signature \<Rightarrow> NSUInteger \<Rightarrow> uint32 \<Rightarrow> NSUInteger \<Rightarrow> byte list \<Rightarrow> nat \<Rightarrow> oid \<Rightarrow> 'f inv_state
       \<Rightarrow> (invocation option \<times> 'f inv_state) effect" where
  "NSInvocationCreateWithMetaABIFrame A F sig target sel param blk imp fresh s =
     (case invocationWithMethodSignature F True (Some sig) fresh s of
        (None, s) \<Rightarrow> Ret (None, s)
      | (Some a, s) \<Rightarrow>
          (case in_use s a of
             None \<Rightarrow> Wild
           | Some invocation \<Rightarrow>
               bind_effect (lift_exn (setTarget invocation target)) (\<lambda>invocation.
               bind_effect (lift_exn (setSelector invocation sel)) (\<lambda>invocation.
               bind_effect (if param \<noteq> 0 then NSMethodSignatureSetMetaABIFrame A sig param blk 0 invocation else Ret invocation)
                 (\<lambda>invocation. let invocation = invocation\<lparr>implementation := imp\<rparr>
                                in Ret (Some invocation, s\<lparr>in_use := (in_use s)(a \<mapsto> invocation)\<rparr>))))))"

section \<open>Forwarding\<close>

text \<open>What the code asks of the object: all of it can be overridden.\<close>

record forwarder =
  target_for :: "uint32 \<Rightarrow> NSUInteger"
  signature_for :: "uint32 \<Rightarrow> signature option"
  forwardInvocation :: "invocation \<Rightarrow> invocation effect"

text \<open>
  How a message ends: it comes back with a value and the block of the caller, or there is no method, or the method
  is variadic, or an exception is raised; \<open>Bad_access\<close> is an access to memory that is not there.
\<close>

datatype forwarded = Came_back NSUInteger "byte list" | Not_recognized uint32 | Not_variadic uint32 | Raised exn | Bad_access

definition methodMetaABIReturnType :: "sig_api \<Rightarrow> signature \<Rightarrow> nat" where
  "methodMetaABIReturnType A sig = metaabi_calltype A (sbits sig) mod 4"

text \<open>\<open>junk\<close> is what the local variable for the returned pointer holds before it is written.\<close>

definition forward_returns :: "sig_api \<Rightarrow> signature \<Rightarrow> NSUInteger \<Rightarrow> NSUInteger \<Rightarrow> byte list \<Rightarrow> invocation \<Rightarrow> forwarded" where
  "forward_returns A sig junk param blk invocation =
     (let rtype = methodMetaABIReturnType A sig in
      if rtype = 1 then Came_back 0 blk
      else (case getReturnValue invocation of
              Inl e \<Rightarrow> Raised e
            | Inr bs \<Rightarrow>
                if rtype = 0
                then (if length bs \<le> sizeof_pointer
                      then Came_back (ptr_of (write_at (map (ptr_bytes junk) [0..<sizeof_pointer]) 0 bs)) blk
                      else Bad_access)
                else if length bs \<le> length blk then Came_back param (write_at blk 0 bs) else Bad_access))"

definition NSObject_forward ::
    "sig_api \<Rightarrow> 'f fifo_ops \<Rightarrow> forwarder \<Rightarrow> (NSUInteger \<Rightarrow> uint32 \<Rightarrow> NSUInteger \<Rightarrow> byte list \<Rightarrow> NSUInteger \<times> byte list)
       \<Rightarrow> NSUInteger \<Rightarrow> oid \<Rightarrow> NSUInteger \<Rightarrow> uint32 \<Rightarrow> NSUInteger \<Rightarrow> byte list \<Rightarrow> 'f inv_state \<Rightarrow> forwarded" where
  "NSObject_forward A F W call junk fresh self cmd param blk s =
     (let target = target_for W cmd in
      if target \<noteq> 0 then (case call target cmd param blk of (r, blk) \<Rightarrow> Came_back r blk)
      else (case signature_for W cmd of
              None \<Rightarrow> Not_recognized cmd
            | Some sig \<Rightarrow>
                (case NSInvocationCreateWithMetaABIFrame A F sig self cmd param blk 0 fresh s of
                   Throw e \<Rightarrow> Raised e
                 | Wild \<Rightarrow> Bad_access
                 | Ret (None, s) \<Rightarrow> Not_variadic cmd
                 | Ret (Some invocation, s) \<Rightarrow>
                     (case forwardInvocation W invocation of
                        Throw e \<Rightarrow> Raised e
                      | Wild \<Rightarrow> Bad_access
                      | Ret invocation \<Rightarrow> forward_returns A sig junk param blk invocation))))"

section \<open>Methods in memory\<close>







section \<open>The invocation of a message\<close>














lemma getSelector_implementation [simp]: "getSelector (self\<lparr>implementation := imp\<rparr>) = getSelector self"
  by (simp add: getSelector_def getArgument_def value_at_def pointerAndSizeOfArgumentValue_def
      pointerAndSizeWithInfo_def is_valid_frame_range_def split: option.splits sum.splits)


section \<open>Performing the invocation\<close>





section \<open>Properties\<close>





text \<open>
  What happens otherwise: an object that names another target is not asked for a signature, without a signature the message is
  not recognized, and one with a variable number of arguments is not forwarded.
\<close>

lemma forward_elsewhere:
  "target_for W sel \<noteq> 0 \<Longrightarrow> NSObject_forward A F W call junk fresh self sel param blk s =
     Came_back (fst (call (target_for W sel) sel param blk)) (snd (call (target_for W sel) sel param blk))"
  "target_for W sel = 0 \<Longrightarrow> signature_for W sel = None \<Longrightarrow>
     NSObject_forward A F W call junk fresh self sel param blk s = Not_recognized sel"
  "target_for W sel = 0 \<Longrightarrow> signature_for W sel = Some sig \<Longrightarrow> signature_ok A sig \<Longrightarrow> isVariadic A sig \<Longrightarrow>
     NSObject_forward A F W call junk fresh self sel param blk s = Not_variadic sel"
  by (simp_all add: NSObject_forward_def split_beta NSInvocationCreateWithMetaABIFrame_def
      invocationWithMethodSignature_def mulleInvocationSize_def signature_ok_def unat_ucast_up Let_def)

end
