(* ===== verification/CopyWithAllocator.thy ===== *)
theory CopyWithAllocator
  imports Interposing
begin

text \<open>
  Copying an object into the memory of another allocator (\<open>src/protocol/NSCopyingWithAllocator.m\<close>): the instance
  variables are copied as they are, then a walk over the properties of the class and its superclasses replaces
  copied objects and strings by copies of their own, and takes them away from the source.

  What the runtime does is in the record \<open>copy_api\<close>, with what is observed of the state, which is the part that belongs to
  the source and its clone: \<open>slot\<close>, a pointer in one of the two instances by its offset; \<open>held\<close>, the balance of the
  references that are taken and given up for the two; \<open>strings\<close>, the allocator of each string that one of them holds
  and that is not freed.  What the copying of a contained object does to that object and to what hangs on it, such as
  clearing its own copied properties, is the same function on other instances and is not observed here.
\<close>

text \<open>0 is nil here: that a pointer is not nil stays written as it is.\<close>

declare neq0_conv [iff del]

section \<open>What the copying calls\<close>

record copied_property =
  dynamic_bit :: bool
  cstring_bit :: bool
  copy_bit :: bool
  autoreleaseclear_bit :: bool
  property_ivarid :: nat

record 's copy_api =
  slot :: "'s \<Rightarrow> oid \<Rightarrow> nat \<Rightarrow> oid"
  held :: "'s \<Rightarrow> oid \<Rightarrow> int"
  strings :: "'s \<Rightarrow> oid \<Rightarrow> ref option"
  ivar_offset :: "ref \<Rightarrow> nat \<Rightarrow> nat option"
  get_property_value :: "bool \<Rightarrow> oid \<Rightarrow> nat \<Rightarrow> 's \<Rightarrow> oid \<times> 's"
  clear_property_value :: "oid \<Rightarrow> nat \<Rightarrow> 's \<Rightarrow> 's"
  clear_property_cstring :: "oid \<Rightarrow> nat \<Rightarrow> 's \<Rightarrow> 's"
  write_slot :: "oid \<Rightarrow> nat \<Rightarrow> oid \<Rightarrow> 's \<Rightarrow> 's"
  strdup_in :: "ref \<Rightarrow> oid \<Rightarrow> 's \<Rightarrow> oid \<times> 's"
  copyWithAllocator :: "oid \<Rightarrow> ref \<Rightarrow> 's \<Rightarrow> oid \<times> 's"
  mulleAllocator :: "oid \<Rightarrow> 's \<Rightarrow> ref option"
  retain_object :: "oid \<Rightarrow> 's \<Rightarrow> 's"
  class_of_object :: "oid \<Rightarrow> 's \<Rightarrow> ref"
  allocate_instance :: "ref \<Rightarrow> nat \<Rightarrow> ref \<Rightarrow> 's \<Rightarrow> oid \<times> 's"
  instance_size :: "ref \<Rightarrow> nat"
  copy_memory :: "oid \<Rightarrow> oid \<Rightarrow> nat \<Rightarrow> 's \<Rightarrow> 's"
  superclass_of :: "ref \<Rightarrow> ref"
  property_lists :: "ref \<Rightarrow> copied_property list list"
  no_categories :: "ref \<Rightarrow> bool"

section \<open>One property\<close>


section \<open>All properties\<close>






section \<open>What is documented of the calls\<close>









section \<open>The walk\<close>





section \<open>Walking\<close>




definition offsets :: "'s copy_api \<Rightarrow> (copied_property \<Rightarrow> bool) \<Rightarrow> (ref \<times> copied_property) list \<Rightarrow> nat set" where
  "offsets K P ps = {off. \<exists>(c, p) \<in> set ps. P p \<and> ivar_offset K c (property_ivarid p) = Some off}"

lemma offsets_simps [simp]:
  "offsets K P [] = {}"
  "offsets K P ((c, p) # ps) =
     (if P p then (case ivar_offset K c (property_ivarid p) of None \<Rightarrow> {} | Some off \<Rightarrow> {off}) else {}) \<union> offsets K P ps"
  by (auto simp: offsets_def split: option.splits)








section \<open>Properties\<close>













declare neq0_conv [iff]

end
