(* ===== verification/ClassWalks.thy ===== *)
theory ClassWalks
  imports Handoff Interposing
begin

text \<open>
  Walks over the properties and the instance variables of a class and its superclasses
  (\<open>src/function/MulleObjCProperty.m\<close>, \<open>src/function/MulleObjCIvar.m\<close>), and clearing the properties of an object
  with them.

  A class has lists of entries, one of its own and one for each category; walking a single list belongs to the runtime: the
  callback is called for each entry until it returns something else than 0, which ends all of the walk.  That every class has
  a list of its own is asserted by the code; a class without one would have nothing to walk here.
\<close>

section \<open>Walks\<close>

record 'p class_lists =
  entry_lists :: "ref \<Rightarrow> 'p list list"
  above :: "ref \<Rightarrow> ref"
  inherits_no_categories :: "ref \<Rightarrow> bool"
  has_clearable :: "ref \<Rightarrow> bool"

fun walk_list :: "('p \<Rightarrow> 's \<Rightarrow> int \<times> 's) \<Rightarrow> 'p list \<Rightarrow> 's \<Rightarrow> int \<times> 's" where
  "walk_list f [] s = (0, s)"
| "walk_list f (p # ps) s = (case f p s of (rval, s) \<Rightarrow> if rval \<noteq> 0 then (rval, s) else walk_list f ps s)"

definition lists_to_walk :: "'p class_lists \<Rightarrow> ref \<Rightarrow> 'p list list" where
  "lists_to_walk L infra =
     (let n = (if inherits_no_categories L infra then 1 else length (entry_lists L infra))
      in rev (take n (entry_lists L infra)))"

definition walk_lists :: "'p class_lists \<Rightarrow> (ref \<Rightarrow> 'p \<Rightarrow> 's \<Rightarrow> int \<times> 's) \<Rightarrow> ref \<Rightarrow> 's \<Rightarrow> int \<times> 's" where
  "walk_lists L f infra s = walk_list (walk_list (f infra)) (lists_to_walk L infra) s"

partial_function (option) ClassWalkProperties ::
    "'p class_lists \<Rightarrow> (ref \<Rightarrow> 'p \<Rightarrow> 's \<Rightarrow> int \<times> 's) \<Rightarrow> ref \<Rightarrow> 's \<Rightarrow> (int \<times> 's) option" where
  "ClassWalkProperties L f infra s =
     (case walk_lists L f infra s of
        (rval, s) \<Rightarrow>
          if rval \<noteq> 0 then Some (rval, s)
          else let superclass = above L infra in
            if superclass \<noteq> 0 \<and> superclass \<noteq> infra then ClassWalkProperties L f superclass s else Some (0, s))"

text \<open>Classes that have nothing to clear are passed over.\<close>

partial_function (option) ClassWalkClearableProperties ::
    "'p class_lists \<Rightarrow> (ref \<Rightarrow> 'p \<Rightarrow> 's \<Rightarrow> int \<times> 's) \<Rightarrow> ref \<Rightarrow> 's \<Rightarrow> (int \<times> 's) option" where
  "ClassWalkClearableProperties L f infra s =
     (case (if has_clearable L infra then walk_lists L f infra s else (0, s)) of
        (rval, s) \<Rightarrow>
          if rval \<noteq> 0 then Some (rval, s)
          else let superclass = above L infra in
            if superclass \<noteq> 0 \<and> superclass \<noteq> infra then ClassWalkClearableProperties L f superclass s else Some (0, s))"

text \<open>Instance variables are walked in the order in which they lie in the object.\<close>

partial_function (option) ClassWalkIvars ::
    "'p class_lists \<Rightarrow> (ref \<Rightarrow> 'p \<Rightarrow> 's \<Rightarrow> int \<times> 's) \<Rightarrow> ref \<Rightarrow> 's \<Rightarrow> (int \<times> 's) option" where
  "ClassWalkIvars L f infra s =
     Option.bind
       (let superclass = above L infra in
        if superclass \<noteq> 0 \<and> superclass \<noteq> infra then ClassWalkIvars L f superclass s else Some (0, s))
       (\<lambda>(rval, s). if rval \<noteq> 0 then Some (rval, s) else Some (walk_lists L f infra s))"

declare ClassWalkProperties.simps [code]
declare ClassWalkClearableProperties.simps [code]
declare ClassWalkIvars.simps [code]

section \<open>What is walked\<close>

definition entries :: "'p class_lists \<Rightarrow> ref list \<Rightarrow> (ref \<times> 'p) list" where
  "entries L classes = concat (map (\<lambda>c. map (Pair c) (concat (lists_to_walk L c))) classes)"

lemma walk_list_append:
  "walk_list f (ps @ qs) s = (case walk_list f ps s of (r, s) \<Rightarrow> if r \<noteq> 0 then (r, s) else walk_list f qs s)"
  by (induction ps arbitrary: s) (auto split: prod.splits)

lemma walk_list_concat: "walk_list (walk_list f) ls s = walk_list f (concat ls) s"
proof (induction ls arbitrary: s)
  case (Cons l ls)
  then show ?case by (cases "walk_list f l s") (simp add: walk_list_append)
qed simp

lemma walk_list_pair: "walk_list (\<lambda>(c, p). f c p) (map (Pair c) ps) s = walk_list (f c) ps s"
  by (induction ps arbitrary: s) (auto split: prod.splits)

lemma walk_lists_entries: "walk_lists L f c s = walk_list (\<lambda>(c, p). f c p) (entries L [c]) s"
  by (simp add: walk_lists_def walk_list_concat entries_def walk_list_pair)

lemma entries_simps [simp]:
  "entries L [] = []" "entries L (xs @ ys) = entries L xs @ entries L ys"
  by (simp_all add: entries_def)

lemma entries_Cons: "entries L (c # cs) = entries L [c] @ entries L cs"
  by (simp add: entries_def)

text \<open>A class is not its own superclass when its superclasses form no circle.\<close>

lemma lineage_next:
  assumes "lineage up c = Some (c # d # cs)"
  shows "up c = d" "d \<noteq> 0" "d \<noteq> c" "lineage up d = Some (d # cs)"
proof -
  show d: "up c = d" "d \<noteq> 0" "lineage up d = Some (d # cs)" using assms by auto
  show "d \<noteq> c"
  proof
    assume "d = c"
    then have "c # d # cs = d # cs" using d(3) assms by simp
    then show False by simp
  qed
qed

lemma lineage_last: "lineage up c = Some [c] \<Longrightarrow> up c = 0"
  by simp

lemma properties_walked:
  assumes "lineage (above L) c = Some (c # cs)"
  shows "ClassWalkProperties L f c s = Some (walk_list (\<lambda>(c, p). f c p) (entries L (c # cs)) s)"
  using assms
proof (induction cs arbitrary: c s)
  case Nil
  obtain r s1 where w: "walk_lists L f c s = (r, s1)" by fastforce
  show ?case
    using lineage_last [OF Nil] by (subst ClassWalkProperties.simps) (simp add: w walk_lists_entries [symmetric])
next
  case (Cons d cs)
  note up = lineage_next [OF Cons.prems]
  obtain r s1 where w: "walk_lists L f c s = (r, s1)" by fastforce
  have "walk_list (\<lambda>(c, p). f c p) (entries L (c # d # cs)) s =
      (if r \<noteq> 0 then (r, s1) else walk_list (\<lambda>(c, p). f c p) (entries L (d # cs)) s1)"
    using w by (simp add: entries_Cons [of L c "d # cs"] walk_list_append walk_lists_entries)
  then show ?case
    using up(1-3) Cons.IH [OF up(4)] by (subst ClassWalkProperties.simps) (simp add: w)
qed

lemma walked_clearable:
  assumes "lineage (above L) c = Some (c # cs)"
  shows "ClassWalkClearableProperties L f c s =
    Some (walk_list (\<lambda>(c, p). f c p) (entries L (filter (has_clearable L) (c # cs))) s)"
  using assms
proof (induction cs arbitrary: c s)
  case Nil
  obtain r s1 where w: "walk_lists L f c s = (r, s1)" by fastforce
  show ?case
    using lineage_last [OF Nil]
    by (subst ClassWalkClearableProperties.simps) (simp add: w walk_lists_entries [symmetric])
next
  case (Cons d cs)
  note up = lineage_next [OF Cons.prems]
  obtain r s1 where w: "walk_lists L f c s = (r, s1)" by fastforce
  let ?rest = "filter (has_clearable L) (d # cs)"
  have "walk_list (\<lambda>(c, p). f c p) (entries L (c # ?rest)) s =
      (if r \<noteq> 0 then (r, s1) else walk_list (\<lambda>(c, p). f c p) (entries L ?rest) s1)"
    using w unfolding entries_Cons [of L c ?rest] walk_list_append walk_lists_entries by simp
  then show ?case
    using up(1-3) Cons.IH [OF up(4)] unfolding filter.simps(2) [of "has_clearable L" c]
    by (subst ClassWalkClearableProperties.simps) (simp add: w del: filter.simps)
qed

lemma walked_ivars:
  assumes "lineage (above L) c = Some (c # cs)"
  shows "ClassWalkIvars L f c s = Some (walk_list (\<lambda>(c, p). f c p) (entries L (rev (c # cs))) s)"
  using assms
proof (induction cs arbitrary: c s)
  case Nil
  then show ?case
    by (subst ClassWalkIvars.simps) (simp add: walk_lists_entries)
next
  case (Cons d cs)
  note up = lineage_next [OF Cons.prems]
  let ?f = "\<lambda>(c, p). f c p" and ?es = "entries L (rev (d # cs))"
  obtain r s1 where w: "walk_list ?f ?es s = (r, s1)" by fastforce
  have "walk_list ?f (entries L (rev (c # d # cs))) s = (if r \<noteq> 0 then (r, s1) else walk_lists L f c s1)"
    using w by (simp only: rev.simps(2) [of c] entries_simps walk_list_append walk_lists_entries prod.case)
  then show ?case
    using up(1-3) Cons.IH [OF up(4), of s] unfolding w by (subst ClassWalkIvars.simps) (simp del: rev.simps)
qed

section \<open>Clearing the properties of an object\<close>

text \<open>
  The callback for a mode never ends the walk.  \<open>act\<close> is what clearing does, \<open>offset_of\<close> where a class finds an
  instance variable.
\<close>

definition clear_callback :: "MulleObjCPropertyClearMode \<Rightarrow> (nat \<Rightarrow> nat) \<Rightarrow> property \<Rightarrow> clearing" where
  "clear_callback mode =
     (case mode of
        MulleObjCPropertyClearNonReadOnly \<Rightarrow> InstanceClearPropertyNoReadOnly
      | MulleObjCPropertyClearAll \<Rightarrow> InstanceClearProperty
      | MulleObjCPropertyClearOnlyReadOnly \<Rightarrow> InstanceClearPropertyOnlyReadOnly)"

definition ObjectClearProperties ::
    "property class_lists \<Rightarrow> (clearing \<Rightarrow> 's \<Rightarrow> 's) \<Rightarrow> (ref \<Rightarrow> nat \<Rightarrow> nat) \<Rightarrow> ref \<Rightarrow> MulleObjCPropertyClearMode \<Rightarrow> 's \<Rightarrow> (int \<times> 's) option" where
  "ObjectClearProperties L act offset_of infra mode s =
     ClassWalkClearableProperties L (\<lambda>cls p s. (0, act (clear_callback mode (offset_of cls) p) s)) infra s"

text \<open>A log of what was cleared.\<close>

definition logged :: "clearing \<Rightarrow> clearing list \<Rightarrow> clearing list" where
  "logged k l = (if k = Untouched then l else l @ [k])"

definition cleared :: "MulleObjCPropertyClearMode \<Rightarrow> (ref \<Rightarrow> nat \<Rightarrow> nat) \<Rightarrow> (ref \<times> property) list \<Rightarrow> clearing list" where
  "cleared mode offset_of es = filter (\<lambda>k. k \<noteq> Untouched) (map (\<lambda>(c, p). clear_callback mode (offset_of c) p) es)"

lemma walk_logs:
  "walk_list (\<lambda>(c, p) s. (0, logged (clear_callback mode (offset_of c) p) s)) es l = (0, l @ cleared mode offset_of es)"
  by (induction es arbitrary: l) (auto simp: logged_def cleared_def)

text \<open>A class whose bit is not set has no property that would be cleared.\<close>

definition bits_truthful :: "property class_lists \<Rightarrow> (ref \<Rightarrow> nat \<Rightarrow> nat) \<Rightarrow> ref list \<Rightarrow> bool" where
  "bits_truthful L offset_of classes \<longleftrightarrow>
     (\<forall>c \<in> set classes. \<not> has_clearable L c \<longrightarrow>
        (\<forall>p \<in> set (concat (lists_to_walk L c)). InstanceClearProperty (offset_of c) p = Untouched))"

lemma cleared_clearable:
  assumes "bits_truthful L offset_of classes"
  shows "cleared mode offset_of (entries L (filter (has_clearable L) classes)) = cleared mode offset_of (entries L classes)"
  using assms
proof (induction classes)
  case (Cons c cs)
  have rest: "cleared mode offset_of (entries L (filter (has_clearable L) cs)) = cleared mode offset_of (entries L cs)"
    using Cons by (simp add: bits_truthful_def)
  have split: "cleared mode offset_of (es @ fs) = cleared mode offset_of es @ cleared mode offset_of fs" for es fs
    by (simp add: cleared_def)
  have "clear_callback mode (offset_of c) p = Untouched" if "\<not> has_clearable L c" "p \<in> set (concat (lists_to_walk L c))" for p
    using Cons.prems that
    by (auto simp: bits_truthful_def clear_callback_def InstanceClearPropertyNoReadOnly_def
        InstanceClearPropertyOnlyReadOnly_def split: MulleObjCPropertyClearMode.splits)
  then have "\<not> has_clearable L c \<Longrightarrow> cleared mode offset_of (entries L [c]) = []"
    by (auto simp: cleared_def entries_def filter_empty_conv)
  then show ?case
    using rest split by (cases "has_clearable L c") (simp_all add: entries_Cons [of L c cs] entries_Cons [of L c "filter _ cs"])
qed simp

lemma clears_log:
  assumes "lineage (above L) c = Some (c # cs)" and "bits_truthful L offset_of (c # cs)"
  shows "ObjectClearProperties L logged offset_of c mode l = Some (0, l @ cleared mode offset_of (entries L (c # cs)))"
  unfolding ObjectClearProperties_def
    walked_clearable [OF assms(1), of "\<lambda>cls p s. (0, logged (clear_callback mode (offset_of cls) p) s)"]
    walk_logs cleared_clearable [OF assms(2)] ..

lemma two_modes:
  "mset (cleared MulleObjCPropertyClearNonReadOnly offset_of es) + mset (cleared MulleObjCPropertyClearOnlyReadOnly offset_of es)
     = mset (cleared MulleObjCPropertyClearAll offset_of es)"
proof (induction es)
  case Nil
  show ?case by (simp add: cleared_def)
next
  case (Cons e es)
  obtain c p where e: "e = (c, p)" by fastforce
  have cons: "cleared mode offset_of (e # es) = cleared mode offset_of [e] @ cleared mode offset_of es" for mode
    by (simp add: cleared_def)
  have "mset (cleared MulleObjCPropertyClearNonReadOnly offset_of [e]) + mset (cleared MulleObjCPropertyClearOnlyReadOnly offset_of [e])
      = mset (cleared MulleObjCPropertyClearAll offset_of [e])"
    unfolding e by (cases "readonly (bits p)") (simp_all add: cleared_def clear_callback_def
        InstanceClearPropertyNoReadOnly_def InstanceClearPropertyOnlyReadOnly_def)
  then show ?case
    using Cons by (simp add: cons ac_simps)
qed

text \<open>
  C30. An object that is finalized, which clears what can be set, and deallocated, which clears what is readonly, has every property of
  its class and all superclasses cleared exactly once that clearing all would clear, and no other; that classes are
  passed over which have nothing to clear makes no difference, and the walks end.
\<close>
theorem properties_cleared_once:
  assumes "lineage (above L) c = Some (c # cs)" and "bits_truthful L offset_of (c # cs)"
  shows "\<exists>finalized deallocated.
    ObjectClearProperties L logged offset_of c MulleObjCPropertyClearNonReadOnly [] = Some (0, finalized) \<and>
    ObjectClearProperties L logged offset_of c MulleObjCPropertyClearOnlyReadOnly finalized = Some (0, finalized @ deallocated) \<and>
    ClassWalkProperties L (\<lambda>cls p s. (0, logged (InstanceClearProperty (offset_of cls) p) s)) c [] =
      Some (0, cleared MulleObjCPropertyClearAll offset_of (entries L (c # cs))) \<and>
    mset (finalized @ deallocated) = mset (cleared MulleObjCPropertyClearAll offset_of (entries L (c # cs)))"
proof -
  have all: "ClassWalkProperties L (\<lambda>cls p s. (0, logged (InstanceClearProperty (offset_of cls) p) s)) c [] =
      Some (0, cleared MulleObjCPropertyClearAll offset_of (entries L (c # cs)))"
    using walk_logs [of MulleObjCPropertyClearAll offset_of "entries L (c # cs)" "[]"]
    unfolding properties_walked [OF assms(1), of "\<lambda>cls p s. (0, logged (InstanceClearProperty (offset_of cls) p) s)"]
    by (simp add: clear_callback_def)
  show ?thesis
    unfolding clears_log [OF assms] all by (simp add: two_modes)
qed

text \<open>A class 2 below 1, with a string and a readonly object in two lists; 1 has only a property that is never cleared.\<close>

definition clearable_demo :: "bool \<Rightarrow> bool \<Rightarrow> nat \<Rightarrow> property" where
  "clearable_demo string ro i = \<lparr>bits = \<lparr>forward = False, setterclear = False, cstring = string, autoreleaseclear = ro, readonly = ro\<rparr>,
     setter = 0, ivarid = i\<rparr>"

definition two_property_classes :: "property class_lists" where
  "two_property_classes = \<lparr>entry_lists = (\<lambda>c. if c = 2 then [[clearable_demo True False 1], [clearable_demo False True 2]]
       else [[clearable_demo False False 3]]),
     above = (\<lambda>c. if c = 2 then 1 else 0), inherits_no_categories = (\<lambda>c. False), has_clearable = (\<lambda>c. c = 2)\<rparr>"

theorem properties_cleared_once_witness:
  "\<exists>finalized deallocated.
    ObjectClearProperties two_property_classes logged (\<lambda>c i. 8 * i) 2 MulleObjCPropertyClearNonReadOnly [] = Some (0, finalized) \<and>
    ObjectClearProperties two_property_classes logged (\<lambda>c i. 8 * i) 2 MulleObjCPropertyClearOnlyReadOnly finalized = Some (0, finalized @ deallocated) \<and>
    mset (finalized @ deallocated) = {# Freed_cstring 8, Cleared_object 16 #}"
proof -
  have "lineage (above two_property_classes) 2 = Some [2, 1]"
    by (simp add: two_property_classes_def)
  moreover have "bits_truthful two_property_classes (\<lambda>c i. 8 * i) [2, 1]"
    by (simp add: bits_truthful_def two_property_classes_def lists_to_walk_def clearable_demo_def InstanceClearProperty_def)
  moreover have "cleared MulleObjCPropertyClearAll (\<lambda>c i. 8 * i) (entries two_property_classes [2, 1]) = [Cleared_object 16, Freed_cstring 8]"
    by (simp add: cleared_def entries_def two_property_classes_def lists_to_walk_def clearable_demo_def clear_callback_def InstanceClearProperty_def)
  ultimately obtain finalized deallocated where
    "ObjectClearProperties two_property_classes logged (\<lambda>c i. 8 * i) 2 MulleObjCPropertyClearNonReadOnly [] = Some (0, finalized)"
    "ObjectClearProperties two_property_classes logged (\<lambda>c i. 8 * i) 2 MulleObjCPropertyClearOnlyReadOnly finalized = Some (0, finalized @ deallocated)"
    "mset (finalized @ deallocated) = mset [Cleared_object 16, Freed_cstring 8]"
    using properties_cleared_once [of two_property_classes 2 "[1]" "\<lambda>c i. 8 * i"] by metis
  then show ?thesis
    by (intro exI [of _ finalized] exI [of _ deallocated]) (simp add: add_mset_commute)
qed

end
